(* ===== verification/Prelude.thy ===== *)
theory Prelude
  imports Main "HOL-Library.Word" "HOL-Library.Signed_Division"
begin

unbundle bit_operations_syntax

text \<open>
  Shared vocabulary of the development: the fixed-width integer aliases of
  \<open>include/n64/common/types.hpp\<close>, the byte-swap helpers, byte-order lemmas, the generic
  byte-store interface (a locale) with its two carriers (a \<open>std::vector<u8>\<close> as a
  list, a \<open>std::array<u8,N>\<close> as a function on indices), and the rewriting
  collections that the component theories fill and use.
\<close>

section \<open>Machine integers\<close>

type_synonym u8 = "8 word"
type_synonym u16 = "16 word"
type_synonym u32 = "32 word"
type_synonym u64 = "64 word"

named_theorems frame_simps \<open>what an operation leaves unchanged\<close>
named_theorems irq_simps \<open>effect of operations on the interrupt lines\<close>
named_theorems wf_intros \<open>preservation of component invariants\<close>

text \<open>A record or a predicate seen through a conditional; used in place of case splits
  on the long decoding chains.\<close>

lemma if_both: "(if b then x else x) = x"
  by simp

lemma pred_if: "(b \<Longrightarrow> P x) \<Longrightarrow> (\<not> b \<Longrightarrow> P y) \<Longrightarrow> P (if b then x else y)"
  by simp

lemma pred_let: "P (f x) \<Longrightarrow> P (let y = x in f y)"
  by (simp add: Let_def)

section \<open>Byte swapping (\<open>types.hpp\<close>)\<close>

definition bswap16 :: "u16 \<Rightarrow> u16" where
  "bswap16 v = push_bit 8 v OR drop_bit 8 v"

definition bswap32 :: "u32 \<Rightarrow> u32" where
  "bswap32 v = push_bit 24 v OR push_bit 8 (v AND 0x0000FF00)
     OR drop_bit 8 (v AND 0x00FF0000) OR drop_bit 24 v"

definition bswap64 :: "u64 \<Rightarrow> u64" where
  "bswap64 v =
     push_bit 56 (v AND 0x00000000000000FF) OR
     push_bit 40 (v AND 0x000000000000FF00) OR
     push_bit 24 (v AND 0x0000000000FF0000) OR
     push_bit 8 (v AND 0x00000000FF000000) OR
     drop_bit 8 (v AND 0x000000FF00000000) OR
     drop_bit 24 (v AND 0x0000FF0000000000) OR
     drop_bit 40 (v AND 0x00FF000000000000) OR
     drop_bit 56 (v AND 0xFF00000000000000)"

text \<open>A \<open>memcpy\<close> into a host integer on a little-endian host, and back.\<close>

definition le16 :: "(nat \<Rightarrow> u8) \<Rightarrow> nat \<Rightarrow> u16" where
  "le16 f o1 = ucast (f o1) OR push_bit 8 (ucast (f (o1 + 1)))"

definition le32 :: "(nat \<Rightarrow> u8) \<Rightarrow> nat \<Rightarrow> u32" where
  "le32 f o1 = ucast (f o1) OR push_bit 8 (ucast (f (o1 + 1)))
     OR push_bit 16 (ucast (f (o1 + 2))) OR push_bit 24 (ucast (f (o1 + 3)))"

definition le64 :: "(nat \<Rightarrow> u8) \<Rightarrow> nat \<Rightarrow> u64" where
  "le64 f o1 = ucast (f o1) OR push_bit 8 (ucast (f (o1 + 1)))
     OR push_bit 16 (ucast (f (o1 + 2))) OR push_bit 24 (ucast (f (o1 + 3)))
     OR push_bit 32 (ucast (f (o1 + 4))) OR push_bit 40 (ucast (f (o1 + 5)))
     OR push_bit 48 (ucast (f (o1 + 6))) OR push_bit 56 (ucast (f (o1 + 7)))"

text \<open>Big-endian assembly, as the byte-wise paths of the bus spell it.\<close>

definition be16 :: "u8 \<Rightarrow> u8 \<Rightarrow> u16" where
  "be16 b0 b1 = push_bit 8 (ucast b0) OR ucast b1"

definition be32 :: "u8 \<Rightarrow> u8 \<Rightarrow> u8 \<Rightarrow> u8 \<Rightarrow> u32" where
  "be32 b0 b1 b2 b3 = push_bit 24 (ucast b0) OR push_bit 16 (ucast b1)
     OR push_bit 8 (ucast b2) OR ucast b3"

definition be64 :: "u32 \<Rightarrow> u32 \<Rightarrow> u64" where
  "be64 hi lo = push_bit 32 (ucast hi) OR ucast lo"

text \<open>Byte \<open>k\<close> (from the least significant) of a word.\<close>

definition byte_of :: "nat \<Rightarrow> 'a::len word \<Rightarrow> u8" where
  "byte_of k v = ucast (drop_bit (8 * k) v)"

section \<open>Bitwise reasoning by byte lanes\<close>

lemma masks32:
  "(0x0000FF00 :: u32) = push_bit 8 (mask 8)"
  "(0x00FF0000 :: u32) = push_bit 16 (mask 8)"
  by (simp_all add: mask_eq_exp_minus_1)

lemma masks64:
  "(0x00000000000000FF :: u64) = mask 8"
  "(0x000000000000FF00 :: u64) = push_bit 8 (mask 8)"
  "(0x0000000000FF0000 :: u64) = push_bit 16 (mask 8)"
  "(0x00000000FF000000 :: u64) = push_bit 24 (mask 8)"
  "(0x000000FF00000000 :: u64) = push_bit 32 (mask 8)"
  "(0x0000FF0000000000 :: u64) = push_bit 40 (mask 8)"
  "(0x00FF000000000000 :: u64) = push_bit 48 (mask 8)"
  "(0xFF00000000000000 :: u64) = push_bit 56 (mask 8)"
  by (simp_all add: mask_eq_exp_minus_1)

lemma bit_u8_high [simp]: "8 \<le> n \<Longrightarrow> \<not> bit (b :: u8) n"
  using bit_imp_le_length [of b n] by auto

lemma bit_u16_high [simp]: "16 \<le> n \<Longrightarrow> \<not> bit (b :: u16) n"
  using bit_imp_le_length [of b n] by auto

lemma bit_u32_high [simp]: "32 \<le> n \<Longrightarrow> \<not> bit (b :: u32) n"
  using bit_imp_le_length [of b n] by auto

lemma bit_u64_high [simp]: "64 \<le> n \<Longrightarrow> \<not> bit (b :: u64) n"
  using bit_imp_le_length [of b n] by auto

lemma byte_lanes:
  fixes n :: nat
  obtains "n < 8" | k where "n = 8 + k" "k < 8" | k where "n = 16 + k" "k < 8"
    | k where "n = 24 + k" "k < 8" | k where "n = 32 + k" "k < 8"
    | k where "n = 40 + k" "k < 8" | k where "n = 48 + k" "k < 8"
    | k where "n = 56 + k" "k < 8" | "64 \<le> n"
proof -
  consider "n < 8" | "8 \<le> n \<and> n < 16" | "16 \<le> n \<and> n < 24" | "24 \<le> n \<and> n < 32"
    | "32 \<le> n \<and> n < 40" | "40 \<le> n \<and> n < 48" | "48 \<le> n \<and> n < 56"
    | "56 \<le> n \<and> n < 64" | "64 \<le> n" by linarith
  then show thesis
    using that(1,9) that(2)[of "n-8"] that(3)[of "n-16"] that(4)[of "n-24"]
      that(5)[of "n-32"] that(6)[of "n-40"] that(7)[of "n-48"] that(8)[of "n-56"]
    by cases auto
qed

lemma word_eq_by_lanes:
  fixes v w :: "'a::len word"
  assumes "\<And>n. n < 8 \<Longrightarrow> n < LENGTH('a) \<Longrightarrow> bit v n = bit w n"
    and "\<And>k. k < 8 \<Longrightarrow> 8 + k < LENGTH('a) \<Longrightarrow> bit v (8 + k) = bit w (8 + k)"
    and "\<And>k. k < 8 \<Longrightarrow> 16 + k < LENGTH('a) \<Longrightarrow> bit v (16 + k) = bit w (16 + k)"
    and "\<And>k. k < 8 \<Longrightarrow> 24 + k < LENGTH('a) \<Longrightarrow> bit v (24 + k) = bit w (24 + k)"
    and "\<And>k. k < 8 \<Longrightarrow> 32 + k < LENGTH('a) \<Longrightarrow> bit v (32 + k) = bit w (32 + k)"
    and "\<And>k. k < 8 \<Longrightarrow> 40 + k < LENGTH('a) \<Longrightarrow> bit v (40 + k) = bit w (40 + k)"
    and "\<And>k. k < 8 \<Longrightarrow> 48 + k < LENGTH('a) \<Longrightarrow> bit v (48 + k) = bit w (48 + k)"
    and "\<And>k. k < 8 \<Longrightarrow> 56 + k < LENGTH('a) \<Longrightarrow> bit v (56 + k) = bit w (56 + k)"
    and "LENGTH('a) \<le> 64"
  shows "v = w"
proof (rule bit_word_eqI)
  fix n assume n: "n < LENGTH('a)"
  show "bit v n = bit w n"
    by (rule byte_lanes [of n]) (use assms n in auto)
qed

lemma bswap16_le16: "bswap16 (le16 f i) = be16 (f i) (f (i + 1))"
  unfolding bswap16_def le16_def be16_def
  by (rule word_eq_by_lanes) (simp_all add: bit_simps)

lemma bswap32_le32: "bswap32 (le32 f i) = be32 (f i) (f (i + 1)) (f (i + 2)) (f (i + 3))"
  unfolding bswap32_def le32_def be32_def masks32
  by (rule word_eq_by_lanes) (simp_all add: bit_simps)

lemma bswap64_le64: "bswap64 (le64 f i)
   = be64 (be32 (f i) (f (i + 1)) (f (i + 2)) (f (i + 3)))
          (be32 (f (i + 4)) (f (i + 5)) (f (i + 6)) (f (i + 7)))"
  unfolding bswap64_def le64_def be32_def be64_def masks64
  by (rule word_eq_by_lanes) (simp_all add: bit_simps)

lemma bswap16_invol [simp]: "bswap16 (bswap16 v) = v"
  unfolding bswap16_def by (rule word_eq_by_lanes) (simp_all add: bit_simps)

lemma bswap32_invol [simp]: "bswap32 (bswap32 v) = v"
  unfolding bswap32_def masks32 by (rule word_eq_by_lanes) (simp_all add: bit_simps)

lemma bswap64_invol [simp]: "bswap64 (bswap64 v) = v"
  unfolding bswap64_def masks64 by (rule word_eq_by_lanes) (simp_all add: bit_simps)

lemma byte_of_bswap32:
  "byte_of 0 (bswap32 v) = byte_of 3 v" "byte_of 1 (bswap32 v) = byte_of 2 v"
  "byte_of 2 (bswap32 v) = byte_of 1 v" "byte_of 3 (bswap32 v) = byte_of 0 v"
  unfolding bswap32_def masks32 byte_of_def
  by (rule word_eq_by_lanes; simp add: bit_simps)+

lemma byte_of_bswap16:
  "byte_of 0 (bswap16 v) = byte_of 1 v" "byte_of 1 (bswap16 v) = byte_of 0 v"
  unfolding bswap16_def byte_of_def
  by (rule word_eq_by_lanes; simp add: bit_simps)+

lemma byte_of_bswap64:
  "byte_of 0 (bswap64 v) = byte_of 7 v" "byte_of 1 (bswap64 v) = byte_of 6 v"
  "byte_of 2 (bswap64 v) = byte_of 5 v" "byte_of 3 (bswap64 v) = byte_of 4 v"
  "byte_of 4 (bswap64 v) = byte_of 3 v" "byte_of 5 (bswap64 v) = byte_of 2 v"
  "byte_of 6 (bswap64 v) = byte_of 1 v" "byte_of 7 (bswap64 v) = byte_of 0 v"
  unfolding bswap64_def masks64 byte_of_def
  by (rule word_eq_by_lanes; simp add: bit_simps)+

lemma be16_bytes [simp]: "be16 (byte_of 1 v) (byte_of 0 v) = v"
  unfolding be16_def byte_of_def
  by (rule word_eq_by_lanes) (simp_all add: bit_simps)

lemma be32_bytes [simp]: "be32 (byte_of 3 v) (byte_of 2 v) (byte_of 1 v) (byte_of 0 v) = v"
  unfolding be32_def byte_of_def
  by (rule word_eq_by_lanes) (simp_all add: bit_simps)

lemma be64_bytes: "be64 (be32 (byte_of 7 v) (byte_of 6 v) (byte_of 5 v) (byte_of 4 v))
    (be32 (byte_of 3 v) (byte_of 2 v) (byte_of 1 v) (byte_of 0 v)) = v"
  unfolding be32_def be64_def byte_of_def
  by (rule word_eq_by_lanes) (simp_all add: bit_simps)

lemma byte_of_be32:
  "byte_of 0 (be32 a b c d) = d" "byte_of 1 (be32 a b c d) = c"
  "byte_of 2 (be32 a b c d) = b" "byte_of 3 (be32 a b c d) = a"
  unfolding be32_def byte_of_def
  by (rule word_eq_by_lanes; simp add: bit_simps)+

section \<open>Masks\<close>

lemma word_mask_self:
  fixes w :: "'a::len word"
  assumes "unat w < 2 ^ n"
  shows "w AND mask n = w"
proof -
  have "unat (take_bit n w) = unat w"
    using assms by (simp add: unsigned_take_bit_eq take_bit_nat_eq_self)
  then show ?thesis by (simp only: take_bit_eq_mask word_unat_eq_iff)
qed

lemma small_bits: "(r :: u32) < 32 \<Longrightarrow> bit r n \<Longrightarrow> n < 5" "(r :: u32) < 64 \<Longrightarrow> bit r n \<Longrightarrow> n < 6"
proof -
  have *: "r AND mask k = r \<Longrightarrow> bit r n \<Longrightarrow> n < k" for k and r :: u32
    by (metis bit_and_iff bit_mask_iff)
  show "(r :: u32) < 32 \<Longrightarrow> bit r n \<Longrightarrow> n < 5"
    by (rule * [OF word_mask_self]) (simp_all add: word_less_nat_alt)
  show "(r :: u32) < 64 \<Longrightarrow> bit r n \<Longrightarrow> n < 6"
    by (rule * [OF word_mask_self]) (simp_all add: word_less_nat_alt)
qed

lemma unat_mask_less: "unat (w AND mask n) < 2 ^ n"
  by (simp add: take_bit_eq_mask [symmetric] unsigned_take_bit_eq)

text \<open>Index masks that appear as literals.\<close>

lemma mask_literals:
  "(0x1F :: u32) = mask 5" "(0x3F :: u32) = mask 6" "(0xFFF :: u32) = mask 12"
  "(0x1FFFFFFF :: u32) = mask 29" "(0x00FFFFFF :: u32) = mask 24" "(0xFFFF :: u64) = mask 16"
  "(0x1FFF :: u32) = mask 13"
  by (simp_all add: mask_eq_exp_minus_1)

lemma unat_and_31 [simp]: "unat ((w :: u32) AND 0x1F) < 32"
  using unat_mask_less [of w 5] by (simp add: mask_literals)

lemma unat_and_fff [simp]: "unat ((w :: u32) AND 0xFFF) < 4096"
  using unat_mask_less [of w 12] by (simp add: mask_literals)

section \<open>Byte stores\<close>

text \<open>A host integer written with \<open>memcpy\<close> on a little-endian host, through the byte
  writer of whichever container holds the bytes.\<close>

definition store_le16 :: "(nat \<Rightarrow> u8 \<Rightarrow> 'm \<Rightarrow> 'm) \<Rightarrow> nat \<Rightarrow> u16 \<Rightarrow> 'm \<Rightarrow> 'm" where
  "store_le16 wr i v m = wr (i + 1) (byte_of 1 v) (wr i (byte_of 0 v) m)"

definition store_le32 :: "(nat \<Rightarrow> u8 \<Rightarrow> 'm \<Rightarrow> 'm) \<Rightarrow> nat \<Rightarrow> u32 \<Rightarrow> 'm \<Rightarrow> 'm" where
  "store_le32 wr i v m = wr (i + 3) (byte_of 3 v) (wr (i + 2) (byte_of 2 v)
     (wr (i + 1) (byte_of 1 v) (wr i (byte_of 0 v) m)))"

definition store_le64 :: "(nat \<Rightarrow> u8 \<Rightarrow> 'm \<Rightarrow> 'm) \<Rightarrow> nat \<Rightarrow> u64 \<Rightarrow> 'm \<Rightarrow> 'm" where
  "store_le64 wr i v m = wr (i + 7) (byte_of 7 v) (wr (i + 6) (byte_of 6 v)
     (wr (i + 5) (byte_of 5 v) (wr (i + 4) (byte_of 4 v) (wr (i + 3) (byte_of 3 v)
     (wr (i + 2) (byte_of 2 v) (wr (i + 1) (byte_of 1 v) (wr i (byte_of 0 v) m)))))))"

text \<open>The interface every byte container offers to the load and store paths: a write is
  seen by the next read of the same index, and by no other. \<open>ok\<close> is the bounds check.\<close>

locale byte_store =
  fixes rd :: "'m \<Rightarrow> nat \<Rightarrow> u8"
    and wr :: "nat \<Rightarrow> u8 \<Rightarrow> 'm \<Rightarrow> 'm"
    and ok :: "'m \<Rightarrow> nat \<Rightarrow> bool"
  assumes rd_wr: "ok m i \<Longrightarrow> rd (wr i b m) j = (if i = j then b else rd m j)"
    and ok_wr: "ok (wr i b m) j = ok m j"
begin

lemma load_store16:
  assumes "ok m i" "ok m (i + 1)"
  shows "bswap16 (le16 (rd (store_le16 wr i (bswap16 v) m)) i) = v"
  using assms
  by (simp add: bswap16_le16 store_le16_def rd_wr ok_wr byte_of_bswap16 del: One_nat_def)

lemma load_store32:
  assumes "ok m i" "ok m (i + 1)" "ok m (i + 2)" "ok m (i + 3)"
  shows "bswap32 (le32 (rd (store_le32 wr i (bswap32 v) m)) i) = v"
  using assms
  by (simp add: bswap32_le32 store_le32_def rd_wr ok_wr byte_of_bswap32 del: One_nat_def)

lemma load_store64:
  assumes "\<forall>k<8. ok m (i + k)"
  shows "bswap64 (le64 (rd (store_le64 wr i (bswap64 v) m)) i) = v"
proof -
  have "ok m i" "ok m (i + 1)" "ok m (i + 2)" "ok m (i + 3)"
    "ok m (i + 4)" "ok m (i + 5)" "ok m (i + 6)" "ok m (i + 7)"
    using assms [rule_format, of 0] assms [rule_format, of 1] assms [rule_format, of 2]
      assms [rule_format, of 3] assms [rule_format, of 4] assms [rule_format, of 5]
      assms [rule_format, of 6] assms [rule_format, of 7] by simp_all
  then show ?thesis
    by (simp add: bswap64_le64 store_le64_def rd_wr ok_wr byte_of_bswap64 be64_bytes
        del: One_nat_def)
qed

lemma store16_bytes:
  assumes "ok m i" "ok m (i + 1)"
  shows "rd (store_le16 wr i (bswap16 v) m) j
    = (if j = i then byte_of 1 v else if j = i + 1 then byte_of 0 v else rd m j)"
  using assms by (simp add: store_le16_def rd_wr ok_wr byte_of_bswap16 del: One_nat_def)

lemma store32_bytes:
  assumes "ok m i" "ok m (i + 1)" "ok m (i + 2)" "ok m (i + 3)"
  shows "rd (store_le32 wr i (bswap32 v) m) j
    = (if j = i then byte_of 3 v else if j = i + 1 then byte_of 2 v
       else if j = i + 2 then byte_of 1 v else if j = i + 3 then byte_of 0 v else rd m j)"
  using assms by (simp add: store_le32_def rd_wr ok_wr byte_of_bswap32 del: One_nat_def)

lemma store_ok:
  "ok (store_le16 wr i v16 m) j = ok m j"
  "ok (store_le32 wr i v32 m) j = ok m j"
  "ok (store_le64 wr i v64 m) j = ok m j"
  by (simp_all add: store_le16_def store_le32_def store_le64_def ok_wr)

end


text \<open>\<open>std::vector<u8>\<close>: a list, written in range.\<close>

definition vec_wr :: "nat \<Rightarrow> u8 \<Rightarrow> u8 list \<Rightarrow> u8 list" where
  "vec_wr i b xs = xs[i := b]"

interpretation vec: byte_store nth vec_wr "\<lambda>xs i. i < length xs"
  by unfold_locales (auto simp: vec_wr_def nth_list_update)

text \<open>\<open>std::array<u8,N>\<close>: a function on indices; every index the code forms is masked
  below \<open>N\<close>.\<close>

type_synonym bytes = "nat \<Rightarrow> u8"

definition arr_wr :: "nat \<Rightarrow> u8 \<Rightarrow> bytes \<Rightarrow> bytes" where
  "arr_wr i b f = f(i := b)"

interpretation arr: byte_store "\<lambda>f. f" arr_wr "\<lambda>_ _. True"
  by unfold_locales (auto simp: arr_wr_def)

lemma length_vec_wr [simp]: "length (vec_wr i b xs) = length xs"
  by (simp add: vec_wr_def)

lemma length_store_le [simp]:
  "length (store_le16 vec_wr i v16 xs) = length xs"
  "length (store_le32 vec_wr i v32 xs) = length xs"
  "length (store_le64 vec_wr i v64 xs) = length xs"
  by (simp_all add: store_le16_def store_le32_def store_le64_def)

end
