(* ===== verification/Mips_Interface.thy ===== *)
theory Mips_Interface
  imports Prelude
begin

unbundle bit_operations_syntax

text \<open>
  \<open>MipsInterface\<close> (\<open>include/n64/bus/mi.hpp\<close>, \<open>src/bus/mi.cpp\<close>) and the interrupt-line
  constants of \<open>mmio.hpp\<close>: the aggregation of six device lines into one CPU line. The
  callback that \<open>notify\<close> makes is a result here (did the operation notify?); the machine
  theory delivers it to the CPU.
\<close>

section \<open>Device lines (\<open>mmio.hpp\<close>)\<close>

definition MiIntr_SP :: u32 where "MiIntr_SP = 1"
definition MiIntr_SI :: u32 where "MiIntr_SI = 2"
definition MiIntr_AI :: u32 where "MiIntr_AI = 4"
definition MiIntr_VI :: u32 where "MiIntr_VI = 8"
definition MiIntr_PI :: u32 where "MiIntr_PI = 16"
definition MiIntr_DP :: u32 where "MiIntr_DP = 32"

lemmas MiIntr_defs = MiIntr_SP_def MiIntr_SI_def MiIntr_AI_def MiIntr_VI_def MiIntr_PI_def
  MiIntr_DP_def

section \<open>State and operations\<close>

record mips_interface =
  mi_mode :: u32
  mi_intr :: u32
  mi_intr_mask :: u32

definition mi_reset :: "mips_interface \<Rightarrow> mips_interface" where
  "mi_reset s = s\<lparr>mi_mode := 0, mi_intr := 0, mi_intr_mask := 0\<rparr>"

definition mi_read :: "u32 \<Rightarrow> mips_interface \<Rightarrow> u32" where
  "mi_read offset s =
    (let r = offset AND 0xFC in
     if r = 0x00 then mi_mode s
     else if r = 0x04 then 0x02020102
     else if r = 0x08 then mi_intr s
     else if r = 0x0C then mi_intr_mask s
     else 0)"

text \<open>The loop over the six clear/set pairs of \<open>MI_INTR_MASK\<close>.\<close>

definition mi_mask_step :: "u32 \<Rightarrow> nat \<Rightarrow> u32 \<Rightarrow> u32" where
  "mi_mask_step value i m =
    (let m1 = (if value AND push_bit (i * 2) 1 \<noteq> 0 then m AND NOT (push_bit i 1) else m)
     in if value AND push_bit (i * 2 + 1) 1 \<noteq> 0 then m1 OR push_bit i 1 else m1)"

definition mi_mask_loop :: "u32 \<Rightarrow> u32 \<Rightarrow> u32" where
  "mi_mask_loop value m = fold (mi_mask_step value) [0..<6] m AND 0x3F"

text \<open>The second component says whether \<open>notify\<close> ran.\<close>

definition mi_write :: "u32 \<Rightarrow> u32 \<Rightarrow> mips_interface \<Rightarrow> mips_interface \<times> bool" where
  "mi_write offset value s =
    (let r = offset AND 0xFC in
     if r = 0x00 then (s\<lparr>mi_mode := value\<rparr>, False)
     else if r = 0x04 then (s, False)
     else if r = 0x08 then (s, False)
     else if r = 0x0C then (s\<lparr>mi_intr_mask := mi_mask_loop value (mi_intr_mask s)\<rparr>, True)
     else (s, False))"

definition mi_raise :: "u32 \<Rightarrow> mips_interface \<Rightarrow> mips_interface" where
  "mi_raise mask_bit s = s\<lparr>mi_intr := mi_intr s OR mask_bit\<rparr>"

definition mi_clear :: "u32 \<Rightarrow> mips_interface \<Rightarrow> mips_interface" where
  "mi_clear mask_bit s = s\<lparr>mi_intr := mi_intr s AND NOT mask_bit\<rparr>"

definition cpu_irq_level :: "mips_interface \<Rightarrow> bool" where
  "cpu_irq_level s \<longleftrightarrow> mi_intr s AND mi_intr_mask s \<noteq> 0"

section \<open>The interrupt-controller interface\<close>

text \<open>What a device may assume of the lines it drives: raising sets exactly its bits,
  clearing drops exactly its bits, and neither touches the enable mask.\<close>

locale irq_lines =
  fixes raise clear :: "u32 \<Rightarrow> 's \<Rightarrow> 's"
    and pending enable :: "'s \<Rightarrow> u32"
  assumes pending_raise: "pending (raise b s) = pending s OR b"
    and pending_clear: "pending (clear b s) = pending s AND NOT b"
    and enable_raise: "enable (raise b s) = enable s"
    and enable_clear: "enable (clear b s) = enable s"
begin

lemma pending_raise_clear: "pending (clear b (raise b s)) = pending s AND NOT b"
  by (simp add: pending_raise pending_clear bit.conj_disj_distrib2)

lemma raise_idem: "pending (raise b (raise b s)) = pending (raise b s)"
  by (simp add: pending_raise or.assoc)

lemma raise_other:
  "b AND c = 0 \<Longrightarrow> pending (raise b s) AND c = pending s AND c"
  by (simp add: pending_raise bit.conj_disj_distrib2)

lemma clear_other:
  assumes "b AND c = 0"
  shows "pending (clear b s) AND c = pending s AND c"
proof -
  have "bit b n \<Longrightarrow> \<not> bit c n" for n
    using assms by (metis bit_0_eq bit_and_iff bot_apply bot_bool_def)
  then show ?thesis
    by (auto simp: pending_clear intro!: bit_word_eqI simp: bit_simps)
qed

lemma raise_delivers:
  "b AND enable s \<noteq> 0 \<Longrightarrow> pending (raise b s) AND enable (raise b s) \<noteq> 0"
  by (metis pending_raise enable_raise bit.conj_disj_distrib2 or_eq_0_iff)

end

interpretation mi: irq_lines mi_raise mi_clear mi_intr mi_intr_mask
  by unfold_locales (simp_all add: mi_raise_def mi_clear_def)

section \<open>The mask register\<close>

lemma bit_mask_step:
  assumes "i < 6"
  shows "bit (mi_mask_step v i m) n =
    (if n = i then bit v (i * 2 + 1) \<or> (\<not> bit v (i * 2) \<and> bit m n) else bit m n)"
proof -
  have t: "(v AND push_bit k 1 \<noteq> 0) = bit v k" for k
    by (simp add: and_exp_eq_0_iff_not_bit)
  have b: "bit (NOT (push_bit i 1 :: u32)) n = (n < 32 \<and> n \<noteq> i)"
    "bit (push_bit i 1 :: u32) n = (n = i)" for n
    using assms by (auto simp: bit_simps)
  show ?thesis
    unfolding mi_mask_step_def t Let_def using assms bit_u32_high [of n m]
    by (auto simp: bit_or_iff bit_and_iff b not_le [symmetric] simp del: push_bit_of_1)
qed

lemma bit_mask_fold:
  "k \<le> 6 \<Longrightarrow> bit (fold (mi_mask_step v) [0..<k] m) n =
    (if n < k then bit v (n * 2 + 1) \<or> (\<not> bit v (n * 2) \<and> bit m n) else bit m n)"
proof (induction k)
  case 0
  then show ?case by simp
next
  case (Suc k)
  then show ?case by (auto simp: bit_mask_step less_Suc_eq)
qed

lemma bit_mask_loop:
  "bit (mi_mask_loop v m) n \<longleftrightarrow>
    n < 6 \<and> (bit v (n * 2 + 1) \<or> (\<not> bit v (n * 2) \<and> bit m n))"
proof -
  have "bit (0x3F :: u32) n = (n < 6)"
  proof -
    have "(0x3F :: u32) = mask 6" by (simp add: mask_eq_exp_minus_1)
    then show ?thesis by (simp only: bit_mask_iff) auto
  qed
  then show ?thesis
    by (auto simp: mi_mask_loop_def bit_and_iff bit_mask_fold
        simp del: upt_rec_numeral upt_Suc split: if_splits)
qed

text \<open>Writing \<open>MI_INTR_MASK\<close> enables exactly the lines whose set bit is given, keeps the
  lines for which neither bit is given, and disables the rest (set wins over clear); no bit
  above the six device lines is ever enabled, and the pending lines are untouched.\<close>

theorem mask_write_functional:
  "mi_write 0x0C v s = (s', n) \<Longrightarrow>
    n \<and> mi_intr s' = mi_intr s \<and>
    (\<forall>i. bit (mi_intr_mask s') i \<longleftrightarrow>
       i < 6 \<and> (bit v (i * 2 + 1) \<or> (\<not> bit v (i * 2) \<and> bit (mi_intr_mask s) i)))"
  by (auto simp: mi_write_def bit_mask_loop)

definition mi_example :: mips_interface where
  "mi_example = \<lparr>mi_mode = 0, mi_intr = 0, mi_intr_mask = 0x3F\<rparr>"

theorem mask_write_functional_witness:
  "(\<forall>i. bit (mi_intr_mask (fst (mi_write 0x0C 0x0A9 mi_example))) i \<longleftrightarrow>
     i < 6 \<and> (bit (0x0A9 :: u32) (i * 2 + 1) \<or> (\<not> bit (0x0A9 :: u32) (i * 2) \<and> bit (0x3F :: u32) i)))"
  using mask_write_functional [of "0x0A9" mi_example "fst (mi_write 0x0C 0x0A9 mi_example)"
      "snd (mi_write 0x0C 0x0A9 mi_example)"]
  by (simp add: mi_example_def)

end
