(* ===== verification/Scheduler.thy ===== *)
theory Scheduler
  imports Prelude "HOL-Library.Multiset" "HOL-Library.Product_Lexorder"
begin

text \<open>
  \<open>Scheduler\<close> (\<open>include/n64/core/scheduler.hpp\<close>, \<open>src/core/scheduler.cpp\<close>): the master
  clock and its queue of timed events. \<open>std::priority_queue\<close> with \<open>std::greater\<close> is the
  list of its entries in the order in which \<open>top\<close>/\<open>pop\<close> yield them, so \<open>push\<close> is an
  insertion by the comparator's key (time, then token); the queue interface is a locale and
  the list is its interpretation.
\<close>

section \<open>Events and queue entries\<close>

datatype event_kind =
    VerticalInterrupt | HorizontalBlank | AiDmaComplete | PiDmaComplete | SiDmaComplete
  | SpTaskDone | DpComplete | CountCompare | User

record scheduled_event =
  ev_when :: u64
  ev_kind :: event_kind
  ev_token :: u64

record entry =
  en_ev :: scheduled_event
  en_cancelled :: bool

text \<open>\<open>Entry::operator>\<close> compares the times, then the tokens.\<close>

definition entry_greater :: "entry \<Rightarrow> entry \<Rightarrow> bool" where
  "entry_greater e o1 =
    (if ev_when (en_ev e) \<noteq> ev_when (en_ev o1) then ev_when (en_ev e) > ev_when (en_ev o1)
     else ev_token (en_ev e) > ev_token (en_ev o1))"

definition entry_key :: "entry \<Rightarrow> u64 \<times> u64" where
  "entry_key e = (ev_when (en_ev e), ev_token (en_ev e))"

lemma entry_greater_key: "entry_greater e f \<longleftrightarrow> entry_key f < entry_key e"
  by (auto simp: entry_greater_def entry_key_def)

section \<open>The priority-queue interface\<close>

locale priority_queue =
  fixes key :: "'e \<Rightarrow> 'k::linorder"
    and push :: "'e \<Rightarrow> 'q \<Rightarrow> 'q"
    and top :: "'q \<Rightarrow> 'e"
    and pop :: "'q \<Rightarrow> 'q"
    and elems :: "'q \<Rightarrow> 'e multiset"
    and inv :: "'q \<Rightarrow> bool"
  assumes elems_push: "elems (push e q) = add_mset e (elems q)"
    and inv_push: "inv q \<Longrightarrow> inv (push e q)"
    and top_in: "inv q \<Longrightarrow> elems q \<noteq> {#} \<Longrightarrow> top q \<in># elems q"
    and top_min: "inv q \<Longrightarrow> f \<in># elems q \<Longrightarrow> key (top q) \<le> key f"
    and elems_pop: "inv q \<Longrightarrow> elems q \<noteq> {#} \<Longrightarrow> elems (pop q) = elems q - {#top q#}"
    and inv_pop: "inv q \<Longrightarrow> elems q \<noteq> {#} \<Longrightarrow> inv (pop q)"
begin

lemma elems_push_list: "elems (fold push es q) = mset es + elems q"
  by (induction es arbitrary: q) (simp_all add: elems_push)

lemma inv_push_list: "inv q \<Longrightarrow> inv (fold push es q)"
  by (induction es arbitrary: q) (simp_all add: inv_push)

lemma top_pop_le:
  assumes "inv q" "elems q \<noteq> {#}" "elems (pop q) \<noteq> {#}"
  shows "key (top q) \<le> key (top (pop q))"
proof -
  have "top (pop q) \<in># elems (pop q)"
    using assms inv_pop top_in by blast
  then have "top (pop q) \<in># elems q"
    using assms by (simp add: elems_pop in_diffD)
  then show ?thesis using assms(1) top_min by blast
qed

end

section \<open>Scheduler state and operations\<close>

record scheduler =
  sc_now :: u64
  sc_next_token :: u64
  sc_queue :: "entry list"

definition sched_new :: scheduler where
  "sched_new = \<lparr>sc_now = 0, sc_next_token = 1, sc_queue = []\<rparr>"

definition pq_push :: "entry \<Rightarrow> entry list \<Rightarrow> entry list" where
  "pq_push e q = insort_key entry_key e q"

definition sc_reset :: "scheduler \<Rightarrow> scheduler" where
  "sc_reset s = s\<lparr>sc_now := 0, sc_next_token := 1, sc_queue := []\<rparr>"

definition sc_advance :: "u64 \<Rightarrow> scheduler \<Rightarrow> scheduler" where
  "sc_advance delta s = s\<lparr>sc_now := sc_now s + delta\<rparr>"

definition schedule_at :: "u64 \<Rightarrow> event_kind \<Rightarrow> scheduler \<Rightarrow> scheduler \<times> u64" where
  "schedule_at w kind s =
    (let ev = \<lparr>ev_when = w, ev_kind = kind, ev_token = sc_next_token s\<rparr> in
     (s\<lparr>sc_next_token := sc_next_token s + 1,
        sc_queue := pq_push \<lparr>en_ev = ev, en_cancelled = False\<rparr> (sc_queue s)\<rparr>,
      ev_token ev))"

definition schedule_in :: "u64 \<Rightarrow> event_kind \<Rightarrow> scheduler \<Rightarrow> scheduler \<times> u64" where
  "schedule_in delay kind s = schedule_at (sc_now s + delay) kind s"

text \<open>\<open>cancel\<close>: pop everything, keep what does not match, push the kept entries back.\<close>

fun cancel_loop :: "u64 \<Rightarrow> entry list \<Rightarrow> entry list \<times> bool" where
  "cancel_loop token [] = ([], False)"
| "cancel_loop token (e # q) =
    (let (kept, found) = cancel_loop token q in
     if ev_token (en_ev e) = token \<and> \<not> en_cancelled e then (kept, True)
     else (e # kept, found))"

definition sc_cancel :: "u64 \<Rightarrow> scheduler \<Rightarrow> scheduler \<times> bool" where
  "sc_cancel token s =
    (if sc_queue s = [] then (s, False)
     else let (kept, found) = cancel_loop token (sc_queue s) in
       (s\<lparr>sc_queue := fold pq_push kept []\<rparr>, found))"

text \<open>\<open>dispatch_due\<close>: the handler acts on a state of its own, as the emulator's does.\<close>

fun dispatch_loop ::
  "(scheduled_event \<Rightarrow> 'h \<Rightarrow> 'h) \<Rightarrow> u64 \<Rightarrow> entry list \<Rightarrow> 'h \<Rightarrow> nat \<Rightarrow> entry list \<times> 'h \<times> nat"
where
  "dispatch_loop handler t [] h fired = ([], h, fired)"
| "dispatch_loop handler t (e # q) h fired =
    (if ev_when (en_ev e) > t then (e # q, h, fired)
     else if en_cancelled e then dispatch_loop handler t q h fired
     else dispatch_loop handler t q (handler (en_ev e) h) (fired + 1))"

definition dispatch_due ::
  "(scheduled_event \<Rightarrow> 'h \<Rightarrow> 'h) \<Rightarrow> scheduler \<Rightarrow> 'h \<Rightarrow> scheduler \<times> 'h \<times> nat" where
  "dispatch_due handler s h =
    (let (q, h', fired) = dispatch_loop handler (sc_now s) (sc_queue s) h 0 in
     (s\<lparr>sc_queue := q\<rparr>, h', fired))"

definition sc_pending :: "scheduler \<Rightarrow> nat" where
  "sc_pending s = length (sc_queue s)"

section \<open>The list is a priority queue\<close>

definition pq_sorted :: "entry list \<Rightarrow> bool" where
  "pq_sorted q \<longleftrightarrow> sorted (map entry_key q)"

lemma pq_sorted_simps [simp]:
  "pq_sorted []"
  "pq_sorted (e # q) \<longleftrightarrow> (\<forall>f\<in>set q. entry_key e \<le> entry_key f) \<and> pq_sorted q"
  by (auto simp: pq_sorted_def)

lemma set_pq_push [simp]: "set (pq_push e q) = insert e (set q)"
  by (simp add: pq_push_def set_insort_key)

lemma mset_pq_push [simp]: "mset (pq_push e q) = add_mset e (mset q)"
  by (simp add: pq_push_def)

lemma pq_sorted_push [simp]: "pq_sorted (pq_push e q) = pq_sorted q"
  by (simp add: pq_push_def pq_sorted_def sorted_insort_key)

interpretation pq: priority_queue entry_key pq_push hd tl mset pq_sorted
proof unfold_locales
  fix q :: "entry list" and f :: entry
  assume "pq_sorted q" "f \<in># mset q"
  then show "entry_key (hd q) \<le> entry_key f" by (cases q) auto
next
  fix q :: "entry list"
  assume "pq_sorted q" "mset q \<noteq> {#}"
  then show "hd q \<in># mset q" "mset (tl q) = mset q - {#hd q#}" "pq_sorted (tl q)"
    by (cases q; simp)+
qed simp_all

text \<open>The well-formed scheduler: sorted queue, no entry cancelled in place, distinct tokens,
  all of them older than the next one to hand out.\<close>

definition sched_wf :: "scheduler \<Rightarrow> bool" where
  "sched_wf s \<longleftrightarrow> pq_sorted (sc_queue s) \<and> (\<forall>e\<in>set (sc_queue s). \<not> en_cancelled e)
     \<and> distinct (map (\<lambda>e. ev_token (en_ev e)) (sc_queue s))
     \<and> (\<forall>e\<in>set (sc_queue s). ev_token (en_ev e) < sc_next_token s)"

lemma sched_wf_reset: "sched_wf (sc_reset s)"
  by (simp add: sched_wf_def sc_reset_def)

lemma distinct_tokens_push:
  "distinct (map (\<lambda>e. ev_token (en_ev e)) (pq_push x q)) \<longleftrightarrow>
    ev_token (en_ev x) \<notin> (\<lambda>e. ev_token (en_ev e)) ` set q
    \<and> distinct (map (\<lambda>e. ev_token (en_ev e)) q)"
proof -
  have "mset (map (\<lambda>e. ev_token (en_ev e)) (pq_push x q))
      = mset (map (\<lambda>e. ev_token (en_ev e)) (x # q))" by simp
  then have "distinct (map (\<lambda>e. ev_token (en_ev e)) (pq_push x q))
      = distinct (map (\<lambda>e. ev_token (en_ev e)) (x # q))"
    by (rule mset_eq_imp_distinct_iff)
  then show ?thesis by simp
qed

section \<open>Dispatch\<close>

lemma dispatch_loop_spec:
  assumes "pq_sorted q" "\<forall>e\<in>set q. \<not> en_cancelled e"
  shows "dispatch_loop handler t q h n =
    (filter (\<lambda>e. t < ev_when (en_ev e)) q,
     fold handler (map en_ev (filter (\<lambda>e. ev_when (en_ev e) \<le> t) q)) h,
     n + length (filter (\<lambda>e. ev_when (en_ev e) \<le> t) q))"
  using assms
proof (induction q arbitrary: h n)
  case Nil
  then show ?case by simp
next
  case (Cons e q)
  show ?case
  proof (cases "t < ev_when (en_ev e)")
    case True
    then have "\<forall>f\<in>set q. t < ev_when (en_ev f)"
      using Cons.prems(1) by (auto simp: entry_key_def)
    then have "filter (\<lambda>e. t < ev_when (en_ev e)) q = q"
      and "filter (\<lambda>e. ev_when (en_ev e) \<le> t) q = []"
      by (auto simp: filter_id_conv filter_empty_conv)
    then show ?thesis using True by simp
  next
    case False
    then show ?thesis using Cons by simp
  qed
qed

text \<open>C20: One call of \<open>dispatch_due\<close> on a well-formed scheduler hands the handler exactly the
  events that are due, each once, in the order of their times (ties by age), counts them, and
  leaves exactly the events of the future in the queue.\<close>

theorem dispatch_due_correct:
  assumes "sched_wf s" "dispatch_due handler s h = (s', h', fired)"
  defines "due \<equiv> filter (\<lambda>e. ev_when (en_ev e) \<le> sc_now s) (sc_queue s)"
  shows "h' = fold handler (map en_ev due) h \<and> fired = length due
    \<and> sorted (map entry_key due)
    \<and> mset (sc_queue s) = mset due + mset (sc_queue s')
    \<and> (\<forall>e\<in>set (sc_queue s'). sc_now s < ev_when (en_ev e)) \<and> sched_wf s'"
proof -
  have wf: "pq_sorted (sc_queue s)" "\<forall>e\<in>set (sc_queue s). \<not> en_cancelled e"
    using assms(1) by (auto simp: sched_wf_def)
  have q': "sc_queue s' = filter (\<lambda>e. sc_now s < ev_when (en_ev e)) (sc_queue s)"
    and r: "h' = fold handler (map en_ev due) h" "fired = length due"
    and nt: "sc_next_token s' = sc_next_token s"
    using assms(2) by (auto simp: dispatch_due_def dispatch_loop_spec [OF wf] due_def)
  have "mset (sc_queue s) = mset due + mset (sc_queue s')"
    unfolding q' due_def
    using multiset_partition [of "mset (sc_queue s)" "\<lambda>e. ev_when (en_ev e) \<le> sc_now s"]
    by (simp add: not_le)
  moreover have "sorted (map entry_key due)"
    using wf(1) by (simp add: due_def pq_sorted_def sorted_filter)
  moreover have "sched_wf s'"
    using assms(1) nt
    by (auto simp: sched_wf_def q' pq_sorted_def sorted_filter distinct_map_filter)
  ultimately show ?thesis using r by (simp add: q')
qed

section \<open>Scheduling and cancelling\<close>

text \<open>Scheduling adds exactly one event, with a token no queued event carries, and keeps the
  scheduler well formed as long as the token counter has not wrapped.\<close>

theorem schedule_at_fresh:
  assumes "sched_wf s" "sc_next_token s < sc_next_token s + 1" "schedule_at w k s = (s', t)"
  shows "sched_wf s' \<and> t \<notin> (\<lambda>e. ev_token (en_ev e)) ` set (sc_queue s)
    \<and> sc_now s' = sc_now s
    \<and> mset (sc_queue s') = add_mset
        \<lparr>en_ev = \<lparr>ev_when = w, ev_kind = k, ev_token = t\<rparr>, en_cancelled = False\<rparr> (mset (sc_queue s))"
proof -
  have fresh: "sc_next_token s \<notin> (\<lambda>e. ev_token (en_ev e)) ` set (sc_queue s)"
    using assms(1) by (auto simp: sched_wf_def)
  have "\<forall>e\<in>set (sc_queue s). ev_token (en_ev e) < sc_next_token s + 1"
    using assms(1,2) by (auto simp: sched_wf_def intro: order.strict_trans)
  then show ?thesis
    using assms fresh
    by (auto simp: schedule_at_def sched_wf_def distinct_tokens_push)
qed

lemma cancel_loop_spec:
  assumes "\<forall>e\<in>set q. \<not> en_cancelled e"
  shows "cancel_loop t q = (filter (\<lambda>e. ev_token (en_ev e) \<noteq> t) q, \<exists>e\<in>set q. ev_token (en_ev e) = t)"
  using assms by (induction q) (auto split: prod.splits)

lemma sorted_rebuild: "pq_sorted (fold pq_push es [])"
  by (rule pq.inv_push_list) simp

lemma mset_rebuild: "mset (fold pq_push es []) = mset es"
  using pq.elems_push_list [of es "[]"] by simp

text \<open>\<open>cancel\<close> removes exactly the event that carries the token, reports whether there was
  one, and keeps the rest of the queue and its order.\<close>

theorem cancel_correct:
  assumes "sched_wf s" "sc_cancel t s = (s', found)"
  shows "(found \<longleftrightarrow> t \<in> (\<lambda>e. ev_token (en_ev e)) ` set (sc_queue s))
    \<and> mset (sc_queue s') = filter_mset (\<lambda>e. ev_token (en_ev e) \<noteq> t) (mset (sc_queue s))
    \<and> sched_wf s'"
proof (cases "sc_queue s = []")
  case True
  then show ?thesis using assms by (simp add: sc_cancel_def)
next
  case False
  define kept where "kept = filter (\<lambda>e. ev_token (en_ev e) \<noteq> t) (sc_queue s)"
  have nc: "\<forall>e\<in>set (sc_queue s). \<not> en_cancelled e"
    using assms(1) by (simp add: sched_wf_def)
  have s': "s' = s\<lparr>sc_queue := fold pq_push kept []\<rparr>"
    and f: "found = (\<exists>e\<in>set (sc_queue s). ev_token (en_ev e) = t)"
    using assms(2) False by (auto simp: sc_cancel_def cancel_loop_spec [OF nc] kept_def)
  have m: "mset (fold pq_push kept []) = mset kept" by (rule mset_rebuild)
  have "mset (map (\<lambda>e. ev_token (en_ev e)) (fold pq_push kept []))
      = mset (map (\<lambda>e. ev_token (en_ev e)) kept)" using m by simp
  then have "distinct (map (\<lambda>e. ev_token (en_ev e)) (fold pq_push kept []))
      = distinct (map (\<lambda>e. ev_token (en_ev e)) kept)"
    by (rule mset_eq_imp_distinct_iff)
  moreover have "distinct (map (\<lambda>e. ev_token (en_ev e)) kept)"
    using assms(1) by (simp add: sched_wf_def kept_def distinct_map_filter)
  moreover have "set (fold pq_push kept []) = set kept"
    using m by (rule mset_eq_setD)
  ultimately have "sched_wf s'"
    using assms(1) by (auto simp: sched_wf_def s' sorted_rebuild kept_def)
  then show ?thesis using f m by (auto simp: s' kept_def)
qed

section \<open>A concrete run\<close>

definition sched0 :: scheduler where
  "sched0 = sc_reset \<lparr>sc_now = 7, sc_next_token = 9, sc_queue = []\<rparr>"

definition sched_example :: scheduler where
  "sched_example =
    (let (s1, _) = schedule_at 20 VerticalInterrupt sched0;
         (s2, _) = schedule_at 5 AiDmaComplete s1;
         (s3, _) = schedule_in 5 User s2
     in sc_advance 10 s3)"

lemma sched_example_wf: "sched_wf sched_example"
  by (simp add: sched_wf_def sched_example_def sched0_def sc_reset_def schedule_at_def
      schedule_in_def sc_advance_def pq_push_def entry_key_def pq_sorted_def)

theorem dispatch_due_correct_witness:
  "\<exists>s'. dispatch_due (\<lambda>e l. l @ [ev_kind e]) sched_example []
      = (s', [AiDmaComplete, User], 2) \<and> sched_wf s'"
proof -
  obtain s' where d: "dispatch_due (\<lambda>e l. l @ [ev_kind e]) sched_example []
      = (s', [AiDmaComplete, User], 2)"
    by (simp add: dispatch_due_def sched_example_def sched0_def sc_reset_def schedule_at_def
        schedule_in_def sc_advance_def pq_push_def entry_key_def)
  show ?thesis
    using dispatch_due_correct [OF sched_example_wf d] d by blast
qed

theorem schedule_at_fresh_witness:
  "sched_wf (fst (schedule_at 3 User sched_example))"
proof -
  have n: "sc_next_token sched_example < sc_next_token sched_example + 1"
    by (simp add: sched_example_def sched0_def sc_reset_def schedule_at_def schedule_in_def
        sc_advance_def)
  show ?thesis
    using schedule_at_fresh [OF sched_example_wf n, of 3 User
        "fst (schedule_at 3 User sched_example)" "snd (schedule_at 3 User sched_example)"]
    by simp
qed

theorem cancel_correct_witness:
  "snd (sc_cancel 2 sched_example)"
proof -
  have "2 \<in> (\<lambda>e. ev_token (en_ev e)) ` set (sc_queue sched_example)"
    by (simp add: sched_example_def sched0_def sc_reset_def schedule_at_def schedule_in_def
        sc_advance_def pq_push_def entry_key_def)
  then show ?thesis
    using cancel_correct [OF sched_example_wf, of 2 "fst (sc_cancel 2 sched_example)"
        "snd (sc_cancel 2 sched_example)"]
    by simp
qed

end
