(* ===== verification/Cart_Header.thy ===== *)
theory Cart_Header
  imports Prelude
begin

unbundle bit_operations_syntax

text \<open>
  Cartridge images: byte-order normalisation (\<open>normalize_cart_endian\<close> of
  \<open>src/bus/bus.cpp\<close>) and the header, CIC and region tables of
  \<open>include/n64/cart/header.hpp\<close> and \<open>src/cart/header.cpp\<close>. Images are byte lists.
\<close>

section \<open>Byte-order normalisation\<close>

text \<open>The swapping loops run while a whole group is left.\<close>

fun swap_pairs :: "u8 list \<Rightarrow> u8 list" where
  "swap_pairs (a # b # xs) = b # a # swap_pairs xs"
| "swap_pairs xs = xs"

fun swap_quads :: "u8 list \<Rightarrow> u8 list" where
  "swap_quads (a # b # c # d # xs) = d # c # b # a # swap_quads xs"
| "swap_quads xs = xs"

definition cart_magic :: "u8 list \<Rightarrow> u32" where
  "cart_magic data = be32 (data ! 0) (data ! 1) (data ! 2) (data ! 3)"

definition normalize_cart_endian :: "u8 list \<Rightarrow> u8 list" where
  "normalize_cart_endian data =
    (if length data < 4 then data
     else let magic = cart_magic data in
       if magic = 0x80371240 then data
       else if magic = 0x37804012 then swap_pairs data
       else if magic = 0x40123780 then swap_quads data
       else data)"

lemma length_swap_pairs [simp]: "length (swap_pairs xs) = length xs"
  by (induction xs rule: swap_pairs.induct) auto

lemma length_swap_quads [simp]: "length (swap_quads xs) = length xs"
  by (induction xs rule: swap_quads.induct) auto

lemma swap_pairs_invol [simp]: "swap_pairs (swap_pairs xs) = xs"
  by (induction xs rule: swap_pairs.induct) auto

lemma swap_quads_invol [simp]: "swap_quads (swap_quads xs) = xs"
  by (induction xs rule: swap_quads.induct) auto

lemma be32_inject: "be32 a b c d = be32 a' b' c' d' \<longleftrightarrow> a = a' \<and> b = b' \<and> c = c' \<and> d = d'"
  by (metis byte_of_be32)

lemma list4E:
  assumes "4 \<le> length xs"
  obtains a b c d ys where "xs = a # b # c # d # ys"
proof -
  obtain a x1 where "xs = a # x1" "3 \<le> length x1" using assms by (cases xs) auto
  moreover obtain b x2 where "x1 = b # x2" "2 \<le> length x2"
    using calculation(2) by (cases x1) auto
  moreover obtain c x3 where "x2 = c # x3" "1 \<le> length x3"
    using calculation(4) by (cases x2) auto
  moreover obtain d x4 where "x3 = d # x4"
    using calculation(6) by (cases x3) auto
  ultimately show thesis using that by blast
qed

lemma magic_bytes:
  "0x80371240 = be32 0x80 0x37 0x12 0x40"
  "0x37804012 = be32 0x37 0x80 0x40 0x12"
  "0x40123780 = be32 0x40 0x12 0x37 0x80"
  by (simp_all add: be32_def)

lemma cart_magic_Cons: "cart_magic (a # b # c # d # xs) = be32 a b c d"
  by (simp add: cart_magic_def numeral_2_eq_2 numeral_3_eq_3)

text \<open>The three cartridge formats are three spellings of one image: normalising the
  byte-swapped (\<open>.v64\<close>) or the word-reversed (\<open>.n64\<close>) form of a big-endian image gives
  the image back, and a big-endian image is left alone.\<close>

theorem normalize_formats:
  assumes "4 \<le> length img" "cart_magic img = 0x80371240"
  shows "normalize_cart_endian img = img
    \<and> normalize_cart_endian (swap_pairs img) = img
    \<and> normalize_cart_endian (swap_quads img) = img"
proof -
  obtain a b c d ys where img: "img = a # b # c # d # ys"
    using assms(1) by (rule list4E)
  have h: "a = 0x80" "b = 0x37" "c = 0x12" "d = 0x40"
    using assms(2) unfolding img cart_magic_Cons magic_bytes(1) be32_inject by auto
  have m: "cart_magic img = be32 0x80 0x37 0x12 0x40"
    "cart_magic (swap_pairs img) = be32 0x37 0x80 0x40 0x12"
    "cart_magic (swap_quads img) = be32 0x40 0x12 0x37 0x80"
    by (simp_all add: img h cart_magic_Cons)
  show ?thesis
    using assms(1) m by (simp add: normalize_cart_endian_def Let_def magic_bytes be32_inject)
qed

theorem normalize_formats_witness:
  "normalize_cart_endian [0x37, 0x80, 0x40, 0x12, 2, 1] = [0x80, 0x37, 0x12, 0x40, 1, 2]"
  using normalize_formats [of "[0x80, 0x37, 0x12, 0x40, 1, 2]"]
  by (simp add: cart_magic_def be32_def)

lemma length_normalize [simp]: "length (normalize_cart_endian d) = length d"
  by (simp add: normalize_cart_endian_def Let_def)

text \<open>Normalising is idempotent, whatever the image.\<close>

theorem normalize_idem:
  "normalize_cart_endian (normalize_cart_endian d) = normalize_cart_endian d"
proof (cases "length d < 4")
  case True
  then show ?thesis by (simp add: normalize_cart_endian_def)
next
  case False
  then obtain a b c e ys where d: "d = a # b # c # e # ys"
    by (metis list4E not_le)
  consider "be32 a b c e = 0x37804012" | "be32 a b c e = 0x40123780"
    | "be32 a b c e \<noteq> 0x37804012" "be32 a b c e \<noteq> 0x40123780" by blast
  then show ?thesis
  proof cases
    case 1
    then show ?thesis
      by (simp add: d normalize_cart_endian_def Let_def cart_magic_Cons magic_bytes be32_inject)
  next
    case 2
    then show ?thesis
      by (simp add: d normalize_cart_endian_def Let_def cart_magic_Cons magic_bytes be32_inject)
  next
    case 3
    then have "normalize_cart_endian d = d"
      by (simp add: d normalize_cart_endian_def Let_def cart_magic_Cons)
    then show ?thesis by simp
  qed
qed

section \<open>CRC32 (\<open>crc32_bytes\<close>)\<close>

text \<open>One iteration of the inner loop: the mask is \<open>-(crc & 1)\<close> as an unsigned word.\<close>

definition crc_bit :: "u32 \<Rightarrow> u32" where
  "crc_bit crc = (let mask = - (crc AND 1) in drop_bit 1 crc XOR (0xEDB88320 AND mask))"

definition crc_byte :: "u8 \<Rightarrow> u32 \<Rightarrow> u32" where
  "crc_byte b crc = (crc_bit ^^ 8) (crc XOR ucast b)"

definition crc32_bytes :: "u8 list \<Rightarrow> u32" where
  "crc32_bytes data = NOT (fold crc_byte data 0xFFFFFFFF)"

lemma crc_bit_eq:
  "crc_bit c = (if odd c then drop_bit 1 c XOR 0xEDB88320 else drop_bit 1 c)"
proof -
  have "c AND 1 = (if odd c then 1 else 0)"
    by (simp add: and_one_eq mod2_eq_if)
  then show ?thesis by (auto simp: crc_bit_def Let_def)
qed

text \<open>The feedback polynomial has its top bit set, so the bit shifted out can be read back
  from the result: the iteration is injective.\<close>

lemma bit_31_crc_bit: "bit (crc_bit c) 31 = odd c"
  by (simp add: crc_bit_eq bit_simps)

lemma crc_bit_inject: "crc_bit c = crc_bit d \<longleftrightarrow> c = d"
proof
  assume e: "crc_bit c = crc_bit d"
  then have o: "odd c = odd d" by (metis bit_31_crc_bit)
  with e have "drop_bit 1 c = drop_bit 1 d"
    by (auto simp: crc_bit_eq split: if_splits dest: arg_cong [where f = "\<lambda>x. x XOR 0xEDB88320"]
        simp: xor.assoc)
  then have h: "bit c (Suc n) = bit d (Suc n)" for n
    by (metis bit_drop_bit_eq comp_apply plus_1_eq_Suc)
  show "c = d"
  proof (rule bit_word_eqI)
    fix n show "bit c n = bit d n"
      using o h by (cases n) (auto simp: bit_0)
  qed
qed simp

lemma crc_bits_inject: "(crc_bit ^^ n) c = (crc_bit ^^ n) d \<longleftrightarrow> c = d"
  by (induction n) (auto simp: crc_bit_inject)

lemma xor_cancel: "(c :: u32) XOR x = d XOR x \<longleftrightarrow> c = d"
  by (metis xor.assoc xor.right_neutral xor_self_eq)

lemma crc_byte_inject: "crc_byte b c = crc_byte b d \<longleftrightarrow> c = d"
  by (simp add: crc_byte_def crc_bits_inject xor_cancel)

lemma crc_fold_inject: "fold crc_byte bs c = fold crc_byte bs d \<longleftrightarrow> c = d"
  by (induction bs arbitrary: c d) (auto simp: crc_byte_inject)

lemma ucast_ucast_id_u8: "ucast (ucast (b :: u8) :: u32) = b"
  by (rule bit_word_eqI) (simp add: bit_simps)

lemma crc_byte_differ: "b \<noteq> b' \<Longrightarrow> crc_byte b c \<noteq> crc_byte b' c"
proof
  assume n: "b \<noteq> b'" and "crc_byte b c = crc_byte b' c"
  then have "c XOR ucast b = c XOR ucast b'"
    by (simp add: crc_byte_def crc_bits_inject)
  then have "(ucast b :: u32) = ucast b'"
    by (metis xor.commute xor_cancel)
  then have "b = b'" by (metis ucast_ucast_id_u8)
  with n show False by simp
qed

text \<open>The IPL3 fingerprint separates images that differ in one byte.\<close>

theorem crc32_detects_byte_change:
  "b \<noteq> b' \<Longrightarrow> crc32_bytes (xs @ b # ys) \<noteq> crc32_bytes (xs @ b' # ys)"
  by (auto simp: crc32_bytes_def crc_fold_inject crc_byte_differ)

theorem crc32_detects_byte_change_witness:
  "crc32_bytes [1, 2, 3] \<noteq> crc32_bytes [1, 7, 3]"
  using crc32_detects_byte_change [of 2 7 "[1]" "[3]"] by simp

section \<open>CIC and region tables\<close>

datatype cic_type =
    Cic_Unknown | Cic6101 | Cic6102 | Cic6103 | Cic6105 | Cic6106 | Cic5101
  | CicX103 | CicX105 | CicX106

datatype tv_type = PAL | NTSC | MPAL

definition cic_from_ipl3_crc :: "u32 \<Rightarrow> cic_type" where
  "cic_from_ipl3_crc crc =
    (if crc = 0x6170A4A1 then Cic6101
     else if crc = 0x90BB6CB5 then Cic6102
     else if crc = 0x0B050EE0 then Cic6102
     else if crc = 0x98BC2C86 then Cic6103
     else if crc = 0xACC8580A then Cic6105
     else if crc = 0x0E018FFF then Cic6106
     else if crc = 0xA536C0F0 then Cic6106
     else if crc = 0xC2A167C6 then Cic5101
     else if crc = 0x009E9EA3 then CicX103
     else Cic_Unknown)"

fun cic_seed :: "cic_type \<Rightarrow> u8" where
  "cic_seed Cic6101 = 0x3F"
| "cic_seed Cic6102 = 0x3F"
| "cic_seed Cic6103 = 0x78"
| "cic_seed CicX103 = 0x78"
| "cic_seed Cic6105 = 0x91"
| "cic_seed CicX105 = 0x91"
| "cic_seed Cic6106 = 0x85"
| "cic_seed CicX106 = 0x85"
| "cic_seed Cic5101 = 0xAC"
| "cic_seed Cic_Unknown = 0x3F"

fun fixup_entrypoint :: "cic_type \<Rightarrow> u32 \<Rightarrow> u32" where
  "fixup_entrypoint Cic6103 pc = pc - 0x00100000"
| "fixup_entrypoint CicX103 pc = pc - 0x00100000"
| "fixup_entrypoint Cic5101 pc = pc - 0x00100000"
| "fixup_entrypoint Cic6106 pc = pc - 0x00200000"
| "fixup_entrypoint CicX106 pc = pc - 0x00200000"
| "fixup_entrypoint _ pc = pc"

text \<open>The country code is a character of the header; the cases are the character codes.\<close>

definition tv_from_country :: "u8 \<Rightarrow> tv_type" where
  "tv_from_country country =
    (let c = country in
     if c = 0x45 \<or> c = 0x4A \<or> c = 0x55 \<or> c = 0x37 then NTSC
     else if c = 0x50 \<or> c = 0x44 \<or> c = 0x46 \<or> c = 0x49 \<or> c = 0x53 \<or> c = 0x48
       \<or> c = 0x58 \<or> c = 0x59 \<or> c = 0x57 then PAL
     else if c = 0x42 \<or> c = 0x4E then MPAL
     else NTSC)"

definition ipl3_region :: "u8 list \<Rightarrow> u8 list" where
  "ipl3_region rom = take (0x1000 - 0x40) (drop 0x40 rom)"

definition detect_cic :: "u8 list \<Rightarrow> cic_type" where
  "detect_cic rom =
    (if length rom < 0x1000 then Cic6102
     else let ipl3 = ipl3_region rom; crc = crc32_bytes ipl3; known = cic_from_ipl3_crc crc in
       if known \<noteq> Cic_Unknown then known
       else let nonzero = length (filter (\<lambda>b. b \<noteq> 0) ipl3) in
         if nonzero < 64 then Cic6102 else Cic6102)"

section \<open>The header\<close>

record cart_header =
  h_pi_bsd_dom1 :: u32
  h_clock_rate :: u32
  h_pc :: u32
  h_release :: u32
  h_crc1 :: u32
  h_crc2 :: u32
  h_name :: "u8 list"
  h_media :: u8
  h_cart_id :: "u8 \<times> u8"
  h_country :: u8
  h_version :: u8
  h_cic :: cic_type
  h_tv :: tv_type
  h_entrypoint :: u32
  h_cic_seed :: u8
  h_ipl3_crc32 :: u32

definition cart_header_default :: cart_header where
  "cart_header_default =
    \<lparr>h_pi_bsd_dom1 = 0, h_clock_rate = 0, h_pc = 0, h_release = 0, h_crc1 = 0, h_crc2 = 0,
     h_name = replicate 21 0, h_media = 0, h_cart_id = (0, 0), h_country = 0, h_version = 0,
     h_cic = Cic_Unknown, h_tv = NTSC, h_entrypoint = 0, h_cic_seed = 0x3F, h_ipl3_crc32 = 0\<rparr>"

definition valid_magic :: "cart_header \<Rightarrow> bool" where
  "valid_magic h \<longleftrightarrow> h_pi_bsd_dom1 h AND 0xFF000000 = 0x80000000"

text \<open>\<open>title()\<close>: up to the first NUL of the 20 characters, then trailing blanks dropped.\<close>

fun strip_tail :: "u8 list \<Rightarrow> u8 list" where
  "strip_tail xs = rev (dropWhile (\<lambda>c. c = 0x20 \<or> c = 0) (rev xs))"

definition title :: "cart_header \<Rightarrow> u8 list" where
  "title h = strip_tail (takeWhile (\<lambda>c. c \<noteq> 0) (take 20 (h_name h)))"

definition be_u32 :: "u8 list \<Rightarrow> nat \<Rightarrow> u32" where
  "be_u32 s off =
    (if off + 4 > length s then 0
     else be32 (s ! off) (s ! (off + 1)) (s ! (off + 2)) (s ! (off + 3)))"

definition parse_cart_header :: "u8 list \<Rightarrow> cart_header" where
  "parse_cart_header rom =
    (if length rom < 0x40 then cart_header_default
     else
       let cic = detect_cic rom; pc = be_u32 rom 0x08; entry = fixup_entrypoint cic pc in
       \<lparr>h_pi_bsd_dom1 = be_u32 rom 0x00, h_clock_rate = be_u32 rom 0x04, h_pc = pc,
        h_release = be_u32 rom 0x0C, h_crc1 = be_u32 rom 0x10, h_crc2 = be_u32 rom 0x14,
        h_name = take 20 (drop 0x20 rom) @ [0],
        h_media = rom ! 0x38, h_cart_id = (rom ! 0x3C, rom ! 0x3D), h_country = rom ! 0x3E,
        h_version = rom ! 0x3F, h_cic = cic, h_tv = tv_from_country (rom ! 0x3E),
        h_entrypoint = (if entry = 0 then 0x80000400 else entry), h_cic_seed = cic_seed cic,
        h_ipl3_crc32 =
          (if length rom \<ge> 0x1000 then crc32_bytes (ipl3_region rom) else 0)\<rparr>)"

lemma detect_cic_known: "detect_cic rom \<in> {Cic6101, Cic6102, Cic6103, Cic6105, Cic6106, Cic5101, CicX103}"
  by (simp add: detect_cic_def Let_def cic_from_ipl3_crc_def)

lemma strip_tail_last: "strip_tail xs \<noteq> [] \<Longrightarrow> last (strip_tail xs) \<noteq> 0x20 \<and> last (strip_tail xs) \<noteq> 0"
proof -
  let ?P = "\<lambda>c :: u8. c = 0x20 \<or> c = 0"
  assume "strip_tail xs \<noteq> []"
  then have n: "dropWhile ?P (rev xs) \<noteq> []" by simp
  then have "\<not> ?P (hd (dropWhile ?P (rev xs)))" by (rule hd_dropWhile)
  with n show ?thesis by (simp add: last_rev)
qed

text \<open>A parsed header always carries a concrete CIC with that CIC's seed and a non-null
  entry point that is the raw program counter moved by the CIC's offset, and its title never
  ends in a blank.\<close>

theorem parse_header_correct:
  assumes "0x40 \<le> length rom" "h = parse_cart_header rom"
  shows "h_cic h \<noteq> Cic_Unknown \<and> h_cic_seed h = cic_seed (h_cic h) \<and> h_entrypoint h \<noteq> 0
    \<and> (h_entrypoint h = fixup_entrypoint (h_cic h) (h_pc h)
       \<or> h_entrypoint h = 0x80000400 \<and> fixup_entrypoint (h_cic h) (h_pc h) = 0)
    \<and> h_tv h = tv_from_country (h_country h)
    \<and> length (h_name h) = 21
    \<and> (title h \<noteq> [] \<longrightarrow> last (title h) \<noteq> 0x20)"
proof -
  have "h_cic h = detect_cic rom"
    using assms by (simp add: parse_cart_header_def Let_def)
  then have "h_cic h \<noteq> Cic_Unknown"
    using detect_cic_known [of rom] by auto
  moreover have "title h \<noteq> [] \<longrightarrow> last (title h) \<noteq> 0x20"
    using strip_tail_last by (simp add: title_def del: strip_tail.simps)
  ultimately show ?thesis
    using assms by (simp add: parse_cart_header_def Let_def)
qed

theorem parse_header_correct_witness:
  "h_cic (parse_cart_header (replicate 64 1)) \<noteq> Cic_Unknown"
  using parse_header_correct [of "replicate 64 1" "parse_cart_header (replicate 64 1)"]
  by simp

end
