(* ===== verification/Joybus.thy ===== *)
theory Joybus
  imports Prelude "HOL-Library.Monad_Syntax"
begin

unbundle bit_operations_syntax

text \<open>
  \<open>Pif\<close> (\<open>include/n64/pif/pif.hpp\<close>, \<open>src/pif/pif.cpp\<close>): the 64-byte PIF RAM, the four
  controllers and the joybus interpreter. The RAM is indexed by a cursor that the commands
  themselves move, so every access is checked here: an index outside the array, undefined
  behaviour in the C++, is the result \<open>None\<close>.
\<close>

section \<open>State\<close>

record controller_state =
  cs_buttons :: u16
  cs_stick_x :: u8
  cs_stick_y :: u8
  cs_present :: bool

record pif =
  pif_controllers :: "controller_state list"
  pif_bytes :: "u8 list"
  pif_joybus_count :: u32

definition kChannels :: nat where "kChannels = 4"
definition kControllerType :: u16 where "kControllerType = 0x0500"
definition kControllerStatus :: u8 where "kControllerStatus = 0x00"
definition kCtrlProcess :: u8 where "kCtrlProcess = 0x01"

definition default_controller :: controller_state where
  "default_controller = \<lparr>cs_buttons = 0, cs_stick_x = 0, cs_stick_y = 0, cs_present = True\<rparr>"

definition pif_new :: pif where
  "pif_new = \<lparr>pif_controllers = replicate 4 default_controller, pif_bytes = replicate 64 0,
     pif_joybus_count = 0\<rparr>"

definition pif_reset :: "pif \<Rightarrow> pif" where
  "pif_reset p = p\<lparr>pif_bytes := replicate 64 0,
     pif_controllers := default_controller # replicate 3 (default_controller\<lparr>cs_present := False\<rparr>),
     pif_joybus_count := 0\<rparr>"

definition set_button :: "u16 \<Rightarrow> bool \<Rightarrow> controller_state \<Rightarrow> controller_state" where
  "set_button b down c =
    (if down then c\<lparr>cs_buttons := cs_buttons c OR b\<rparr>
     else c\<lparr>cs_buttons := cs_buttons c AND NOT b\<rparr>)"

definition button :: "u16 \<Rightarrow> controller_state \<Rightarrow> bool" where
  "button b c \<longleftrightarrow> cs_buttons c AND b \<noteq> 0"

definition set_controller :: "nat \<Rightarrow> controller_state \<Rightarrow> pif \<Rightarrow> pif" where
  "set_controller channel state p =
    (if channel < kChannels then p\<lparr>pif_controllers := (pif_controllers p)[channel := state]\<rparr> else p)"

definition controller :: "nat \<Rightarrow> pif \<Rightarrow> controller_state" where
  "controller channel p =
    (if channel < kChannels then pif_controllers p ! channel
     else \<lparr>cs_buttons = 0, cs_stick_x = 0, cs_stick_y = 0, cs_present = False\<rparr>)"

definition process_requested :: "pif \<Rightarrow> bool" where
  "process_requested p \<longleftrightarrow> pif_bytes p ! 0x3F AND kCtrlProcess \<noteq> 0"

section \<open>Checked access\<close>

definition rd_ram :: "u8 list \<Rightarrow> nat \<Rightarrow> u8 option" where
  "rd_ram ram i = (if i < length ram then Some (ram ! i) else None)"

definition wr_ram :: "u8 list \<Rightarrow> nat \<Rightarrow> u8 \<Rightarrow> u8 list option" where
  "wr_ram ram i b = (if i < length ram then Some (ram[i := b]) else None)"

text \<open>A run of consecutive writes, and \<open>std::fill\<close>.\<close>

definition put_bytes :: "u8 list \<Rightarrow> nat \<Rightarrow> u8 list \<Rightarrow> u8 list option" where
  "put_bytes ram i bs =
    (if i + length bs \<le> length ram
     then Some (take i ram @ bs @ drop (i + length bs) ram) else None)"

section \<open>The joybus interpreter\<close>

text \<open>\<open>while (cursor < 0x3F && ram[cursor] == 0xFF) ++cursor;\<close>\<close>

function skip_padding :: "u8 list \<Rightarrow> nat \<Rightarrow> nat option" where
  "skip_padding ram cursor =
    (if cursor < 0x3F then
       (case rd_ram ram cursor of None \<Rightarrow> None
        | Some b \<Rightarrow> if b = 0xFF then skip_padding ram (cursor + 1) else Some cursor)
     else Some cursor)"
  by pat_completeness auto
termination by (relation "measure (\<lambda>(ram, cursor). 0x3F - cursor)") auto

declare skip_padding.simps [simp del]

text \<open>The bytes the addressed controller answers with; \<open>None\<close> leaves the area as it is (a
  response too short for the command).\<close>

definition joybus_response :: "u8 \<Rightarrow> controller_state \<Rightarrow> nat \<Rightarrow> u8 list option" where
  "joybus_response cmd pad rlen =
    (if cmd = 0x00 \<or> cmd = 0xFF then
       (if rlen \<ge> 3 then
          Some ([ucast (kControllerType AND 0xFF), ucast (drop_bit 8 kControllerType AND 0xFF),
            kControllerStatus] @ replicate (rlen - 3) 0)
        else None)
     else if cmd = 0x01 then
       (if rlen \<ge> 4 then
          Some ([ucast (drop_bit 8 (cs_buttons pad) AND 0xFF), ucast (cs_buttons pad AND 0xFF),
            cs_stick_x pad, cs_stick_y pad] @ replicate (rlen - 4) 0)
        else None)
     else Some (replicate rlen 0))"

definition process_channel :: "nat \<Rightarrow> nat \<Rightarrow> pif \<Rightarrow> (bool \<times> nat \<times> pif) option" where
  "process_channel channel cursor0 p = do {
    let ram = pif_bytes p;
    cursor \<leftarrow> skip_padding ram cursor0;
    if cursor \<ge> 0x3F then Some (False, cursor, p) else do {
    tlen \<leftarrow> rd_ram ram cursor;
    if tlen = 0xFE then Some (False, cursor, p)
    else if tlen = 0x00 then do {
      skip2 \<leftarrow> (if cursor + 1 < 0x3F then map_option (\<lambda>b. b = 0x00) (rd_ram ram (cursor + 1))
               else Some False);
      Some (True, if skip2 then cursor + 2 else cursor + 1, p) }
    else if tlen = 0xFD then Some (True, cursor + 1, p)
    else if cursor + 1 \<ge> 0x3F then Some (False, cursor, p)
    else do {
      rlen \<leftarrow> rd_ram ram (cursor + 1);
      let rlen_bytes = rlen AND 0x3F;
      let tlen_bytes = tlen AND 0x3F;
      let tx_off = cursor + 2;
      let rx_off = tx_off + unat tlen_bytes;
      if rx_off + unat rlen_bytes > 0x3F then Some (False, cursor, p)
      else do {
        cmd \<leftarrow> (if tlen_bytes > 0 then rd_ram ram tx_off else Some 0x00);
        pad \<leftarrow> (if channel < length (pif_controllers p)
               then Some (pif_controllers p ! channel) else None);
        ram1 \<leftarrow> wr_ram ram (cursor + 1) rlen_bytes;
        let cursor' = rx_off + unat rlen_bytes;
        if \<not> cs_present pad then do {
          ram2 \<leftarrow> wr_ram ram1 (cursor + 1) (rlen_bytes OR 0x80);
          ram3 \<leftarrow> put_bytes ram2 rx_off (replicate (unat rlen_bytes) 0);
          Some (True, cursor', p\<lparr>pif_bytes := ram3\<rparr>) }
        else (case joybus_response cmd pad (unat rlen_bytes) of
            None \<Rightarrow> Some (True, cursor', p\<lparr>pif_bytes := ram1\<rparr>)
          | Some bs \<Rightarrow> do {
              ram2 \<leftarrow> put_bytes ram1 rx_off bs;
              Some (True, cursor', p\<lparr>pif_bytes := ram2\<rparr>) }) } } } }"

text \<open>The loop over the channels; \<open>n\<close> channels are left.\<close>

fun joybus_loop :: "nat \<Rightarrow> nat \<Rightarrow> nat \<Rightarrow> nat \<Rightarrow> pif \<Rightarrow> (nat \<times> pif) option" where
  "joybus_loop 0 ch cursor answered p = Some (answered, p)"
| "joybus_loop (Suc n) ch cursor answered p = do {
    (more, cursor', p') \<leftarrow> process_channel ch cursor p;
    if \<not> more then Some (answered, p')
    else do {
      let answered' = (if cursor' \<noteq> cursor then answered + 1 else answered);
      if cursor' \<ge> 0x3F then Some (answered', p')
      else joybus_loop n (ch + 1) cursor' answered' p' } }"

definition process_joybus :: "pif \<Rightarrow> (nat \<times> pif) option" where
  "process_joybus p = do {
    (answered, p1) \<leftarrow> joybus_loop kChannels 0 0 0 p;
    last \<leftarrow> rd_ram (pif_bytes p1) 0x3F;
    ram \<leftarrow> wr_ram (pif_bytes p1) 0x3F (last AND NOT kCtrlProcess);
    Some (answered, p1\<lparr>pif_bytes := ram, pif_joybus_count := pif_joybus_count p1 + 1\<rparr>) }"

section \<open>Invariant\<close>

text \<open>What \<open>std::array\<close> fixes.\<close>

definition pif_wf :: "pif \<Rightarrow> bool" where
  "pif_wf p \<longleftrightarrow> length (pif_bytes p) = 64 \<and> length (pif_controllers p) = 4"

lemma pif_wf_reset: "pif_wf (pif_reset p)"
  by (simp add: pif_wf_def pif_reset_def)

lemma pif_wf_set_controller [wf_intros]: "pif_wf p \<Longrightarrow> pif_wf (set_controller ch c p)"
  by (simp add: pif_wf_def set_controller_def)

lemma skip_padding_total:
  assumes "length ram = 64"
  shows "\<exists>c. skip_padding ram cursor = Some c \<and> cursor \<le> c"
  using assms
proof (induction ram cursor rule: skip_padding.induct)
  case (1 ram cursor)
  show ?case
  proof (cases "cursor < 0x3F \<and> ram ! cursor = 0xFF")
    case True
    then have "\<exists>c. skip_padding ram (cursor + 1) = Some c \<and> cursor + 1 \<le> c"
      using "1.IH" "1.prems" by (simp add: rd_ram_def)
    with True "1.prems" show ?thesis
      by (subst skip_padding.simps) (auto simp: rd_ram_def)
  next
    case False
    with "1.prems" show ?thesis
      by (subst skip_padding.simps) (auto simp: rd_ram_def)
  qed
qed

lemma joybus_response_length:
  "joybus_response cmd pad n = Some bs \<Longrightarrow> length bs = n"
  by (auto simp: joybus_response_def split: if_splits)

text \<open>One channel: no access leaves the array, the cursor moves forward, byte \<open>0x3F\<close> and the
  controllers are not touched.\<close>

lemma process_channel_safe:
  assumes "pif_wf p" "ch < 4"
  shows "\<exists>b c p'. process_channel ch cursor p = Some (b, c, p') \<and> pif_wf p'
    \<and> cursor \<le> c \<and> pif_controllers p' = pif_controllers p
    \<and> pif_joybus_count p' = pif_joybus_count p
    \<and> pif_bytes p' ! 0x3F = pif_bytes p ! 0x3F"
proof -
  have len: "length (pif_bytes p) = 64" "length (pif_controllers p) = 4"
    using assms(1) by (simp_all add: pif_wf_def)
  obtain c where c: "skip_padding (pif_bytes p) cursor = Some c" "cursor \<le> c"
    using skip_padding_total [OF len(1)] by blast
  show ?thesis
    using c(2) assms(2)
    by (auto simp: process_channel_def c(1) rd_ram_def wr_ram_def put_bytes_def len pif_wf_def
        Let_def nth_append joybus_response_length split: option.splits)
qed

lemma joybus_loop_safe:
  assumes "pif_wf p" "ch + n \<le> 4"
  shows "\<exists>a p'. joybus_loop n ch cursor answered p = Some (a, p') \<and> pif_wf p'
    \<and> a \<le> answered + n \<and> pif_controllers p' = pif_controllers p
    \<and> pif_joybus_count p' = pif_joybus_count p
    \<and> pif_bytes p' ! 0x3F = pif_bytes p ! 0x3F"
  using assms
proof (induction n arbitrary: ch cursor answered p)
  case 0
  then show ?case by simp
next
  case (Suc n)
  obtain b c p1 where p1: "process_channel ch cursor p = Some (b, c, p1)" "pif_wf p1"
    "pif_controllers p1 = pif_controllers p" "pif_joybus_count p1 = pif_joybus_count p"
    "pif_bytes p1 ! 0x3F = pif_bytes p ! 0x3F"
    using process_channel_safe [of p ch cursor] Suc.prems by auto
  define answered' where "answered' = (if c \<noteq> cursor then answered + 1 else answered)"
  have a: "answered' \<le> answered + 1" by (simp add: answered'_def)
  obtain a p2 where p2: "joybus_loop n (ch + 1) c answered' p1 = Some (a, p2)" "pif_wf p2"
    "a \<le> answered' + n" "pif_controllers p2 = pif_controllers p1"
    "pif_joybus_count p2 = pif_joybus_count p1" "pif_bytes p2 ! 0x3F = pif_bytes p1 ! 0x3F"
    using Suc.IH [of p1 "ch + 1" c answered'] p1(2) Suc.prems(2) by auto
  show ?case
  proof (cases "b \<and> c < 0x3F")
    case True
    then have "joybus_loop (Suc n) ch cursor answered p = Some (a, p2)"
      using p2(1) by (simp add: p1(1) answered'_def Let_def)
    then show ?thesis using p1 p2 a by auto
  next
    case False
    then have "joybus_loop (Suc n) ch cursor answered p
        = Some (if b then answered' else answered, p1)"
      by (auto simp: p1(1) answered'_def Let_def)
    then show ?thesis using p1 a by auto
  qed
qed

lemma process_joybus_total:
  assumes "pif_wf p"
  shows "\<exists>a p'. process_joybus p = Some (a, p') \<and> pif_wf p' \<and> a \<le> 4
    \<and> pif_controllers p' = pif_controllers p
    \<and> pif_bytes p' ! 0x3F = pif_bytes p ! 0x3F AND NOT kCtrlProcess
    \<and> \<not> process_requested p' \<and> pif_joybus_count p' = pif_joybus_count p + 1"
proof -
  obtain a p1 where p1: "joybus_loop kChannels 0 0 0 p = Some (a, p1)" "pif_wf p1" "a \<le> 4"
    "pif_controllers p1 = pif_controllers p" "pif_joybus_count p1 = pif_joybus_count p"
    "pif_bytes p1 ! 0x3F = pif_bytes p ! 0x3F"
    using joybus_loop_safe [OF assms, of 0 kChannels 0 0] by (auto simp: kChannels_def)
  have len: "length (pif_bytes p1) = 64" using p1(2) by (simp add: pif_wf_def)
  have z: "(x AND NOT kCtrlProcess) AND kCtrlProcess = 0" for x
    by (simp add: and.assoc)
  show ?thesis
    using p1 len z
    by (auto simp: process_joybus_def rd_ram_def wr_ram_def pif_wf_def process_requested_def)
qed

text \<open>C32: Whatever 64 bytes the CPU left in PIF RAM, the joybus interpreter ends without an
  access outside its arrays, answers at most four channels, leaves the controllers alone,
  clears the request bit of byte \<open>0x3F\<close> and no other bit of it, and counts the run.\<close>

theorem process_joybus_safe:
  assumes "pif_wf p"
  shows "\<exists>a p'. process_joybus p = Some (a, p') \<and> pif_wf p' \<and> a \<le> 4
    \<and> pif_controllers p' = pif_controllers p
    \<and> pif_bytes p' ! 0x3F = pif_bytes p ! 0x3F AND NOT kCtrlProcess
    \<and> \<not> process_requested p' \<and> pif_joybus_count p' = pif_joybus_count p + 1"
  by (rule process_joybus_total [OF assms])

theorem process_joybus_safe_witness:
  "\<exists>a p'. process_joybus (pif_reset pif_new) = Some (a, p') \<and> a \<le> 4"
  using process_joybus_safe [OF pif_wf_reset [of pif_new]] by auto

section \<open>The controller poll\<close>

lemma skip_padding_stop: "cursor < 0x3F \<Longrightarrow> cursor < length ram \<Longrightarrow> ram ! cursor \<noteq> 0xFF
  \<Longrightarrow> skip_padding ram cursor = Some cursor"
  by (subst skip_padding.simps) (simp add: rd_ram_def)

lemma nat_minus_seven [simp]: "7 \<le> i \<Longrightarrow> Suc (Suc (Suc (Suc (Suc (Suc (Suc (i - 7))))))) = (i::nat)"
  by simp

text \<open>A poll block (one byte sent, four expected, command 1) on a channel with a controller
  is answered with its buttons, high byte first, and its stick, right behind the command; the
  cursor lands behind the answer and every other byte of the RAM is as it was.\<close>

theorem controller_poll_answer:
  assumes "pif_wf p" "ch < 4" "c + 7 \<le> 0x3F"
    and "pif_bytes p ! c = 1" "pif_bytes p ! (c + 1) = 4" "pif_bytes p ! (c + 2) = 0x01"
    and "pif_controllers p ! ch = pad" "cs_present pad"
  shows "\<exists>p'. process_channel ch c p = Some (True, c + 7, p')
    \<and> be16 (pif_bytes p' ! (c + 3)) (pif_bytes p' ! (c + 4)) = cs_buttons pad
    \<and> pif_bytes p' ! (c + 5) = cs_stick_x pad \<and> pif_bytes p' ! (c + 6) = cs_stick_y pad
    \<and> (\<forall>i<64. i < c + 3 \<or> c + 7 \<le> i \<longrightarrow> pif_bytes p' ! i = pif_bytes p ! i)"
proof -
  have len: "length (pif_bytes p) = 64" "length (pif_controllers p) = 4"
    using assms(1) by (simp_all add: pif_wf_def)
  have s: "skip_padding (pif_bytes p) c = Some c"
    using assms(3,4) len by (intro skip_padding_stop) auto
  have four: "unat ((4 :: u8) AND 0x3F) = 4" "unat ((1 :: u8) AND 0x3F) = 1" by simp_all
  have resp: "joybus_response 1 pad 4 = Some [ucast (drop_bit 8 (cs_buttons pad) AND 0xFF),
      ucast (cs_buttons pad AND 0xFF), cs_stick_x pad, cs_stick_y pad]"
    by (simp add: joybus_response_def)
  have m: "(0xFF :: u16) = mask 8" by (simp add: mask_eq_exp_minus_1)
  have b: "be16 (ucast (drop_bit 8 w AND 0xFF)) (ucast (w AND 0xFF)) = w" for w :: u16
    unfolding be16_def m by (rule word_eq_by_lanes) (simp_all add: bit_simps)
  show ?thesis
    using assms(2,3)
    by (auto simp: process_channel_def s rd_ram_def wr_ram_def put_bytes_def len Let_def
        assms(4-8) resp nth_append nth_list_update b assms(5) [simplified] assms(6) [simplified])
qed

definition poll_pif :: pif where
  "poll_pif = \<lparr>pif_controllers = \<lparr>cs_buttons = 0x8010, cs_stick_x = 0x20, cs_stick_y = 0xE0,
      cs_present = True\<rparr> # replicate 3 default_controller,
    pif_bytes = [1, 4, 1] @ replicate 61 0, pif_joybus_count = 0\<rparr>"

theorem controller_poll_answer_witness:
  "\<exists>p'. process_channel 0 0 poll_pif = Some (True, 7, p')
    \<and> be16 (pif_bytes p' ! 3) (pif_bytes p' ! 4) = 0x8010"
  using controller_poll_answer [of poll_pif 0 0 "pif_controllers poll_pif ! 0"]
  by (auto simp: poll_pif_def pif_wf_def)

end
