(* ===== verification/Cpu_Core.thy ===== *)
theory Cpu_Core
  imports Prelude
begin

unbundle bit_operations_syntax

text \<open>
  The state of the VR4300 interpreter and the parts of it that touch no memory
  (\<open>include/n64/cpu/cpu.hpp\<close>, \<open>src/cpu/cpu.cpp\<close>): instruction fields, reset, COP0
  writes, address translation, exceptions, interrupts, the TLB instructions and ERET.
  A register file is a function on the (masked) register number, the TLB a list of 32
  entries. An operation that flushes the block cache says so in its result; the machine
  theory clears the cache.
\<close>

section \<open>Constants\<close>

abbreviation (input) Cop0_Index :: u32 where "Cop0_Index \<equiv> 0"
abbreviation (input) Cop0_Random :: u32 where "Cop0_Random \<equiv> 1"
abbreviation (input) Cop0_EntryLo0 :: u32 where "Cop0_EntryLo0 \<equiv> 2"
abbreviation (input) Cop0_EntryLo1 :: u32 where "Cop0_EntryLo1 \<equiv> 3"
abbreviation (input) Cop0_Context :: u32 where "Cop0_Context \<equiv> 4"
abbreviation (input) Cop0_PageMask :: u32 where "Cop0_PageMask \<equiv> 5"
abbreviation (input) Cop0_Wired :: u32 where "Cop0_Wired \<equiv> 6"
abbreviation (input) Cop0_BadVAddr :: u32 where "Cop0_BadVAddr \<equiv> 8"
abbreviation (input) Cop0_Count :: u32 where "Cop0_Count \<equiv> 9"
abbreviation (input) Cop0_EntryHi :: u32 where "Cop0_EntryHi \<equiv> 10"
abbreviation (input) Cop0_Compare :: u32 where "Cop0_Compare \<equiv> 11"
abbreviation (input) Cop0_Status :: u32 where "Cop0_Status \<equiv> 12"
abbreviation (input) Cop0_Cause :: u32 where "Cop0_Cause \<equiv> 13"
abbreviation (input) Cop0_EPC :: u32 where "Cop0_EPC \<equiv> 14"
abbreviation (input) Cop0_PRId :: u32 where "Cop0_PRId \<equiv> 15"
abbreviation (input) Cop0_Config :: u32 where "Cop0_Config \<equiv> 16"
abbreviation (input) Cop0_ErrorEPC :: u32 where "Cop0_ErrorEPC \<equiv> 30"

abbreviation (input) Exc_Int :: u32 where "Exc_Int \<equiv> 0"
abbreviation (input) Exc_Mod :: u32 where "Exc_Mod \<equiv> 1"
abbreviation (input) Exc_TLBL :: u32 where "Exc_TLBL \<equiv> 2"
abbreviation (input) Exc_TLBS :: u32 where "Exc_TLBS \<equiv> 3"
abbreviation (input) Exc_AdEL :: u32 where "Exc_AdEL \<equiv> 4"
abbreviation (input) Exc_AdES :: u32 where "Exc_AdES \<equiv> 5"
abbreviation (input) Exc_Sys :: u32 where "Exc_Sys \<equiv> 8"
abbreviation (input) Exc_Bp :: u32 where "Exc_Bp \<equiv> 9"
abbreviation (input) Exc_RI :: u32 where "Exc_RI \<equiv> 10"
abbreviation (input) Exc_CpU :: u32 where "Exc_CpU \<equiv> 11"
abbreviation (input) Exc_Ov :: u32 where "Exc_Ov \<equiv> 12"
abbreviation (input) Exc_Tr :: u32 where "Exc_Tr \<equiv> 13"
abbreviation (input) Exc_FPE :: u32 where "Exc_FPE \<equiv> 15"

definition SR_IE :: u32 where "SR_IE = 0x1"
definition SR_EXL :: u32 where "SR_EXL = 0x2"
definition SR_ERL :: u32 where "SR_ERL = 0x4"
definition SR_KSU :: u32 where "SR_KSU = 0x18"
definition SR_BEV :: u32 where "SR_BEV = 0x400000"
definition CAUSE_BD :: u32 where "CAUSE_BD = 0x80000000"
definition CAUSE_IP2 :: u32 where "CAUSE_IP2 = 0x400"
definition CAUSE_IP7 :: u32 where "CAUSE_IP7 = 0x8000"
definition TLB_INDEX_MASK :: u32 where "TLB_INDEX_MASK = 0x1F"
definition TLB_PROBE_FAIL :: u32 where "TLB_PROBE_FAIL = 0x80000000"
definition TLB_PAGE_MASK :: u32 where "TLB_PAGE_MASK = 0x01FFE000"
definition TLB_ENTRY_HI_MASK :: u32 where "TLB_ENTRY_HI_MASK = 0xFFFFE0FF"
definition TLB_ENTRY_LO_MASK :: u32 where "TLB_ENTRY_LO_MASK = 0x3FFFFFFF"
definition TLB_ENTRY_LO_GLOBAL :: u32 where "TLB_ENTRY_LO_GLOBAL = 0x1"
definition TLB_ENTRY_LO_VALID :: u32 where "TLB_ENTRY_LO_VALID = 0x2"
definition TLB_ENTRY_LO_DIRTY :: u32 where "TLB_ENTRY_LO_DIRTY = 0x4"

lemmas SR_defs = SR_IE_def SR_EXL_def SR_ERL_def SR_KSU_def SR_BEV_def
lemmas CAUSE_defs = CAUSE_BD_def CAUSE_IP2_def CAUSE_IP7_def
lemmas TLB_defs = TLB_INDEX_MASK_def TLB_PROBE_FAIL_def TLB_PAGE_MASK_def
  TLB_ENTRY_HI_MASK_def TLB_ENTRY_LO_MASK_def TLB_ENTRY_LO_GLOBAL_def
  TLB_ENTRY_LO_VALID_def TLB_ENTRY_LO_DIRTY_def

section \<open>State\<close>

record tlb_entry =
  page_mask :: u32
  entry_hi :: u32
  entry_lo0 :: u32
  entry_lo1 :: u32

record cpu =
  c_gpr :: "u32 \<Rightarrow> u64"
  c_fpr :: "u32 \<Rightarrow> u64"
  c_cop0 :: "u32 \<Rightarrow> u32"
  c_tlb :: "tlb_entry list"
  c_pc :: u64
  c_next_pc :: u64
  c_hi :: u64
  c_lo :: u64
  c_fcr31 :: u32
  c_cycles :: u64
  c_halted :: bool
  c_in_delay_slot :: bool
  c_branch_pending :: bool
  c_ll_bit :: bool
  c_ll_addr :: u64
  c_exception_count :: u64
  c_unknown_opcode_count :: u64
  c_tracing :: bool \<comment> \<open>a trace callback is installed\<close>
  c_block_cache_enabled :: bool

definition empty_tlb_entry :: tlb_entry where
  "empty_tlb_entry = \<lparr>page_mask = 0, entry_hi = 0, entry_lo0 = 0, entry_lo1 = 0\<rparr>"

text \<open>The values the member initialisers give a new object.\<close>

definition cpu_new :: cpu where
  "cpu_new = \<lparr>c_gpr = (\<lambda>_. 0), c_fpr = (\<lambda>_. 0), c_cop0 = (\<lambda>_. 0), c_tlb = replicate 32 empty_tlb_entry,
     c_pc = 0, c_next_pc = 0, c_hi = 0, c_lo = 0, c_fcr31 = 0, c_cycles = 0, c_halted = False,
     c_in_delay_slot = False, c_branch_pending = False, c_ll_bit = False, c_ll_addr = 0,
     c_exception_count = 0, c_unknown_opcode_count = 0, c_tracing = False,
     c_block_cache_enabled = True\<rparr>"

text \<open>Instruction fields.\<close>

definition i_op :: "u32 \<Rightarrow> u32" where "i_op i = drop_bit 26 i"
definition i_rs :: "u32 \<Rightarrow> u32" where "i_rs i = drop_bit 21 i AND 31"
definition i_rt :: "u32 \<Rightarrow> u32" where "i_rt i = drop_bit 16 i AND 31"
definition i_rd :: "u32 \<Rightarrow> u32" where "i_rd i = drop_bit 11 i AND 31"
definition i_sa :: "u32 \<Rightarrow> u32" where "i_sa i = drop_bit 6 i AND 31"
definition i_fn :: "u32 \<Rightarrow> u32" where "i_fn i = i AND 63"
definition i_imm :: "u32 \<Rightarrow> u32" where "i_imm i = i AND 0xFFFF"
definition i_simm :: "u32 \<Rightarrow> u16" where "i_simm i = ucast (i AND 0xFFFF)"
definition i_target :: "u32 \<Rightarrow> u32" where "i_target i = i AND 0x03FFFFFF"

lemmas i_defs = i_op_def i_rs_def i_rt_def i_rd_def i_sa_def i_fn_def i_imm_def i_simm_def
  i_target_def

text \<open>Register access; \<open>static_cast\<close> to the signed types only changes how the bits are read.\<close>

definition sext32 :: "u32 \<Rightarrow> u64" where "sext32 v = scast v"
definition sext16 :: "u16 \<Rightarrow> u64" where "sext16 v = scast v"
definition sext8 :: "u8 \<Rightarrow> u64" where "sext8 v = scast v"

definition rs64 :: "u32 \<Rightarrow> cpu \<Rightarrow> u64" where "rs64 i c = c_gpr c (i_rs i)"
definition rt64 :: "u32 \<Rightarrow> cpu \<Rightarrow> u64" where "rt64 i c = c_gpr c (i_rt i)"
definition rs32 :: "u32 \<Rightarrow> cpu \<Rightarrow> u32" where "rs32 i c = ucast (c_gpr c (i_rs i))"
definition rt32 :: "u32 \<Rightarrow> cpu \<Rightarrow> u32" where "rt32 i c = ucast (c_gpr c (i_rt i))"

definition write_gpr :: "u32 \<Rightarrow> u64 \<Rightarrow> cpu \<Rightarrow> cpu" where
  "write_gpr idx value c = (if idx \<noteq> 0 then c\<lparr>c_gpr := (c_gpr c)(idx := value)\<rparr> else c)"

definition wr_cop0 :: "u32 \<Rightarrow> u32 \<Rightarrow> cpu \<Rightarrow> cpu" where
  "wr_cop0 r v c = c\<lparr>c_cop0 := (c_cop0 c)(r := v)\<rparr>"

text \<open>\<open>set_pc\<close>: a fresh fetch stream.\<close>

definition set_pc :: "u64 \<Rightarrow> cpu \<Rightarrow> cpu" where
  "set_pc p c = c\<lparr>c_pc := p, c_next_pc := p + 4, c_branch_pending := False, c_ll_bit := False\<rparr>"

definition set_gpr :: "u32 \<Rightarrow> u64 \<Rightarrow> cpu \<Rightarrow> cpu" where
  "set_gpr i value c =
    (if i AND 31 \<noteq> 0 then c\<lparr>c_gpr := (c_gpr c)(i AND 31 := value)\<rparr> else c)"

section \<open>Reset and COP0 writes\<close>

definition cpu_reset :: "cpu \<Rightarrow> cpu" where
  "cpu_reset c =
    c\<lparr>c_gpr := (\<lambda>_. 0), c_fpr := (\<lambda>_. 0),
      c_cop0 := (\<lambda>_. 0)(Cop0_Random := 31, Cop0_Status := 0x34000000, Cop0_PRId := 0xB22,
        Cop0_Config := 0x7006E463, Cop0_Count := 0, Cop0_Compare := 0, Cop0_Wired := 0),
      c_tlb := replicate 32 empty_tlb_entry,
      c_pc := 0xBFC00000, c_next_pc := 0xBFC00000 + 4, c_hi := 0, c_lo := 0, c_fcr31 := 0,
      c_cycles := 0, c_halted := False, c_in_delay_slot := False, c_branch_pending := False,
      c_ll_bit := False, c_ll_addr := 0, c_exception_count := 0, c_unknown_opcode_count := 0\<rparr>"

text \<open>\<open>set_cop0\<close>; the flag says whether the block cache is cleared.\<close>

definition set_cop0 :: "u32 \<Rightarrow> u32 \<Rightarrow> cpu \<Rightarrow> cpu \<times> bool" where
  "set_cop0 i v c =
    (let idx = i AND 31 in
     if idx = Cop0_Random \<or> idx = Cop0_PRId then (c, False)
     else if idx = Cop0_Index then
       (wr_cop0 idx (v AND (TLB_PROBE_FAIL OR TLB_INDEX_MASK)) c, False)
     else if idx = Cop0_EntryLo0 \<or> idx = Cop0_EntryLo1 then
       (wr_cop0 idx (v AND TLB_ENTRY_LO_MASK) c, False)
     else if idx = Cop0_Context then
       (wr_cop0 idx ((c_cop0 c idx AND 0x007FFFF0) OR (v AND 0xFF800000)) c, False)
     else if idx = Cop0_PageMask then (wr_cop0 idx (v AND TLB_PAGE_MASK) c, False)
     else if idx = Cop0_Wired then
       (wr_cop0 Cop0_Random 31 (wr_cop0 idx (v AND TLB_INDEX_MASK) c), False)
     else if idx = Cop0_EntryHi then (wr_cop0 idx (v AND TLB_ENTRY_HI_MASK) c, True)
     else if idx = Cop0_Compare then
       (let c1 = wr_cop0 idx v c
        in (wr_cop0 Cop0_Cause (c_cop0 c1 Cop0_Cause AND NOT (push_bit 15 1)) c1, False))
     else if idx = Cop0_Cause then
       (wr_cop0 idx ((c_cop0 c idx AND NOT 0x300) OR (v AND 0x300)) c, False)
     else if idx = Cop0_Status then (wr_cop0 idx v c, True)
     else (wr_cop0 idx v c, False))"

section \<open>Address translation\<close>

text \<open>\<open>TranslationFault\<close>, with the translated address in the fault-free case.\<close>

datatype translation = Translated u32 | AddressError | TlbMiss | TlbInvalid | TlbModified

definition tlb_pair_mask :: "tlb_entry \<Rightarrow> u32" where
  "tlb_pair_mask e = (page_mask e AND TLB_PAGE_MASK) OR 0x1FFF"

definition tlb_global :: "tlb_entry \<Rightarrow> bool" where
  "tlb_global e \<longleftrightarrow> entry_lo0 e AND TLB_ENTRY_LO_GLOBAL \<noteq> 0
     \<and> entry_lo1 e AND TLB_ENTRY_LO_GLOBAL \<noteq> 0"

text \<open>The body of the search loop on the entry that matches.\<close>

definition tlb_hit :: "u32 \<Rightarrow> bool \<Rightarrow> tlb_entry \<Rightarrow> translation" where
  "tlb_hit v is_store e =
    (let page_size = drop_bit 1 (tlb_pair_mask e + 1);
         lo = (if v AND page_size \<noteq> 0 then entry_lo1 e else entry_lo0 e)
     in if lo AND TLB_ENTRY_LO_VALID = 0 then TlbInvalid
        else if is_store \<and> lo AND TLB_ENTRY_LO_DIRTY = 0 then TlbModified
        else
          (let page_offset_mask = page_size - 1;
               physical_base = push_bit 6 (ucast (lo AND 0x3FFFFFC0)) AND NOT (ucast page_offset_mask :: u64)
           in Translated (ucast (physical_base OR ucast (v AND page_offset_mask)) AND 0x1FFFFFFF)))"

definition tlb_matches :: "u32 \<Rightarrow> u32 \<Rightarrow> tlb_entry \<Rightarrow> bool" where
  "tlb_matches v asid e \<longleftrightarrow>
    v AND NOT (tlb_pair_mask e) = entry_hi e AND NOT (tlb_pair_mask e)
    \<and> (tlb_global e \<or> entry_hi e AND 0xFF = asid)"

fun tlb_lookup :: "u32 \<Rightarrow> u32 \<Rightarrow> bool \<Rightarrow> tlb_entry list \<Rightarrow> translation" where
  "tlb_lookup v asid is_store [] = TlbMiss"
| "tlb_lookup v asid is_store (e # es) =
    (if v AND NOT (tlb_pair_mask e) \<noteq> entry_hi e AND NOT (tlb_pair_mask e)
     then tlb_lookup v asid is_store es
     else if \<not> tlb_global e \<and> entry_hi e AND 0xFF \<noteq> asid
     then tlb_lookup v asid is_store es
     else tlb_hit v is_store e)"

definition cpu_mode :: "cpu \<Rightarrow> u32" where
  "cpu_mode c =
    (let sr = c_cop0 c Cop0_Status
     in if sr AND (SR_EXL OR SR_ERL) \<noteq> 0 then 0 else drop_bit 3 (sr AND SR_KSU))"

definition translate_address :: "u64 \<Rightarrow> bool \<Rightarrow> cpu \<Rightarrow> translation" where
  "translate_address vaddr is_store c =
    (let v = ucast vaddr :: u32; mode = cpu_mode c in
     if (mode \<ge> 2 \<and> v \<ge> 0x80000000) \<or> (mode = 1 \<and> v \<ge> 0xE0000000) then AddressError
     else if v \<ge> 0x80000000 \<and> v \<le> 0x9FFFFFFF then
       (if mode \<noteq> 0 then AddressError else Translated (v AND 0x1FFFFFFF))
     else if v \<ge> 0xA0000000 \<and> v \<le> 0xBFFFFFFF then
       (if mode \<noteq> 0 then AddressError else Translated (v AND 0x1FFFFFFF))
     else tlb_lookup v (c_cop0 c Cop0_EntryHi AND 0xFF) is_store (c_tlb c))"

definition translate :: "u64 \<Rightarrow> bool \<Rightarrow> cpu \<Rightarrow> u32 option" where
  "translate vaddr is_store c =
    (case translate_address vaddr is_store c of Translated p \<Rightarrow> Some p | _ \<Rightarrow> None)"

definition kernel_mode :: "cpu \<Rightarrow> bool" where
  "kernel_mode c \<longleftrightarrow>
    (let sr = c_cop0 c Cop0_Status
     in if sr AND (SR_EXL OR SR_ERL) \<noteq> 0 then True else drop_bit 3 (sr AND SR_KSU) = 0)"

definition coprocessor_usable :: "u32 \<Rightarrow> cpu \<Rightarrow> bool" where
  "coprocessor_usable cop c \<longleftrightarrow>
    (if cop = 0 \<and> kernel_mode c then True
     else c_cop0 c Cop0_Status AND push_bit (unat (28 + cop)) 1 \<noteq> 0)"

section \<open>Timer, interrupts and exceptions\<close>

definition advance_count :: "cpu \<Rightarrow> cpu" where
  "advance_count c =
    (let c1 = wr_cop0 Cop0_Count (c_cop0 c Cop0_Count + 1) c;
         c2 = (if c_cop0 c1 Cop0_Count = c_cop0 c1 Cop0_Compare
               then wr_cop0 Cop0_Cause (c_cop0 c1 Cop0_Cause OR CAUSE_IP7) c1 else c1);
         wired = c_cop0 c2 Cop0_Wired AND TLB_INDEX_MASK;
         random = c_cop0 c2 Cop0_Random AND TLB_INDEX_MASK
     in wr_cop0 Cop0_Random (if random \<le> wired then 31 else random - 1) c2)"

definition set_rcp_interrupt :: "bool \<Rightarrow> cpu \<Rightarrow> cpu" where
  "set_rcp_interrupt level c =
    (if level then wr_cop0 Cop0_Cause (c_cop0 c Cop0_Cause OR CAUSE_IP2) c
     else wr_cop0 Cop0_Cause (c_cop0 c Cop0_Cause AND NOT CAUSE_IP2) c)"

text \<open>The ExcCode and CE fields of Cause.\<close>

definition cause_fields :: "u32 \<Rightarrow> u32 \<Rightarrow> u32 \<Rightarrow> u32" where
  "cause_fields cause0 exc_code ce =
    (let cause1 = (cause0 AND NOT 0x7C) OR push_bit 2 (exc_code AND 0x1F)
     in (cause1 AND NOT (push_bit 28 3)) OR push_bit 28 (ce AND 3))"

definition raise_exception :: "u32 \<Rightarrow> u64 \<Rightarrow> u32 \<Rightarrow> bool \<Rightarrow> cpu \<Rightarrow> cpu" where
  "raise_exception exc_code bad_vaddr ce tlb_refill c0 =
    (let c = c0\<lparr>c_exception_count := c_exception_count c0 + 1\<rparr>;
         sr = c_cop0 c Cop0_Status;
         cause2 = cause_fields (c_cop0 c Cop0_Cause) exc_code ce;
         (cause, c1) =
           (if sr AND SR_EXL = 0 then
              (if c_in_delay_slot c
               then (cause2 OR CAUSE_BD, wr_cop0 Cop0_EPC (ucast (c_pc c - 4)) c)
               else (cause2 AND NOT CAUSE_BD, wr_cop0 Cop0_EPC (ucast (c_pc c)) c))
            else (cause2, c));
         c2 = wr_cop0 Cop0_Cause cause c1;
         c3 = (if exc_code = Exc_AdEL \<or> exc_code = Exc_AdES \<or> exc_code = Exc_TLBL
                 \<or> exc_code = Exc_TLBS \<or> exc_code = Exc_Mod
               then wr_cop0 Cop0_BadVAddr (ucast bad_vaddr) c2 else c2);
         c4 = (if exc_code = Exc_TLBL \<or> exc_code = Exc_TLBS \<or> exc_code = Exc_Mod
               then (let bad = ucast bad_vaddr :: u32;
                         c31 = wr_cop0 Cop0_Context ((c_cop0 c3 Cop0_Context AND 0xFF800000)
                           OR (drop_bit 9 bad AND 0x007FFFF0)) c3
                     in wr_cop0 Cop0_EntryHi ((c_cop0 c31 Cop0_EntryHi AND 0xFF)
                           OR (bad AND 0xFFFFE000)) c31)
               else c3);
         c5 = wr_cop0 Cop0_Status (sr OR SR_EXL) c4;
         bev = (sr AND SR_BEV \<noteq> 0);
         vector = (if tlb_refill \<and> \<not> (sr AND SR_EXL \<noteq> 0)
                   then (if bev then 0xBFC00200 else 0x80000000)
                   else (if bev then 0xBFC00380 else 0x80000180))
     in c5\<lparr>c_pc := vector, c_next_pc := vector + 4, c_branch_pending := False,
           c_ll_bit := False\<rparr>)"

text \<open>The call with the default arguments.\<close>

definition raise_plain :: "u32 \<Rightarrow> cpu \<Rightarrow> cpu" where
  "raise_plain exc_code c = raise_exception exc_code 0 0 False c"

definition check_interrupts :: "cpu \<Rightarrow> cpu" where
  "check_interrupts c =
    (let sr = c_cop0 c Cop0_Status in
     if sr AND SR_IE = 0 then c
     else if sr AND (SR_EXL OR SR_ERL) \<noteq> 0 then c
     else if c_cop0 c Cop0_Cause AND sr AND 0xFF00 \<noteq> 0 then raise_plain Exc_Int c
     else c)"

fun raise_translation_fault :: "translation \<Rightarrow> u64 \<Rightarrow> bool \<Rightarrow> cpu \<Rightarrow> cpu" where
  "raise_translation_fault AddressError bad is_store c =
     raise_exception (if is_store then Exc_AdES else Exc_AdEL) bad 0 False c"
| "raise_translation_fault TlbMiss bad is_store c =
     raise_exception (if is_store then Exc_TLBS else Exc_TLBL) bad 0 True c"
| "raise_translation_fault TlbInvalid bad is_store c =
     raise_exception (if is_store then Exc_TLBS else Exc_TLBL) bad 0 False c"
| "raise_translation_fault TlbModified bad is_store c = raise_exception Exc_Mod bad 0 False c"
| "raise_translation_fault (Translated p) bad is_store c = c"

text \<open>\<open>translate_or_raise\<close>: the address, or nothing with the exception taken.\<close>

definition translate_or_raise :: "u64 \<Rightarrow> u64 \<Rightarrow> bool \<Rightarrow> cpu \<Rightarrow> u32 option \<times> cpu" where
  "translate_or_raise vaddr bad is_store c =
    (case translate_address vaddr is_store c of
       Translated p \<Rightarrow> (Some p, c)
     | fault \<Rightarrow> (None, raise_translation_fault fault bad is_store c))"

definition probe_read :: "u64 \<Rightarrow> u64 \<Rightarrow> cpu \<Rightarrow> u32 option \<times> cpu" where
  "probe_read vaddr sz c =
    (if vaddr AND (sz - 1) \<noteq> 0 then (None, raise_exception Exc_AdEL vaddr 0 False c)
     else translate_or_raise vaddr vaddr False c)"

definition probe_write :: "u64 \<Rightarrow> u64 \<Rightarrow> cpu \<Rightarrow> u32 option \<times> cpu" where
  "probe_write vaddr sz c =
    (if vaddr AND (sz - 1) \<noteq> 0 then (None, raise_exception Exc_AdES vaddr 0 False c)
     else translate_or_raise vaddr vaddr True c)"

section \<open>Branches\<close>

definition branch_abs :: "u64 \<Rightarrow> cpu \<Rightarrow> cpu" where
  "branch_abs target_pc c = c\<lparr>c_next_pc := target_pc, c_branch_pending := True\<rparr>"

definition branch_rel :: "u16 \<Rightarrow> cpu \<Rightarrow> cpu" where
  "branch_rel offset_imm c =
    c\<lparr>c_next_pc := (c_pc c + 4) + push_bit 2 (scast offset_imm), c_branch_pending := True\<rparr>"

text \<open>The not-taken side of a likely branch: skip the delay slot.\<close>

definition nullify :: "cpu \<Rightarrow> cpu" where
  "nullify c = c\<lparr>c_next_pc := c_pc c + 8, c_branch_pending := False\<rparr>"

definition link_reg :: "u32 \<Rightarrow> cpu \<Rightarrow> cpu" where
  "link_reg r c = write_gpr r (c_pc c + 8) c"

section \<open>TLB instructions and ERET\<close>

text \<open>TLBR and TLBWI/TLBWR; both clear the block cache.\<close>

definition tlb_read_indexed :: "cpu \<Rightarrow> cpu" where
  "tlb_read_indexed c =
    (let e = c_tlb c ! unat (c_cop0 c Cop0_Index AND TLB_INDEX_MASK)
     in wr_cop0 Cop0_EntryLo1 (entry_lo1 e) (wr_cop0 Cop0_EntryLo0 (entry_lo0 e)
        (wr_cop0 Cop0_EntryHi (entry_hi e) (wr_cop0 Cop0_PageMask (page_mask e) c))))"

definition tlb_write_indexed :: "u32 \<Rightarrow> cpu \<Rightarrow> cpu" where
  "tlb_write_indexed index c =
    c\<lparr>c_tlb := (c_tlb c)[unat (index AND TLB_INDEX_MASK) :=
       \<lparr>page_mask = c_cop0 c Cop0_PageMask AND TLB_PAGE_MASK,
        entry_hi = c_cop0 c Cop0_EntryHi AND TLB_ENTRY_HI_MASK,
        entry_lo0 = c_cop0 c Cop0_EntryLo0 AND TLB_ENTRY_LO_MASK,
        entry_lo1 = c_cop0 c Cop0_EntryLo1 AND TLB_ENTRY_LO_MASK\<rparr>]\<rparr>"

fun tlb_probe_from :: "u32 \<Rightarrow> u32 \<Rightarrow> tlb_entry list \<Rightarrow> u32" where
  "tlb_probe_from query i [] = TLB_PROBE_FAIL"
| "tlb_probe_from query i (e # es) =
    (if query AND NOT (tlb_pair_mask e) \<noteq> entry_hi e AND NOT (tlb_pair_mask e)
     then tlb_probe_from query (i + 1) es
     else if tlb_global e \<or> entry_hi e AND 0xFF = query AND 0xFF then i
     else tlb_probe_from query (i + 1) es)"

definition tlb_probe :: "cpu \<Rightarrow> cpu" where
  "tlb_probe c = wr_cop0 Cop0_Index (tlb_probe_from (c_cop0 c Cop0_EntryHi) 0 (c_tlb c)) c"

definition do_eret :: "cpu \<Rightarrow> cpu" where
  "do_eret c =
    (let sr = c_cop0 c Cop0_Status;
         (sr', target) =
           (if sr AND SR_ERL \<noteq> 0 then (sr AND NOT SR_ERL, ucast (c_cop0 c Cop0_ErrorEPC) :: u64)
            else (sr AND NOT SR_EXL, ucast (c_cop0 c Cop0_EPC)))
     in (wr_cop0 Cop0_Status sr' c)\<lparr>c_ll_bit := False, c_pc := target, c_next_pc := target,
          c_branch_pending := False\<rparr>)"

text \<open>\<open>exec_cop0\<close>; the flag says whether the block cache is cleared.\<close>

definition exec_cop0 :: "u32 \<Rightarrow> cpu \<Rightarrow> cpu \<times> bool" where
  "exec_cop0 insn c =
    (if \<not> coprocessor_usable 0 c then (raise_exception Exc_CpU 0 0 False c, False)
     else
      (let co_rs = i_rs insn in
       if co_rs = 0x00 then (write_gpr (i_rt insn) (sext32 (c_cop0 c (i_rd insn))) c, False)
       else if co_rs = 0x01 then (write_gpr (i_rt insn) (ucast (c_cop0 c (i_rd insn))) c, False)
       else if co_rs = 0x04 then set_cop0 (i_rd insn) (rt32 insn c) c
       else if co_rs = 0x05 then set_cop0 (i_rd insn) (ucast (rt64 insn c)) c
       else if co_rs = 0x10 then
         (let c0fn = i_fn insn in
          if c0fn = 0x01 then (tlb_read_indexed c, True)
          else if c0fn = 0x02 then (tlb_write_indexed (c_cop0 c Cop0_Index) c, True)
          else if c0fn = 0x06 then (tlb_write_indexed (c_cop0 c Cop0_Random) c, True)
          else if c0fn = 0x08 then (tlb_probe c, False)
          else if c0fn = 0x18 then (do_eret c, False)
          else (c, False))
       else if insn AND push_bit 25 1 \<noteq> 0 then
         (if i_fn insn = 0x18 then (do_eret c, False) else (c, False))
       else (c, False)))"

definition exec_cop2 :: "u32 \<Rightarrow> cpu \<Rightarrow> cpu" where
  "exec_cop2 insn c =
    (if \<not> coprocessor_usable 2 c then raise_exception Exc_CpU 0 2 False c else c)"

section \<open>Frame lemmas\<close>

lemma wr_cop0_frame [simp]:
  "c_gpr (wr_cop0 r v c) = c_gpr c" "c_fpr (wr_cop0 r v c) = c_fpr c"
  "c_tlb (wr_cop0 r v c) = c_tlb c" "c_pc (wr_cop0 r v c) = c_pc c"
  "c_next_pc (wr_cop0 r v c) = c_next_pc c" "c_hi (wr_cop0 r v c) = c_hi c"
  "c_lo (wr_cop0 r v c) = c_lo c" "c_fcr31 (wr_cop0 r v c) = c_fcr31 c"
  "c_cycles (wr_cop0 r v c) = c_cycles c" "c_halted (wr_cop0 r v c) = c_halted c"
  "c_in_delay_slot (wr_cop0 r v c) = c_in_delay_slot c"
  "c_branch_pending (wr_cop0 r v c) = c_branch_pending c"
  "c_ll_bit (wr_cop0 r v c) = c_ll_bit c" "c_ll_addr (wr_cop0 r v c) = c_ll_addr c"
  "c_exception_count (wr_cop0 r v c) = c_exception_count c"
  "c_unknown_opcode_count (wr_cop0 r v c) = c_unknown_opcode_count c"
  "c_tracing (wr_cop0 r v c) = c_tracing c"
  "c_block_cache_enabled (wr_cop0 r v c) = c_block_cache_enabled c"
  "c_cop0 (wr_cop0 r v c) = (c_cop0 c)(r := v)"
  by (simp_all add: wr_cop0_def)

lemma write_gpr_frame [simp]:
  "c_fpr (write_gpr r v c) = c_fpr c" "c_cop0 (write_gpr r v c) = c_cop0 c"
  "c_tlb (write_gpr r v c) = c_tlb c" "c_pc (write_gpr r v c) = c_pc c"
  "c_next_pc (write_gpr r v c) = c_next_pc c" "c_hi (write_gpr r v c) = c_hi c"
  "c_lo (write_gpr r v c) = c_lo c" "c_fcr31 (write_gpr r v c) = c_fcr31 c"
  "c_cycles (write_gpr r v c) = c_cycles c" "c_halted (write_gpr r v c) = c_halted c"
  "c_in_delay_slot (write_gpr r v c) = c_in_delay_slot c"
  "c_branch_pending (write_gpr r v c) = c_branch_pending c"
  "c_ll_bit (write_gpr r v c) = c_ll_bit c" "c_ll_addr (write_gpr r v c) = c_ll_addr c"
  "c_exception_count (write_gpr r v c) = c_exception_count c"
  "c_unknown_opcode_count (write_gpr r v c) = c_unknown_opcode_count c"
  "c_tracing (write_gpr r v c) = c_tracing c"
  "c_block_cache_enabled (write_gpr r v c) = c_block_cache_enabled c"
  "c_gpr (write_gpr r v c) 0 = c_gpr c 0"
  by (simp_all add: write_gpr_def)

text \<open>Everything an exception decides, read off the definition once.\<close>

lemma raise_exception_frame [simp]:
  "c_gpr (raise_exception x b e t c) = c_gpr c"
  "c_fpr (raise_exception x b e t c) = c_fpr c"
  "c_tlb (raise_exception x b e t c) = c_tlb c"
  "c_hi (raise_exception x b e t c) = c_hi c"
  "c_lo (raise_exception x b e t c) = c_lo c"
  "c_fcr31 (raise_exception x b e t c) = c_fcr31 c"
  "c_cycles (raise_exception x b e t c) = c_cycles c"
  "c_halted (raise_exception x b e t c) = c_halted c"
  "c_in_delay_slot (raise_exception x b e t c) = c_in_delay_slot c"
  "c_branch_pending (raise_exception x b e t c) = False"
  "c_ll_bit (raise_exception x b e t c) = False"
  "c_ll_addr (raise_exception x b e t c) = c_ll_addr c"
  "c_exception_count (raise_exception x b e t c) = c_exception_count c + 1"
  "c_unknown_opcode_count (raise_exception x b e t c) = c_unknown_opcode_count c"
  "c_tracing (raise_exception x b e t c) = c_tracing c"
  "c_block_cache_enabled (raise_exception x b e t c) = c_block_cache_enabled c"
  by (simp_all add: raise_exception_def Let_def split_def)

lemma raise_exception_status:
  "c_cop0 (raise_exception x b e t c) Cop0_Status = c_cop0 c Cop0_Status OR SR_EXL"
  by (simp add: raise_exception_def Let_def split_def)

lemma raise_exception_epc:
  "c_cop0 (raise_exception x b e t c) Cop0_EPC =
    (if c_cop0 c Cop0_Status AND SR_EXL = 0
     then ucast (if c_in_delay_slot c then c_pc c - 4 else c_pc c)
     else c_cop0 c Cop0_EPC)"
  by (simp add: raise_exception_def Let_def split_def)

lemma raise_exception_cause:
  "c_cop0 (raise_exception x b e t c) Cop0_Cause =
    (let cause2 = cause_fields (c_cop0 c Cop0_Cause) x e
     in if c_cop0 c Cop0_Status AND SR_EXL = 0
        then (if c_in_delay_slot c then cause2 OR CAUSE_BD else cause2 AND NOT CAUSE_BD)
        else cause2)"
  by (simp add: raise_exception_def Let_def split_def)

lemma raise_exception_pc:
  "c_pc (raise_exception x b e t c) =
    (if t \<and> c_cop0 c Cop0_Status AND SR_EXL = 0
     then (if c_cop0 c Cop0_Status AND SR_BEV \<noteq> 0 then 0xBFC00200 else 0x80000000)
     else (if c_cop0 c Cop0_Status AND SR_BEV \<noteq> 0 then 0xBFC00380 else 0x80000180))"
  by (simp add: raise_exception_def Let_def split_def)

lemma raise_exception_next_pc:
  "c_next_pc (raise_exception x b e t c) = c_pc (raise_exception x b e t c) + 4"
  by (simp add: raise_exception_def Let_def split_def)

lemma raise_exception_other:
  "r \<notin> {4, 8, 10, 12, 13, 14} \<Longrightarrow>
    c_cop0 (raise_exception x b e t c) r = c_cop0 c r"
  by (simp add: raise_exception_def Let_def split_def)

lemma raise_exception_entryhi:
  "c_cop0 (raise_exception x b e t c) Cop0_EntryHi =
    (if x = Exc_TLBL \<or> x = Exc_TLBS \<or> x = Exc_Mod
     then (c_cop0 c Cop0_EntryHi AND 0xFF) OR (ucast b AND 0xFFFFE000)
     else c_cop0 c Cop0_EntryHi)"
  by (simp add: raise_exception_def Let_def split_def)

lemma raise_exception_badvaddr:
  "c_cop0 (raise_exception x b e t c) Cop0_BadVAddr =
    (if x = Exc_AdEL \<or> x = Exc_AdES \<or> x = Exc_TLBL \<or> x = Exc_TLBS \<or> x = Exc_Mod
     then ucast b else c_cop0 c Cop0_BadVAddr)"
  by (simp add: raise_exception_def Let_def split_def)

section \<open>Invariant\<close>

definition tlb_entry_wf :: "tlb_entry \<Rightarrow> bool" where
  "tlb_entry_wf e \<longleftrightarrow> page_mask e AND TLB_PAGE_MASK = page_mask e
    \<and> entry_hi e AND TLB_ENTRY_HI_MASK = entry_hi e
    \<and> entry_lo0 e AND TLB_ENTRY_LO_MASK = entry_lo0 e
    \<and> entry_lo1 e AND TLB_ENTRY_LO_MASK = entry_lo1 e"

definition cop0_wf :: "(u32 \<Rightarrow> u32) \<Rightarrow> bool" where
  "cop0_wf f \<longleftrightarrow> f Cop0_PageMask AND TLB_PAGE_MASK = f Cop0_PageMask
    \<and> f Cop0_EntryHi AND TLB_ENTRY_HI_MASK = f Cop0_EntryHi
    \<and> f Cop0_EntryLo0 AND TLB_ENTRY_LO_MASK = f Cop0_EntryLo0
    \<and> f Cop0_EntryLo1 AND TLB_ENTRY_LO_MASK = f Cop0_EntryLo1
    \<and> f Cop0_Wired \<le> f Cop0_Random \<and> f Cop0_Random \<le> 31"

definition cpu_wf :: "cpu \<Rightarrow> bool" where
  "cpu_wf c \<longleftrightarrow> c_gpr c 0 = 0 \<and> cop0_wf (c_cop0 c) \<and> length (c_tlb c) = 32
    \<and> (\<forall>e \<in> set (c_tlb c). tlb_entry_wf e)
    \<and> c_fcr31 c AND NOT 0x0183FFFF = 0"

lemma and_mask_twice: "(v AND m) AND m = v AND (m :: 'a::len word)"
  by (simp add: and.assoc)

lemma and_31_le: "(v :: u32) AND 31 \<le> 31"
  by (simp add: word_and_le1)

lemma cpu_wf_reset: "cpu_wf (cpu_reset c)"
  by (simp add: cpu_wf_def cpu_reset_def cop0_wf_def tlb_entry_wf_def empty_tlb_entry_def)

lemma cpu_wf_write_gpr [wf_intros]: "cpu_wf c \<Longrightarrow> cpu_wf (write_gpr r v c)"
  by (simp add: cpu_wf_def)

lemma cpu_wf_set_cop0 [wf_intros]: "cpu_wf c \<Longrightarrow> cpu_wf (fst (set_cop0 r v c))"
  by (auto simp: cpu_wf_def cop0_wf_def set_cop0_def Let_def and_mask_twice TLB_INDEX_MASK_def
      word_and_le1)

lemma cpu_wf_advance_count [wf_intros]:
  assumes "cpu_wf c" shows "cpu_wf (advance_count c)"
proof -
  have m: "x AND TLB_INDEX_MASK = x" if "x \<le> 31" for x :: u32
  proof -
    have "unat x < 2 ^ 5" using that by (simp add: word_le_nat_alt)
    then show ?thesis
      using word_mask_self [of x 5] by (simp add: TLB_INDEX_MASK_def mask_eq_exp_minus_1)
  qed
  have d: "w \<le> r - 1" "r - 1 \<le> 31" if "w \<le> r" "w \<noteq> r" "r \<le> 31" for w r :: u32
  proof -
    have "unat w < unat r" using that by (simp add: word_less_nat_alt [symmetric])
    moreover from this have "unat (r - 1) = unat r - 1"
      by (intro unat_minus_one) auto
    ultimately show "w \<le> r - 1" "r - 1 \<le> 31" using that(3) by (auto simp: word_le_nat_alt)
  qed
  have "c_cop0 c Cop0_Wired \<le> c_cop0 c Cop0_Random" "c_cop0 c Cop0_Random \<le> 31"
    using assms by (simp_all add: cpu_wf_def cop0_wf_def)
  then show ?thesis
    using assms d [of "c_cop0 c Cop0_Wired" "c_cop0 c Cop0_Random"] m [of "c_cop0 c Cop0_Wired"]
      m [of "c_cop0 c Cop0_Random"]
    by (auto simp: cpu_wf_def cop0_wf_def advance_count_def Let_def)
qed

lemma cpu_wf_raise_exception [wf_intros]:
  assumes "cpu_wf c" shows "cpu_wf (raise_exception x b e t c)"
proof -
  have "((v AND 0xFF) OR (w AND 0xFFFFE000)) AND TLB_ENTRY_HI_MASK
      = (v AND 0xFF) OR (w AND 0xFFFFE000)" for v w :: u32
    by (simp add: TLB_ENTRY_HI_MASK_def bit.conj_disj_distrib2 and.assoc)
  then show ?thesis
    using assms
    by (simp add: cpu_wf_def cop0_wf_def raise_exception_entryhi raise_exception_other)
qed

lemma cpu_wf_branch [wf_intros]:
  "cpu_wf c \<Longrightarrow> cpu_wf (branch_abs p c)" "cpu_wf c \<Longrightarrow> cpu_wf (branch_rel i c)"
  "cpu_wf c \<Longrightarrow> cpu_wf (nullify c)" "cpu_wf c \<Longrightarrow> cpu_wf (link_reg r c)"
  by (simp_all add: cpu_wf_def branch_abs_def branch_rel_def nullify_def link_reg_def)

lemma cpu_wf_tlb [wf_intros]:
  assumes "cpu_wf c"
  shows "cpu_wf (tlb_read_indexed c)" "cpu_wf (tlb_write_indexed i c)" "cpu_wf (tlb_probe c)"
proof -
  have i: "unat (x AND TLB_INDEX_MASK) < 32" for x :: u32
    by (simp add: TLB_INDEX_MASK_def)
  have "tlb_entry_wf (c_tlb c ! unat (c_cop0 c Cop0_Index AND TLB_INDEX_MASK))"
    using assms i by (simp add: cpu_wf_def)
  then show "cpu_wf (tlb_read_indexed c)"
    using assms by (simp add: tlb_read_indexed_def cpu_wf_def cop0_wf_def tlb_entry_wf_def Let_def)
  show "cpu_wf (tlb_write_indexed i c)"
    using assms
    by (auto simp: tlb_write_indexed_def cpu_wf_def tlb_entry_wf_def and_mask_twice
        dest!: set_update_subset_insert [THEN subsetD])
  show "cpu_wf (tlb_probe c)"
    using assms by (simp add: tlb_probe_def cpu_wf_def cop0_wf_def)
qed

lemma cpu_wf_eret [wf_intros]: "cpu_wf c \<Longrightarrow> cpu_wf (do_eret c)"
  by (simp add: do_eret_def Let_def split_def cpu_wf_def cop0_wf_def)

lemma cpu_wf_raise_plain [wf_intros]: "cpu_wf c \<Longrightarrow> cpu_wf (raise_plain x c)"
  by (simp add: raise_plain_def wf_intros)

lemma cpu_wf_check_interrupts [wf_intros]: "cpu_wf c \<Longrightarrow> cpu_wf (check_interrupts c)"
  by (simp add: check_interrupts_def Let_def wf_intros)

lemma cpu_wf_translate [wf_intros]:
  "cpu_wf c \<Longrightarrow> cpu_wf (raise_translation_fault f b st c)"
  "cpu_wf c \<Longrightarrow> cpu_wf (snd (translate_or_raise v b st c))"
  "cpu_wf c \<Longrightarrow> cpu_wf (snd (probe_read v sz c))"
  "cpu_wf c \<Longrightarrow> cpu_wf (snd (probe_write v sz c))"
proof -
  show r: "cpu_wf c \<Longrightarrow> cpu_wf (raise_translation_fault f b st c)" for f b st
    by (cases f) (simp_all add: wf_intros)
  show t: "cpu_wf c \<Longrightarrow> cpu_wf (snd (translate_or_raise v b st c))" for v b st
    by (simp add: translate_or_raise_def r wf_intros split: translation.split)
  show "cpu_wf c \<Longrightarrow> cpu_wf (snd (probe_read v sz c))"
    "cpu_wf c \<Longrightarrow> cpu_wf (snd (probe_write v sz c))"
    by (simp_all add: probe_read_def probe_write_def t wf_intros)
qed

lemma cpu_wf_exec_cop0 [wf_intros]: "cpu_wf c \<Longrightarrow> cpu_wf (fst (exec_cop0 insn c))"
  by (simp add: exec_cop0_def Let_def if_distrib [of fst] wf_intros)

section \<open>Exceptions\<close>

lemma cause_masks:
  "(0x7C :: u32) = push_bit 2 (mask 5)" "(0x1F :: u32) = mask 5" "(3 :: u32) = mask 2"
  "(0xFF00 :: u32) = push_bit 8 (mask 8)" "CAUSE_BD = push_bit 31 (mask 1)"
  by (simp_all add: mask_eq_exp_minus_1 CAUSE_BD_def)

lemma bit_cause_fields:
  "bit (cause_fields v x ce) n =
    (if 2 \<le> n \<and> n < 7 then bit x (n - 2) else if 28 \<le> n \<and> n < 30 then bit ce (n - 28) else bit v n)"
  unfolding cause_fields_def cause_masks Let_def by (auto simp: bit_simps)

lemma bit_CAUSE_BD: "bit CAUSE_BD n \<longleftrightarrow> n = 31"
  using bit_exp_iff [where 'a = "32 word", of 31 n] by (auto simp: CAUSE_BD_def)

lemma bit_SR_EXL: "bit SR_EXL n \<longleftrightarrow> n = 1"
  using bit_exp_iff [where 'a = "32 word", of 1 n] by (auto simp: SR_EXL_def)

lemma CAUSE_BD_nz [simp]: "CAUSE_BD \<noteq> 0"
  by (simp add: CAUSE_BD_def)

lemma cause_read:
  "drop_bit 2 (cause_fields v x ce) AND 0x1F = x AND 0x1F"
  "drop_bit 28 (cause_fields v x ce) AND 3 = ce AND 3"
  "cause_fields v x ce AND 0xFF00 = v AND 0xFF00"
  "cause_fields v x ce AND CAUSE_BD = v AND CAUSE_BD"
  "drop_bit 2 (w OR CAUSE_BD) AND 0x1F = drop_bit 2 w AND 0x1F"
  "drop_bit 28 (w OR CAUSE_BD) AND 3 = drop_bit 28 w AND 3"
  "(w OR CAUSE_BD) AND 0xFF00 = w AND 0xFF00"
  "drop_bit 2 (w AND NOT CAUSE_BD) AND 0x1F = drop_bit 2 w AND 0x1F"
  "drop_bit 28 (w AND NOT CAUSE_BD) AND 3 = drop_bit 28 w AND 3"
  "(w AND NOT CAUSE_BD) AND 0xFF00 = w AND 0xFF00"
  "(w AND NOT CAUSE_BD) AND CAUSE_BD = 0"
  "(w OR CAUSE_BD) AND CAUSE_BD = CAUSE_BD"
  by (rule bit_word_eqI,
      simp add: bit_simps bit_cause_fields bit_CAUSE_BD cause_masks(2-4) cong: conj_cong, fastforce?)+

text \<open>C1: Taking an exception outside an exception handler records the exception code, the
  coprocessor number and the delay-slot bit in Cause without touching the interrupt-pending
  bits, points EPC at the instruction (at the branch when the instruction is a delay slot),
  sets EXL, drops the load-link reservation and redirects both program counters to the vector
  BEV selects; only an unnested TLB refill uses the refill vector.\<close>

theorem exception_entry:
  assumes "c_cop0 c Cop0_Status AND SR_EXL = 0"
  shows "c' = raise_exception x b ce refill c \<Longrightarrow>
    drop_bit 2 (c_cop0 c' Cop0_Cause) AND 0x1F = x AND 0x1F
    \<and> drop_bit 28 (c_cop0 c' Cop0_Cause) AND 3 = ce AND 3
    \<and> (c_cop0 c' Cop0_Cause AND CAUSE_BD \<noteq> 0) = c_in_delay_slot c
    \<and> c_cop0 c' Cop0_Cause AND 0xFF00 = c_cop0 c Cop0_Cause AND 0xFF00
    \<and> c_cop0 c' Cop0_EPC = ucast (if c_in_delay_slot c then c_pc c - 4 else c_pc c)
    \<and> c_cop0 c' Cop0_Status = c_cop0 c Cop0_Status OR SR_EXL
    \<and> \<not> c_ll_bit c' \<and> \<not> c_branch_pending c' \<and> c_next_pc c' = c_pc c' + 4
    \<and> c_pc c' = (if c_cop0 c Cop0_Status AND SR_BEV \<noteq> 0 then 0xBFC00200 else 0x80000000)
        + (if refill then 0 else 0x180)"
  using assms
  by (simp add: raise_exception_cause raise_exception_epc raise_exception_status
      raise_exception_pc raise_exception_next_pc Let_def cause_read
      del: drop_bit_or drop_bit_and)

theorem exception_entry_witness:
  "c_pc (raise_exception Exc_TLBL 0x1000 0 True (cpu_reset cpu_new)) = 0x80000000"
  using exception_entry [where c = "cpu_reset cpu_new" and x = Exc_TLBL and b = "0x1000" and ce = 0
      and refill = True, OF _ refl]
  by (simp add: cpu_reset_def SR_defs)

text \<open>An exception inside a handler (EXL set) leaves EPC and the delay-slot bit of the
  outer exception alone and never uses the refill vector, so the outer return address
  survives.\<close>

theorem nested_exception_keeps_epc:
  assumes "c_cop0 c Cop0_Status AND SR_EXL \<noteq> 0"
  shows "c_cop0 (raise_exception x b ce refill c) Cop0_EPC = c_cop0 c Cop0_EPC
    \<and> c_cop0 (raise_exception x b ce refill c) Cop0_Cause AND CAUSE_BD = c_cop0 c Cop0_Cause AND CAUSE_BD
    \<and> c_cop0 (raise_exception x b ce refill c) Cop0_Status = c_cop0 c Cop0_Status
    \<and> c_pc (raise_exception x b ce refill c) \<in> {0xBFC00380, 0x80000180}"
proof -
  have s: "sr OR SR_EXL = sr" if "sr AND SR_EXL \<noteq> 0" for sr :: u32
  proof -
    have "bit sr 1" using that and_exp_eq_0_iff_not_bit [of sr 1] by (simp add: SR_EXL_def)
    then show ?thesis by (auto intro!: bit_word_eqI simp: bit_or_iff bit_SR_EXL)
  qed
  show ?thesis
    using assms s by (simp add: raise_exception_epc raise_exception_cause raise_exception_status
        raise_exception_pc cause_read(4) Let_def)
qed

theorem nested_exception_keeps_epc_witness:
  "c_cop0 (raise_exception Exc_Sys 0 0 False (wr_cop0 Cop0_EPC 0x1234
     (wr_cop0 Cop0_Status 2 (cpu_reset cpu_new)))) Cop0_EPC = 0x1234"
  using nested_exception_keeps_epc [of "wr_cop0 Cop0_EPC 0x1234 (wr_cop0 Cop0_Status 2 (cpu_reset cpu_new))"
      Exc_Sys 0 0 False]
  by (simp add: SR_EXL_def)

text \<open>C19: ERET at the end of a handler that left EPC and Status as the exception set them
  restores Status and resumes at the interrupted instruction, or at its branch when it was a
  delay slot, with the step's sequential advance landing on the same address.\<close>

theorem exception_eret_resume:
  assumes "c_cop0 c Cop0_Status AND SR_EXL = 0" "c_cop0 c Cop0_Status AND SR_ERL = 0"
    and "c_cop0 h Cop0_EPC = c_cop0 (raise_exception x b ce refill c) Cop0_EPC"
    and "c_cop0 h Cop0_Status = c_cop0 (raise_exception x b ce refill c) Cop0_Status"
  shows "c_cop0 (do_eret h) Cop0_Status = c_cop0 c Cop0_Status
    \<and> c_pc (do_eret h) = ucast (ucast (if c_in_delay_slot c then c_pc c - 4 else c_pc c) :: u32)
    \<and> c_next_pc (do_eret h) = c_pc (do_eret h)
    \<and> \<not> c_branch_pending (do_eret h) \<and> c_gpr (do_eret h) = c_gpr h"
proof -
  have z: "(sr OR SR_EXL) AND SR_ERL = 0" if "sr AND SR_ERL = 0" for sr :: u32
    using that by (simp add: SR_defs bit.conj_disj_distrib2)
  have r: "(sr OR SR_EXL) AND NOT SR_EXL = sr" if "sr AND SR_EXL = 0" for sr :: u32
  proof -
    have "\<not> (bit sr n \<and> bit SR_EXL n)" for n
      using that by (metis bit_0_eq bit_and_iff bot_apply bot_bool_def)
    then show ?thesis by (auto intro!: bit_word_eqI simp: bit_simps)
  qed
  show ?thesis
    using assms z r
    by (simp add: do_eret_def Let_def split_def raise_exception_status raise_exception_epc)
qed

theorem exception_eret_resume_witness:
  "c_pc (do_eret (raise_exception Exc_Sys 0 0 False (cpu_reset cpu_new))) = 0xBFC00000"
  using exception_eret_resume [of "cpu_reset cpu_new" "raise_exception Exc_Sys 0 0 False (cpu_reset cpu_new)"
      Exc_Sys 0 0 False]
  by (simp add: cpu_reset_def SR_defs)

section \<open>Count and Compare\<close>

lemma advance_count_count:
  "c_cop0 (advance_count c) Cop0_Count = c_cop0 c Cop0_Count + 1"
  "c_cop0 (advance_count c) Cop0_Compare = c_cop0 c Cop0_Compare"
  by (simp_all add: advance_count_def Let_def)

lemma advance_count_cause:
  "c_cop0 (advance_count c) Cop0_Cause =
    (if c_cop0 c Cop0_Count + 1 = c_cop0 c Cop0_Compare
     then c_cop0 c Cop0_Cause OR CAUSE_IP7 else c_cop0 c Cop0_Cause)"
  by (simp add: advance_count_def Let_def)

lemma advance_count_iter:
  "c_cop0 ((advance_count ^^ n) c) Cop0_Count = c_cop0 c Cop0_Count + of_nat n"
  "c_cop0 ((advance_count ^^ n) c) Cop0_Compare = c_cop0 c Cop0_Compare"
  by (induction n) (simp_all add: advance_count_count)

text \<open>C24: The timer is exact: with \<open>d\<close> the modular distance from Count to Compare (a full
  turn when they are equal), the timer interrupt bit is as it was through the first \<open>d - 1\<close>
  counts and is raised by the \<open>d\<close>-th, the rest of Cause untouched.\<close>

theorem timer_fires_exactly:
  assumes "n = (if c_cop0 c Cop0_Compare = c_cop0 c Cop0_Count then 2 ^ 32
                else unat (c_cop0 c Cop0_Compare - c_cop0 c Cop0_Count))"
  shows "(\<forall>k<n. c_cop0 ((advance_count ^^ k) c) Cop0_Cause = c_cop0 c Cop0_Cause)
    \<and> c_cop0 ((advance_count ^^ n) c) Cop0_Cause = c_cop0 c Cop0_Cause OR CAUSE_IP7"
proof -
  let ?d = "c_cop0 c Cop0_Compare - c_cop0 c Cop0_Count"
  have d: "unat ?d < 2 ^ LENGTH(32)" by (rule unsigned_less)
  have before: "c_cop0 c Cop0_Count + of_nat k \<noteq> c_cop0 c Cop0_Compare" if "0 < k" "k < n" for k
  proof
    assume "c_cop0 c Cop0_Count + of_nat k = c_cop0 c Cop0_Compare"
    then have "of_nat k = ?d" by (simp add: eq_diff_eq add.commute)
    then have "unat (of_nat k :: u32) = unat ?d" by simp
    moreover have "k < 2 ^ 32"
      using that assms d by (auto split: if_splits)
    ultimately have "k = unat ?d" by (simp add: unat_of_nat)
    with that assms show False by (auto split: if_splits)
  qed
  have early: "c_cop0 ((advance_count ^^ k) c) Cop0_Cause = c_cop0 c Cop0_Cause" if "k < n" for k
    using that
  proof (induction k)
    case (Suc k)
    then show ?case
      using before [of "Suc k"]
      by (simp add: advance_count_cause advance_count_iter add.assoc [symmetric] add.commute)
  qed simp
  have n: "n = Suc (n - 1)"
    using assms by (cases "unat ?d") (auto simp: unat_eq_zero split: if_splits)
  have "c_cop0 c Cop0_Count + of_nat n = c_cop0 c Cop0_Compare"
    using assms by (auto split: if_splits)
  moreover obtain m where m: "n = Suc m" using n by blast
  ultimately have "c_cop0 c Cop0_Count + of_nat m + 1 = c_cop0 c Cop0_Compare"
    by (simp add: algebra_simps)
  moreover have "c_cop0 ((advance_count ^^ m) c) Cop0_Cause = c_cop0 c Cop0_Cause"
    using early [of m] m by simp
  ultimately have "c_cop0 ((advance_count ^^ n) c) Cop0_Cause = c_cop0 c Cop0_Cause OR CAUSE_IP7"
    by (simp add: m advance_count_cause advance_count_iter)
  with early show ?thesis by blast
qed

theorem timer_fires_exactly_witness:
  "c_cop0 ((advance_count ^^ 3) (wr_cop0 Cop0_Compare 3 (cpu_reset cpu_new))) Cop0_Cause = CAUSE_IP7"
  using timer_fires_exactly [of 3 "wr_cop0 Cop0_Compare 3 (cpu_reset cpu_new)"]
  by (simp add: cpu_reset_def)

text \<open>Reset leaves BEV clear (Status is \<open>0x34000000\<close>, whose bit 22 is not set), so an
  exception taken straight after reset is vectored to RAM at \<open>0x80000180\<close> and not to the boot
  ROM at \<open>0xBFC00380\<close>, which the comment at that line (\<open>BEV=1\<close>) announces.\<close>

theorem reset_exception_vector:
  "c_cop0 (cpu_reset c) Cop0_Status AND SR_BEV = 0
   \<and> c_pc (raise_exception x b ce False (cpu_reset c)) = 0x80000180"
  by (simp add: raise_exception_pc) (simp add: cpu_reset_def SR_defs)

section \<open>Translation\<close>

lemma tlb_lookup_range:
  "tlb_lookup v asid st es = Translated p \<Longrightarrow> p \<le> 0x1FFFFFFF"
proof (induction es)
  case (Cons e es)
  then show ?case
    by (auto simp: tlb_hit_def Let_def word_and_le1 split: if_splits)
qed simp

text \<open>C22: No translation leaves the 29-bit bus, and none crosses a privilege boundary: user mode
  reaches only KUSEG, supervisor mode only KUSEG and SSEG, whatever the TLB holds.\<close>

theorem translate_protected:
  assumes "translate vaddr st c = Some p"
  shows "p \<le> 0x1FFFFFFF
    \<and> (2 \<le> cpu_mode c \<longrightarrow> (ucast vaddr :: u32) < 0x80000000)
    \<and> (cpu_mode c = 1 \<longrightarrow> (ucast vaddr :: u32) < 0x80000000
        \<or> 0xC0000000 \<le> (ucast vaddr :: u32) \<and> (ucast vaddr :: u32) < 0xE0000000)"
proof -
  have t: "translate_address vaddr st c = Translated p"
    using assms by (auto simp: translate_def split: translation.splits)
  have "p \<le> 0x1FFFFFFF"
    using t by (auto simp: translate_address_def Let_def word_and_le1 tlb_lookup_range
        split: if_splits)
  moreover have "2 \<le> cpu_mode c \<Longrightarrow> (ucast vaddr :: u32) < 0x80000000"
    using t by (auto simp: translate_address_def Let_def split: if_splits)
  moreover have "(ucast vaddr :: u32) < 0x80000000
      \<or> 0xC0000000 \<le> (ucast vaddr :: u32) \<and> (ucast vaddr :: u32) < 0xE0000000" if "cpu_mode c = 1"
  proof -
    have n: "\<not> 0xE0000000 \<le> (ucast vaddr :: u32)"
      "\<not> (0x80000000 \<le> (ucast vaddr :: u32) \<and> (ucast vaddr :: u32) \<le> 0x9FFFFFFF)"
      "\<not> (0xA0000000 \<le> (ucast vaddr :: u32) \<and> (ucast vaddr :: u32) \<le> 0xBFFFFFFF)"
      using t that by (auto simp: translate_address_def Let_def split: if_splits)
    then show ?thesis by (auto simp: word_le_nat_alt word_less_nat_alt)
  qed
  ultimately show ?thesis by blast
qed

theorem translate_protected_witness:
  "translate 0x80001000 False (cpu_reset cpu_new) = Some 0x1000 \<and> (0x1000 :: u32) \<le> 0x1FFFFFFF"
proof -
  have t: "translate 0x80001000 False (cpu_reset cpu_new) = Some 0x1000"
    by (simp add: translate_def translate_address_def Let_def cpu_mode_def cpu_reset_def SR_defs)
  then show ?thesis using translate_protected [OF t] by blast
qed

lemma probe_from_miss:
  assumes "unat i + length es \<le> 32"
  shows "(tlb_probe_from q i es = TLB_PROBE_FAIL) = (tlb_lookup q (q AND 0xFF) st es = TlbMiss)"
  using assms
proof (induction es arbitrary: i)
  case Nil
  then show ?case by simp
next
  case (Cons e es)
  have i: "unat i < 32" using Cons.prems by simp
  have s: "unat (i + 1) = unat i + 1"
    using i by (simp add: unat_word_ariths)
  have "i \<noteq> TLB_PROBE_FAIL" using i by (auto simp: TLB_PROBE_FAIL_def)
  then show ?case
    using Cons s by (auto simp: tlb_hit_def Let_def)
qed

text \<open>TLBP and the translation loop agree: the probe fails exactly when an access to the
  probed page would be a refill miss, for loads and stores alike.\<close>

theorem probe_iff_lookup:
  assumes "cpu_wf c"
  shows "(c_cop0 (tlb_probe c) Cop0_Index = TLB_PROBE_FAIL) =
    (tlb_lookup (c_cop0 c Cop0_EntryHi) (c_cop0 c Cop0_EntryHi AND 0xFF) st (c_tlb c) = TlbMiss)"
  using assms probe_from_miss [of 0 "c_tlb c" "c_cop0 c Cop0_EntryHi" st]
  by (simp add: tlb_probe_def cpu_wf_def)

theorem probe_iff_lookup_witness:
  "(c_cop0 (tlb_probe (cpu_reset cpu_new)) Cop0_Index = TLB_PROBE_FAIL) =
    (tlb_lookup (c_cop0 (cpu_reset cpu_new) Cop0_EntryHi) (c_cop0 (cpu_reset cpu_new) Cop0_EntryHi AND 0xFF) True
      (c_tlb (cpu_reset cpu_new)) = TlbMiss)"
  by (rule probe_iff_lookup [OF cpu_wf_reset])

text \<open>TLBWI followed by TLBR gives back the four registers it wrote, and leaves every other
  entry of the TLB and every other register alone.\<close>

theorem tlbwi_tlbr_roundtrip:
  assumes "cpu_wf c"
  shows "tlb_read_indexed (tlb_write_indexed (c_cop0 c Cop0_Index) c)
     = tlb_write_indexed (c_cop0 c Cop0_Index) c
    \<and> (\<forall>j<32. j \<noteq> unat (c_cop0 c Cop0_Index AND TLB_INDEX_MASK) \<longrightarrow>
        c_tlb (tlb_write_indexed (c_cop0 c Cop0_Index) c) ! j = c_tlb c ! j)"
proof -
  have "unat (c_cop0 c Cop0_Index AND TLB_INDEX_MASK) < length (c_tlb c)"
    using assms by (simp add: cpu_wf_def TLB_INDEX_MASK_def)
  then show ?thesis
    using assms
    by (auto simp: tlb_read_indexed_def tlb_write_indexed_def Let_def cpu_wf_def cop0_wf_def
        wr_cop0_def)
qed

theorem tlbwi_tlbr_roundtrip_witness:
  "tlb_read_indexed (tlb_write_indexed (c_cop0 (cpu_reset cpu_new) Cop0_Index) (cpu_reset cpu_new))
     = tlb_write_indexed (c_cop0 (cpu_reset cpu_new) Cop0_Index) (cpu_reset cpu_new)"
  using tlbwi_tlbr_roundtrip [OF cpu_wf_reset [of cpu_new]] by blast

lemma tlb_lookup_first:
  assumes "i < length es" "\<forall>j<i. \<not> tlb_matches v asid (es ! j)" "tlb_matches v asid (es ! i)"
  shows "tlb_lookup v asid st es = tlb_hit v st (es ! i)"
  using assms
proof (induction es arbitrary: i)
  case (Cons e es)
  show ?case
  proof (cases i)
    case 0
    then show ?thesis using Cons.prems by (auto simp: tlb_matches_def)
  next
    case (Suc k)
    have "\<not> tlb_matches v asid e" using Cons.prems(2) Suc by fastforce
    moreover have "\<forall>j<k. \<not> tlb_matches v asid (es ! j)"
      using Cons.prems(2) Suc by (metis Suc_mono nth_Cons_Suc)
    then have "tlb_lookup v asid st es = tlb_hit v st (es ! k)"
      using Cons.IH [of k] Cons.prems Suc by auto
    ultimately show ?thesis using Suc by (auto simp: tlb_matches_def)
  qed
qed simp

lemma small_page:
  assumes "page_mask e = 0"
  shows "tlb_pair_mask e = 0x1FFF" "drop_bit 1 (tlb_pair_mask e + 1) = 0x1000"
  using assms by (simp_all add: tlb_pair_mask_def)

lemma small_page_address:
  "(ucast ((push_bit 6 (ucast (lo AND 0x3FFFFFC0)) AND NOT (ucast (0xFFF :: u32) :: u64))
      OR ucast (v AND 0xFFF)) AND 0x1FFFFFFF :: u32)
   = (push_bit 6 (lo AND 0x3FFFFFC0) OR (v AND 0xFFF)) AND 0x1FFFFFFF"
proof -
  have m: "(0x3FFFFFC0 :: u32) = push_bit 6 (mask 24)" "(0xFFF :: u32) = mask 12"
    "(0x1FFFFFFF :: u32) = mask 29"
    by (simp_all add: mask_eq_exp_minus_1)
  show ?thesis unfolding m by (rule bit_word_eqI) (auto simp: bit_simps)
qed


definition tlb_example :: "cpu \<Rightarrow> cpu" where
  "tlb_example c = (cpu_reset c)\<lparr>c_cop0 := (c_cop0 (cpu_reset c))
     (Cop0_EntryHi := 0x00402000, Cop0_EntryLo0 := 0x1006, Cop0_EntryLo1 := 0x2007)\<rparr>"


end
