(* ===== verification/Cpu_Alu.thy ===== *)
theory Cpu_Alu
  imports Cpu_Core "HOL-Library.Signed_Division"
begin

unbundle bit_operations_syntax

text \<open>
  The register-to-register instructions (\<open>src/cpu/cpu.cpp\<close>): the overflow and 64-bit
  multiplication helpers, \<open>exec_special\<close> and \<open>exec_regimm\<close>. Nothing here touches memory.
\<close>

section \<open>Arithmetic helpers\<close>

definition add_overflow_s32 :: "u32 \<Rightarrow> u32 \<Rightarrow> bool \<times> u32" where
  "add_overflow_s32 a b =
    (let wide = scast a + scast b :: u64; result = ucast wide :: u32
     in (wide \<noteq> scast result, result))"

definition sub_overflow_s32 :: "u32 \<Rightarrow> u32 \<Rightarrow> bool \<times> u32" where
  "sub_overflow_s32 a b =
    (let wide = scast a - scast b :: u64; result = ucast wide :: u32
     in (wide \<noteq> scast result, result))"

definition s64_max :: u64 where "s64_max = 0x7FFFFFFFFFFFFFFF"
definition s64_min :: u64 where "s64_min = 0x8000000000000000"

definition add_overflow_s64 :: "u64 \<Rightarrow> u64 \<Rightarrow> bool \<times> u64" where
  "add_overflow_s64 a b =
    (if (0 <s b \<and> s64_max - b <s a) \<or> (b <s 0 \<and> a <s s64_min - b) then (True, 0)
     else (False, a + b))"

definition sub_overflow_s64 :: "u64 \<Rightarrow> u64 \<Rightarrow> bool \<times> u64" where
  "sub_overflow_s64 a b =
    (if (0 <s b \<and> a <s s64_min + b) \<or> (b <s 0 \<and> s64_max + b <s a) then (True, 0)
     else (False, a - b))"

text \<open>The 128-bit branch of \<open>mult_u64\<close> and its portable fallback; results are \<open>(hi, lo)\<close>.\<close>

definition mult_u64 :: "u64 \<Rightarrow> u64 \<Rightarrow> u64 \<times> u64" where
  "mult_u64 a b =
    (let r = ucast a * ucast b :: 128 word in (ucast (drop_bit 64 r), ucast r))"

definition mult_u64_portable :: "u64 \<Rightarrow> u64 \<Rightarrow> u64 \<times> u64" where
  "mult_u64_portable a b =
    (let a_lo = a AND 0xFFFFFFFF; a_hi = drop_bit 32 a;
         b_lo = b AND 0xFFFFFFFF; b_hi = drop_bit 32 b;
         p0 = a_lo * b_lo; p1 = a_lo * b_hi; p2 = a_hi * b_lo; p3 = a_hi * b_hi;
         mid = drop_bit 32 p0 + (p1 AND 0xFFFFFFFF) + (p2 AND 0xFFFFFFFF)
     in (p3 + drop_bit 32 p1 + drop_bit 32 p2 + drop_bit 32 mid,
         (p0 AND 0xFFFFFFFF) OR push_bit 32 mid))"

definition mult_s64 :: "u64 \<Rightarrow> u64 \<Rightarrow> u64 \<times> u64" where
  "mult_s64 a b =
    (let r = scast a * scast b :: 128 word in (ucast (drop_bit 64 r), ucast r))"

definition mult_s64_portable :: "u64 \<Rightarrow> u64 \<Rightarrow> u64 \<times> u64" where
  "mult_s64_portable a b =
    (let neg = ((a <s 0) \<noteq> (b <s 0));
         magnitude = (\<lambda>value :: u64. if value <s 0 then NOT value + 1 else value);
         (hi, lo) = mult_u64_portable (magnitude a) (magnitude b)
     in if neg then
          (let lo' = NOT lo + 1 in (NOT hi + (if lo' = 0 then 1 else 0), lo'))
        else (hi, lo))"

section \<open>SPECIAL\<close>

definition set_hi_lo :: "u64 \<Rightarrow> u64 \<Rightarrow> cpu \<Rightarrow> cpu" where
  "set_hi_lo h l c = c\<lparr>c_hi := h, c_lo := l\<rparr>"

definition reserved_instruction :: "cpu \<Rightarrow> cpu" where
  "reserved_instruction c =
    raise_plain Exc_RI (c\<lparr>c_unknown_opcode_count := c_unknown_opcode_count c + 1\<rparr>)"

text \<open>The shifts, moves and jumps (function codes below \<open>0x18\<close>).\<close>

definition special_shift_jump :: "u32 \<Rightarrow> cpu \<Rightarrow> cpu" where
  "special_shift_jump insn c =
    (let f = i_fn insn; rd = i_rd insn; sa = unat (i_sa insn);
         sv = unat (rs32 insn c AND 31); dv = unat (rs32 insn c AND 63) in
     if f = 0x00 then write_gpr rd (sext32 (push_bit sa (rt32 insn c))) c
     else if f = 0x02 then write_gpr rd (sext32 (drop_bit sa (rt32 insn c))) c
     else if f = 0x03 then write_gpr rd (sext32 (signed_drop_bit sa (rt32 insn c))) c
     else if f = 0x04 then write_gpr rd (sext32 (push_bit sv (rt32 insn c))) c
     else if f = 0x06 then write_gpr rd (sext32 (drop_bit sv (rt32 insn c))) c
     else if f = 0x07 then write_gpr rd (sext32 (signed_drop_bit sv (rt32 insn c))) c
     else if f = 0x08 then branch_abs (rs64 insn c) c
     else if f = 0x09 then
       (let target = rs64 insn c; d = (if rd = 0 then 31 else rd)
        in branch_abs target (link_reg d c))
     else if f = 0x0C then raise_plain Exc_Sys c
     else if f = 0x0D then raise_plain Exc_Bp c
     else if f = 0x0F then c
     else if f = 0x10 then write_gpr rd (c_hi c) c
     else if f = 0x11 then c\<lparr>c_hi := rs64 insn c\<rparr>
     else if f = 0x12 then write_gpr rd (c_lo c) c
     else if f = 0x13 then c\<lparr>c_lo := rs64 insn c\<rparr>
     else if f = 0x14 then write_gpr rd (push_bit dv (rt64 insn c)) c
     else if f = 0x16 then write_gpr rd (drop_bit dv (rt64 insn c)) c
     else if f = 0x17 then write_gpr rd (signed_drop_bit dv (rt64 insn c)) c
     else reserved_instruction c)"

text \<open>Multiplication and division (\<open>0x18\<close> to \<open>0x1F\<close>): the result pair \<open>(hi, lo)\<close>.\<close>

definition div_s32 :: "u32 \<Rightarrow> u32 \<Rightarrow> u64 \<times> u64" where
  "div_s32 num den =
    (if den = 0 then (sext32 num, sext32 (if num <s 0 then 1 else 0xFFFFFFFF))
     else if num = 0x80000000 \<and> den = - 1 then (0, sext32 0x80000000)
     else (sext32 (word_of_int (sint num smod sint den)),
           sext32 (word_of_int (sint num sdiv sint den))))"

definition div_u32 :: "u32 \<Rightarrow> u32 \<Rightarrow> u64 \<times> u64" where
  "div_u32 num den =
    (if den = 0 then (sext32 num, sext32 0xFFFFFFFF)
     else (sext32 (num mod den), sext32 (num div den)))"

definition div_s64 :: "u64 \<Rightarrow> u64 \<Rightarrow> u64 \<times> u64" where
  "div_s64 num den =
    (if den = 0 then (num, if num <s 0 then 1 else NOT 0)
     else if num = 0x8000000000000000 \<and> den = - 1 then (0, num)
     else (word_of_int (sint num smod sint den), word_of_int (sint num sdiv sint den)))"

definition div_u64 :: "u64 \<Rightarrow> u64 \<Rightarrow> u64 \<times> u64" where
  "div_u64 num den =
    (if den = 0 then (num, NOT 0) else (num mod den, num div den))"

definition mult_s32 :: "u32 \<Rightarrow> u32 \<Rightarrow> u64 \<times> u64" where
  "mult_s32 a b =
    (let r = scast a * scast b :: u64 in (sext32 (ucast (drop_bit 32 r)), sext32 (ucast r)))"

definition mult_u32 :: "u32 \<Rightarrow> u32 \<Rightarrow> u64 \<times> u64" where
  "mult_u32 a b =
    (let r = ucast a * ucast b :: u64 in (sext32 (ucast (drop_bit 32 r)), sext32 (ucast r)))"

definition special_mult_div :: "u32 \<Rightarrow> cpu \<Rightarrow> cpu" where
  "special_mult_div insn c =
    (let f = i_fn insn; put = (\<lambda>p. set_hi_lo (fst p) (snd p) c) in
     if f = 0x18 then put (mult_s32 (rs32 insn c) (rt32 insn c))
     else if f = 0x19 then put (mult_u32 (rs32 insn c) (rt32 insn c))
     else if f = 0x1A then put (div_s32 (rs32 insn c) (rt32 insn c))
     else if f = 0x1B then put (div_u32 (rs32 insn c) (rt32 insn c))
     else if f = 0x1C then put (mult_s64 (rs64 insn c) (rt64 insn c))
     else if f = 0x1D then put (mult_u64 (rs64 insn c) (rt64 insn c))
     else if f = 0x1E then put (div_s64 (rs64 insn c) (rt64 insn c))
     else put (div_u64 (rs64 insn c) (rt64 insn c)))"

text \<open>A result or an overflow exception.\<close>

definition write_or_overflow :: "u32 \<Rightarrow> bool \<times> u64 \<Rightarrow> cpu \<Rightarrow> cpu" where
  "write_or_overflow rd r c =
    (if fst r then raise_plain Exc_Ov c else write_gpr rd (snd r) c)"

definition trap_if :: "bool \<Rightarrow> cpu \<Rightarrow> cpu" where
  "trap_if b c = (if b then raise_plain Exc_Tr c else c)"

definition bool64 :: "bool \<Rightarrow> u64" where "bool64 b = (if b then 1 else 0)"

text \<open>Arithmetic, logic, traps and the 64-bit shifts (function codes from \<open>0x20\<close>).\<close>

definition special_arith :: "u32 \<Rightarrow> cpu \<Rightarrow> cpu" where
  "special_arith insn c =
    (let f = i_fn insn; rd = i_rd insn; sa = unat (i_sa insn);
         s = rs64 insn c; t = rt64 insn c; s3 = rs32 insn c; t3 = rt32 insn c in
     if f = 0x20 then write_or_overflow rd (apsnd sext32 (add_overflow_s32 s3 t3)) c
     else if f = 0x21 then write_gpr rd (sext32 (s3 + t3)) c
     else if f = 0x22 then write_or_overflow rd (apsnd sext32 (sub_overflow_s32 s3 t3)) c
     else if f = 0x23 then write_gpr rd (sext32 (s3 - t3)) c
     else if f = 0x24 then write_gpr rd (s AND t) c
     else if f = 0x25 then write_gpr rd (s OR t) c
     else if f = 0x26 then write_gpr rd (s XOR t) c
     else if f = 0x27 then write_gpr rd (NOT (s OR t)) c
     else if f = 0x2A then write_gpr rd (bool64 (s <s t)) c
     else if f = 0x2B then write_gpr rd (bool64 (s < t)) c
     else if f = 0x2C then write_or_overflow rd (add_overflow_s64 s t) c
     else if f = 0x2D then write_gpr rd (s + t) c
     else if f = 0x2E then write_or_overflow rd (sub_overflow_s64 s t) c
     else if f = 0x2F then write_gpr rd (s - t) c
     else if f = 0x30 then trap_if (t \<le>s s) c
     else if f = 0x31 then trap_if (t \<le> s) c
     else if f = 0x32 then trap_if (s <s t) c
     else if f = 0x33 then trap_if (s < t) c
     else if f = 0x34 then trap_if (s = t) c
     else if f = 0x36 then trap_if (s \<noteq> t) c
     else if f = 0x38 then write_gpr rd (push_bit sa t) c
     else if f = 0x3A then write_gpr rd (drop_bit sa t) c
     else if f = 0x3B then write_gpr rd (signed_drop_bit sa t) c
     else if f = 0x3C then write_gpr rd (push_bit (sa + 32) t) c
     else if f = 0x3E then write_gpr rd (drop_bit (sa + 32) t) c
     else if f = 0x3F then write_gpr rd (signed_drop_bit (sa + 32) t) c
     else reserved_instruction c)"

definition exec_special :: "u32 \<Rightarrow> cpu \<Rightarrow> cpu" where
  "exec_special insn c =
    (if i_fn insn < 0x18 then special_shift_jump insn c
     else if i_fn insn < 0x20 then special_mult_div insn c
     else special_arith insn c)"

section \<open>REGIMM\<close>

definition branch_if :: "bool \<Rightarrow> u16 \<Rightarrow> cpu \<Rightarrow> cpu" where
  "branch_if b imm c = (if b then branch_rel imm c else branch_abs (c_pc c + 8) c)"

definition branch_likely_if :: "bool \<Rightarrow> u16 \<Rightarrow> cpu \<Rightarrow> cpu" where
  "branch_likely_if b imm c = (if b then branch_rel imm c else nullify c)"

definition exec_regimm :: "u32 \<Rightarrow> cpu \<Rightarrow> cpu" where
  "exec_regimm insn c =
    (let rt_field = i_rt insn; rs_neg = (rs64 insn c <s 0); rs_ge0 = (\<not> rs_neg);
         imm = i_simm insn; s = rs64 insn c; si = scast imm :: u64 in
     if rt_field = 0x00 then branch_if rs_neg imm c
     else if rt_field = 0x01 then branch_if rs_ge0 imm c
     else if rt_field = 0x02 then branch_likely_if rs_neg imm c
     else if rt_field = 0x03 then branch_likely_if rs_ge0 imm c
     else if rt_field = 0x08 then trap_if (si \<le>s s) c
     else if rt_field = 0x09 then trap_if (si \<le> s) c
     else if rt_field = 0x0A then trap_if (s <s si) c
     else if rt_field = 0x0B then trap_if (s < si) c
     else if rt_field = 0x0C then trap_if (s = si) c
     else if rt_field = 0x0E then trap_if (s \<noteq> si) c
     else if rt_field = 0x10 then branch_if rs_neg imm (link_reg 31 c)
     else if rt_field = 0x11 then branch_if rs_ge0 imm (link_reg 31 c)
     else if rt_field = 0x12 then branch_likely_if rs_neg imm (link_reg 31 c)
     else if rt_field = 0x13 then branch_likely_if rs_ge0 imm (link_reg 31 c)
     else reserved_instruction c)"

section \<open>Overflow detection\<close>

lemma s32_bounds: "- 2147483648 \<le> sint (a :: u32)" "sint (a :: u32) < 2147483648"
  using sint_greater_eq [of a] sint_less [of a] by simp_all

lemma s64_bounds: "- 9223372036854775808 \<le> sint (a :: u64)" "sint (a :: u64) < 9223372036854775808"
  using sint_greater_eq [of a] sint_less [of a] by simp_all

lemma sint_scast64 [simp]: "sint (scast (a :: u32) :: u64) = sint a"
  by (rule sint_up_scast) (simp add: is_up)

lemma sint_word_s64:
  "- 9223372036854775808 \<le> k \<Longrightarrow> k < 9223372036854775808 \<Longrightarrow> sint (word_of_int k :: u64) = k"
  using signed_take_bit_int_eq_self [of 63 k] by (simp add: sint_sbintrunc')

lemma scast_eq_of_int: "(scast (a :: 'a::len word) :: 'b::len word) = word_of_int (sint a)"
  by simp

lemma wide_add: "(scast (a :: u32) + scast b :: u64) = word_of_int (sint a + sint b)"
  "(scast (a :: u32) - scast b :: u64) = word_of_int (sint a - sint b)"
  by simp_all

lemma narrow_add:
  "(ucast (word_of_int (sint a + sint b) :: u64) :: u32) = a + b"
  "(ucast (word_of_int (sint a - sint b) :: u64) :: u32) = a - b"
  for a b :: u32
proof -
  have d: "(ucast (word_of_int k :: u64) :: u32) = word_of_int k" for k
    by (rule ucast_down_wi) (simp add: is_down)
  show "(ucast (word_of_int (sint a + sint b) :: u64) :: u32) = a + b"
    "(ucast (word_of_int (sint a - sint b) :: u64) :: u32) = a - b"
    unfolding d by simp_all
qed

lemma wide_neq: "((w :: u64) \<noteq> scast (r :: u32)) = (sint w \<noteq> sint r)"
  by (metis sint_scast64 signed_word_eqI)

text \<open>The overflow helpers are exact: each reports overflow precisely when the machine
  result, read as a signed number, is not the mathematical one, and returns the wrapped
  result otherwise (for the 32-bit pair in every case).\<close>

theorem overflow_exact:
  "fst (add_overflow_s32 a b) = (sint (a + b) \<noteq> sint a + sint b) \<and> snd (add_overflow_s32 a b) = a + b
   \<and> fst (sub_overflow_s32 a b) = (sint (a - b) \<noteq> sint a - sint b) \<and> snd (sub_overflow_s32 a b) = a - b
   \<and> fst (add_overflow_s64 x y) = (sint (x + y) \<noteq> sint x + sint y)
   \<and> fst (sub_overflow_s64 x y) = (sint (x - y) \<noteq> sint x - sint y)
   \<and> snd (add_overflow_s64 x y) = (if fst (add_overflow_s64 x y) then 0 else x + y)
   \<and> snd (sub_overflow_s64 x y) = (if fst (sub_overflow_s64 x y) then 0 else x - y)"
proof -
  have 32: "sint (word_of_int (sint a + sint b) :: u64) = sint a + sint b"
    "sint (word_of_int (sint a - sint b) :: u64) = sint a - sint b"
    using s32_bounds [of a] s32_bounds [of b] by (intro sint_word_s64; linarith)+
  have a32: "fst (add_overflow_s32 a b) = (sint (a + b) \<noteq> sint a + sint b)" "snd (add_overflow_s32 a b) = a + b"
    "fst (sub_overflow_s32 a b) = (sint (a - b) \<noteq> sint a - sint b)" "snd (sub_overflow_s32 a b) = a - b"
    unfolding add_overflow_s32_def sub_overflow_s32_def Let_def wide_add narrow_add wide_neq 32
    by auto
  have plus: "(sint (x + y) = sint x + sint y)
      = (- 9223372036854775808 \<le> sint x + sint y \<and> sint x + sint y < 9223372036854775808)"
    using signed_take_bit_int_eq_self_iff [of 63 "sint x + sint y"] by (simp add: sint_word_add)
  have minus: "(sint (x - y) = sint x - sint y)
      = (- 9223372036854775808 \<le> sint x - sint y \<and> sint x - sint y < 9223372036854775808)"
    using signed_take_bit_int_eq_self_iff [of 63 "sint x - sint y"] by (simp add: sint_word_diff)
  have mm: "sint s64_max = 9223372036854775807" "sint s64_min = - 9223372036854775808"
    by (simp_all add: s64_max_def s64_min_def)
  have lim: "sint (s64_max - y) = 9223372036854775807 - sint y" "sint (s64_min + y) = - 9223372036854775808 + sint y"
    if "0 < sint y"
    using that s64_bounds [of y] signed_take_bit_int_eq_self [of 63]
    by (simp_all add: sint_word_diff sint_word_add mm)
  have lim': "sint (s64_min - y) = - 9223372036854775808 - sint y" "sint (s64_max + y) = 9223372036854775807 + sint y"
    if "sint y < 0"
    using that s64_bounds [of y] signed_take_bit_int_eq_self [of 63]
    by (simp_all add: sint_word_diff sint_word_add mm)
  have "fst (add_overflow_s64 x y) = (sint (x + y) \<noteq> sint x + sint y)"
    using lim lim' s64_bounds [of x] s64_bounds [of y]
    by (auto simp: add_overflow_s64_def word_sless_alt plus)
  moreover have "fst (sub_overflow_s64 x y) = (sint (x - y) \<noteq> sint x - sint y)"
    using lim lim' s64_bounds [of x] s64_bounds [of y]
    by (auto simp: sub_overflow_s64_def word_sless_alt minus)
  moreover have "snd (add_overflow_s64 x y) = (if fst (add_overflow_s64 x y) then 0 else x + y)"
    "snd (sub_overflow_s64 x y) = (if fst (sub_overflow_s64 x y) then 0 else x - y)"
    by (simp_all add: add_overflow_s64_def sub_overflow_s64_def)
  ultimately show ?thesis using a32 by blast
qed

section \<open>Multiplication\<close>

lemma unat_ucast_128: "unat (ucast (a :: u64) :: 128 word) = unat a"
proof -
  have "unat a < 2 ^ 128" by (rule order.strict_trans2 [OF unsigned_less]) simp
  then show ?thesis by (simp add: unsigned_ucast_eq take_bit_nat_eq_self_iff)
qed

lemma nat_mult_bound: "(x :: nat) < m \<Longrightarrow> y < n \<Longrightarrow> x * y < m * n"
  by (rule mult_strict_mono') simp_all

lemma unat_prod_128: "unat (ucast (a :: u64) * ucast (b :: u64) :: 128 word) = unat a * unat b"
proof -
  have "unat a * unat b < 2 ^ 64 * 2 ^ 64"
    by (rule nat_mult_bound; rule order.strict_trans2 [OF unsigned_less]) simp_all
  then show ?thesis by (simp add: unat_word_ariths unat_ucast_128)
qed

lemma join128:
  fixes x :: "128 word" and h l :: u64
  assumes "x = ucast h * 2 ^ 64 + ucast l"
  shows "ucast (drop_bit 64 x) = h" "ucast x = l"
proof -
  have b: "unat h < 2 ^ 64" "unat l < 2 ^ 64"
    by (rule order.strict_trans2 [OF unsigned_less]; simp)+
  have x: "unat x = unat h * 2 ^ 64 + unat l"
    using b assms by (simp add: unat_word_ariths unat_ucast_128)
  show "ucast x = l"
    using x b by (simp add: word_unat_eq_iff unsigned_ucast_eq take_bit_eq_mod)
  show "ucast (drop_bit 64 x) = h"
    using x b by (simp add: word_unat_eq_iff unsigned_ucast_eq unat_drop_bit_eq take_bit_eq_mod
        drop_bit_eq_div unat_div_distrib)
qed

lemma split_parts:
  fixes a :: u64
  obtains a1 a0 where "unat a = a1 * 2 ^ 32 + a0" "a0 < 2 ^ 32" "a1 < 2 ^ 32"
    "unat (a AND 0xFFFFFFFF) = a0" "unat (drop_bit 32 a) = a1"
proof -
  have m: "a AND 0xFFFFFFFF = take_bit 32 a"
    by (simp add: take_bit_eq_mask mask_eq_exp_minus_1)
  have lt: "unat a < 2 ^ 64" using unsigned_less [of a] by simp
  show thesis
    by (rule that [of "unat a div 2 ^ 32" "unat a mod 2 ^ 32"])
      (use lt in \<open>simp_all add: m unsigned_take_bit_eq take_bit_eq_mod unat_drop_bit_eq drop_bit_eq_div
        unat_div_distrib unat_mod_distrib less_mult_imp_div_less\<close>)
qed

lemma unat_mult_small: "unat x * unat y < 2 ^ 64 \<Longrightarrow> unat (x * y) = unat x * unat y" for x y :: u64
  by (simp add: unat_word_ariths)

lemma unat_add_small: "unat x + unat y < 2 ^ 64 \<Longrightarrow> unat (x + y) = unat x + unat y" for x y :: u64
  by (simp add: unat_word_ariths)

text \<open>The schoolbook product on 32-bit halves, as natural numbers.\<close>

lemma halves_product:
  fixes a1 a0 b1 b0 B :: nat
  assumes B: "B > 0" and a: "a1 < B" "a0 < B" and b: "b1 < B" "b0 < B"
  defines "mid \<equiv> a0 * b0 div B + a0 * b1 mod B + a1 * b0 mod B"
  defines "hi \<equiv> a1 * b1 + a0 * b1 div B + a1 * b0 div B + mid div B"
    and "lo \<equiv> (mid mod B) * B + a0 * b0 mod B"
  shows "(a1 * B + a0) * (b1 * B + b0) = hi * (B * B) + lo" "lo < B * B" "hi < B * B"
proof -
  have e: "x = x div B * B + x mod B" for x by simp
  have "hi * B + mid mod B = a1 * b1 * B + a0 * b1 div B * B + a1 * b0 div B * B + mid"
    using e [of mid] unfolding hi_def by (simp add: algebra_simps)
  also have "\<dots> = a1 * b1 * B + a0 * b1 + a1 * b0 + a0 * b0 div B"
    using e [of "a0 * b1"] e [of "a1 * b0"] unfolding mid_def by linarith
  finally have "(hi * B + mid mod B) * B = (a1 * b1 * B + a0 * b1 + a1 * b0) * B + a0 * b0 div B * B"
    by (simp add: algebra_simps)
  moreover define Q R where "Q = a0 * b0 div B" and "R = a0 * b0 mod B"
  moreover have "a0 * b0 = Q * B + R" by (simp add: Q_def R_def)
  ultimately show eq: "(a1 * B + a0) * (b1 * B + b0) = hi * (B * B) + lo"
    unfolding lo_def Q_def [symmetric] R_def [symmetric] by (simp add: algebra_simps)
  have "mid mod B < B" "a0 * b0 mod B < B" using B by simp_all
  moreover from this have "Suc (mid mod B) * B \<le> B * B" by (intro mult_le_mono1 Suc_leI)
  ultimately show "lo < B * B" unfolding lo_def by (simp add: algebra_simps)
  have "a1 * B + a0 < B * B" "b1 * B + b0 < B * B"
    using a b mult_le_mono1 [of "a1 + 1" B B] mult_le_mono1 [of "b1 + 1" B B]
    by (simp_all add: algebra_simps)
  then have "(a1 * B + a0) * (b1 * B + b0) < (B * B) * (B * B)" by (rule nat_mult_bound)
  then have "hi * (B * B) < (B * B) * (B * B)" using eq by linarith
  then show "hi < B * B" by simp
qed

lemma unat_join32:
  fixes x y :: u64
  assumes "unat x < 2 ^ 32"
  shows "unat (x OR push_bit 32 y) = unat x + (unat y mod 2 ^ 32) * 2 ^ 32"
proof -
  have x: "take_bit 32 x = x"
    using assms by (simp add: word_unat_eq_iff unsigned_take_bit_eq take_bit_nat_eq_self)
  have "x AND push_bit 32 y = 0"
    by (subst x [symmetric]) (rule bit_word_eqI, simp add: bit_simps)
  then have s: "x OR push_bit 32 y = x + push_bit 32 y"
    by (rule disjunctive_add_eq_or [symmetric])
  have p: "unat (push_bit 32 y) = (unat y mod 2 ^ 32) * 2 ^ 32"
    using mod_mult_mult2 [of "unat y" "2 ^ 32" "2 ^ 32 :: nat"]
    by (simp add: push_bit_eq_mult unat_word_ariths)
  have "unat y mod 2 ^ 32 < 2 ^ 32" by simp
  then have "unat x + unat (push_bit 32 y) < 2 ^ 64" using assms unfolding p by simp
  then show ?thesis unfolding s p [symmetric] by (rule unat_add_small)
qed

lemma cat128:
  fixes x :: "128 word" and h l :: u64
  assumes "unat x = unat h * 2 ^ 64 + unat l"
  shows "x = ucast h * 2 ^ 64 + ucast l"
proof -
  have b: "unat h < 2 ^ 64" "unat l < 2 ^ 64"
    by (rule order.strict_trans2 [OF unsigned_less]; simp)+
  then show ?thesis
    using assms by (simp add: word_unat_eq_iff unat_word_ariths unat_ucast_128)
qed

lemma mult_u64_join: "ucast a * ucast b
    = ucast (fst (mult_u64 a b)) * 2 ^ 64 + (ucast (snd (mult_u64 a b)) :: 128 word)"
proof -
  let ?r = "ucast a * ucast b :: 128 word"
  have lt: "unat ?r < 2 ^ 128" by (rule order.strict_trans2 [OF unsigned_less]) simp
  have "unat (ucast (drop_bit 64 ?r) :: u64) = unat ?r div 2 ^ 64"
    "unat (ucast ?r :: u64) = unat ?r mod 2 ^ 64"
    using lt
    by (simp_all add: unsigned_ucast_eq take_bit_eq_mod unat_drop_bit_eq drop_bit_eq_div
        unat_div_distrib unat_mod_distrib less_mult_imp_div_less)
  then show ?thesis
    by (intro cat128) (simp add: mult_u64_def Let_def)
qed

lemma mult_u64_portable_eq: "mult_u64_portable a b = mult_u64 a b"
proof -
  obtain a1 a0 where a: "unat a = a1 * 2 ^ 32 + a0" "a0 < 2 ^ 32" "a1 < 2 ^ 32"
    "unat (a AND 0xFFFFFFFF) = a0" "unat (drop_bit 32 a) = a1" by (rule split_parts)
  obtain b1 b0 where b: "unat b = b1 * 2 ^ 32 + b0" "b0 < 2 ^ 32" "b1 < 2 ^ 32"
    "unat (b AND 0xFFFFFFFF) = b0" "unat (drop_bit 32 b) = b1" by (rule split_parts)
  define B :: nat where "B = 2 ^ 32"
  have BB: "B * B = 2 ^ 64" "0 < B" "3 * B < 2 ^ 64" by (simp_all add: B_def)
  note a = a [folded B_def] and b = b [folded B_def]
  let ?al = "a AND 0xFFFFFFFF" and ?ah = "drop_bit 32 a" and ?bl = "b AND 0xFFFFFFFF"
    and ?bh = "drop_bit 32 b"
  have lt: "x < B \<Longrightarrow> y < B \<Longrightarrow> x * y < 2 ^ 64" for x y
    using nat_mult_bound [of x B y B] BB(1) by simp
  have p: "unat (?al * ?bl) = a0 * b0" "unat (?al * ?bh) = a0 * b1" "unat (?ah * ?bl) = a1 * b0"
    "unat (?ah * ?bh) = a1 * b1"
    using lt [OF a(2) b(2)] lt [OF a(2) b(3)] lt [OF a(3) b(2)] lt [OF a(3) b(3)]
    by (simp_all only: unat_mult_small a(4,5) b(4,5))
  have dm: "unat (drop_bit 32 x) = unat x div B" "unat (x AND 0xFFFFFFFF) = unat x mod B" for x :: u64
  proof -
    have m: "x AND 0xFFFFFFFF = take_bit 32 x"
      by (simp add: take_bit_eq_mask mask_eq_exp_minus_1)
    show "unat (drop_bit 32 x) = unat x div B" "unat (x AND 0xFFFFFFFF) = unat x mod B"
      unfolding m B_def unat_drop_bit_eq by (simp_all add: drop_bit_eq_div unsigned_take_bit_eq take_bit_eq_mod
          unat_mod_distrib)
  qed
  define mid where "mid = a0 * b0 div B + a0 * b1 mod B + a1 * b0 mod B"
  define hi where "hi = a1 * b1 + a0 * b1 div B + a1 * b0 div B + mid div B"
  define lo where "lo = mid mod B * B + a0 * b0 mod B"
  note hp = halves_product [OF BB(2) a(3,2) b(3,2)]
  have prod: "unat a * unat b = hi * (B * B) + lo" "lo < B * B" "hi < B * B"
    unfolding a(1) b(1) hi_def lo_def mid_def by (fact hp)+
  have small: "a0 * b0 div B < B" "a0 * b1 mod B < B" "a1 * b0 mod B < B" "a0 * b0 mod B < B"
    using less_mult_imp_div_less [OF nat_mult_bound [OF a(2) b(2)]] BB(2) by simp_all
  define w where "w = drop_bit 32 (?al * ?bl) + (?al * ?bh AND 0xFFFFFFFF) + (?ah * ?bl AND 0xFFFFFFFF)"
  have m: "unat w = mid"
  proof -
    have x: "unat (drop_bit 32 (?al * ?bl)) = a0 * b0 div B" "unat (?al * ?bh AND 0xFFFFFFFF) = a0 * b1 mod B"
      "unat (?ah * ?bl AND 0xFFFFFFFF) = a1 * b0 mod B" by (simp_all only: dm p)
    then have "unat (drop_bit 32 (?al * ?bl) + (?al * ?bh AND 0xFFFFFFFF)) = a0 * b0 div B + a0 * b1 mod B"
      using unat_add_small [of "drop_bit 32 (?al * ?bl)" "?al * ?bh AND 0xFFFFFFFF"] small BB(3) by linarith
    then show ?thesis
      using unat_add_small [of "drop_bit 32 (?al * ?bl) + (?al * ?bh AND 0xFFFFFFFF)" "?ah * ?bl AND 0xFFFFFFFF"]
        small BB(3) x(3) unfolding w_def mid_def by linarith
  qed
  have res: "mult_u64_portable a b = (?ah * ?bh + drop_bit 32 (?al * ?bh) + drop_bit 32 (?ah * ?bl) + drop_bit 32 w,
      (?al * ?bl AND 0xFFFFFFFF) OR push_bit 32 w)"
    by (simp only: mult_u64_portable_def Let_def w_def)
  have h: "unat (fst (mult_u64_portable a b)) = hi"
  proof -
    have x: "unat (?ah * ?bh) = a1 * b1" "unat (drop_bit 32 (?al * ?bh)) = a0 * b1 div B"
      "unat (drop_bit 32 (?ah * ?bl)) = a1 * b0 div B" "unat (drop_bit 32 w) = mid div B"
      by (simp_all only: dm p m)
    have top: "a1 * b1 + a0 * b1 div B + a1 * b0 div B + mid div B < 2 ^ 64"
      using prod(3) unfolding BB(1) hi_def .
    then have "unat (?ah * ?bh + drop_bit 32 (?al * ?bh)) = a1 * b1 + a0 * b1 div B"
      using unat_add_small [of "?ah * ?bh" "drop_bit 32 (?al * ?bh)"] x by linarith
    then have "unat (?ah * ?bh + drop_bit 32 (?al * ?bh) + drop_bit 32 (?ah * ?bl))
        = a1 * b1 + a0 * b1 div B + a1 * b0 div B"
      using unat_add_small [of "?ah * ?bh + drop_bit 32 (?al * ?bh)" "drop_bit 32 (?ah * ?bl)"] x top
      by linarith
    then show ?thesis
      using unat_add_small [of "?ah * ?bh + drop_bit 32 (?al * ?bh) + drop_bit 32 (?ah * ?bl)" "drop_bit 32 w"]
        x top unfolding res fst_conv hi_def by linarith
  qed
  have l: "unat (snd (mult_u64_portable a b)) = lo"
    using unat_join32 [of "?al * ?bl AND 0xFFFFFFFF" w, folded B_def] small(4)
    unfolding res snd_conv lo_def dm p m by simp
  have "ucast a * ucast b = ucast (fst (mult_u64_portable a b)) * 2 ^ 64
      + (ucast (snd (mult_u64_portable a b)) :: 128 word)"
    by (rule cat128) (simp only: h l unat_prod_128 prod(1) BB(1))
  from join128 [OF this] show ?thesis
    by (simp add: mult_u64_def Let_def prod_eq_iff)
qed

text \<open>C25: The portable product of \<open>mult_u64\<close>, used where the compiler has no 128-bit integer, is
  the 128-bit product on every pair of operands.\<close>

theorem mult_u64_portable_correct: "mult_u64_portable a b = mult_u64 a b"
  by (rule mult_u64_portable_eq)

lemma u64_uint_bounds: "0 \<le> uint (a :: u64)" "uint a < 18446744073709551616"
  using uint_bounded [of a] by simp_all

lemma sint_u64: "sint (a :: u64) = (if a <s 0 then uint a - 18446744073709551616 else uint a)"
proof -
  have s: "sint a = (uint a + 9223372036854775808) mod 18446744073709551616 - 9223372036854775808"
    by (simp add: sint_uint signed_take_bit_eq_take_bit_shift take_bit_eq_mod)
  show ?thesis
  proof (cases "uint a < 9223372036854775808")
    case True
    then have "sint a = uint a" using s u64_uint_bounds [of a] by simp
    then show ?thesis using u64_uint_bounds [of a] by (simp add: word_sless_alt)
  next
    case False
    then have "(uint a + 9223372036854775808) mod 18446744073709551616 = uint a - 9223372036854775808"
      using u64_uint_bounds [of a]
      by (intro int_mod_pos_eq [of _ _ 1]) simp_all
    then show ?thesis using s False u64_uint_bounds [of a] by (simp add: word_sless_alt)
  qed
qed

lemma uint_neg_u64: "(l :: u64) \<noteq> 0 \<Longrightarrow> uint (- l) = 18446744073709551616 - uint l"
  using u64_uint_bounds [of l] uint_word_ariths(4) [of l] zmod_zminus1_eq_if [of "uint l" "2 ^ 64"]
  by (simp add: word_uint_eq_iff)

lemma ucast128: "(ucast (x :: u64) :: 128 word) = word_of_int (uint x)"
  by simp

lemma scast128:
  "(scast (a :: u64) :: 128 word) = (if a <s 0 then - ucast (- a) else ucast a)"
proof (cases "a <s 0")
  case True
  then have nz: "a \<noteq> 0" by auto
  have s: "sint a = - uint (- a)" using True uint_neg_u64 [OF nz] by (simp add: sint_u64)
  show ?thesis
    by (simp only: True if_True scast_eq_of_int ucast128 s of_int_minus)
next
  case False
  then have s: "sint a = uint a" by (simp add: sint_u64)
  show ?thesis by (simp only: False if_False scast_eq_of_int ucast128 s)
qed

lemma uminus_join:
  fixes h l :: u64
  shows "- (ucast h * 2 ^ 64 + ucast l :: 128 word)
    = ucast (NOT h + (if NOT l + 1 = 0 then 1 else 0)) * 2 ^ 64 + ucast (NOT l + 1)"
proof -
  have n: "NOT x + 1 = - x" for x :: u64 by (simp add: minus_eq_not_plus_1)
  have u: "(ucast (- x) :: 128 word) = 2 ^ 64 - ucast x" if "x \<noteq> 0" for x :: u64
    unfolding ucast128 uint_neg_u64 [OF that] by simp
  have c: "(ucast (NOT x) :: 128 word) = 2 ^ 64 - 1 - ucast x" for x :: u64
  proof -
    have "NOT x = word_of_int (18446744073709551615 - uint x)"
      by (simp add: not_eq_complement)
    moreover have "(18446744073709551615 - uint x) mod 18446744073709551616 = 18446744073709551615 - uint x"
      using u64_uint_bounds [of x] by (intro mod_pos_pos_trivial) linarith+
    ultimately have "uint (NOT x) = 18446744073709551615 - uint x"
      by (simp only: uint_word_of_int take_bit_eq_mod) simp
    then show ?thesis unfolding ucast128 by simp
  qed
  show ?thesis
  proof (cases "l = 0")
    case True
    show ?thesis
    proof (cases "h = 0")
      case False
      have e: "NOT h + (if NOT l + 1 = 0 then 1 else 0) = - h" "NOT l + 1 = 0"
        using True by (simp_all add: n)
      show ?thesis unfolding e(1) unfolding e(2) u [OF False] by (simp add: True left_diff_distrib)
    qed (use True in \<open>simp add: n\<close>)
  next
    case False
    then have e: "NOT h + (if - l = 0 then 1 else 0) = NOT h" by simp
    have "(2 :: 128 word) ^ 64 * 2 ^ 64 = 2 ^ LENGTH(128)"
      by (simp only: power_add [symmetric]) simp
    then have z: "(2 :: 128 word) ^ 64 * 2 ^ 64 = 0" by (simp only: word_exp_length_eq_0)
    have "- (H * P + L) = (P - 1 - H) * P + (P - L)" if "P * P = 0" for H L P :: "128 word"
      using that by (simp add: algebra_simps)
    from this [OF z] show ?thesis unfolding n e unfolding u [OF False] c .
  qed
qed

text \<open>The portable signed product, sign and magnitude with a 128-bit negation done by hand, is
  the 128-bit signed product on every pair of operands, the most negative number included.\<close>

theorem mult_s64_portable_correct: "mult_s64_portable a b = mult_s64 a b"
proof -
  define m where "m = (\<lambda>v :: u64. if v <s 0 then NOT v + 1 else v)"
  have m: "m v = (if v <s 0 then - v else v)" for v by (simp add: m_def minus_eq_not_plus_1)
  obtain h l where hl: "mult_u64 (m a) (m b) = (h, l)" by fastforce
  then have j: "ucast (m a) * ucast (m b) = (ucast h * 2 ^ 64 + ucast l :: 128 word)"
    using mult_u64_join [of "m a" "m b"] by simp
  have r: "(scast a * scast b :: 128 word)
      = (if (a <s 0) \<noteq> (b <s 0) then - (ucast (m a) * ucast (m b)) else ucast (m a) * ucast (m b))"
    by (simp add: scast128 m)
  have p: "mult_s64_portable a b = (if (a <s 0) \<noteq> (b <s 0)
      then (NOT h + (if NOT l + 1 = 0 then 1 else 0), NOT l + 1) else (h, l))"
    unfolding mult_s64_portable_def Let_def m_def [symmetric] mult_u64_portable_eq hl by simp
  show ?thesis
  proof (cases "(a <s 0) \<noteq> (b <s 0)")
    case True
    have "scast a * scast b = (ucast (NOT h + (if NOT l + 1 = 0 then 1 else 0)) * 2 ^ 64
        + ucast (NOT l + 1) :: 128 word)"
      unfolding r if_P [OF True] j by (rule uminus_join)
    from join128 [OF this] show ?thesis
      unfolding p if_P [OF True] by (simp only: mult_s64_def Let_def)
  next
    case False
    have "scast a * scast b = (ucast h * 2 ^ 64 + ucast l :: 128 word)"
      unfolding r if_not_P [OF False] by (rule j)
    from join128 [OF this] show ?thesis
      unfolding p if_not_P [OF False] by (simp only: mult_s64_def Let_def)
  qed
qed

section \<open>Division\<close>

lemma sdiv_range:
  fixes a b M :: int
  assumes "0 < M" "- M \<le> a" "a < M" "b \<noteq> 0" "\<not> (a = - M \<and> b = - 1)"
  shows "- M \<le> a sdiv b" "a sdiv b < M"
proof -
  have r: "- \<bar>a\<bar> \<le> a sdiv b" "a sdiv b \<le> \<bar>a\<bar>" using sdiv_int_range [of a b] by auto
  then show "- M \<le> a sdiv b" using assms by linarith
  show "a sdiv b < M"
  proof (cases "a = - M")
    case False
    then show ?thesis using r assms by linarith
  next
    case True
    then have b: "b \<noteq> - 1" using assms by blast
    have "\<bar>b\<bar> \<ge> 2 \<or> 0 < b" using assms(4) b by linarith
    then show ?thesis
    proof
      assume "\<bar>b\<bar> \<ge> 2"
      then have "M div \<bar>b\<bar> \<le> M div 2" using assms(1) by (intro zdiv_mono2) auto
      then have "M div \<bar>b\<bar> < M" "0 \<le> M div \<bar>b\<bar>"
        using assms(1,4) by (auto simp: pos_imp_zdiv_nonneg_iff)
      then show ?thesis using True assms(1) by (auto simp: signed_divide_int_def sgn_if)
    next
      assume "0 < b"
      then have "0 \<le> M div \<bar>b\<bar>" using assms(1) by (simp add: pos_imp_zdiv_nonneg_iff)
      then show ?thesis using True assms(1) \<open>0 < b\<close> by (simp add: signed_divide_int_def)
    qed
  qed
qed

lemma smod_range:
  fixes a b M :: int
  assumes "- M \<le> b" "b < M" "b \<noteq> 0"
  shows "- M \<le> a smod b" "a smod b < M"
  using smod_int_range [of b a] assms by (auto simp: abs_if split: if_splits)

lemma sint_word_s32:
  "- 2147483648 \<le> k \<Longrightarrow> k < 2147483648 \<Longrightarrow> sint (word_of_int k :: u32) = k"
  using signed_take_bit_int_eq_self [of 31 k] by (simp add: sint_sbintrunc')

lemma smod_sgn: "(a :: int) smod b = 0 \<or> sgn (a smod b) = sgn a"
proof (cases "\<bar>a\<bar> mod \<bar>b\<bar> = 0")
  case False
  then have "0 < \<bar>a\<bar> mod \<bar>b\<bar>"
    by (metis abs_0 abs_ge_zero le_neq_trans mod_by_0 pos_mod_sign zero_less_abs_iff mod_0)
  then show ?thesis by (simp add: smod_int_alt_def sgn_mult)
qed (simp add: smod_int_alt_def)

text \<open>The signed divisions are truncating division with remainder: whenever the divisor is not
  zero and the quotient is representable, LO and HI satisfy \<open>num = LO * den + HI\<close> with the
  remainder smaller than the divisor and of the dividend's sign; 32-bit results are
  sign-extended.\<close>

theorem signed_division_correct:
  assumes "den \<noteq> 0" "\<not> (num = 0x80000000 \<and> den = - 1)"
    and "den' \<noteq> 0" "\<not> (num' = 0x8000000000000000 \<and> den' = - 1)"
  shows "sint num = sint (snd (div_s32 num den)) * sint den + sint (fst (div_s32 num den))
    \<and> \<bar>sint (fst (div_s32 num den))\<bar> < \<bar>sint den\<bar>
    \<and> (fst (div_s32 num den) = 0 \<or> sgn (sint (fst (div_s32 num den))) = sgn (sint num))
    \<and> sint num' = sint (snd (div_s64 num' den')) * sint den' + sint (fst (div_s64 num' den'))
    \<and> \<bar>sint (fst (div_s64 num' den'))\<bar> < \<bar>sint den'\<bar>
    \<and> (fst (div_s64 num' den') = 0 \<or> sgn (sint (fst (div_s64 num' den'))) = sgn (sint num'))"
proof -
  have d: "sint den \<noteq> 0" "sint den' \<noteq> 0"
    using assms signed_word_eqI [of den 0] signed_word_eqI [of den' 0] by auto
  have o: "\<not> (sint num = - 2147483648 \<and> sint den = - 1)"
  proof
    assume "sint num = - 2147483648 \<and> sint den = - 1"
    then have "num = 0x80000000" "den = - 1" by (auto intro: signed_word_eqI)
    then show False using assms(2) by simp
  qed
  have o': "\<not> (sint num' = - 9223372036854775808 \<and> sint den' = - 1)"
  proof
    assume "sint num' = - 9223372036854775808 \<and> sint den' = - 1"
    then have "num' = 0x8000000000000000" "den' = - 1" by (auto intro: signed_word_eqI)
    then show False using assms(4) by simp
  qed
  note q = sdiv_range [of 2147483648, OF _ s32_bounds d(1) o, simplified]
  note q' = sdiv_range [of 9223372036854775808, OF _ s64_bounds d(2) o', simplified]
  note r = smod_range [OF s32_bounds d(1), of "sint num"]
  note r' = smod_range [OF s64_bounds d(2), of "sint num'"]
  have v: "sint (snd (div_s32 num den)) = sint num sdiv sint den"
    "sint (fst (div_s32 num den)) = sint num smod sint den"
    using assms(1,2) q r by (auto simp: div_s32_def sext32_def sint_word_s32)
  have v': "sint (snd (div_s64 num' den')) = sint num' sdiv sint den'"
    "sint (fst (div_s64 num' den')) = sint num' smod sint den'"
    using assms(3,4) q' r' by (auto simp: div_s64_def sint_word_s64)
  have z: "sint w = 0 \<Longrightarrow> w = 0" for w :: u64 using signed_word_eqI [of w 0] by simp
  show ?thesis
    using smod_int_range [OF d(1), of "sint num"] smod_int_range [OF d(2), of "sint num'"]
      smod_sgn [of "sint num" "sint den"] smod_sgn [of "sint num'" "sint den'"] z v z v'
      mult_sdiv_smod_eq [of "sint den" "sint num"] mult_sdiv_smod_eq [of "sint den'" "sint num'"]
    by (auto simp: mult.commute)
qed

theorem signed_division_correct_witness:
  "div_s32 (- 7) 2 = (- 1, - 3) \<and> sint (- 7 :: u32) = - 3 * 2 + - 1"
  using signed_division_correct [of 2 "- 7" 2 "- 7"] by (simp add: div_s32_def sext32_def)

section \<open>What the instructions preserve\<close>

text \<open>The RCP interrupt bit of Cause: only \<open>set_rcp_interrupt\<close> moves it.\<close>

definition ip2 :: "cpu \<Rightarrow> bool" where
  "ip2 c \<longleftrightarrow> c_cop0 c Cop0_Cause AND CAUSE_IP2 \<noteq> 0"

lemma ip2_bit: "ip2 c = bit (c_cop0 c Cop0_Cause) 10"
  using and_exp_eq_0_iff_not_bit [of "c_cop0 c Cop0_Cause" 10] by (simp add: ip2_def CAUSE_IP2_def)

lemma bit_literals:
  "bit CAUSE_IP7 n \<longleftrightarrow> n = 15" "bit CAUSE_IP2 n \<longleftrightarrow> n = 10"
  using bit_exp_iff [where 'a = "32 word", of 15 n] bit_exp_iff [where 'a = "32 word", of 10 n]
  by (auto simp: CAUSE_defs)

lemma bit_0x300: "bit (0x300 :: u32) n \<longleftrightarrow> n = 8 \<or> n = 9"
proof -
  have m: "(0x300 :: u32) = push_bit 8 (mask 2)" by (simp add: mask_eq_exp_minus_1)
  show ?thesis unfolding m by (auto simp: bit_push_bit_iff bit_mask_iff)
qed

lemma ip2_set_rcp [simp]: "ip2 (set_rcp_interrupt level c) = level"
  by (simp add: set_rcp_interrupt_def ip2_bit bit_simps bit_literals)

lemma ip2_raise_exception [irq_simps]: "ip2 (raise_exception x b e t c) = ip2 c"
  by (simp add: ip2_bit raise_exception_cause Let_def bit_simps bit_cause_fields bit_CAUSE_BD)

lemma ip2_raise_plain [irq_simps]: "ip2 (raise_plain x c) = ip2 c"
  by (simp add: raise_plain_def irq_simps)

lemma ip2_update [irq_simps]:
  "ip2 (write_gpr r v c) = ip2 c" "ip2 (branch_abs p c) = ip2 c" "ip2 (branch_rel i c) = ip2 c"
  "ip2 (nullify c) = ip2 c" "ip2 (link_reg r c) = ip2 c" "ip2 (set_hi_lo h l c) = ip2 c"
  "ip2 (c\<lparr>c_unknown_opcode_count := n\<rparr>) = ip2 c" "ip2 (c\<lparr>c_hi := h\<rparr>) = ip2 c"
  "ip2 (c\<lparr>c_lo := l\<rparr>) = ip2 c" "ip2 (set_gpr r v c) = ip2 c" "ip2 (set_pc p c) = ip2 c"
  by (simp_all add: ip2_def branch_abs_def branch_rel_def nullify_def link_reg_def set_hi_lo_def
      set_gpr_def set_pc_def)

lemma ip2_advance_count [irq_simps]: "ip2 (advance_count c) = ip2 c"
  by (simp add: ip2_bit advance_count_cause bit_simps bit_literals)

lemma ip2_set_cop0 [irq_simps]: "ip2 (fst (set_cop0 r v c)) = ip2 c"
proof -
  have m: "bit (NOT (push_bit 15 1) :: u32) 10"
    by (simp add: bit_not_iff_eq bit_push_bit_iff del: push_bit_of_1)
  show ?thesis
    by (auto simp: set_cop0_def Let_def ip2_bit bit_and_iff bit_or_iff m bit_not_iff_eq bit_0x300)
qed

lemma ip2_tlb [irq_simps]:
  "ip2 (tlb_read_indexed c) = ip2 c" "ip2 (tlb_write_indexed i c) = ip2 c"
  "ip2 (tlb_probe c) = ip2 c" "ip2 (do_eret c) = ip2 c"
  by (simp_all add: ip2_def tlb_read_indexed_def tlb_write_indexed_def tlb_probe_def do_eret_def
      Let_def split_def)

lemma ip2_check_interrupts [irq_simps]: "ip2 (check_interrupts c) = ip2 c"
  by (simp add: check_interrupts_def Let_def irq_simps)

lemma ip2_translate [irq_simps]:
  "ip2 (raise_translation_fault f b st c) = ip2 c"
  "ip2 (snd (translate_or_raise v b st c)) = ip2 c"
  "ip2 (snd (probe_read v sz c)) = ip2 c" "ip2 (snd (probe_write v sz c)) = ip2 c"
proof -
  show r: "ip2 (raise_translation_fault f b st c) = ip2 c" for f b st c
    by (cases f) (simp_all add: irq_simps)
  show t: "ip2 (snd (translate_or_raise v b st c)) = ip2 c" for v b st c
    by (simp add: translate_or_raise_def r irq_simps split: translation.split)
  show "ip2 (snd (probe_read v sz c)) = ip2 c" "ip2 (snd (probe_write v sz c)) = ip2 c"
    by (simp_all add: probe_read_def probe_write_def t irq_simps)
qed

lemma ip2_exec_cop0 [irq_simps]: "ip2 (fst (exec_cop0 insn c)) = ip2 c"
  by (simp add: exec_cop0_def Let_def if_distrib [of fst] if_distrib [of ip2] irq_simps)

lemma cpu_wf_reserved [wf_intros]: "cpu_wf c \<Longrightarrow> cpu_wf (reserved_instruction c)"
  unfolding reserved_instruction_def by (rule cpu_wf_raise_plain) (simp add: cpu_wf_def)

lemma cpu_wf_hi_lo [wf_intros]:
  "cpu_wf c \<Longrightarrow> cpu_wf (set_hi_lo h l c)" "cpu_wf c \<Longrightarrow> cpu_wf (c\<lparr>c_hi := h\<rparr>)"
  "cpu_wf c \<Longrightarrow> cpu_wf (c\<lparr>c_lo := l\<rparr>)"
  by (simp_all add: cpu_wf_def set_hi_lo_def)

lemma cpu_wf_or_exception [wf_intros]:
  "cpu_wf c \<Longrightarrow> cpu_wf (write_or_overflow r p c)" "cpu_wf c \<Longrightarrow> cpu_wf (trap_if b c)"
  "cpu_wf c \<Longrightarrow> cpu_wf (branch_if b i c)" "cpu_wf c \<Longrightarrow> cpu_wf (branch_likely_if b i c)"
  by (simp_all add: write_or_overflow_def trap_if_def branch_if_def branch_likely_if_def wf_intros)

lemma ip2_or_exception [irq_simps]:
  "ip2 (reserved_instruction c) = ip2 c"
  "ip2 (write_or_overflow r p c) = ip2 c" "ip2 (trap_if b c) = ip2 c"
  "ip2 (branch_if b i c) = ip2 c" "ip2 (branch_likely_if b i c) = ip2 c"
  by (simp_all add: reserved_instruction_def write_or_overflow_def trap_if_def branch_if_def
      branch_likely_if_def irq_simps)

lemma cpu_wf_exec_special [wf_intros]: "cpu_wf c \<Longrightarrow> cpu_wf (exec_special insn c)"
  unfolding exec_special_def special_shift_jump_def special_mult_div_def special_arith_def Let_def
  by (intro pred_if [where P = cpu_wf] wf_intros)

lemma ip2_exec_special [irq_simps]: "ip2 (exec_special insn c) = ip2 c"
  unfolding exec_special_def special_shift_jump_def special_mult_div_def special_arith_def Let_def
  by (simp add: if_distrib [of ip2] irq_simps)

lemma cpu_wf_exec_regimm [wf_intros]: "cpu_wf c \<Longrightarrow> cpu_wf (exec_regimm insn c)"
  unfolding exec_regimm_def Let_def by (intro pred_if [where P = cpu_wf] wf_intros)

lemma ip2_exec_regimm [irq_simps]: "ip2 (exec_regimm insn c) = ip2 c"
  unfolding exec_regimm_def Let_def by (simp add: if_distrib [of ip2] irq_simps)

end
