(* ===== verification/Block_Cache.thy ===== *)
theory Block_Cache
  imports Prelude
begin

unbundle bit_operations_syntax

text \<open>
  \<open>BlockCache\<close> (\<open>include/n64/cpu/block_cache.hpp\<close>, \<open>src/cpu/block_cache.cpp\<close>): the
  direct-mapped table of pre-fetched basic blocks, the reverse set of slots whose physical
  address cannot be derived from their index, and invalidation by physical range. The
  address translation and the constant bus read that \<open>compile\<close> calls are its arguments.
  The loop over the reverse set removes elements while it walks; it carries fuel here and is
  shown to end.
\<close>

section \<open>State\<close>

record basic_block =
  bb_start_pc :: u64
  bb_paddr :: u32
  bb_insns :: "u32 list"
  bb_ends_with_branch :: bool

record slot =
  sl_tag_pc :: u64
  sl_block :: basic_block
  sl_valid :: bool
  sl_aliased :: "nat option" \<comment> \<open>\<open>aliased_position\<close>; \<open>kNotAliased\<close> is \<open>None\<close>\<close>

record block_cache =
  bc_table :: "nat \<Rightarrow> slot"
  bc_aliased :: "nat list" \<comment> \<open>\<open>physically_aliased_slots_\<close>\<close>
  bc_count :: nat
  bc_hits :: u64
  bc_misses :: u64

definition kMaxBlockInsns :: nat where "kMaxBlockInsns = 32"
definition kDirectTableSize :: nat where "kDirectTableSize = 65536"

definition empty_block :: basic_block where
  "empty_block = \<lparr>bb_start_pc = 0, bb_paddr = 0, bb_insns = [], bb_ends_with_branch = False\<rparr>"

definition empty_slot :: slot where
  "empty_slot = \<lparr>sl_tag_pc = NOT 0, sl_block = empty_block, sl_valid = False, sl_aliased = None\<rparr>"

definition bc_new :: block_cache where
  "bc_new = \<lparr>bc_table = (\<lambda>_. empty_slot), bc_aliased = [], bc_count = 0, bc_hits = 0, bc_misses = 0\<rparr>"

definition upd_slot :: "nat \<Rightarrow> (slot \<Rightarrow> slot) \<Rightarrow> block_cache \<Rightarrow> block_cache" where
  "upd_slot i f bc = bc\<lparr>bc_table := (bc_table bc)(i := f (bc_table bc i))\<rparr>"

definition slot_of_pc :: "u64 \<Rightarrow> nat" where
  "slot_of_pc vaddr = unat (drop_bit 2 vaddr AND 0xFFFF)"

section \<open>The reverse set\<close>

definition mark_aliased :: "nat \<Rightarrow> block_cache \<Rightarrow> block_cache" where
  "mark_aliased i bc =
    (if sl_aliased (bc_table bc i) \<noteq> None then bc
     else (upd_slot i (\<lambda>s. s\<lparr>sl_aliased := Some (length (bc_aliased bc))\<rparr>) bc)
       \<lparr>bc_aliased := bc_aliased bc @ [i]\<rparr>)"

definition unmark_aliased :: "nat \<Rightarrow> block_cache \<Rightarrow> block_cache" where
  "unmark_aliased i bc =
    (case sl_aliased (bc_table bc i) of
       None \<Rightarrow> bc
     | Some position \<Rightarrow>
        (let replacement = last (bc_aliased bc);
             l1 = (bc_aliased bc)[position := replacement];
             bc1 = upd_slot replacement (\<lambda>s. s\<lparr>sl_aliased := Some position\<rparr>) bc
         in upd_slot i (\<lambda>s. s\<lparr>sl_aliased := None\<rparr>) (bc1\<lparr>bc_aliased := butlast l1\<rparr>)))"

definition invalidate_slot :: "nat \<Rightarrow> block_cache \<Rightarrow> block_cache" where
  "invalidate_slot i bc =
    (if \<not> sl_valid (bc_table bc i) then bc
     else
      (let bc1 = unmark_aliased i bc;
           bc2 = upd_slot i (\<lambda>s. s\<lparr>sl_valid := False, sl_tag_pc := NOT 0\<rparr>) bc1
       in if bc_count bc2 > 0 then bc2\<lparr>bc_count := bc_count bc2 - 1\<rparr> else bc2))"

section \<open>Lookup, compile, invalidate, clear\<close>

definition bc_clear :: "block_cache \<Rightarrow> block_cache" where
  "bc_clear bc = bc\<lparr>bc_table := (\<lambda>i. (bc_table bc i)
       \<lparr>sl_valid := False, sl_tag_pc := NOT 0, sl_aliased := None\<rparr>),
     bc_aliased := [], bc_count := 0\<rparr>"

definition bc_lookup :: "u64 \<Rightarrow> block_cache \<Rightarrow> basic_block option \<times> block_cache" where
  "bc_lookup vaddr bc =
    (let s = bc_table bc (slot_of_pc vaddr)
     in if sl_valid s \<and> sl_tag_pc s = vaddr
        then (Some (sl_block s), bc\<lparr>bc_hits := bc_hits bc + 1\<rparr>)
        else (None, bc\<lparr>bc_misses := bc_misses bc + 1\<rparr>))"

definition is_branch_or_jump :: "u32 \<Rightarrow> bool" where
  "is_branch_or_jump insn =
    (let op = drop_bit 26 insn in
     if op = 0x00 then (let fn = insn AND 63 in fn = 0x08 \<or> fn = 0x09)
     else if op = 0x01 then
       (let rt = drop_bit 16 insn AND 31 in
        rt = 0x00 \<or> rt = 0x01 \<or> rt = 0x02 \<or> rt = 0x03
        \<or> rt = 0x10 \<or> rt = 0x11 \<or> rt = 0x12 \<or> rt = 0x13)
     else if op = 0x02 \<or> op = 0x03 \<or> op = 0x04 \<or> op = 0x05 \<or> op = 0x06 \<or> op = 0x07
       \<or> op = 0x14 \<or> op = 0x15 \<or> op = 0x16 \<or> op = 0x17 then True
     else if op = 0x11 then drop_bit 21 insn AND 31 = 0x08
     else False)"

definition is_terminal_no_delay :: "u32 \<Rightarrow> bool" where
  "is_terminal_no_delay insn =
    (let op = drop_bit 26 insn in
     if op = 0x00 then (let fn = insn AND 63 in fn = 0x0C \<or> fn = 0x0D)
     else if op = 0x10 then
       (let rs = drop_bit 21 insn AND 31; fn = insn AND 63 in
        if rs = 0x10 then fn = 0x01 \<or> fn = 0x02 \<or> fn = 0x06 \<or> fn = 0x08 \<or> fn = 0x18
        else if rs = 0x04 then
          (let rd = drop_bit 11 insn AND 31
           in rd = 12 \<or> rd = 13 \<or> rd = 11 \<or> rd = 10 \<or> rd = 16)
        else False)
     else False)"

text \<open>The fetch loop of \<open>compile\<close>: \<open>n\<close> instructions may still be added. The result is the
  instructions and whether the block ends with a branch.\<close>

fun compile_loop ::
    "(u64 \<Rightarrow> u32 option) \<Rightarrow> (u32 \<Rightarrow> u32) \<Rightarrow> nat \<Rightarrow> u64 \<Rightarrow> u32 list \<times> bool" where
  "compile_loop tr rd 0 curr_pc = ([], False)"
| "compile_loop tr rd (Suc n) curr_pc =
    (case tr curr_pc of
       None \<Rightarrow> ([], False)
     | Some paddr \<Rightarrow>
        (let insn = rd paddr in
         if is_branch_or_jump insn then
           (case tr (curr_pc + 4) of
              Some delay_paddr \<Rightarrow> ([insn, rd delay_paddr], True)
            | None \<Rightarrow> ([insn], True))
         else if is_terminal_no_delay insn then ([insn], False)
         else
          (let curr_pc' = curr_pc + 4 in
           if curr_pc' AND 0xFFF = 0 then ([insn], False)
           else (case compile_loop tr rd n curr_pc' of (is, b) \<Rightarrow> (insn # is, b)))))"

definition direct_mapped :: "u64 \<Rightarrow> u32 \<Rightarrow> bool" where
  "direct_mapped vaddr first_paddr \<longleftrightarrow>
    (let virtual32 = ucast vaddr :: u32 in
     virtual32 \<ge> 0x80000000 \<and> virtual32 \<le> 0xBFFFFFFF
     \<and> first_paddr = virtual32 AND 0x1FFFFFFF)"

definition bc_compile ::
    "(u64 \<Rightarrow> u32 option) \<Rightarrow> (u32 \<Rightarrow> u32) \<Rightarrow> u64 \<Rightarrow> block_cache \<Rightarrow> basic_block option \<times> block_cache"
  where
  "bc_compile tr rd vaddr bc =
    (case tr vaddr of
       None \<Rightarrow> (None, bc)
     | Some first_paddr \<Rightarrow>
        (let (insns, branch) = compile_loop tr rd kMaxBlockInsns vaddr;
             blk = \<lparr>bb_start_pc = vaddr, bb_paddr = first_paddr, bb_insns = insns,
                    bb_ends_with_branch = branch\<rparr>
         in if insns = [] then (None, bc)
            else
             (let idx = slot_of_pc vaddr;
                  bc1 = unmark_aliased idx bc;
                  bc2 = (if \<not> sl_valid (bc_table bc1 idx)
                         then bc1\<lparr>bc_count := bc_count bc1 + 1\<rparr> else bc1);
                  bc3 = upd_slot idx (\<lambda>s. s\<lparr>sl_tag_pc := vaddr, sl_block := blk, sl_valid := True\<rparr>) bc2;
                  bc4 = (if direct_mapped vaddr first_paddr then bc3 else mark_aliased idx bc3)
              in (Some blk, bc4))))"

text \<open>Does a block's physical range meet \<open>[paddr, p_end)\<close>?\<close>

definition overlaps :: "nat \<Rightarrow> nat \<Rightarrow> basic_block \<Rightarrow> bool" where
  "overlaps paddr p_end blk \<longleftrightarrow>
    (let blk_start = unat (bb_paddr blk); blk_end = blk_start + length (bb_insns blk) * 4
     in paddr < blk_end \<and> p_end > blk_start)"

definition invalidate_word :: "nat \<Rightarrow> nat \<Rightarrow> nat \<Rightarrow> block_cache \<Rightarrow> block_cache" where
  "invalidate_word paddr p_end word bc =
    (let i = word mod kDirectTableSize; s = bc_table bc i
     in if \<not> sl_valid s then bc
        else if overlaps paddr p_end (sl_block s) then invalidate_slot i bc else bc)"

text \<open>The walk over the reverse set: \<open>None\<close> when the fuel runs out.\<close>

fun alias_loop :: "nat \<Rightarrow> nat \<Rightarrow> nat \<Rightarrow> nat \<Rightarrow> block_cache \<Rightarrow> block_cache option" where
  "alias_loop fuel paddr p_end k bc =
    (if k < length (bc_aliased bc) then
       (case fuel of
          0 \<Rightarrow> None
        | Suc fuel' \<Rightarrow>
           (let i = bc_aliased bc ! k in
            if overlaps paddr p_end (sl_block (bc_table bc i))
            then alias_loop fuel' paddr p_end k (invalidate_slot i bc)
            else alias_loop fuel' paddr p_end (k + 1) bc))
     else Some bc)"

declare alias_loop.simps [simp del]

definition word_loop :: "nat \<Rightarrow> nat \<Rightarrow> block_cache \<Rightarrow> block_cache" where
  "word_loop paddr p_end bc =
    (let first_word = paddr div 4;
         last_word = (p_end - 1) div 4;
         first_candidate = (if first_word > kMaxBlockInsns then first_word - kMaxBlockInsns else 0)
     in fold (invalidate_word paddr p_end) [first_candidate ..< last_word + 1] bc)"

definition bc_invalidate :: "u32 \<Rightarrow> u32 \<Rightarrow> block_cache \<Rightarrow> block_cache option" where
  "bc_invalidate paddr sz bc =
    (if sz = 0 then Some (bc_clear bc)
     else if unat sz \<ge> kDirectTableSize * 4 then Some (bc_clear bc)
     else
      (let p = unat paddr; p_end = p + unat sz; bc1 = word_loop p p_end bc
       in alias_loop (length (bc_aliased bc1)) p p_end 0 bc1))"

section \<open>Invariant\<close>

text \<open>The back pointers of the slots and the reverse set are inverse to each other.\<close>

definition alias_wf :: "block_cache \<Rightarrow> bool" where
  "alias_wf bc \<longleftrightarrow>
    (\<forall>k < length (bc_aliased bc). sl_aliased (bc_table bc (bc_aliased bc ! k)) = Some k)
    \<and> (\<forall>i k. sl_aliased (bc_table bc i) = Some k \<longrightarrow>
          k < length (bc_aliased bc) \<and> bc_aliased bc ! k = i)"

lemma alias_wf_cong:
  "(\<And>j. sl_aliased (bc_table bc' j) = sl_aliased (bc_table bc j)) \<Longrightarrow>
    bc_aliased bc' = bc_aliased bc \<Longrightarrow> alias_wf bc' = alias_wf bc"
  by (simp add: alias_wf_def)

text \<open>A valid slot holds the block its tag names, of at most 33 instructions, at the index its program counter selects; unless it is in the reverse set, that
  is also the index its physical address selects.\<close>

definition slot_wf :: "nat \<Rightarrow> slot \<Rightarrow> bool" where
  "slot_wf i s \<longleftrightarrow>
    (sl_valid s \<longrightarrow> sl_tag_pc s = bb_start_pc (sl_block s) \<and> slot_of_pc (sl_tag_pc s) = i
       \<and> 0 < length (bb_insns (sl_block s)) \<and> length (bb_insns (sl_block s)) \<le> kMaxBlockInsns + 1
       \<and> (sl_aliased s = None \<longrightarrow> unat (bb_paddr (sl_block s)) div 4 mod kDirectTableSize = i))
    \<and> (sl_aliased s \<noteq> None \<longrightarrow> sl_valid s)"

definition bc_wf :: "block_cache \<Rightarrow> bool" where
  "bc_wf bc \<longleftrightarrow> alias_wf bc \<and> (\<forall>i. slot_wf i (bc_table bc i))
    \<and> bc_count bc = card {i. sl_valid (bc_table bc i)}"

text \<open>Every block starts at a word boundary. This holds as long as no block is compiled at a
  misaligned program counter.\<close>

definition bc_aligned :: "block_cache \<Rightarrow> bool" where
  "bc_aligned bc \<longleftrightarrow>
    (\<forall>i. sl_valid (bc_table bc i) \<longrightarrow> unat (bb_paddr (sl_block (bc_table bc i))) mod 4 = 0)"

lemma slot_of_pc_less: "slot_of_pc v < kDirectTableSize"
  using unat_mask_less [of "drop_bit 2 v" 16]
  by (simp add: slot_of_pc_def kDirectTableSize_def mask_literals)

lemma finite_valid:
  assumes "\<forall>i. slot_wf i (bc_table bc i)"
  shows "finite {i. sl_valid (bc_table bc i)}"
proof (rule finite_subset)
  show "{i. sl_valid (bc_table bc i)} \<subseteq> {..<kDirectTableSize}"
  proof
    fix i assume "i \<in> {i. sl_valid (bc_table bc i)}"
    then have "slot_of_pc (sl_tag_pc (bc_table bc i)) = i"
      using assms [THEN spec [of _ i]] unfolding slot_wf_def by blast
    then show "i \<in> {..<kDirectTableSize}"
      using slot_of_pc_less [of "sl_tag_pc (bc_table bc i)"] by simp
  qed
qed simp

lemma upd_slot_table [simp]:
  "bc_table (upd_slot i f bc) = (bc_table bc)(i := f (bc_table bc i))"
  "bc_aliased (upd_slot i f bc) = bc_aliased bc" "bc_count (upd_slot i f bc) = bc_count bc"
  by (simp_all add: upd_slot_def)

lemma bc_wf_new: "bc_wf bc_new"
  by (simp add: bc_wf_def alias_wf_def slot_wf_def bc_new_def empty_slot_def)

lemma bc_wf_clear: "bc_wf (bc_clear bc)"
  by (simp add: bc_wf_def alias_wf_def slot_wf_def bc_clear_def)

lemma bc_wf_lookup: "bc_wf bc \<Longrightarrow> bc_wf (snd (bc_lookup v bc))"
  by (simp add: bc_lookup_def Let_def bc_wf_def alias_wf_def)

lemma unmark_frame:
  "sl_valid (bc_table (unmark_aliased i bc) j) = sl_valid (bc_table bc j)"
  "sl_block (bc_table (unmark_aliased i bc) j) = sl_block (bc_table bc j)"
  "sl_tag_pc (bc_table (unmark_aliased i bc) j) = sl_tag_pc (bc_table bc j)"
  "bc_count (unmark_aliased i bc) = bc_count bc"
  by (auto simp: unmark_aliased_def Let_def split: option.split)

lemma unmark_aliased_none:
  assumes "alias_wf bc"
  shows "(sl_aliased (bc_table (unmark_aliased i bc) j) = None)
    = (j = i \<or> sl_aliased (bc_table bc j) = None)"
proof (cases "sl_aliased (bc_table bc i)")
  case None
  then show ?thesis by (auto simp: unmark_aliased_def)
next
  case (Some p)
  then have "bc_aliased bc \<noteq> []" using assms by (auto simp: alias_wf_def)
  then have "sl_aliased (bc_table bc (last (bc_aliased bc))) \<noteq> None"
    using assms by (auto simp: alias_wf_def last_conv_nth)
  then show ?thesis using Some by (auto simp: unmark_aliased_def Let_def)
qed

lemma unmark_length:
  assumes "alias_wf bc"
  shows "length (bc_aliased (unmark_aliased i bc))
    = length (bc_aliased bc) - (if sl_aliased (bc_table bc i) = None then 0 else 1)"
  by (auto simp: unmark_aliased_def Let_def split: option.split)

lemma unmark_alias_wf:
  assumes "alias_wf bc"
  shows "alias_wf (unmark_aliased i bc)"
proof (cases "sl_aliased (bc_table bc i)")
  case None
  then show ?thesis using assms by (simp add: unmark_aliased_def)
next
  case (Some p)
  let ?al = "bc_aliased bc"
  define n where "n = length ?al"
  have A: "\<And>k. k < n \<Longrightarrow> sl_aliased (bc_table bc (?al ! k)) = Some k"
    and B: "\<And>i k. sl_aliased (bc_table bc i) = Some k \<Longrightarrow> k < n \<and> ?al ! k = i"
    using assms by (auto simp: alias_wf_def n_def)
  have p: "p < n" "?al ! p = i" using B [OF Some] by auto
  then have ne: "?al \<noteq> []" by (auto simp: n_def)
  have r: "last ?al = ?al ! (n - 1)" using ne by (simp add: last_conv_nth n_def)
  have new: "bc_aliased (unmark_aliased i bc) ! k = (if k = p then last ?al else ?al ! k)"
    if "k < n - 1" for k
    using Some that p by (simp add: unmark_aliased_def Let_def nth_butlast n_def)
  have len: "length (bc_aliased (unmark_aliased i bc)) = n - 1"
    using Some by (simp add: unmark_aliased_def Let_def n_def)
  have tab: "sl_aliased (bc_table (unmark_aliased i bc) j)
      = (if j = i then None else if j = last ?al then Some p else sl_aliased (bc_table bc j))" for j
    using Some by (simp add: unmark_aliased_def Let_def)
  have inj: "?al ! k = ?al ! l \<Longrightarrow> k < n \<Longrightarrow> l < n \<Longrightarrow> k = l" for k l
    using A by (metis option.inject)
  have "sl_aliased (bc_table (unmark_aliased i bc) (bc_aliased (unmark_aliased i bc) ! k)) = Some k"
    if k: "k < n - 1" for k
  proof (cases "k = p")
    case True
    then have "last ?al \<noteq> i" using inj [of "n - 1" p] r p k by auto
    then show ?thesis using new [OF k] True by (simp add: tab)
  next
    case False
    have "?al ! k \<noteq> i" "?al ! k \<noteq> last ?al"
    proof -
      have "k < n" "n - 1 < n" "k \<noteq> n - 1" using k by auto
      then show "?al ! k \<noteq> i" "?al ! k \<noteq> last ?al"
        using inj [of k p] inj [of k "n - 1"] False p r by metis+
    qed
    then show ?thesis using new [OF k] False A [of k] k by (simp add: tab)
  qed
  moreover have "k < n - 1 \<and> bc_aliased (unmark_aliased i bc) ! k = j"
    if j: "sl_aliased (bc_table (unmark_aliased i bc) j) = Some k" for j k
  proof (cases "j = last ?al")
    case True
    then have "j \<noteq> i" "k = p" using j by (auto simp: tab split: if_splits)
    then have "p \<noteq> n - 1" using True r p by auto
    then show ?thesis using new [of k] \<open>k = p\<close> p True by auto
  next
    case False
    then have "j \<noteq> i" "sl_aliased (bc_table bc j) = Some k" using j by (auto simp: tab split: if_splits)
    then have k: "k < n" "?al ! k = j" using B by auto
    then have "k \<noteq> p" "k \<noteq> n - 1" using False p r \<open>j \<noteq> i\<close> by auto
    then show ?thesis using k new [of k] by auto
  qed
  ultimately show ?thesis by (simp add: alias_wf_def len)
qed

lemma mark_frame:
  "sl_valid (bc_table (mark_aliased i bc) j) = sl_valid (bc_table bc j)"
  "sl_block (bc_table (mark_aliased i bc) j) = sl_block (bc_table bc j)"
  "sl_tag_pc (bc_table (mark_aliased i bc) j) = sl_tag_pc (bc_table bc j)"
  "bc_count (mark_aliased i bc) = bc_count bc"
  "(sl_aliased (bc_table (mark_aliased i bc) j) = None) = (j \<noteq> i \<and> sl_aliased (bc_table bc j) = None)"
  by (auto simp: mark_aliased_def)

lemma mark_alias_wf:
  assumes "alias_wf bc"
  shows "alias_wf (mark_aliased i bc)"
proof (cases "sl_aliased (bc_table bc i)")
  case None
  have ni: "bc_aliased bc ! k \<noteq> i" if "k < length (bc_aliased bc)" for k
    using assms None that by (auto simp: alias_wf_def)
  show ?thesis
    using assms None ni
    by (auto simp: mark_aliased_def alias_wf_def nth_append less_Suc_eq)
qed (use assms in \<open>simp add: mark_aliased_def\<close>)

lemma slot_wf_alias:
  "slot_wf i s \<Longrightarrow> sl_aliased s \<noteq> None \<Longrightarrow> sl_valid s"
  by (auto simp: slot_wf_def)

text \<open>Everything but the slot that is being rebuilt.\<close>

lemma unmark_slot_wf:
  assumes "bc_wf bc" "j \<noteq> i"
  shows "slot_wf j (bc_table (unmark_aliased i bc) j)"
  using assms unmark_aliased_none [of bc i j]
  by (auto simp: bc_wf_def slot_wf_def unmark_frame)

lemma invalidate_slot_frame:
  "sl_valid (bc_table (invalidate_slot i bc) j) = (sl_valid (bc_table bc j) \<and> j \<noteq> i)"
  "sl_block (bc_table (invalidate_slot i bc) j) = sl_block (bc_table bc j)"
  by (auto simp: invalidate_slot_def Let_def unmark_frame)

lemma invalidate_slot_aliased:
  assumes "bc_wf bc" "sl_valid (bc_table bc i)"
  shows "(sl_aliased (bc_table (invalidate_slot i bc) j) = None)
      = (j = i \<or> sl_aliased (bc_table bc j) = None)"
    "length (bc_aliased (invalidate_slot i bc))
      = length (bc_aliased bc) - (if sl_aliased (bc_table bc i) = None then 0 else 1)"
proof -
  have a: "alias_wf bc" using assms by (simp add: bc_wf_def)
  show "(sl_aliased (bc_table (invalidate_slot i bc) j) = None)
      = (j = i \<or> sl_aliased (bc_table bc j) = None)"
    using unmark_aliased_none [OF a, of i j] assms
    by (auto simp: invalidate_slot_def Let_def)
  show "length (bc_aliased (invalidate_slot i bc))
      = length (bc_aliased bc) - (if sl_aliased (bc_table bc i) = None then 0 else 1)"
    using unmark_length [OF a, of i] assms by (auto simp: invalidate_slot_def Let_def)
qed

lemma bc_wf_invalidate_slot:
  assumes "bc_wf bc"
  shows "bc_wf (invalidate_slot i bc)"
proof (cases "sl_valid (bc_table bc i)")
  case False
  then show ?thesis using assms by (simp add: invalidate_slot_def)
next
  case True
  have wf: "alias_wf bc" "\<forall>i. slot_wf i (bc_table bc i)"
    "bc_count bc = card {i. sl_valid (bc_table bc i)}"
    using assms by (simp_all add: bc_wf_def)
  let ?bc1 = "unmark_aliased i bc"
  have a1: "alias_wf ?bc1" by (rule unmark_alias_wf [OF wf(1)])
  have tab: "bc_table (invalidate_slot i bc)
      = (bc_table ?bc1)(i := (bc_table ?bc1 i)\<lparr>sl_valid := False, sl_tag_pc := NOT 0\<rparr>)"
    and al: "bc_aliased (invalidate_slot i bc) = bc_aliased ?bc1"
    using True by (simp_all add: invalidate_slot_def Let_def)
  have "alias_wf (invalidate_slot i bc)"
    using a1 by (subst alias_wf_cong [where bc = ?bc1]) (simp_all add: tab al)
  moreover have "slot_wf j (bc_table (invalidate_slot i bc) j)" for j
  proof (cases "j = i")
    case True
    then show ?thesis
      using unmark_aliased_none [OF wf(1), of i i] by (simp add: tab slot_wf_def)
  next
    case False
    then show ?thesis using unmark_slot_wf [OF assms False] by (simp add: tab)
  qed
  moreover have "bc_count (invalidate_slot i bc) = card {j. sl_valid (bc_table (invalidate_slot i bc) j)}"
  proof -
    have "{j. sl_valid (bc_table (invalidate_slot i bc) j)} = {j. sl_valid (bc_table bc j)} - {i}"
      by (auto simp: invalidate_slot_frame)
    then have "card {j. sl_valid (bc_table (invalidate_slot i bc) j)} = bc_count bc - 1"
      using True finite_valid [OF wf(2)] wf(3) by (simp add: card_Diff_singleton)
    moreover have "bc_count (invalidate_slot i bc) = bc_count bc - 1"
      using True by (simp add: invalidate_slot_def Let_def unmark_frame)
    ultimately show ?thesis by simp
  qed
  ultimately show ?thesis by (simp add: bc_wf_def)
qed

section \<open>Compile\<close>

lemma compile_loop_length: "length (fst (compile_loop tr rd n v)) \<le> n + 1"
proof (induction n arbitrary: v)
  case (Suc n)
  show ?case
    using Suc [of "v + 4"] by (auto simp: Let_def split: option.split prod.split)
qed simp

lemma direct_mapped_slot:
  assumes "direct_mapped vaddr p"
  shows "unat p div 4 mod kDirectTableSize = slot_of_pc vaddr"
proof -
  have p: "p = ucast vaddr AND 0x1FFFFFFF" using assms by (simp add: direct_mapped_def Let_def)
  have w: "drop_bit 2 p AND mask 16 = ucast (drop_bit 2 vaddr AND mask 16)"
    unfolding p mask_literals by (rule bit_word_eqI) (auto simp: bit_simps)
  have "unat p div 4 mod kDirectTableSize = unat (drop_bit 2 p AND mask 16)"
    by (simp add: take_bit_eq_mask [symmetric] unsigned_take_bit_eq unat_drop_bit_eq
        take_bit_eq_mod drop_bit_eq_div kDirectTableSize_def unat_div_distrib unat_mod_distrib
        del: take_bit_eq_mask)
  also have "\<dots> = unat (drop_bit 2 vaddr AND mask 16)"
    unfolding w using unat_mask_less [of "drop_bit 2 vaddr" 16]
    by (simp add: unsigned_ucast_eq take_bit_nat_eq_self)
  finally show ?thesis by (simp add: slot_of_pc_def mask_literals)
qed

text \<open>The slot after \<open>compile\<close>, and the rest of the table as it was.\<close>

lemma bc_compile_table:
  assumes "bc_compile tr rd vaddr bc = (Some blk, bc')"
  obtains p insns branch where "tr vaddr = Some p"
    "compile_loop tr rd kMaxBlockInsns vaddr = (insns, branch)" "insns \<noteq> []"
    "blk = \<lparr>bb_start_pc = vaddr, bb_paddr = p, bb_insns = insns, bb_ends_with_branch = branch\<rparr>"
    "sl_valid (bc_table bc' (slot_of_pc vaddr))" "sl_tag_pc (bc_table bc' (slot_of_pc vaddr)) = vaddr"
    "sl_block (bc_table bc' (slot_of_pc vaddr)) = blk"
    "\<And>j. j \<noteq> slot_of_pc vaddr \<Longrightarrow> sl_valid (bc_table bc' j) = sl_valid (bc_table bc j)
      \<and> sl_block (bc_table bc' j) = sl_block (bc_table bc j) \<and> sl_tag_pc (bc_table bc' j) = sl_tag_pc (bc_table bc j)"
proof -
  obtain p where p: "tr vaddr = Some p" using assms by (auto simp: bc_compile_def split: option.splits)
  obtain insns branch where c: "compile_loop tr rd kMaxBlockInsns vaddr = (insns, branch)" by fastforce
  have n: "insns \<noteq> []" using assms p c by (auto simp: bc_compile_def Let_def split: if_splits)
  define blk0 where "blk0 = \<lparr>bb_start_pc = vaddr, bb_paddr = p, bb_insns = insns, bb_ends_with_branch = branch\<rparr>"
  define bc2 where "bc2 = (let bc1 = unmark_aliased (slot_of_pc vaddr) bc
      in if \<not> sl_valid (bc_table bc1 (slot_of_pc vaddr)) then bc1\<lparr>bc_count := bc_count bc1 + 1\<rparr> else bc1)"
  define bc3 where "bc3 = upd_slot (slot_of_pc vaddr)
      (\<lambda>s. s\<lparr>sl_tag_pc := vaddr, sl_block := blk0, sl_valid := True\<rparr>) bc2"
  have "bc_compile tr rd vaddr bc = (Some blk0,
      if direct_mapped vaddr p then bc3 else mark_aliased (slot_of_pc vaddr) bc3)"
    unfolding bc_compile_def Let_def bc3_def bc2_def blk0_def p c option.case prod.case if_not_P [OF n]
    by (rule refl)
  then have r: "blk = blk0" "bc' = (if direct_mapped vaddr p then bc3 else mark_aliased (slot_of_pc vaddr) bc3)"
    using assms by simp_all
  have f2: "bc_table bc2 = bc_table (unmark_aliased (slot_of_pc vaddr) bc)"
    by (simp add: bc2_def Let_def)
  show thesis
    by (rule that [OF p c n])
      (simp_all add: r blk0_def [symmetric] mark_frame bc3_def f2 unmark_frame)
qed

lemma bc_wf_compile:
  assumes wf: "bc_wf bc"
  shows "bc_wf (snd (bc_compile tr rd vaddr bc))"
proof (cases "fst (bc_compile tr rd vaddr bc)")
  case None
  then have "snd (bc_compile tr rd vaddr bc) = bc"
    by (auto simp: bc_compile_def Let_def split: option.splits prod.splits if_splits)
  then show ?thesis using wf by simp
next
  case (Some blk)
  then obtain bc' where c: "bc_compile tr rd vaddr bc = (Some blk, bc')" by (metis prod.collapse)
  let ?i = "slot_of_pc vaddr"
  from c obtain p insns branch where t: "tr vaddr = Some p"
    and l: "compile_loop tr rd kMaxBlockInsns vaddr = (insns, branch)" "insns \<noteq> []"
    and b: "blk = \<lparr>bb_start_pc = vaddr, bb_paddr = p, bb_insns = insns, bb_ends_with_branch = branch\<rparr>"
    and s: "sl_valid (bc_table bc' ?i)" "sl_tag_pc (bc_table bc' ?i) = vaddr" "sl_block (bc_table bc' ?i) = blk"
    and o: "\<And>j. j \<noteq> ?i \<Longrightarrow> sl_valid (bc_table bc' j) = sl_valid (bc_table bc j)
      \<and> sl_block (bc_table bc' j) = sl_block (bc_table bc j) \<and> sl_tag_pc (bc_table bc' j) = sl_tag_pc (bc_table bc j)"
    by (rule bc_compile_table) blast
  have a: "alias_wf bc" "\<forall>i. slot_wf i (bc_table bc i)" "bc_count bc = card {i. sl_valid (bc_table bc i)}"
    using wf by (simp_all add: bc_wf_def)
  let ?bc1 = "unmark_aliased ?i bc"
  define bc3 where "bc3 = upd_slot ?i (\<lambda>s. s\<lparr>sl_tag_pc := vaddr, sl_block := blk, sl_valid := True\<rparr>)
      (if \<not> sl_valid (bc_table ?bc1 ?i) then ?bc1\<lparr>bc_count := bc_count ?bc1 + 1\<rparr> else ?bc1)"
  have bc': "bc' = (if direct_mapped vaddr p then bc3 else mark_aliased ?i bc3)"
  proof -
    have "snd (bc_compile tr rd vaddr bc) = (if direct_mapped vaddr p then bc3 else mark_aliased ?i bc3)"
      unfolding bc_compile_def Let_def bc3_def t l(1) b option.case prod.case if_not_P [OF l(2)]
        snd_conv by (rule refl)
    then show ?thesis using c by simp
  qed
  have a3: "alias_wf bc3"
    using unmark_alias_wf [OF a(1), of ?i]
    by (subst alias_wf_cong [where bc = ?bc1]) (auto simp: bc3_def)
  have alias3: "(sl_aliased (bc_table bc3 j) = None) = (j = ?i \<or> sl_aliased (bc_table bc j) = None)" for j
    using unmark_aliased_none [OF a(1), of ?i j] by (auto simp: bc3_def)
  have "alias_wf bc'" using a3 mark_alias_wf by (simp add: bc')
  moreover have "slot_wf j (bc_table bc' j)" for j
  proof (cases "j = ?i")
    case True
    have "length insns \<le> kMaxBlockInsns + 1"
      using compile_loop_length [of tr rd kMaxBlockInsns vaddr] l by simp
    then show ?thesis
      using s b l direct_mapped_slot [of vaddr p] True
      by (simp add: slot_wf_def bc' mark_frame)
  next
    case False
    then have "(sl_aliased (bc_table bc' j) = None) = (sl_aliased (bc_table bc j) = None)"
      by (simp add: bc' mark_frame alias3)
    then show ?thesis using a(2) [THEN spec [of _ j]] o [OF False] by (auto simp: slot_wf_def)
  qed
  moreover have "bc_count bc' = card {j. sl_valid (bc_table bc' j)}"
  proof -
    have "{j. sl_valid (bc_table bc' j)} = insert ?i {j. sl_valid (bc_table bc j)}"
    proof -
      have "sl_valid (bc_table bc' j) = (j = ?i \<or> sl_valid (bc_table bc j))" for j
        using s(1) o [of j] by (cases "j = ?i") auto
      then show ?thesis by auto
    qed
    moreover have "bc_count bc' = (if sl_valid (bc_table bc ?i) then bc_count bc else bc_count bc + 1)"
      by (simp add: bc' mark_frame bc3_def unmark_frame)
    ultimately show ?thesis
      using finite_valid [OF a(2)] a(3) by (simp add: card_insert_if)
  qed
  ultimately show ?thesis by (simp add: bc_wf_def c)
qed

section \<open>Invalidation\<close>

definition hit_by :: "nat \<Rightarrow> nat \<Rightarrow> block_cache \<Rightarrow> nat \<Rightarrow> bool" where
  "hit_by p e bc i \<longleftrightarrow> sl_valid (bc_table bc i) \<and> overlaps p e (sl_block (bc_table bc i))"

lemma word_fold:
  assumes "bc_wf bc"
  shows "bc_wf (fold (invalidate_word p e) ws bc)
    \<and> (\<forall>j. sl_block (bc_table (fold (invalidate_word p e) ws bc) j) = sl_block (bc_table bc j)
      \<and> sl_valid (bc_table (fold (invalidate_word p e) ws bc) j)
        = (sl_valid (bc_table bc j) \<and> \<not> (hit_by p e bc j \<and> j \<in> (\<lambda>w. w mod kDirectTableSize) ` set ws))
      \<and> (sl_valid (bc_table (fold (invalidate_word p e) ws bc) j) \<longrightarrow>
          (sl_aliased (bc_table (fold (invalidate_word p e) ws bc) j) = None)
            = (sl_aliased (bc_table bc j) = None)))"
  using assms
proof (induction ws arbitrary: bc)
  case (Cons w ws)
  let ?bc1 = "invalidate_word p e w bc" and ?i = "w mod kDirectTableSize"
  have e: "?bc1 = (if hit_by p e bc ?i then invalidate_slot ?i bc else bc)"
    by (auto simp: invalidate_word_def Let_def hit_by_def)
  have wf1: "bc_wf ?bc1" using Cons.prems bc_wf_invalidate_slot by (simp add: e)
  have f: "sl_block (bc_table ?bc1 j) = sl_block (bc_table bc j)"
    "sl_valid (bc_table ?bc1 j) = (sl_valid (bc_table bc j) \<and> \<not> (hit_by p e bc j \<and> j = ?i))"
    "sl_valid (bc_table ?bc1 j) \<Longrightarrow>
      (sl_aliased (bc_table ?bc1 j) = None) = (sl_aliased (bc_table bc j) = None)" for j
    using invalidate_slot_aliased(1) [OF Cons.prems, of ?i j]
    by (auto simp: e invalidate_slot_frame hit_by_def)
  show ?case
    using Cons.IH [OF wf1] f by (auto simp: hit_by_def)
qed simp

lemma alias_walk_done:
  assumes "bc_wf bc" "\<forall>j<length (bc_aliased bc). \<not> overlaps p e (sl_block (bc_table bc (bc_aliased bc ! j)))"
  shows "\<not> (hit_by p e bc i \<and> sl_aliased (bc_table bc i) \<noteq> None)"
proof
  assume h: "hit_by p e bc i \<and> sl_aliased (bc_table bc i) \<noteq> None"
  then obtain j where "sl_aliased (bc_table bc i) = Some j" by blast
  then have "j < length (bc_aliased bc) \<and> bc_aliased bc ! j = i"
    using assms(1) unfolding bc_wf_def alias_wf_def by blast
  then show False using assms(2) h by (auto simp: hit_by_def)
qed

lemma alias_loop_correct:
  assumes "bc_wf bc" "length (bc_aliased bc) - k \<le> fuel" "k \<le> length (bc_aliased bc)"
    and "\<forall>j<k. \<not> overlaps p e (sl_block (bc_table bc (bc_aliased bc ! j)))"
  shows "\<exists>bc'. alias_loop fuel p e k bc = Some bc' \<and> bc_wf bc'
    \<and> (\<forall>i. sl_block (bc_table bc' i) = sl_block (bc_table bc i)
      \<and> sl_valid (bc_table bc' i)
        = (sl_valid (bc_table bc i) \<and> \<not> (hit_by p e bc i \<and> sl_aliased (bc_table bc i) \<noteq> None)))"
  using assms
proof (induction fuel arbitrary: k bc)
  case 0
  then have k: "k = length (bc_aliased bc)" by simp
  then show ?case
    using 0(1) alias_walk_done [OF 0(1), of p e] 0(4) by (subst alias_loop.simps) auto
next
  case (Suc fuel)
  show ?case
  proof (cases "k < length (bc_aliased bc)")
    case False
    then have k: "k = length (bc_aliased bc)" using Suc.prems(3) by simp
    then show ?thesis
      using Suc.prems(1) alias_walk_done [OF Suc.prems(1), of p e] Suc.prems(4)
      by (subst alias_loop.simps) auto
  next
    case True
    let ?i = "bc_aliased bc ! k"
    have wf: "alias_wf bc" "\<forall>i. slot_wf i (bc_table bc i)"
      using Suc.prems(1) by (simp_all add: bc_wf_def)
    have ak: "sl_aliased (bc_table bc ?i) = Some k"
      using wf(1) True by (simp add: alias_wf_def)
    then have v: "sl_valid (bc_table bc ?i)"
      using wf(2) [THEN spec [of _ ?i]] slot_wf_alias by fastforce
    show ?thesis
    proof (cases "overlaps p e (sl_block (bc_table bc ?i))")
      case False
      then have "\<forall>j<k+1. \<not> overlaps p e (sl_block (bc_table bc (bc_aliased bc ! j)))"
        using Suc.prems(4) by (auto simp: less_Suc_eq)
      from Suc.IH [OF Suc.prems(1) _ _ this] Suc.prems True False
      show ?thesis by (subst alias_loop.simps) (auto simp: Let_def)
    next
      case hit: True
      let ?bc1 = "invalidate_slot ?i bc"
      have wf1: "bc_wf ?bc1" by (rule bc_wf_invalidate_slot [OF Suc.prems(1)])
      have len: "length (bc_aliased ?bc1) = length (bc_aliased bc) - 1"
        using invalidate_slot_aliased(2) [OF Suc.prems(1) v] ak by simp
      have keep: "bc_aliased ?bc1 ! j = bc_aliased bc ! j" if "j < k" for j
      proof -
        have "bc_aliased ?bc1 = butlast ((bc_aliased bc)[k := last (bc_aliased bc)])"
          using v ak by (simp add: invalidate_slot_def Let_def unmark_aliased_def)
        then show ?thesis using that True by (simp add: nth_butlast)
      qed
      have "\<forall>j<k. \<not> overlaps p e (sl_block (bc_table ?bc1 (bc_aliased ?bc1 ! j)))"
        using Suc.prems(4) keep by (simp add: invalidate_slot_frame)
      from Suc.IH [OF wf1 _ _ this] len True Suc.prems(2)
      obtain bc' where bc': "alias_loop fuel p e k ?bc1 = Some bc'" "bc_wf bc'"
        "\<And>i. sl_block (bc_table bc' i) = sl_block (bc_table ?bc1 i)
          \<and> sl_valid (bc_table bc' i)
            = (sl_valid (bc_table ?bc1 i) \<and> \<not> (hit_by p e ?bc1 i \<and> sl_aliased (bc_table ?bc1 i) \<noteq> None))"
        by fastforce
      have "sl_block (bc_table bc' i) = sl_block (bc_table bc i)
          \<and> sl_valid (bc_table bc' i)
            = (sl_valid (bc_table bc i) \<and> \<not> (hit_by p e bc i \<and> sl_aliased (bc_table bc i) \<noteq> None))" for i
        using bc'(3) [of i] invalidate_slot_aliased(1) [OF Suc.prems(1) v, of i] hit v ak
        by (cases "i = ?i") (simp_all add: invalidate_slot_frame hit_by_def)
      then show ?thesis
        using bc'(1,2) True hit by (subst alias_loop.simps) (auto simp: Let_def)
    qed
  qed
qed

text \<open>A block found through its own address is inside the window of candidate words.\<close>

lemma overlap_window:
  assumes "overlaps p e blk" "0 < e" "unat (bb_paddr blk) mod 4 = 0"
    "length (bb_insns blk) \<le> kMaxBlockInsns + 1"
  shows "p div 4 - kMaxBlockInsns \<le> unat (bb_paddr blk) div 4"
    "unat (bb_paddr blk) div 4 < (e - 1) div 4 + 1"
proof -
  let ?w = "unat (bb_paddr blk) div 4"
  have w: "unat (bb_paddr blk) = 4 * ?w" using assms(3) by (simp add: minus_mod_eq_mult_div [symmetric])
  have o: "p < 4 * ?w + length (bb_insns blk) * 4" "4 * ?w < e"
    using assms(1) w by (simp_all add: overlaps_def Let_def)
  then have "p < 4 * (?w + 33)" using assms(4) by (simp add: kMaxBlockInsns_def)
  then have "p div 4 < ?w + 33" by (simp add: less_mult_imp_div_less mult.commute)
  then show "p div 4 - kMaxBlockInsns \<le> ?w" by (simp add: kMaxBlockInsns_def)
  have "4 * ?w div 4 \<le> (e - 1) div 4" using o by (intro div_le_mono) simp
  then show "?w < (e - 1) div 4 + 1" by simp
qed

lemma invalidate_correct:
  assumes wf: "bc_wf bc"
  shows "\<exists>bc'. bc_invalidate paddr sz bc = Some bc' \<and> bc_wf bc'
    \<and> (\<forall>i. sl_valid (bc_table bc' i) \<longrightarrow> sl_valid (bc_table bc i) \<and> sl_block (bc_table bc' i) = sl_block (bc_table bc i))
    \<and> (bc_aligned bc \<longrightarrow>
        (\<forall>i. sl_valid (bc_table bc' i) \<longrightarrow>
          \<not> overlaps (unat paddr) (unat paddr + unat sz) (sl_block (bc_table bc' i))))
    \<and> (sz \<noteq> 0 \<and> unat sz < kDirectTableSize * 4 \<longrightarrow>
        (\<forall>i. sl_valid (bc_table bc i) \<and> \<not> overlaps (unat paddr) (unat paddr + unat sz) (sl_block (bc_table bc i))
          \<longrightarrow> sl_valid (bc_table bc' i)))"
proof (cases "sz = 0 \<or> kDirectTableSize * 4 \<le> unat sz")
  case True
  then have "bc_invalidate paddr sz bc = Some (bc_clear bc)" by (auto simp: bc_invalidate_def)
  moreover have "\<not> sl_valid (bc_table (bc_clear bc) i)" for i by (simp add: bc_clear_def)
  ultimately show ?thesis using bc_wf_clear True by auto
next
  case False
  let ?p = "unat paddr" and ?e = "unat paddr + unat sz"
  let ?ws = "[?p div 4 - kMaxBlockInsns ..< (?e - 1) div 4 + 1]"
  have e: "0 < ?e" using False by (simp add: unat_gt_0)
  define bc1 where "bc1 = word_loop ?p ?e bc"
  have bc1: "bc1 = fold (invalidate_word ?p ?e) ?ws bc"
    by (simp add: bc1_def word_loop_def Let_def)
  note w = word_fold [OF wf, of ?p ?e ?ws, folded bc1]
  have run: "bc_invalidate paddr sz bc = alias_loop (length (bc_aliased bc1)) ?p ?e 0 bc1"
    using False by (simp add: bc_invalidate_def Let_def bc1_def)
  obtain bc' where bc': "bc_invalidate paddr sz bc = Some bc'" "bc_wf bc'"
    "\<And>i. sl_block (bc_table bc' i) = sl_block (bc_table bc1 i)
      \<and> sl_valid (bc_table bc' i)
        = (sl_valid (bc_table bc1 i) \<and> \<not> (hit_by ?p ?e bc1 i \<and> sl_aliased (bc_table bc1 i) \<noteq> None))"
    using alias_loop_correct [of bc1 0 "length (bc_aliased bc1)" ?p ?e] w unfolding run by auto
  have found: "i \<in> (\<lambda>w. w mod kDirectTableSize) ` set ?ws"
    if "hit_by ?p ?e bc i" "sl_aliased (bc_table bc i) = None" "bc_aligned bc" for i
  proof -
    have s: "slot_wf i (bc_table bc i)" "sl_valid (bc_table bc i)"
      "overlaps ?p ?e (sl_block (bc_table bc i))"
      "unat (bb_paddr (sl_block (bc_table bc i))) mod 4 = 0"
      using wf that by (auto simp: bc_wf_def hit_by_def bc_aligned_def)
    then have "unat (bb_paddr (sl_block (bc_table bc i))) div 4 \<in> set ?ws"
      using overlap_window [OF s(3) e s(4)] by (auto simp: slot_wf_def)
    moreover have "unat (bb_paddr (sl_block (bc_table bc i))) div 4 mod kDirectTableSize = i"
      using s that(2) by (simp add: slot_wf_def)
    ultimately show ?thesis by (metis image_eqI)
  qed
  have "sl_valid (bc_table bc' i) \<Longrightarrow> sl_valid (bc_table bc i) \<and> sl_block (bc_table bc' i) = sl_block (bc_table bc i)" for i
    using bc'(3) [of i] w by (auto simp: hit_by_def)
  moreover have "bc_aligned bc \<Longrightarrow> sl_valid (bc_table bc' i) \<Longrightarrow> \<not> overlaps ?p ?e (sl_block (bc_table bc' i))" for i
    using bc'(3) [of i] w found [of i] by (auto simp: hit_by_def)
  moreover have "sl_valid (bc_table bc i) \<Longrightarrow> \<not> overlaps ?p ?e (sl_block (bc_table bc i))
      \<Longrightarrow> sl_valid (bc_table bc' i)" for i
    using bc'(3) [of i] w by (auto simp: hit_by_def)
  ultimately show ?thesis using bc'(1,2) by blast
qed

lemma invalidate_keeps:
  assumes "bc_wf bc" "sz \<noteq> 0" "unat sz < kDirectTableSize * 4" "sl_valid (bc_table bc i)"
    and "\<not> overlaps (unat paddr) (unat paddr + unat sz) (sl_block (bc_table bc i))"
  shows "\<exists>bc'. bc_invalidate paddr sz bc = Some bc' \<and> bc_wf bc' \<and> sl_valid (bc_table bc' i)
    \<and> sl_block (bc_table bc' i) = sl_block (bc_table bc i)"
  using invalidate_correct [OF assms(1), of paddr sz] assms by blast

lemma bc_aligned_new: "bc_aligned bc_new"
  by (simp add: bc_aligned_def bc_new_def empty_slot_def)

lemma bc_aligned_clear: "bc_aligned (bc_clear bc)"
  by (simp add: bc_aligned_def bc_clear_def)

lemma bc_aligned_compile:
  assumes "bc_aligned bc" "\<And>p. tr vaddr = Some p \<Longrightarrow> unat p mod 4 = 0"
  shows "bc_aligned (snd (bc_compile tr rd vaddr bc))"
proof (cases "bc_compile tr rd vaddr bc")
  case (Pair o1 bc')
  show ?thesis
  proof (cases o1)
    case None
    then have "bc' = bc"
      using Pair by (auto simp: bc_compile_def Let_def split: option.splits prod.splits if_splits)
    then show ?thesis using assms Pair by simp
  next
    case (Some blk)
    then have c: "bc_compile tr rd vaddr bc = (Some blk, bc')" using Pair by simp
    obtain p insns branch where "tr vaddr = Some p"
      "blk = \<lparr>bb_start_pc = vaddr, bb_paddr = p, bb_insns = insns, bb_ends_with_branch = branch\<rparr>"
      "sl_block (bc_table bc' (slot_of_pc vaddr)) = blk"
      "\<And>j. j \<noteq> slot_of_pc vaddr \<Longrightarrow> sl_valid (bc_table bc' j) = sl_valid (bc_table bc j)
        \<and> sl_block (bc_table bc' j) = sl_block (bc_table bc j)"
      using c by (rule bc_compile_table) blast
    then have "sl_valid (bc_table bc' i) \<Longrightarrow> unat (bb_paddr (sl_block (bc_table bc' i))) mod 4 = 0" for i
      using assms by (cases "i = slot_of_pc vaddr") (auto simp: bc_aligned_def)
    then show ?thesis by (simp add: bc_aligned_def c)
  qed
qed

lemma bc_aligned_invalidate:
  assumes "bc_wf bc" "bc_aligned bc" "bc_invalidate paddr sz bc = Some bc'"
  shows "bc_aligned bc'"
  using invalidate_correct [OF assms(1), of paddr sz] assms(2,3) by (auto simp: bc_aligned_def)

text \<open>C2: Invalidation always ends (the walk over the shrinking reverse set included), keeps the
  cache's invariant, leaves no valid block that overlaps the written physical range (blocks
  starting at word boundaries), and drops no other block unless the range is so large that the
  whole cache is cleared.\<close>

theorem invalidate_sound:
  assumes wf: "bc_wf bc" and al: "bc_aligned bc"
  shows "\<exists>bc'. bc_invalidate paddr sz bc = Some bc' \<and> bc_wf bc' \<and> bc_aligned bc'
    \<and> (\<forall>i. sl_valid (bc_table bc' i) \<longrightarrow> sl_valid (bc_table bc i) \<and> sl_block (bc_table bc' i) = sl_block (bc_table bc i)
         \<and> \<not> overlaps (unat paddr) (unat paddr + unat sz) (sl_block (bc_table bc' i)))
    \<and> (sz \<noteq> 0 \<and> unat sz < kDirectTableSize * 4 \<longrightarrow>
        (\<forall>i. sl_valid (bc_table bc i) \<and> \<not> overlaps (unat paddr) (unat paddr + unat sz) (sl_block (bc_table bc i))
          \<longrightarrow> sl_valid (bc_table bc' i)))"
  using invalidate_correct [OF wf, of paddr sz] bc_aligned_invalidate [OF wf al] al by meson

theorem invalidate_sound_witness:
  "\<exists>bc'. bc_invalidate 0x400 4 (snd (bc_compile (\<lambda>v. if v = 0x80000400 then Some 0x400 else None) (\<lambda>_. 0)
      0x80000400 bc_new)) = Some bc' \<and> bc_wf bc'"
proof -
  let ?tr = "\<lambda>v :: u64. if v = 0x80000400 then Some 0x400 else None :: u32 option"
  have "bc_wf (snd (bc_compile ?tr (\<lambda>_. 0) 0x80000400 bc_new))"
    by (rule bc_wf_compile [OF bc_wf_new])
  moreover have "bc_aligned (snd (bc_compile ?tr (\<lambda>_. 0) 0x80000400 bc_new))"
    by (rule bc_aligned_compile [OF bc_aligned_new]) (simp split: if_splits)
  ultimately show ?thesis using invalidate_sound by blast
qed

section \<open>A range the cache does not track\<close>

definition split_map :: "u64 \<Rightarrow> u32 option" where
  "split_map v = (if v = 0x7FFC then Some 0x1FFC else if v = 0x8000 then Some 0x5000 else None)"

definition split_rom :: "u32 \<Rightarrow> u32 \<Rightarrow> u32 \<Rightarrow> u32" where
  "split_rom branch slot p = (if p = 0x5000 then slot else branch)"

text \<open>A branch in the last word of a page takes its delay slot from the next page, but the
  block's physical range is computed from its first address alone: when the two pages are not
  physically adjacent, a write to the delay slot's own word leaves the block valid, and the
  next lookup still returns the old delay-slot instruction.\<close>

theorem delay_slot_page_untracked:
  assumes "is_branch_or_jump branch"
  shows "\<exists>bc'. bc_invalidate 0x5000 4 (snd (bc_compile split_map (split_rom branch old) 0x7FFC bc_new)) = Some bc'
    \<and> fst (bc_lookup 0x7FFC bc') = Some \<lparr>bb_start_pc = 0x7FFC, bb_paddr = 0x1FFC,
        bb_insns = [branch, old], bb_ends_with_branch = True\<rparr>"
proof -
  define blk where "blk = \<lparr>bb_start_pc = 0x7FFC, bb_paddr = 0x1FFC, bb_insns = [branch, old],
    bb_ends_with_branch = True\<rparr>"
  have k: "kMaxBlockInsns = Suc 31" by (simp add: kMaxBlockInsns_def)
  have l: "compile_loop split_map (split_rom branch old) kMaxBlockInsns 0x7FFC = ([branch, old], True)"
    using assms unfolding k compile_loop.simps(2) by (simp add: split_map_def split_rom_def)
  define bc where "bc = snd (bc_compile split_map (split_rom branch old) 0x7FFC bc_new)"
  have c: "bc_compile split_map (split_rom branch old) 0x7FFC bc_new = (Some blk, bc)"
    unfolding bc_def by (rule prod_eqI) (simp_all add: bc_compile_def l blk_def split_map_def Let_def)
  have wf: "bc_wf bc"
    unfolding bc_def by (rule bc_wf_compile [OF bc_wf_new])
  from c have s: "sl_valid (bc_table bc (slot_of_pc 0x7FFC))" "sl_block (bc_table bc (slot_of_pc 0x7FFC)) = blk"
    by (auto elim: bc_compile_table)
  have no: "\<not> overlaps (unat (0x5000 :: u32)) (unat (0x5000 :: u32) + unat (4 :: u32)) blk"
    by (simp add: overlaps_def blk_def)
  obtain bc' where bc': "bc_invalidate 0x5000 4 bc = Some bc'" "bc_wf bc'"
    "sl_block (bc_table bc' (slot_of_pc 0x7FFC)) = blk" "sl_valid (bc_table bc' (slot_of_pc 0x7FFC))"
    using invalidate_keeps [OF wf _ _ s(1), of 4 "0x5000"] no s(2) by (auto simp: kDirectTableSize_def)
  have "sl_tag_pc (bc_table bc' (slot_of_pc 0x7FFC)) = bb_start_pc blk"
    using bc'(2,3,4) by (auto simp: bc_wf_def slot_wf_def)
  then show ?thesis
    using bc' by (auto simp: bc_def [symmetric] bc_lookup_def Let_def blk_def)
qed

theorem delay_slot_page_untracked_witness:
  "\<exists>bc'. bc_invalidate 0x5000 4 (snd (bc_compile split_map (split_rom 0x08000000 0x24020001) 0x7FFC bc_new)) = Some bc'"
  using delay_slot_page_untracked [of "0x08000000" "0x24020001"] by (auto simp: is_branch_or_jump_def)

end
