(* ===== verification/Video.thy ===== *)
theory Video
  imports Prelude
begin

unbundle bit_operations_syntax

text \<open>
  \<open>VideoInterface\<close> (\<open>include/n64/vi/vi.hpp\<close>, \<open>src/vi/vi.cpp\<close>): registers, geometry, the
  scan-line timing loop and the pixel decoders. The call \<open>mi_->raise(VI)\<close> is a function
  argument acting on whatever state holds the interrupt controller; \<open>mi_->clear(VI)\<close>
  likewise. The copy of the picture, which reads RDRAM, is in theory \<open>Framebuffer\<close>.
\<close>

section \<open>State\<close>

record video_interface =
  vi_regs :: "nat \<Rightarrow> u32"
  vi_cycle_accum :: u64
  vi_cycles_per_line :: u64
  vi_lines_per_frame :: u32
  vi_frame_count :: u64
  vi_frame_ready :: bool
  vi_interrupt_line :: bool

text \<open>Register numbers (byte offset divided by four).\<close>

abbreviation (input) VI_Control :: nat where "VI_Control \<equiv> 0"
abbreviation (input) VI_Origin :: nat where "VI_Origin \<equiv> 1"
abbreviation (input) VI_Width :: nat where "VI_Width \<equiv> 2"
abbreviation (input) VI_VIntr :: nat where "VI_VIntr \<equiv> 3"
abbreviation (input) VI_VCurrent :: nat where "VI_VCurrent \<equiv> 4"
abbreviation (input) VI_VSync :: nat where "VI_VSync \<equiv> 6"
abbreviation (input) VI_HStart :: nat where "VI_HStart \<equiv> 9"
abbreviation (input) VI_VStart :: nat where "VI_VStart \<equiv> 10"

definition VI_RegCount :: nat where "VI_RegCount = 14"

definition vi_new :: video_interface where
  "vi_new = \<lparr>vi_regs = (\<lambda>_. 0), vi_cycle_accum = 0, vi_cycles_per_line = 5963,
     vi_lines_per_frame = 262, vi_frame_count = 0, vi_frame_ready = False, vi_interrupt_line = False\<rparr>"

definition vi_reset :: "video_interface \<Rightarrow> video_interface" where
  "vi_reset v = v\<lparr>
     vi_regs := (\<lambda>_. 0)(0 := 0x3202, 1 := 0, 2 := 320, 3 := 0x002, 4 := 0, 5 := 0x03E52239,
       6 := 0x20D, 7 := 0xC15, 8 := 0x0C150C15, 9 := 0x006C02EC, 10 := 0x002501FF,
       11 := 0x000E0204, 12 := 0x200, 13 := 0x400),
     vi_cycle_accum := 0, vi_cycles_per_line := 5963, vi_lines_per_frame := 262,
     vi_frame_count := 0, vi_frame_ready := False, vi_interrupt_line := False\<rparr>"

definition vi_index :: "u32 \<Rightarrow> nat" where
  "vi_index offset = unat (offset AND 0x3C) div 4"

definition vi_read :: "u32 \<Rightarrow> video_interface \<Rightarrow> u32" where
  "vi_read offset v =
    (let idx = vi_index offset in if idx \<ge> VI_RegCount then 0 else vi_regs v idx)"

definition vi_origin :: "video_interface \<Rightarrow> u32" where "vi_origin v = vi_regs v VI_Origin AND 0x00FFFFFF"
definition vi_width_reg :: "video_interface \<Rightarrow> u32" where "vi_width_reg v = vi_regs v VI_Width AND 0xFFF"
definition vi_v_intr :: "video_interface \<Rightarrow> u32" where "vi_v_intr v = vi_regs v VI_VIntr AND 0x3FF"
definition vi_v_current :: "video_interface \<Rightarrow> u32" where
  "vi_v_current v = vi_regs v VI_VCurrent AND 0x3FF"

definition set_v_current_raw :: "u32 \<Rightarrow> video_interface \<Rightarrow> video_interface" where
  "set_v_current_raw line v = v\<lparr>vi_regs := (vi_regs v)(VI_VCurrent := line AND 0x3FE)\<rparr>"

text \<open>\<open>write\<close>, with the interrupt-clearing call as an argument.\<close>

definition vi_write :: "('m \<Rightarrow> 'm) \<Rightarrow> u32 \<Rightarrow> u32 \<Rightarrow> video_interface \<times> 'm \<Rightarrow> video_interface \<times> 'm" where
  "vi_write clear_vi offset value s =
    (let (v, m) = s; idx = vi_index offset in
     if idx \<ge> VI_RegCount then (v, m)
     else if idx = VI_VCurrent then (v\<lparr>vi_interrupt_line := False\<rparr>, clear_vi m)
     else
       (let v1 = v\<lparr>vi_regs := (vi_regs v)(idx := value)\<rparr> in
        if idx = VI_VSync then
          (let vs = value AND 0x3FF
           in if vs \<ge> 100 \<and> vs < 800 then (v1\<lparr>vi_lines_per_frame := vs\<rparr>, m) else (v1, m))
        else (v1, m)))"

definition vi_raise_interrupt :: "('m \<Rightarrow> 'm) \<Rightarrow> video_interface \<times> 'm \<Rightarrow> video_interface \<times> 'm" where
  "vi_raise_interrupt raise_vi s = ((fst s)\<lparr>vi_interrupt_line := True\<rparr>, raise_vi (snd s))"

section \<open>Geometry\<close>

datatype vi_pixel_format = Blank | Reserved | Rgba5551 | Rgba8888

definition vi_pixel_format :: "video_interface \<Rightarrow> vi_pixel_format" where
  "vi_pixel_format v =
    (let t = vi_regs v VI_Control AND 3
     in if t = 0 then Blank else if t = 1 then Reserved else if t = 2 then Rgba5551 else Rgba8888)"

definition bytes_per_pixel :: "video_interface \<Rightarrow> nat" where
  "bytes_per_pixel v = (case vi_pixel_format v of Rgba5551 \<Rightarrow> 2 | Rgba8888 \<Rightarrow> 4 | _ \<Rightarrow> 0)"

definition fb_width :: "video_interface \<Rightarrow> nat" where
  "fb_width v =
    (let w0 = vi_width_reg v;
         w = (if w0 = 0 then
                (let hs = vi_regs v VI_HStart; start = drop_bit 16 hs AND 0x3FF; end' = hs AND 0x3FF
                 in if end' > start then end' - start else w0)
              else w0)
     in if w = 0 then 0 else if w > 640 then 640 else unat w)"

definition fb_height :: "video_interface \<Rightarrow> nat" where
  "fb_height v =
    (let vs = vi_regs v VI_VStart; start = drop_bit 16 vs AND 0x3FF; end' = vs AND 0x3FF;
         h0 = (if end' > start then (end' - start) div 2 else 0);
         h1 = (if h0 = 0 then 240 else h0)
     in if h1 > 480 then 480 else unat h1)"

definition line_pitch_bytes :: "video_interface \<Rightarrow> u32" where
  "line_pitch_bytes v =
    (let bpp = bytes_per_pixel v in if bpp = 0 then 0 else of_nat (fb_width v * bpp))"

section \<open>Timing\<close>

text \<open>One scan line: the body of the loop of \<open>tick\<close> after the accumulator is reduced.\<close>

definition vi_line :: "('m \<Rightarrow> 'm) \<Rightarrow> video_interface \<times> 'm \<Rightarrow> video_interface \<times> 'm" where
  "vi_line raise_vi s =
    (let (v, m) = s;
         line0 = (vi_v_current v + 2) AND 0x3FE;
         wrap = (line0 > vi_lines_per_frame v AND 0x3FE \<or> line0 = 0);
         line = (if wrap then 0 else line0);
         v1 = (if wrap then v\<lparr>vi_frame_count := vi_frame_count v + 1, vi_frame_ready := True,
                              vi_interrupt_line := False\<rparr> else v);
         v2 = set_v_current_raw line v1;
         vintr = vi_v_intr v2 AND 0x3FE
     in if \<not> vi_interrupt_line v2 \<and> vintr \<noteq> 0 \<and> line = vintr
        then vi_raise_interrupt raise_vi (v2, m) else (v2, m))"

lemma vi_line_frame [frame_simps]:
  "vi_cycle_accum (fst (vi_line r s)) = vi_cycle_accum (fst s)"
  "vi_cycles_per_line (fst (vi_line r s)) = vi_cycles_per_line (fst s)"
  "vi_lines_per_frame (fst (vi_line r s)) = vi_lines_per_frame (fst s)"
  by (auto simp: vi_line_def Let_def split_def set_v_current_raw_def vi_raise_interrupt_def)

text \<open>The loop \<open>while (cycle_accum_ >= cycles_per_line_)\<close>.\<close>

function vi_lines :: "('m \<Rightarrow> 'm) \<Rightarrow> video_interface \<times> 'm \<Rightarrow> video_interface \<times> 'm" where
  "vi_lines raise_vi (v, m) =
    (if vi_cycles_per_line v \<noteq> 0 \<and> vi_cycle_accum v \<ge> vi_cycles_per_line v
     then vi_lines raise_vi
       (vi_line raise_vi (v\<lparr>vi_cycle_accum := vi_cycle_accum v - vi_cycles_per_line v\<rparr>, m))
     else (v, m))"
  by pat_completeness auto

termination
proof (relation "measure (\<lambda>(r, v, m). unat (vi_cycle_accum v))", goal_cases)
  case (2 r v m)
  let ?v = "v\<lparr>vi_cycle_accum := vi_cycle_accum v - vi_cycles_per_line v\<rparr>"
  have "0 < unat (vi_cycles_per_line v)" using 2 by (simp add: unat_gt_0)
  then have "unat (vi_cycle_accum v - vi_cycles_per_line v) < unat (vi_cycle_accum v)"
    using 2 by (simp add: unat_sub word_le_nat_alt)
  moreover have "vi_cycle_accum (fst (vi_line r (?v, m))) = vi_cycle_accum v - vi_cycles_per_line v"
    by (simp add: frame_simps)
  ultimately show ?case by (cases "vi_line r (?v, m)") simp
qed simp

declare vi_lines.simps [simp del]

definition vi_tick :: "('m \<Rightarrow> 'm) \<Rightarrow> u64 \<Rightarrow> video_interface \<times> 'm \<Rightarrow> video_interface \<times> 'm" where
  "vi_tick raise_vi cpu_cycles s =
    (let (v, m) = s in
     if cpu_cycles = 0 \<or> vi_cycles_per_line v = 0 then (v, m)
     else vi_lines raise_vi (v\<lparr>vi_cycle_accum := vi_cycle_accum v + cpu_cycles\<rparr>, m))"

section \<open>Pixels\<close>

definition expand5 :: "u32 \<Rightarrow> u32" where
  "expand5 c5 = push_bit 3 c5 OR drop_bit 2 c5"

definition decode_5551 :: "u16 \<Rightarrow> u8 \<times> u8 \<times> u8 \<times> u8" where
  "decode_5551 p =
    (let R5 = drop_bit 11 (ucast p) AND 0x1F; G5 = drop_bit 6 (ucast p) AND 0x1F;
         B5 = drop_bit 1 (ucast p) AND 0x1F; A1 = ucast p AND 1 :: u32
     in (ucast (expand5 R5), ucast (expand5 G5), ucast (expand5 B5), if A1 \<noteq> 0 then 0xFF else 0))"

text \<open>The entry of \<open>Rgba5551Lut\<close> for a pixel.\<close>

definition lut_5551 :: "u32 \<Rightarrow> u32" where
  "lut_5551 p =
    (let R5 = drop_bit 11 p AND 0x1F; G5 = drop_bit 6 p AND 0x1F; B5 = drop_bit 1 p AND 0x1F;
         A1 = p AND 1; r = expand5 R5; g = expand5 G5; b = expand5 B5;
         a = (if A1 \<noteq> 0 then 0xFF else 0)
     in r OR push_bit 8 g OR push_bit 16 b OR push_bit 24 a)"

definition decode_8888 :: "u32 \<Rightarrow> u8 \<times> u8 \<times> u8 \<times> u8" where
  "decode_8888 p =
    (ucast (drop_bit 24 p AND 0xFF), ucast (drop_bit 16 p AND 0xFF),
     ucast (drop_bit 8 p AND 0xFF), ucast (p AND 0xFF))"

section \<open>Properties\<close>

definition with_accum :: "u64 \<Rightarrow> video_interface \<times> 'm \<Rightarrow> video_interface \<times> 'm" where
  "with_accum a s = ((fst s)\<lparr>vi_cycle_accum := a\<rparr>, snd s)"

lemma with_accum_twice [simp]: "with_accum a (with_accum b s) = with_accum a s"
  by (simp add: with_accum_def)

lemma with_accum_self: "vi_cycle_accum (fst s) = a \<Longrightarrow> with_accum a s = s"
  by (cases s) (auto simp: with_accum_def)

lemma with_accum_accum [simp]: "vi_cycle_accum (fst (with_accum a s)) = a"
  "vi_cycles_per_line (fst (with_accum a s)) = vi_cycles_per_line (fst s)"
  by (simp_all add: with_accum_def)

lemma vi_line_with_accum: "vi_line r (with_accum a s) = with_accum a (vi_line r s)"
  by (auto simp: vi_line_def with_accum_def Let_def split_def set_v_current_raw_def
      vi_raise_interrupt_def vi_v_current_def vi_v_intr_def)

lemma vi_line_pow_with_accum: "(vi_line r ^^ n) (with_accum a s) = with_accum a ((vi_line r ^^ n) s)"
  by (induction n) (simp_all add: vi_line_with_accum)

lemma vi_line_pow_frame: "vi_cycles_per_line (fst ((vi_line r ^^ n) s)) = vi_cycles_per_line (fst s)"
  by (induction n) (simp_all add: frame_simps)

text \<open>The loop is that many scan lines, with the remainder kept.\<close>

lemma vi_lines_iter:
  assumes "vi_cycles_per_line (fst s) \<noteq> 0"
  shows "vi_lines r (with_accum a s)
    = with_accum (a mod vi_cycles_per_line (fst s))
        ((vi_line r ^^ (unat a div unat (vi_cycles_per_line (fst s)))) s)"
  using assms
proof (induction "unat a" arbitrary: a s rule: less_induct)
  case less
  let ?c = "vi_cycles_per_line (fst s)"
  have c: "0 < unat ?c" using less.prems by (simp add: unat_gt_0)
  show ?case
  proof (cases "?c \<le> a")
    case False
    then have "a mod ?c = a" "unat a div unat ?c = 0"
      by (simp_all add: word_unat_eq_iff unat_mod_distrib word_le_nat_alt)
    then show ?thesis
      using False by (cases s) (simp add: with_accum_def vi_lines.simps [of r])
  next
    case True
    have sub: "unat (a - ?c) = unat a - unat ?c" using True by (simp add: unat_sub word_le_nat_alt)
    have lt: "unat (a - ?c) < unat a" using sub c True by (simp add: word_le_nat_alt)
    have m: "(a - ?c) mod ?c = a mod ?c"
      using True c by (simp add: word_unat_eq_iff unat_mod_distrib sub le_mod_geq word_le_nat_alt)
    have d: "unat a div unat ?c = Suc (unat (a - ?c) div unat ?c)"
      using True c by (simp add: sub le_div_geq word_le_nat_alt)
    have "vi_lines r (with_accum a s) = vi_lines r (with_accum (a - ?c) (vi_line r s))"
    proof -
      have "vi_lines r (with_accum a s) = vi_lines r (vi_line r (with_accum (a - ?c) s))"
        using True less.prems by (simp add: with_accum_def) (subst vi_lines.simps, simp)
      then show ?thesis by (simp add: vi_line_with_accum)
    qed
    also have "\<dots> = with_accum (a mod ?c) ((vi_line r ^^ (unat (a - ?c) div unat ?c)) (vi_line r s))"
      using less.hyps [OF lt, of "vi_line r s"] less.prems by (simp add: frame_simps m)
    finally show ?thesis by (simp add: d funpow_swap1)
  qed
qed

lemma unat_add_exact: "unat (x :: u64) + unat y < 2 ^ 64 \<Longrightarrow> unat (x + y) = unat x + unat y"
  by (simp add: unat_word_ariths)

lemma vi_tick_iter:
  assumes "vi_cycles_per_line (fst s) \<noteq> 0" "vi_cycle_accum (fst s) < vi_cycles_per_line (fst s)"
  shows "vi_tick r n s = with_accum ((vi_cycle_accum (fst s) + n) mod vi_cycles_per_line (fst s))
      ((vi_line r ^^ (unat (vi_cycle_accum (fst s) + n) div unat (vi_cycles_per_line (fst s)))) s)"
proof (cases "n = 0")
  case True
  have "vi_cycle_accum (fst s) mod vi_cycles_per_line (fst s) = vi_cycle_accum (fst s)"
    "unat (vi_cycle_accum (fst s)) div unat (vi_cycles_per_line (fst s)) = 0"
    using assms(2) by (simp_all add: word_unat_eq_iff unat_mod_distrib word_less_nat_alt)
  then show ?thesis
    using True by (simp add: vi_tick_def split_def with_accum_self)
next
  case False
  then have "vi_tick r n s = vi_lines r (with_accum (vi_cycle_accum (fst s) + n) s)"
    using assms(1) by (simp add: vi_tick_def split_def with_accum_def)
  then show ?thesis using vi_lines_iter [OF assms(1)] by simp
qed

text \<open>The timing of the video interface does not depend on how the CPU batches its cycles:
  ticking for \<open>a\<close> and then for \<open>b\<close> cycles is ticking for \<open>a + b\<close>, with the same registers, frame
  count and interrupts, whatever raising an interrupt does to the rest of the machine.\<close>

theorem vi_tick_additive:
  assumes "vi_cycles_per_line (fst s) \<noteq> 0" "vi_cycle_accum (fst s) < vi_cycles_per_line (fst s)"
    and "unat (vi_cycle_accum (fst s)) + unat a + unat b < 2 ^ 64"
  shows "vi_tick r b (vi_tick r a s) = vi_tick r (a + b) s"
proof -
  let ?c = "vi_cycles_per_line (fst s)" and ?x = "vi_cycle_accum (fst s)"
  let ?s1 = "vi_tick r a s"
  note s1 = vi_tick_iter [OF assms(1,2), of r a]
  have c: "0 < unat ?c" using assms(1) by (simp add: unat_gt_0)
  have c1: "vi_cycles_per_line (fst ?s1) = ?c" "vi_cycle_accum (fst ?s1) = (?x + a) mod ?c"
    unfolding s1 by (simp_all add: vi_line_pow_frame)
  have lt: "(?x + a) mod ?c < ?c"
    using c by (simp add: word_less_nat_alt unat_mod_distrib)
  have u: "unat (?x + a) = unat ?x + unat a" "unat (?x + (a + b)) = unat ?x + unat a + unat b"
    using assms(3) by (simp_all add: unat_word_ariths)
  have u1: "unat ((?x + a) mod ?c + b) = (unat ?x + unat a) mod unat ?c + unat b"
  proof -
    have "(unat ?x + unat a) mod unat ?c \<le> unat ?x + unat a" by simp
    then have "(unat ?x + unat a) mod unat ?c + unat b < 2 ^ 64" using assms(3) by linarith
    then show ?thesis
      using unat_add_exact [of "(?x + a) mod ?c" b] by (simp add: unat_mod_distrib u)
  qed
  have d: "(unat ?x + unat a + unat b) div unat ?c
      = ((unat ?x + unat a) mod unat ?c + unat b) div unat ?c + (unat ?x + unat a) div unat ?c"
  proof -
    define X where "X = unat ?x + unat a"
    have "X + unat b = X div unat ?c * unat ?c + (X mod unat ?c + unat b)" by simp
    then have "(X + unat b) div unat ?c = X div unat ?c + (X mod unat ?c + unat b) div unat ?c"
      using c by (metis div_mult_self3 less_not_refl)
    then show ?thesis by (simp add: X_def)
  qed
  have m: "((?x + a) mod ?c + b) mod ?c = (?x + (a + b)) mod ?c"
    by (simp add: word_unat_eq_iff unat_mod_distrib u u1 mod_add_left_eq)
  have "vi_tick r b ?s1 = with_accum (((?x + a) mod ?c + b) mod ?c)
      ((vi_line r ^^ (unat ((?x + a) mod ?c + b) div unat ?c)) ?s1)"
    using vi_tick_iter [of ?s1 r b, unfolded c1, OF assms(1) lt] .
  also have "\<dots> = with_accum ((?x + (a + b)) mod ?c)
      ((vi_line r ^^ ((unat ?x + unat a + unat b) div unat ?c)) s)"
    unfolding s1 vi_line_pow_with_accum with_accum_twice m d u u1 by (simp add: funpow_add)
  also have "\<dots> = vi_tick r (a + b) s"
    unfolding vi_tick_iter [OF assms(1,2)] u by simp
  finally show ?thesis .
qed

theorem vi_tick_additive_witness:
  "vi_tick Suc 6000 (vi_tick Suc 6000 (vi_reset vi_new, 0)) = vi_tick Suc 12000 (vi_reset vi_new, 0)"
  using vi_tick_additive [of "(vi_reset vi_new, 0)" 6000 6000 Suc] by (simp add: vi_reset_def)

text \<open>How often the line callback runs, with the interrupt controller replaced by a counter.\<close>

definition latch :: "video_interface \<Rightarrow> nat" where
  "latch v = (if vi_interrupt_line v then 0 else 1)"

lemma vi_line_raise_bound:
  assumes "unat (vi_frame_count v) + 1 < 2 ^ 64" "vi_line Suc (v, n) = (v', n')"
  shows "n' + unat (vi_frame_count v) + latch v' \<le> n + unat (vi_frame_count v') + latch v"
    "unat (vi_frame_count v') \<le> unat (vi_frame_count v) + 1"
    "unat (vi_frame_count v) \<le> unat (vi_frame_count v')"
proof -
  have u: "unat (vi_frame_count v + 1) = unat (vi_frame_count v) + 1"
    using assms(1) unat_add_exact [of "vi_frame_count v" 1] by simp
  show "n' + unat (vi_frame_count v) + latch v' \<le> n + unat (vi_frame_count v') + latch v"
    "unat (vi_frame_count v') \<le> unat (vi_frame_count v) + 1"
    "unat (vi_frame_count v) \<le> unat (vi_frame_count v')"
    using assms(2) u
    by (auto simp: vi_line_def Let_def latch_def vi_raise_interrupt_def set_v_current_raw_def
        split: if_splits)
qed



text \<open>The precomputed table agrees with the channel decoder on every pixel: the four bytes of
  the entry, from the lowest, are the red, green, blue and alpha that \<open>decode_5551\<close> computes.\<close>

theorem lut_is_decode_5551:
  "decode_5551 p = (byte_of 0 (lut_5551 (ucast p)), byte_of 1 (lut_5551 (ucast p)),
     byte_of 2 (lut_5551 (ucast p)), byte_of 3 (lut_5551 (ucast p)))"
proof -
  have small: "bit (expand5 (w AND 0x1F)) n \<Longrightarrow> n < 8" for w n
    unfolding expand5_def mask_literals by (auto simp: bit_simps)
  then have ex: "bit (expand5 (w AND 0x1F)) n = (n < 8 \<and> bit (expand5 (w AND 0x1F)) n)" for w n
    by blast
  define R G B A where "R = expand5 (drop_bit 11 (ucast p) AND 0x1F)"
    and "G = expand5 (drop_bit 6 (ucast p) AND 0x1F)" and "B = expand5 (drop_bit 1 (ucast p) AND 0x1F)"
    and "A = (if ucast p AND 1 \<noteq> (0 :: u32) then 0xFF else 0 :: u32)"
  have hi: "\<not> bit R n" "\<not> bit G n" "\<not> bit B n" "\<not> bit A n" if "8 \<le> n" for n
  proof -
    show "\<not> bit R n" "\<not> bit G n" "\<not> bit B n"
      using that small [of _ n] unfolding R_def G_def B_def by auto
    have "A = (if ucast p AND 1 \<noteq> (0 :: u32) then mask 8 else 0)"
      by (simp add: A_def mask_eq_exp_minus_1)
    then show "\<not> bit A n" using that by (simp only: bit_mask_iff split: if_split) simp
  qed
  have lut: "lut_5551 (ucast p) = R OR push_bit 8 G OR push_bit 16 B OR push_bit 24 A"
    by (simp add: lut_5551_def Let_def R_def G_def B_def A_def)
  have bytes: "byte_of 0 (lut_5551 (ucast p)) = ucast R" "byte_of 1 (lut_5551 (ucast p)) = ucast G"
    "byte_of 2 (lut_5551 (ucast p)) = ucast B" "byte_of 3 (lut_5551 (ucast p)) = ucast A"
    unfolding lut byte_of_def by (rule bit_word_eqI; auto simp: bit_simps hi)+
  have "ucast A = (if ucast p AND 1 \<noteq> (0 :: u32) then 0xFF else 0 :: u8)"
    by (simp add: A_def)
  then show ?thesis
    unfolding bytes by (simp add: decode_5551_def Let_def R_def G_def B_def)
qed

end
