(* ===== verification/Audio.thy ===== *)
theory Audio
  imports Prelude
begin

unbundle bit_operations_syntax

text \<open>
  \<open>AudioInterface\<close> (\<open>include/n64/ai/ai.hpp\<close>, \<open>src/ai/ai.cpp\<close>): the double-buffered sample
  DMA, its pacing by CPU cycles, and the single-producer single-consumer ring of stereo
  frames, which is shown to be a bounded FIFO. RDRAM is an argument; raising and clearing the
  AI interrupt line act on the state they are given.
\<close>

section \<open>State\<close>

record dma_job =
  dj_dram_addr :: u32
  dj_length :: u32

record sample_ring =
  rg_data :: "nat \<Rightarrow> u16"
  rg_r :: u64
  rg_w :: u64
  rg_samples_pushed :: u64
  rg_frames_dropped :: u64

record audio_interface =
  ai_regs :: "nat \<Rightarrow> u32"
  ai_dma_enabled :: bool
  ai_dma_active :: bool
  ai_dma_queued :: bool
  ai_current :: dma_job
  ai_queued :: dma_job
  ai_bytes_remaining :: u32
  ai_cycle_accum :: u64
  ai_cycles_per_frame :: u64
  ai_read_cursor :: u32
  ai_ring :: sample_ring
  ai_dmas_completed :: u64

abbreviation (input) AI_DramAddr :: nat where "AI_DramAddr \<equiv> 0"
abbreviation (input) AI_Len :: nat where "AI_Len \<equiv> 1"
abbreviation (input) AI_Control :: nat where "AI_Control \<equiv> 2"
abbreviation (input) AI_Status :: nat where "AI_Status \<equiv> 3"
abbreviation (input) AI_DacRate :: nat where "AI_DacRate \<equiv> 4"
abbreviation (input) AI_BitRate :: nat where "AI_BitRate \<equiv> 5"

definition AI_StatusFull :: u32 where "AI_StatusFull = 1"
definition AI_StatusBusy :: u32 where "AI_StatusBusy = 0x40000000"
definition kDacClockHz :: u32 where "kDacClockHz = 48681812"
definition kDefaultSampleRate :: u32 where "kDefaultSampleRate = 32000"
definition kRingFrames :: nat where "kRingFrames = 8192"
definition kCpuHz :: u64 where "kCpuHz = 93750000"

definition no_job :: dma_job where "no_job = \<lparr>dj_dram_addr = 0, dj_length = 0\<rparr>"

section \<open>The ring\<close>

definition ring_reset :: sample_ring where
  "ring_reset = \<lparr>rg_data = (\<lambda>_. 0), rg_r = 0, rg_w = 0, rg_samples_pushed = 0, rg_frames_dropped = 0\<rparr>"

definition ring_slot :: "u64 \<Rightarrow> nat" where
  "ring_slot i = unat (i AND 0x1FFF) * 2"

definition push_frame :: "u16 \<times> u16 \<Rightarrow> sample_ring \<Rightarrow> sample_ring" where
  "push_frame f q =
    (let w = rg_w q; r = rg_r q; count = w - r;
         q1 = q\<lparr>rg_samples_pushed := rg_samples_pushed q + 1\<rparr>
     in if count \<ge> of_nat kRingFrames then q1\<lparr>rg_frames_dropped := rg_frames_dropped q1 + 1\<rparr>
        else
         (let s = ring_slot w
          in q1\<lparr>rg_data := (rg_data q1)(s := fst f, s + 1 := snd f), rg_w := w + 1\<rparr>))"

text \<open>\<open>pull_frames\<close> for an output span of \<open>max_frames\<close> frames.\<close>

definition pull_frames :: "nat \<Rightarrow> sample_ring \<Rightarrow> (u16 \<times> u16) list \<times> sample_ring" where
  "pull_frames max_frames q =
    (let r = rg_r q; w = rg_w q in
     if max_frames = 0 then ([], q)
     else if w \<le> r then ([], q)
     else
      (let n = min max_frames (unat (w - r));
           out = map (\<lambda>f. let s = ring_slot (r + of_nat f) in (rg_data q s, rg_data q (s + 1))) [0..<n]
       in (out, q\<lparr>rg_r := r + of_nat n\<rparr>)))"

definition buffered_frames :: "sample_ring \<Rightarrow> u64" where
  "buffered_frames q = (if rg_w q \<ge> rg_r q then rg_w q - rg_r q else 0)"

section \<open>Registers and DMA\<close>

definition sample_rate :: "audio_interface \<Rightarrow> u32" where
  "sample_rate a =
    (let dac = ai_regs a AI_DacRate AND 0x3FFF in
     if dac = 0 then kDefaultSampleRate
     else (let rate = kDacClockHz div (dac + 1)
           in if rate < 4000 then 4000 else if rate > 96000 then 96000 else rate))"

definition cycles_for_rate :: "u32 \<Rightarrow> u64" where
  "cycles_for_rate sr = (if sr > 0 then kCpuHz div ucast sr else kCpuHz div ucast kDefaultSampleRate)"

definition set_ai_reg :: "nat \<Rightarrow> u32 \<Rightarrow> audio_interface \<Rightarrow> audio_interface" where
  "set_ai_reg i v a = a\<lparr>ai_regs := (ai_regs a)(i := v)\<rparr>"

definition ai_new :: audio_interface where
  "ai_new = \<lparr>ai_regs = (\<lambda>_. 0), ai_dma_enabled = False, ai_dma_active = False, ai_dma_queued = False,
     ai_current = no_job, ai_queued = no_job, ai_bytes_remaining = 0, ai_cycle_accum = 0,
     ai_cycles_per_frame = 0, ai_read_cursor = 0, ai_ring = ring_reset, ai_dmas_completed = 0\<rparr>"

definition ai_reset :: "audio_interface \<Rightarrow> audio_interface" where
  "ai_reset a =
    (let a1 = a\<lparr>ai_regs := (\<lambda>_. 0)(AI_DacRate := kDacClockHz div kDefaultSampleRate - 1,
                  AI_BitRate := 0xF, AI_Control := 0, AI_Status := 0),
                ai_dma_enabled := False, ai_dma_active := False, ai_dma_queued := False,
                ai_current := no_job, ai_queued := no_job, ai_bytes_remaining := 0,
                ai_cycle_accum := 0, ai_cycles_per_frame := 0, ai_read_cursor := 0,
                ai_ring := ring_reset, ai_dmas_completed := 0\<rparr>
     in a1\<lparr>ai_cycles_per_frame := cycles_for_rate (sample_rate a1)\<rparr>)"

definition update_status_bits :: "audio_interface \<Rightarrow> audio_interface" where
  "update_status_bits a =
    set_ai_reg AI_Status
      ((if ai_dma_queued a then AI_StatusFull else 0) OR (if ai_dma_active a then AI_StatusBusy else 0)) a"

definition ai_read :: "u32 \<Rightarrow> audio_interface \<Rightarrow> u32" where
  "ai_read offset a =
    (let off = offset AND 0x1C in
     if off = 0x00 then ai_regs a AI_DramAddr AND 0x00FFFFF8
     else if off = 0x04 then ai_regs a AI_Len AND 0x0003FFF8
     else if off = 0x08 then ai_regs a AI_Control AND 1
     else if off = 0x0C then ai_regs a AI_Status
     else if off = 0x10 then ai_regs a AI_DacRate AND 0x3FFF
     else if off = 0x14 then ai_regs a AI_BitRate AND 0xF
     else 0)"

definition begin_dma :: "dma_job \<Rightarrow> audio_interface \<Rightarrow> audio_interface" where
  "begin_dma job a =
    (let a1 = a\<lparr>ai_current := job, ai_dma_active := True, ai_bytes_remaining := dj_length job,
                ai_read_cursor := dj_dram_addr job\<rparr>;
         a2 = update_status_bits (set_ai_reg AI_Len (dj_length job) a1);
         cpf = cycles_for_rate (sample_rate a2)
     in a2\<lparr>ai_cycle_accum := 0, ai_cycles_per_frame := (if cpf = 0 then 1 else cpf)\<rparr>)"

definition start_or_queue_dma :: "u32 \<Rightarrow> audio_interface \<Rightarrow> audio_interface" where
  "start_or_queue_dma length_reg a =
    (let len = length_reg AND NOT 7 in
     if len = 0 then a
     else
      (let job = \<lparr>dj_dram_addr = ai_regs a AI_DramAddr AND 0x00FFFFF8, dj_length = len\<rparr> in
       if \<not> ai_dma_active a then begin_dma job a
       else if \<not> ai_dma_queued a then
         update_status_bits (a\<lparr>ai_queued := job, ai_dma_queued := True\<rparr>)
       else a))"

definition finish_current_dma :: "('m \<Rightarrow> 'm) \<Rightarrow> audio_interface \<times> 'm \<Rightarrow> audio_interface \<times> 'm" where
  "finish_current_dma raise_ai s =
    (let (a, m) = s;
         a1 = set_ai_reg AI_Len 0 (a\<lparr>ai_dma_active := False, ai_bytes_remaining := 0\<rparr>);
         a2 = update_status_bits (a1\<lparr>ai_dmas_completed := ai_dmas_completed a1 + 1\<rparr>);
         m' = raise_ai m
     in if ai_dma_queued a2 then
          (begin_dma (ai_queued a2) (a2\<lparr>ai_dma_queued := False, ai_queued := no_job\<rparr>), m')
        else (update_status_bits a2, m'))"

definition ai_write :: "('m \<Rightarrow> 'm) \<Rightarrow> u32 \<Rightarrow> u32 \<Rightarrow> audio_interface \<times> 'm \<Rightarrow> audio_interface \<times> 'm" where
  "ai_write clear_ai offset value s =
    (let (a, m) = s; off = offset AND 0x1C in
     if off = 0x0C then (a, clear_ai m)
     else if off = 0x00 then (set_ai_reg AI_DramAddr (value AND 0x00FFFFF8) a, m)
     else if off = 0x08 then
       ((set_ai_reg AI_Control (value AND 1) a)\<lparr>ai_dma_enabled := (value AND 1 \<noteq> 0)\<rparr>, m)
     else if off = 0x10 then
       (let a1 = set_ai_reg AI_DacRate (value AND 0x3FFF) a; cpf = cycles_for_rate (sample_rate a1)
        in (a1\<lparr>ai_cycles_per_frame := (if cpf = 0 then 1 else cpf)\<rparr>, m))
     else if off = 0x14 then (set_ai_reg AI_BitRate (value AND 0xF) a, m)
     else if off = 0x04 then
       (let a1 = set_ai_reg AI_Len (value AND 0x0003FFF8) a
        in (start_or_queue_dma (ai_regs a1 AI_Len) a1, m))
     else (a, m))"

definition be_s16_from_rdram :: "u8 list \<Rightarrow> u32 \<Rightarrow> u16" where
  "be_s16_from_rdram rdram addr =
    (if rdram = [] then 0
     else be16 (rdram ! (unat addr mod length rdram)) (rdram ! (unat (addr + 1) mod length rdram)))"

text \<open>One stereo frame moved from RDRAM to the ring.\<close>

definition transfer_frame :: "u8 list \<Rightarrow> audio_interface \<Rightarrow> audio_interface" where
  "transfer_frame rdram a =
    (let left = be_s16_from_rdram rdram (ai_read_cursor a);
         right = be_s16_from_rdram rdram (ai_read_cursor a + 2)
     in a\<lparr>ai_ring := push_frame (left, right) (ai_ring a),
          ai_read_cursor := ai_read_cursor a + 4, ai_bytes_remaining := ai_bytes_remaining a - 4\<rparr>)"

lemma transfer_frame_remaining:
  "ai_bytes_remaining (transfer_frame rdram a) = ai_bytes_remaining a - 4"
  by (simp add: transfer_frame_def Let_def)

lemma unat_minus_4: "\<not> x < 4 \<Longrightarrow> unat (x - 4) < unat (x :: u32)"
  by (simp add: unat_sub word_less_nat_alt word_le_nat_alt)

function drain_loop :: "u8 list \<Rightarrow> audio_interface \<Rightarrow> audio_interface" where
  "drain_loop rdram a =
    (if ai_bytes_remaining a < 4 then a else drain_loop rdram (transfer_frame rdram a))"
  by pat_completeness auto
termination
  by (relation "measure (\<lambda>(rdram, a). unat (ai_bytes_remaining a))")
    (auto simp: transfer_frame_remaining unat_minus_4)

definition complete_dma :: "('m \<Rightarrow> 'm) \<Rightarrow> u8 list \<Rightarrow> audio_interface \<times> 'm \<Rightarrow> audio_interface \<times> 'm" where
  "complete_dma raise_ai rdram s =
    (let (a, m) = s in
     if \<not> ai_dma_active a then (a, m)
     else finish_current_dma raise_ai ((drain_loop rdram a)\<lparr>ai_bytes_remaining := 0\<rparr>, m))"

text \<open>The pacing loop of \<open>tick\<close>.\<close>

function tick_loop :: "u8 list \<Rightarrow> audio_interface \<Rightarrow> audio_interface" where
  "tick_loop rdram a =
    (if ai_dma_active a \<and> ai_cycle_accum a \<ge> ai_cycles_per_frame a \<and> \<not> ai_bytes_remaining a < 4 then
       (let a1 = transfer_frame rdram (a\<lparr>ai_cycle_accum := ai_cycle_accum a - ai_cycles_per_frame a\<rparr>)
        in tick_loop rdram (set_ai_reg AI_Len (ai_bytes_remaining a1 AND 0x0003FFF8) a1))
     else a)"
  by pat_completeness auto
termination
  by (relation "measure (\<lambda>(rdram, a). unat (ai_bytes_remaining a))")
    (auto simp: transfer_frame_remaining unat_minus_4 set_ai_reg_def)

declare drain_loop.simps [simp del] tick_loop.simps [simp del]

definition ai_tick :: "('m \<Rightarrow> 'm) \<Rightarrow> u8 list \<Rightarrow> u64 \<Rightarrow> audio_interface \<times> 'm \<Rightarrow> audio_interface \<times> 'm" where
  "ai_tick raise_ai rdram cpu_cycles s =
    (let (a, m) = s in
     if \<not> ai_dma_active a \<or> ai_bytes_remaining a = 0 \<or> ai_cycles_per_frame a = 0 then (a, m)
     else
      (let a1 = tick_loop rdram (a\<lparr>ai_cycle_accum := ai_cycle_accum a + cpu_cycles\<rparr>)
       in if ai_dma_active a1 \<and> ai_bytes_remaining a1 < 4
          then finish_current_dma raise_ai (a1\<lparr>ai_bytes_remaining := 0\<rparr>, m)
          else (a1, m)))"

section \<open>A bounded FIFO\<close>

text \<open>What a producer and a consumer may assume of a queue that drops the newest element when
  it is full. \<open>room q n\<close> is the implementation's licence for \<open>n\<close> more pushes.\<close>

locale bounded_fifo =
  fixes content :: "'q \<Rightarrow> 'f list"
    and push :: "'f \<Rightarrow> 'q \<Rightarrow> 'q"
    and pull :: "nat \<Rightarrow> 'q \<Rightarrow> 'f list \<times> 'q"
    and cap :: nat
    and room :: "'q \<Rightarrow> nat \<Rightarrow> bool"
  assumes push_content: "room q (Suc n) \<Longrightarrow>
      content (push x q) = (if length (content q) < cap then content q @ [x] else content q)"
    and push_room: "room q (Suc n) \<Longrightarrow> room (push x q) n"
    and pull_content: "room q n \<Longrightarrow>
      fst (pull k q) = take k (content q) \<and> content (snd (pull k q)) = drop k (content q)"
    and pull_room: "room q n \<Longrightarrow> room (snd (pull k q)) n"
begin

lemma push_all:
  assumes "room q (length xs + n)"
  shows "content (fold push xs q) = content q @ take (cap - length (content q)) xs
    \<and> room (fold push xs q) n"
  using assms
proof (induction xs arbitrary: q)
  case (Cons x xs)
  have r: "room q (Suc (length xs + n))" using Cons.prems by simp
  have ih: "content (fold push xs (push x q)) = content (push x q) @ take (cap - length (content (push x q))) xs
      \<and> room (fold push xs (push x q)) n"
    using Cons.IH [OF push_room [OF r]] .
  show ?case
  proof (cases "length (content q) < cap")
    case True
    then have "cap - length (content q) = Suc (cap - Suc (length (content q)))" by simp
    then show ?thesis using ih True by (simp add: push_content [OF r])
  qed (use ih in \<open>auto simp: push_content [OF r]\<close>)
qed simp

lemma push_all_pull:
  assumes "room q (length xs)" "content q = []" "length xs \<le> cap"
  shows "fst (pull (length xs) (fold push xs q)) = xs \<and> content (snd (pull (length xs) (fold push xs q))) = []"
  using push_all [of q xs 0] assms pull_content [of "fold push xs q" 0 "length xs"] by simp

lemma pull_pull:
  assumes "room q n"
  shows "fst (pull k q) @ fst (pull j (snd (pull k q))) = fst (pull (k + j) q)"
  using pull_content [OF assms] pull_content [OF pull_room [OF assms]] by (simp add: take_add)

end

definition ring_content :: "sample_ring \<Rightarrow> (u16 \<times> u16) list" where
  "ring_content q = map (\<lambda>f. (rg_data q (ring_slot (rg_r q + of_nat f)), rg_data q (ring_slot (rg_r q + of_nat f) + 1)))
     [0..<unat (rg_w q - rg_r q)]"

definition ring_room :: "sample_ring \<Rightarrow> nat \<Rightarrow> bool" where
  "ring_room q n \<longleftrightarrow> unat (rg_r q) \<le> unat (rg_w q) \<and> unat (rg_w q) - unat (rg_r q) \<le> kRingFrames
     \<and> unat (rg_w q) + n < 2 ^ 64"

lemma ring_slot_mod: "ring_slot i = 2 * (unat i mod kRingFrames)"
proof -
  have "(0x1FFF :: u64) = mask 13" by (simp add: mask_eq_exp_minus_1)
  then have "i AND 0x1FFF = take_bit 13 i" by (simp add: take_bit_eq_mask)
  then show ?thesis
    by (simp add: ring_slot_def kRingFrames_def unsigned_take_bit_eq take_bit_eq_mod mult.commute
        unat_mod_distrib)
qed

lemma ring_count: "ring_room q n \<Longrightarrow> unat (rg_w q - rg_r q) = unat (rg_w q) - unat (rg_r q)"
  by (simp add: ring_room_def unat_sub word_le_nat_alt)

lemma unat_add_of_nat: "unat (r :: u64) + f < 2 ^ 64 \<Longrightarrow> unat (r + of_nat f) = unat r + f"
  by (simp add: unat_word_ariths unat_of_nat)

lemma mod_window_distinct:
  assumes "f < l" "l < f + (k :: nat)"
  shows "(r + f) mod k \<noteq> (r + l) mod k"
proof
  assume "(r + f) mod k = (r + l) mod k"
  then have "k dvd (r + l) - (r + f)" using assms mod_eq_dvd_iff_nat [of "r + f" "r + l" k] by simp
  then have "k dvd l - f" by simp
  then show False using assms dvd_imp_le [of k "l - f"] by linarith
qed

lemma push_frame_content:
  assumes "ring_room q (Suc n)"
  shows "ring_content (push_frame x q)
      = (if length (ring_content q) < kRingFrames then ring_content q @ [x] else ring_content q)"
    "ring_room (push_frame x q) n"
proof -
  define L where "L = unat (rg_w q) - unat (rg_r q)"
  have L: "unat (rg_w q - rg_r q) = L" using ring_count [OF assms] by (simp add: L_def)
  have b: "unat (rg_w q) = unat (rg_r q) + L" "unat (rg_w q) + Suc n < 2 ^ 64" "L \<le> kRingFrames"
    using assms by (simp_all add: ring_room_def L_def)
  have w1: "unat (rg_w q + 1) = unat (rg_w q) + 1"
    using unat_add_of_nat [of "rg_w q" 1] b(2) by simp
  have c: "(rg_w q - rg_r q \<ge> of_nat kRingFrames) = (L \<ge> kRingFrames)"
    by (simp add: word_le_nat_alt L kRingFrames_def)
  show "ring_room (push_frame x q) n"
    using assms b c w1 by (auto simp: push_frame_def Let_def ring_room_def)
  show "ring_content (push_frame x q)
      = (if length (ring_content q) < kRingFrames then ring_content q @ [x] else ring_content q)"
  proof (cases "L < kRingFrames")
    case False
    then show ?thesis by (simp add: push_frame_def Let_def c ring_content_def L)
  next
    case True
    have n: "unat (rg_w q + 1 - rg_r q) = Suc L"
      using b w1 by (simp add: unat_sub word_le_nat_alt)
    have sw: "ring_slot (rg_w q) = 2 * ((unat (rg_r q) + L) mod kRingFrames)"
      by (simp add: ring_slot_mod b(1))
    have sf: "ring_slot (rg_r q + of_nat f) = 2 * ((unat (rg_r q) + f) mod kRingFrames)" if "f \<le> L" for f
      using b that by (simp add: ring_slot_mod unat_add_of_nat)
    have ne: "ring_slot (rg_r q + of_nat f) \<noteq> ring_slot (rg_w q)" if "f < L" for f
      using mod_window_distinct [of f L kRingFrames "unat (rg_r q)"] that True sf [of f] sw by simp
    have odd: "ring_slot a \<noteq> ring_slot b + 1" for a b :: u64
      by (metis ring_slot_mod even_mult_iff even_plus_one_iff even_numeral)
    then have odd': "Suc (ring_slot a) \<noteq> ring_slot b" for a b :: u64 by (metis Suc_eq_plus1)
    have wr: "ring_slot (rg_r q + of_nat L) = ring_slot (rg_w q)" using sf [of L] sw by simp
    show ?thesis
      using True ne odd odd' by (simp add: push_frame_def Let_def c ring_content_def L n wr del: upt_Suc)
        (auto simp: upt_Suc_append wr odd [symmetric] prod_eq_iff simp del: upt_Suc)
  qed
qed

lemma pull_frames_content:
  assumes "ring_room q n"
  shows "fst (pull_frames k q) = take k (ring_content q)
      \<and> ring_content (snd (pull_frames k q)) = drop k (ring_content q)"
    "ring_room (snd (pull_frames k q)) n"
proof -
  define L where "L = unat (rg_w q) - unat (rg_r q)"
  have L: "unat (rg_w q - rg_r q) = L" using ring_count [OF assms] by (simp add: L_def)
  have b: "unat (rg_w q) = unat (rg_r q) + L" "unat (rg_w q) + n < 2 ^ 64" "L \<le> kRingFrames"
    using assms by (simp_all add: ring_room_def L_def)
  have e: "(rg_w q \<le> rg_r q) = (L = 0)" using b by (simp add: word_le_nat_alt)
  define m where "m = min k L"
  have r: "unat (rg_r q + of_nat m) = unat (rg_r q) + m"
    using b by (simp add: unat_add_of_nat m_def)
  have d: "unat (rg_w q - (rg_r q + of_nat m)) = L - m"
    using b r by (simp add: unat_sub word_le_nat_alt m_def)
  have p: "pull_frames k q = (if k = 0 \<or> L = 0 then ([], q) else
      (map (\<lambda>f. (rg_data q (ring_slot (rg_r q + of_nat f)), rg_data q (ring_slot (rg_r q + of_nat f) + 1))) [0..<m],
       q\<lparr>rg_r := rg_r q + of_nat m\<rparr>))"
    by (simp add: pull_frames_def Let_def e L m_def)
  show "ring_room (snd (pull_frames k q)) n"
    using assms b r by (auto simp: p ring_room_def m_def)
  have c0: "L = 0 \<Longrightarrow> ring_content q = []" by (simp add: ring_content_def L)
  show "fst (pull_frames k q) = take k (ring_content q)
      \<and> ring_content (snd (pull_frames k q)) = drop k (ring_content q)"
  proof (cases "k = 0 \<or> L = 0")
    case True
    then show ?thesis using c0 by (auto simp: p)
  next
    case False
    have "take k [0..<L] = [0..<m]" by (simp add: m_def take_upt min_def)
    moreover have "drop k [0..<L] = map (\<lambda>f. f + m) [0..<L - m]"
      by (auto simp: m_def min_def map_add_upt drop_upt)
    ultimately show ?thesis
      using False by (simp add: p ring_content_def L d take_map drop_map ac_simps)
  qed
qed

interpretation ring: bounded_fifo ring_content push_frame pull_frames kRingFrames ring_room
  by unfold_locales (simp_all add: push_frame_content pull_frames_content)


lemma ring_reset_room: "n < 2 ^ 64 \<Longrightarrow> ring_room ring_reset n"
  by (simp add: ring_room_def ring_reset_def)


section \<open>Sample DMA\<close>

definition rdram_frames :: "u8 list \<Rightarrow> u32 \<Rightarrow> nat \<Rightarrow> (u16 \<times> u16) list" where
  "rdram_frames rdram cursor n = map (\<lambda>i. (be_s16_from_rdram rdram (cursor + 4 * of_nat i),
     be_s16_from_rdram rdram (cursor + 4 * of_nat i + 2))) [0..<n]"

lemma rdram_frames_Suc:
  "rdram_frames rdram cursor (Suc n)
    = (be_s16_from_rdram rdram cursor, be_s16_from_rdram rdram (cursor + 2))
        # rdram_frames rdram (cursor + 4) n"
  by (simp add: rdram_frames_def upt_conv_Cons map_Suc_upt [symmetric] algebra_simps del: upt_Suc)

lemma transfer_frame_fields [simp]:
  "ai_dma_active (transfer_frame rdram a) = ai_dma_active a"
  "ai_cycle_accum (transfer_frame rdram a) = ai_cycle_accum a"
  "ai_cycles_per_frame (transfer_frame rdram a) = ai_cycles_per_frame a"
  "ai_read_cursor (transfer_frame rdram a) = ai_read_cursor a + 4"
  "ai_dma_queued (transfer_frame rdram a) = ai_dma_queued a"
  by (simp_all add: transfer_frame_def Let_def)

lemma transfer_frame_ring:
  "ai_ring (transfer_frame rdram a) = push_frame (be_s16_from_rdram rdram (ai_read_cursor a),
     be_s16_from_rdram rdram (ai_read_cursor a + 2)) (ai_ring a)"
  by (simp add: transfer_frame_def Let_def)

text \<open>\<open>k\<close> frames in one run of the pacing loop: as many as the accumulated cycles pay for, and
  no more than the transfer holds.\<close>

lemma tick_loop_frames:
  assumes "ai_dma_active a" "ai_cycles_per_frame a \<noteq> 0"
    and "k = min (unat (ai_cycle_accum a) div unat (ai_cycles_per_frame a)) (unat (ai_bytes_remaining a) div 4)"
  shows "ai_ring (tick_loop rdram a) = fold push_frame (rdram_frames rdram (ai_read_cursor a) k) (ai_ring a)
    \<and> unat (ai_bytes_remaining (tick_loop rdram a)) = unat (ai_bytes_remaining a) - 4 * k
    \<and> unat (ai_cycle_accum (tick_loop rdram a)) = unat (ai_cycle_accum a) - k * unat (ai_cycles_per_frame a)
    \<and> ai_dma_active (tick_loop rdram a) \<and> ai_dma_queued (tick_loop rdram a) = ai_dma_queued a"
  using assms
proof (induction k arbitrary: a)
  case 0
  have c: "0 < unat (ai_cycles_per_frame a)" using 0 by (simp add: unat_gt_0)
  with 0 have "\<not> (ai_cycle_accum a \<ge> ai_cycles_per_frame a \<and> \<not> ai_bytes_remaining a < 4)"
    by (auto simp: min_def word_le_nat_alt word_less_nat_alt div_eq_0_iff split: if_splits)
  then have "tick_loop rdram a = a" by (subst tick_loop.simps) auto
  then show ?case using 0 by (simp add: rdram_frames_def)
next
  case (Suc k)
  let ?c = "ai_cycles_per_frame a"
  have c: "0 < unat ?c" using Suc.prems(2) by (simp add: unat_gt_0)
  have g: "?c \<le> ai_cycle_accum a" "\<not> ai_bytes_remaining a < 4"
  proof -
    have "unat (ai_cycle_accum a) div unat ?c \<noteq> 0" "unat (ai_bytes_remaining a) div 4 \<noteq> 0"
      using Suc.prems(3) by (auto simp: min_def split: if_splits)
    then have "\<not> unat (ai_cycle_accum a) < unat ?c" "\<not> unat (ai_bytes_remaining a) < 4"
      by (metis div_less)+
    then show "?c \<le> ai_cycle_accum a" "\<not> ai_bytes_remaining a < 4"
      by (simp_all add: word_le_nat_alt word_less_nat_alt)
  qed
  define a0 where "a0 = transfer_frame rdram (a\<lparr>ai_cycle_accum := ai_cycle_accum a - ?c\<rparr>)"
  define a1 where "a1 = set_ai_reg AI_Len (ai_bytes_remaining a0 AND 0x0003FFF8) a0"
  have step: "tick_loop rdram a = tick_loop rdram a1"
    using g Suc.prems(1) by (subst tick_loop.simps) (simp add: a0_def a1_def Let_def)
  have f: "ai_dma_active a1" "ai_cycles_per_frame a1 = ?c" "ai_read_cursor a1 = ai_read_cursor a + 4"
    "unat (ai_cycle_accum a1) = unat (ai_cycle_accum a) - unat ?c"
    "unat (ai_bytes_remaining a1) = unat (ai_bytes_remaining a) - 4"
    "ai_dma_queued a1 = ai_dma_queued a"
    using Suc.prems(1) g
    by (simp_all add: a1_def a0_def set_ai_reg_def transfer_frame_remaining unat_sub word_le_nat_alt
        word_less_nat_alt)
  have r: "ai_ring a1 = push_frame (be_s16_from_rdram rdram (ai_read_cursor a),
      be_s16_from_rdram rdram (ai_read_cursor a + 2)) (ai_ring a)"
    by (simp add: a1_def a0_def set_ai_reg_def transfer_frame_ring)
  have "k = min (unat (ai_cycle_accum a1) div unat (ai_cycles_per_frame a1)) (unat (ai_bytes_remaining a1) div 4)"
    using Suc.prems(3) c g unfolding f
    by (simp add: word_le_nat_alt word_less_nat_alt not_less le_div_geq min_def split: if_splits)
  from Suc.IH [OF f(1) _ this] Suc.prems(2) show ?case
    unfolding step by (simp add: f r rdram_frames_Suc algebra_simps)
qed

text \<open>C27: A tick moves exactly the stereo frames its cycles pay for, in address order from the
  DMA cursor, never more than the transfer holds; the interrupt is raised exactly when the last
  frame has gone, and then a queued transfer starts at once.\<close>

theorem ai_tick_frames:
  fixes a :: audio_interface and m :: 'm and cycles :: u64
  defines "a0 \<equiv> a\<lparr>ai_cycle_accum := ai_cycle_accum a + cycles\<rparr>"
  assumes "ai_dma_active a" "ai_cycles_per_frame a \<noteq> 0" "ai_bytes_remaining a \<noteq> 0"
    and k: "k = min (unat (ai_cycle_accum a0) div unat (ai_cycles_per_frame a)) (unat (ai_bytes_remaining a) div 4)"
    and t: "ai_tick raise rdram cycles (a, m) = (a', m')"
  shows "ai_ring a' = fold push_frame (rdram_frames rdram (ai_read_cursor a) k) (ai_ring a)
    \<and> (if unat (ai_bytes_remaining a) - 4 * k < 4
       then m' = raise m \<and> ai_dma_active a' = ai_dma_queued a \<and> \<not> ai_dma_queued a'
       else m' = m \<and> ai_dma_active a' \<and> unat (ai_bytes_remaining a') = unat (ai_bytes_remaining a) - 4 * k)"
proof -
  let ?b = "tick_loop rdram a0"
  have l: "ai_ring ?b = fold push_frame (rdram_frames rdram (ai_read_cursor a) k) (ai_ring a)"
    "unat (ai_bytes_remaining ?b) = unat (ai_bytes_remaining a) - 4 * k"
    "ai_dma_active ?b" "ai_dma_queued ?b = ai_dma_queued a"
    using tick_loop_frames [of a0 k rdram] assms(2-4) k by (simp_all add: a0_def)
  have run: "ai_tick raise rdram cycles (a, m) = (if ai_bytes_remaining ?b < 4
      then finish_current_dma raise (?b\<lparr>ai_bytes_remaining := 0\<rparr>, m) else (?b, m))"
    using assms(2-4) l(3) by (simp add: ai_tick_def Let_def a0_def)
  show ?thesis
  proof (cases "unat (ai_bytes_remaining ?b) < 4")
    case True
    then have "finish_current_dma raise (?b\<lparr>ai_bytes_remaining := 0\<rparr>, m) = (a', m')"
      using t run by (simp add: word_less_nat_alt)
    then show ?thesis
      using True l
      by (auto simp: finish_current_dma_def Let_def set_ai_reg_def update_status_bits_def begin_dma_def
          split: if_splits)
  next
    case False
    then have "a' = ?b" "m' = m" using t run by (simp_all add: word_less_nat_alt)
    then show ?thesis using False l by simp
  qed
qed

definition ai_example :: audio_interface where
  "ai_example = \<lparr>ai_regs = (\<lambda>_. 0), ai_dma_enabled = True, ai_dma_active = True,
     ai_dma_queued = False, ai_current = no_job, ai_queued = no_job, ai_bytes_remaining = 8,
     ai_cycle_accum = 0, ai_cycles_per_frame = 100, ai_read_cursor = 0, ai_ring = ring_reset,
     ai_dmas_completed = 0\<rparr>"

theorem ai_tick_frames_witness:
  "ai_ring (fst (ai_tick Suc [1, 2, 3, 4, 5, 6, 7, 8] 150 (ai_example, 0)))
    = fold push_frame (rdram_frames [1, 2, 3, 4, 5, 6, 7, 8] 0 1) ring_reset"
  using ai_tick_frames [of ai_example 1 150 Suc "[1, 2, 3, 4, 5, 6, 7, 8]" 0
      "fst (ai_tick Suc [1, 2, 3, 4, 5, 6, 7, 8] 150 (ai_example, 0))"
      "snd (ai_tick Suc [1, 2, 3, 4, 5, 6, 7, 8] 150 (ai_example, 0))"]
  by (simp add: ai_example_def)

end
