(* ===== verification/Debugger.thy ===== *)
theory Debugger
  imports Prelude
begin

text \<open>
  The debugger core of \<open>debug/debugger.cpp\<close>: execution control (pause, resume, single
  steps), breakpoints, watchpoints with the hooks the bus calls on every access, the trace
  ring and the log of unknown accesses. The set of breakpoints is a list without repetition,
  the hash map of the log a partial function with its insertion order. The texts it
  shows are in theory \<open>Overlay\<close>. Not modelled: the mutexes.
\<close>

section \<open>State\<close>

datatype debug_stop_reason =
  StopNone | UserPause | Breakpoint | Watchpoint | StepDone | ExceptionStop

record watchpoint =
  w_id :: int
  w_address :: u32
  w_on_read :: bool
  w_on_write :: bool
  w_enabled :: bool

record trace_entry =
  t_cycle :: u64
  t_pc :: u64
  t_insn :: u32
  t_disasm :: string

record mmio_hit =
  hit_paddr :: u32
  hit_is_write :: bool
  hit_value :: u32
  hit_count :: u64

record debugger =
  dbg_enabled :: bool
  dbg_paused :: bool
  dbg_trace_enabled :: bool
  dbg_stop_reason :: debug_stop_reason
  dbg_steps_left :: u32
  dbg_resume_pc :: "u64 option"
  dbg_hit_count :: u64
  dbg_watch_hit_count :: u64
  dbg_breakpoints :: "u64 list"
  dbg_watchpoints :: "watchpoint list"
  dbg_next_watch_id :: int
  dbg_trace :: "trace_entry list"
  dbg_trace_capacity :: nat
  dbg_mmio :: "u32 \<Rightarrow> mmio_hit option"
  dbg_mmio_order :: "u32 list"

definition kMaxBreakpoints :: nat where "kMaxBreakpoints = 64"
definition kMaxWatchpoints :: nat where "kMaxWatchpoints = 32"

definition debugger_new :: debugger where
  "debugger_new = \<lparr>dbg_enabled = False, dbg_paused = False, dbg_trace_enabled = False,
     dbg_stop_reason = StopNone, dbg_steps_left = 0, dbg_resume_pc = None, dbg_hit_count = 0,
     dbg_watch_hit_count = 0, dbg_breakpoints = [], dbg_watchpoints = [], dbg_next_watch_id = 1,
     dbg_trace = [], dbg_trace_capacity = 4096, dbg_mmio = (\<lambda>_. None), dbg_mmio_order = []\<rparr>"

definition phys29 :: "u32 \<Rightarrow> u32" where
  "phys29 a = a AND 0x1FFFFFFF"

section \<open>Execution control\<close>

definition dbg_clear_trace :: "debugger \<Rightarrow> debugger" where
  "dbg_clear_trace d = d\<lparr>dbg_trace := []\<rparr>"

definition dbg_reset :: "debugger \<Rightarrow> debugger" where
  "dbg_reset d = (dbg_clear_trace (d\<lparr>dbg_paused := False, dbg_stop_reason := StopNone,
     dbg_steps_left := 0, dbg_resume_pc := None, dbg_hit_count := 0, dbg_watch_hit_count := 0\<rparr>))
     \<lparr>dbg_mmio := (\<lambda>_. None), dbg_mmio_order := []\<rparr>"

definition dbg_pause :: "debug_stop_reason \<Rightarrow> debugger \<Rightarrow> debugger" where
  "dbg_pause reason d = d\<lparr>dbg_paused := True, dbg_stop_reason := reason, dbg_steps_left := 0\<rparr>"

definition dbg_resume :: "debugger \<Rightarrow> debugger" where
  "dbg_resume d = d\<lparr>dbg_paused := False, dbg_stop_reason := StopNone, dbg_steps_left := 0\<rparr>"

definition request_step :: "u32 \<Rightarrow> debugger \<Rightarrow> debugger" where
  "request_step count d = d\<lparr>dbg_steps_left := (if count = 0 then 1 else count),
     dbg_paused := False, dbg_stop_reason := StopNone\<rparr>"

definition has_breakpoint :: "u64 \<Rightarrow> debugger \<Rightarrow> bool" where
  "has_breakpoint pc d \<longleftrightarrow> pc \<in> set (dbg_breakpoints d)"

text \<open>\<open>on_before_step\<close> on a CPU whose program counter is \<open>pc\<close>; \<open>False\<close> skips the step.\<close>

definition on_before_step :: "u64 \<Rightarrow> debugger \<Rightarrow> bool \<times> debugger" where
  "on_before_step pc d =
    (if \<not> dbg_enabled d then (True, d)
     else if dbg_paused d \<and> dbg_steps_left d = 0 then (False, d)
     else
       (let skip = (dbg_resume_pc d = Some pc);
            d1 = (if dbg_resume_pc d \<noteq> None then d\<lparr>dbg_resume_pc := None\<rparr> else d)
        in if skip then (True, d1)
           else if dbg_breakpoints d1 \<noteq> [] \<and> has_breakpoint pc d1
           then (False, dbg_pause Breakpoint
                  (d1\<lparr>dbg_hit_count := dbg_hit_count d1 + 1, dbg_resume_pc := Some pc\<rparr>))
           else (True, d1)))"

definition on_after_step :: "debugger \<Rightarrow> debugger" where
  "on_after_step d =
    (if \<not> dbg_enabled d then d
     else if dbg_steps_left d > 0
     then (let d1 = d\<lparr>dbg_steps_left := dbg_steps_left d - 1\<rparr>
           in if dbg_steps_left d1 = 0 then dbg_pause StepDone d1 else d1)
     else d)"

section \<open>The trace ring\<close>

definition on_trace :: "u64 \<Rightarrow> u64 \<Rightarrow> u32 \<Rightarrow> string \<Rightarrow> debugger \<Rightarrow> debugger" where
  "on_trace cycle pc insn disasm d =
    (if \<not> dbg_trace_enabled d then d
     else d\<lparr>dbg_trace :=
        (if length (dbg_trace d) \<ge> dbg_trace_capacity d then drop 1 (dbg_trace d) else dbg_trace d)
        @ [\<lparr>t_cycle = cycle, t_pc = pc, t_insn = insn, t_disasm = disasm\<rparr>]\<rparr>)"

text \<open>The loop \<open>while (trace_.size() > trace_capacity_) trace_.pop_front()\<close>.\<close>

fun pop_to :: "nat \<Rightarrow> trace_entry list \<Rightarrow> trace_entry list" where
  "pop_to n [] = []"
| "pop_to n (x # xs) = (if length (x # xs) > n then pop_to n xs else x # xs)"

definition set_trace_capacity :: "nat \<Rightarrow> debugger \<Rightarrow> debugger" where
  "set_trace_capacity n d =
    (let n1 = (if n < 16 then 16 else n); n2 = (if n1 > 1000000 then 1000000 else n1)
     in d\<lparr>dbg_trace_capacity := n2, dbg_trace := pop_to n2 (dbg_trace d)\<rparr>)"

definition recent_trace :: "nat \<Rightarrow> debugger \<Rightarrow> trace_entry list" where
  "recent_trace max_n d =
    (if dbg_trace d = [] \<or> max_n = 0 then []
     else (let n = min max_n (length (dbg_trace d)); start = length (dbg_trace d) - n
           in map (\<lambda>i. dbg_trace d ! i) [start..<length (dbg_trace d)]))"

section \<open>Breakpoints and watchpoints\<close>

definition add_breakpoint :: "u64 \<Rightarrow> debugger \<Rightarrow> bool \<times> debugger" where
  "add_breakpoint pc d =
    (if length (dbg_breakpoints d) \<ge> kMaxBreakpoints then (False, d)
     else (True, d\<lparr>dbg_breakpoints := List.insert pc (dbg_breakpoints d)\<rparr>))"

definition remove_breakpoint :: "u64 \<Rightarrow> debugger \<Rightarrow> bool \<times> debugger" where
  "remove_breakpoint pc d =
    (has_breakpoint pc d, d\<lparr>dbg_breakpoints := removeAll pc (dbg_breakpoints d)\<rparr>)"

definition clear_breakpoints :: "debugger \<Rightarrow> debugger" where
  "clear_breakpoints d = d\<lparr>dbg_breakpoints := []\<rparr>"

definition add_watchpoint :: "u32 \<Rightarrow> bool \<Rightarrow> bool \<Rightarrow> debugger \<Rightarrow> int \<times> debugger" where
  "add_watchpoint paddr on_read on_write d =
    (if length (dbg_watchpoints d) \<ge> kMaxWatchpoints then (- 1, d)
     else
       (let wr = (if \<not> on_read \<and> \<not> on_write then True else on_write);
            w = \<lparr>w_id = dbg_next_watch_id d, w_address = phys29 paddr, w_on_read = on_read,
                 w_on_write = wr, w_enabled = True\<rparr>
        in (w_id w, d\<lparr>dbg_next_watch_id := dbg_next_watch_id d + 1,
                     dbg_watchpoints := dbg_watchpoints d @ [w]\<rparr>)))"

fun erase_watch :: "int \<Rightarrow> watchpoint list \<Rightarrow> watchpoint list" where
  "erase_watch i [] = []"
| "erase_watch i (w # ws) = (if w_id w = i then ws else w # erase_watch i ws)"

definition remove_watchpoint :: "int \<Rightarrow> debugger \<Rightarrow> bool \<times> debugger" where
  "remove_watchpoint i d =
    (if list_ex (\<lambda>w. w_id w = i) (dbg_watchpoints d)
     then (True, d\<lparr>dbg_watchpoints := erase_watch i (dbg_watchpoints d)\<rparr>) else (False, d))"

definition clear_watchpoints :: "debugger \<Rightarrow> debugger" where
  "clear_watchpoints d = d\<lparr>dbg_watchpoints := []\<rparr>"

text \<open>The inner loop of the access hooks: does the access of \<open>sz\<close> bytes at \<open>p\<close> touch the
  watched byte?\<close>

definition watch_overlaps :: "u32 \<Rightarrow> u32 \<Rightarrow> watchpoint \<Rightarrow> bool" where
  "watch_overlaps p sz w =
    list_ex (\<lambda>i. phys29 (p + of_nat i) = phys29 (w_address w)) [0..<unat (max 1 sz)]"

fun watch_loop :: "(watchpoint \<Rightarrow> bool) \<Rightarrow> u32 \<Rightarrow> u32 \<Rightarrow> watchpoint list \<Rightarrow> bool" where
  "watch_loop sel p sz [] = False"
| "watch_loop sel p sz (w # ws) =
    (if \<not> w_enabled w \<or> \<not> sel w then watch_loop sel p sz ws
     else if watch_overlaps p sz w then True
     else watch_loop sel p sz ws)"

definition on_bus_access :: "(watchpoint \<Rightarrow> bool) \<Rightarrow> u32 \<Rightarrow> u32 \<Rightarrow> debugger \<Rightarrow> debugger" where
  "on_bus_access sel paddr sz d =
    (if \<not> dbg_enabled d \<or> dbg_watchpoints d = [] then d
     else if watch_loop sel (phys29 paddr) sz (dbg_watchpoints d)
     then dbg_pause Watchpoint (d\<lparr>dbg_watch_hit_count := dbg_watch_hit_count d + 1\<rparr>)
     else d)"

definition on_bus_read :: "u32 \<Rightarrow> u32 \<Rightarrow> debugger \<Rightarrow> debugger" where
  "on_bus_read = on_bus_access w_on_read"

definition on_bus_write :: "u32 \<Rightarrow> u32 \<Rightarrow> debugger \<Rightarrow> debugger" where
  "on_bus_write = on_bus_access w_on_write"

section \<open>The log of unknown accesses\<close>

definition log_unknown_mmio :: "u32 \<Rightarrow> bool \<Rightarrow> u32 \<Rightarrow> debugger \<Rightarrow> debugger" where
  "log_unknown_mmio paddr is_write v d =
    (let key = phys29 paddr OR (if is_write then 0x80000000 else 0) in
     case dbg_mmio d key of
       None \<Rightarrow> d\<lparr>dbg_mmio := (dbg_mmio d)(key \<mapsto> \<lparr>hit_paddr = phys29 paddr, hit_is_write = is_write,
                    hit_value = v, hit_count = 1\<rparr>),
                 dbg_mmio_order := dbg_mmio_order d @ [key]\<rparr>
     | Some h \<Rightarrow> d\<lparr>dbg_mmio := (dbg_mmio d)(key \<mapsto> h\<lparr>hit_count := hit_count h + 1, hit_value := v\<rparr>)\<rparr>)"

section \<open>What the hooks do\<close>

lemma phys29_idem [simp]: "phys29 (phys29 a) = phys29 a"
  by (simp add: phys29_def and.assoc)

lemma watch_loop_iff:
  "watch_loop sel p sz ws \<longleftrightarrow> (\<exists>w\<in>set ws. w_enabled w \<and> sel w \<and> watch_overlaps p sz w)"
  by (induction ws) auto

lemma watch_overlaps_iff:
  "watch_overlaps p sz w \<longleftrightarrow> (\<exists>i < max 1 (unat sz). phys29 (p + of_nat i) = phys29 (w_address w))"
proof -
  have "unat (max 1 sz) = max 1 (unat sz)" by (simp add: max_def word_le_nat_alt)
  then show ?thesis unfolding watch_overlaps_def by (simp add: list_ex_iff Bex_def)
qed

lemma phys29_take_bit: "phys29 a = take_bit 29 a"
  by (simp add: phys29_def take_bit_eq_mask mask_eq_exp_minus_1)

lemma phys29_add: "phys29 (phys29 p + x) = phys29 (p + x)"
proof -
  define a b where "a = uint p" and "b = uint x"
  have ab: "p = of_int a" "x = of_int b" by (simp_all add: a_def b_def)
  have i: "take_bit 29 (take_bit 29 a + b) = take_bit 29 (a + b)"
    by (simp add: take_bit_eq_mod mod_simps)
  have t: "take_bit 29 (of_int k :: u32) = of_int (take_bit 29 k)" for k :: int
    by (rule take_bit_of_int)
  show ?thesis
    unfolding phys29_take_bit ab t of_int_add [symmetric] i ..
qed

lemma on_bus_access_eq:
  assumes "dbg_enabled d"
  shows "on_bus_access sel paddr sz d =
    (if \<exists>w\<in>set (dbg_watchpoints d). w_enabled w \<and> sel w
        \<and> (\<exists>i < max 1 (unat sz). phys29 (paddr + of_nat i) = phys29 (w_address w))
     then dbg_pause Watchpoint (d\<lparr>dbg_watch_hit_count := dbg_watch_hit_count d + 1\<rparr>) else d)"
  using assms by (auto simp: on_bus_access_def watch_loop_iff watch_overlaps_iff phys29_add)



text \<open>A breakpoint stops the machine before the instruction, once per visit: the hook refuses
  the step and pauses; after a resume the same instruction is let through, and the next visit
  stops again.\<close>

theorem breakpoint_stops_once:
  assumes "dbg_enabled d" "\<not> dbg_paused d" "has_breakpoint pc d" "dbg_resume_pc d \<noteq> Some pc"
  shows "\<exists>d1 d2. on_before_step pc d = (False, d1) \<and> dbg_paused d1 \<and> dbg_stop_reason d1 = Breakpoint
    \<and> on_before_step pc d1 = (False, d1)
    \<and> on_before_step pc (dbg_resume d1) = (True, d2)
    \<and> fst (on_before_step pc d2) = False"
  using assms by (auto simp: on_before_step_def Let_def dbg_pause_def dbg_resume_def has_breakpoint_def)

theorem breakpoint_stops_once_witness:
  "\<exists>d1. on_before_step 0x80000400 (snd (add_breakpoint 0x80000400 (debugger_new\<lparr>dbg_enabled := True\<rparr>)))
    = (False, d1) \<and> dbg_paused d1"
  using breakpoint_stops_once [of "snd (add_breakpoint 0x80000400 (debugger_new\<lparr>dbg_enabled := True\<rparr>))"
      "0x80000400"]
  by (auto simp: add_breakpoint_def debugger_new_def kMaxBreakpoints_def has_breakpoint_def)

lemma pop_to_drop: "pop_to n xs = drop (length xs - n) xs"
  by (induction xs) (auto simp: Suc_diff_le not_less Suc_le_eq)

end
