(* ===== verification/Machine.thy ===== *)
theory Machine
  imports Block_Cache Cpu_Alu Mips_Interface Scheduler Joybus Video
    Audio Debugger
begin

text \<open>
  The whole machine: the objects \<open>Emulator::Impl\<close> owns and \<open>Bus::connect\<close> wires together, as
  one record, and the parts of \<open>bus/bus.cpp\<close> the devices are built on: the interrupt callback
  from the MIPS interface to the CPU, the cache notification of direct memory writes, and the
  side-effect-free reads. Every pointer the code tests for null is set by \<open>wire()\<close> before
  anything runs, so the model has no null branches.
\<close>

section \<open>Device registers\<close>

record pi_regs =
  pi_dram_addr :: u32
  pi_cart_addr :: u32
  pi_rd_len :: u32
  pi_wr_len :: u32
  pi_status :: u32
  pi_dom1_lat :: u32
  pi_dom1_pwd :: u32
  pi_dom1_pgs :: u32
  pi_dom1_rls :: u32
  pi_dom2_lat :: u32
  pi_dom2_pwd :: u32
  pi_dom2_pgs :: u32
  pi_dom2_rls :: u32
  pi_last_dma_bytes :: u32

record si_regs =
  si_dram_addr :: u32
  si_status :: u32
  si_last_dma_bytes :: u32

record ri_regs =
  ri_mode :: u32
  ri_config :: u32
  ri_current_load :: u32
  ri_select :: u32
  ri_refresh :: u32
  ri_latency :: u32
  ri_rerror :: u32
  ri_werror :: u32

record sp_regs =
  sp_mem_addr :: u32
  sp_dram_addr :: u32
  sp_status :: u32
  sp_semaphore :: u32
  sp_last_dma_bytes :: u32

record dp_regs =
  dp_start :: u32
  dp_end :: u32
  dp_current :: u32
  dp_status :: u32

section \<open>The RSP and the RDP\<close>

record rsp =
  r_dmem :: bytes
  r_imem :: bytes
  r_gpr :: "u32 \<Rightarrow> u32"
  r_vpr :: "u32 \<Rightarrow> nat \<Rightarrow> u16"
  r_accumulator :: "nat \<Rightarrow> int"
  r_vco :: u16
  r_vcc :: u16
  r_vce :: u8
  r_div_in :: int
  r_div_out :: int
  r_div_high_pending :: bool
  r_pc :: u32
  r_next_pc :: u32
  r_branch_pending :: bool
  r_in_delay_slot :: bool
  r_halted :: bool
  r_broke :: bool
  r_intr_on_break :: bool
  r_cycles :: u64
  r_retired :: u64

record rdp_image =
  im_address :: u32
  im_width :: u32
  im_size :: u8
  im_format :: u8
  im_valid :: bool

record rdp_tile =
  tl_format :: u8
  tl_size :: u8
  tl_line :: u16
  tl_tmem :: u16
  tl_palette :: u8
  tl_ct :: u8
  tl_mt :: u8
  tl_cs :: u8
  tl_ms :: u8
  tl_mask_t :: u8
  tl_shift_t :: u8
  tl_mask_s :: u8
  tl_shift_s :: u8
  tl_sl :: u16
  tl_tl :: u16
  tl_sh :: u16
  tl_th :: u16
  tl_defined :: bool

record rdp_scissor =
  sc_xh :: int
  sc_yh :: int
  sc_xl :: int
  sc_yl :: int
  sc_set :: bool

record rdp =
  d_color_image :: rdp_image
  d_texture_image :: rdp_image
  d_scissor :: rdp_scissor
  d_tiles :: "u32 \<Rightarrow> rdp_tile"
  d_tmem :: bytes
  d_fill_color :: u32
  d_blend_color :: u32
  d_other_modes :: u64
  d_busy :: bool
  d_cmds_executed :: u64
  d_fill_pixels :: u64
  d_tex_pixels :: u64

section \<open>The machine\<close>

record machine =
  m_cpu :: cpu
  m_cache :: block_cache
  m_mi :: mips_interface
  m_pi :: pi_regs
  m_si :: si_regs
  m_ri :: ri_regs
  m_sp :: sp_regs
  m_dp :: dp_regs
  m_vi :: video_interface
  m_ai :: audio_interface
  m_pif :: pif
  m_rsp :: rsp
  m_rdp :: rdp
  m_sched :: scheduler
  m_dbg :: debugger
  m_rdram :: "u8 list"
  m_cart :: "u8 list"
  m_pif_rom :: "u8 list"
  m_dmem :: bytes
  m_imem :: bytes
  m_pif_ram :: bytes
  m_device_debt :: u64

text \<open>Newly constructed objects, with the given RDRAM contents.\<close>

definition rsp_new :: rsp where
  "rsp_new = \<lparr>r_dmem = (\<lambda>_. 0), r_imem = (\<lambda>_. 0), r_gpr = (\<lambda>_. 0), r_vpr = (\<lambda>_ _. 0),
     r_accumulator = (\<lambda>_. 0), r_vco = 0, r_vcc = 0, r_vce = 0, r_div_in = 0, r_div_out = 0,
     r_div_high_pending = False, r_pc = 0, r_next_pc = 4, r_branch_pending = False,
     r_in_delay_slot = False, r_halted = True, r_broke = False, r_intr_on_break = False,
     r_cycles = 0, r_retired = 0\<rparr>"

definition empty_image :: rdp_image where
  "empty_image = \<lparr>im_address = 0, im_width = 0, im_size = 2, im_format = 0, im_valid = False\<rparr>"

definition empty_tile :: rdp_tile where
  "empty_tile = \<lparr>tl_format = 0, tl_size = 2, tl_line = 0, tl_tmem = 0, tl_palette = 0, tl_ct = 0,
     tl_mt = 0, tl_cs = 0, tl_ms = 0, tl_mask_t = 0, tl_shift_t = 0, tl_mask_s = 0, tl_shift_s = 0,
     tl_sl = 0, tl_tl = 0, tl_sh = 0, tl_th = 0, tl_defined = False\<rparr>"

definition empty_scissor :: rdp_scissor where
  "empty_scissor = \<lparr>sc_xh = 0, sc_yh = 0, sc_xl = 320, sc_yl = 240, sc_set = False\<rparr>"

definition rdp_new :: rdp where
  "rdp_new = \<lparr>d_color_image = empty_image, d_texture_image = empty_image, d_scissor = empty_scissor,
     d_tiles = (\<lambda>_. empty_tile), d_tmem = (\<lambda>_. 0), d_fill_color = 0, d_blend_color = 0,
     d_other_modes = 0, d_busy = False, d_cmds_executed = 0, d_fill_pixels = 0, d_tex_pixels = 0\<rparr>"

definition machine_new :: "u8 list \<Rightarrow> machine" where
  "machine_new rdram = \<lparr>m_cpu = cpu_new, m_cache = bc_new,
     m_mi = \<lparr>mi_mode = 0, mi_intr = 0, mi_intr_mask = 0\<rparr>,
     m_pi = \<lparr>pi_dram_addr = 0, pi_cart_addr = 0, pi_rd_len = 0, pi_wr_len = 0, pi_status = 0,
       pi_dom1_lat = 0x40, pi_dom1_pwd = 0x12, pi_dom1_pgs = 7, pi_dom1_rls = 3,
       pi_dom2_lat = 0x40, pi_dom2_pwd = 0x12, pi_dom2_pgs = 7, pi_dom2_rls = 3,
       pi_last_dma_bytes = 0\<rparr>,
     m_si = \<lparr>si_dram_addr = 0, si_status = 0, si_last_dma_bytes = 0\<rparr>,
     m_ri = \<lparr>ri_mode = 0x0E, ri_config = 0x40, ri_current_load = 0, ri_select = 0x14,
       ri_refresh = 0x63624, ri_latency = 0x15, ri_rerror = 0, ri_werror = 0\<rparr>,
     m_sp = \<lparr>sp_mem_addr = 0, sp_dram_addr = 0, sp_status = 1, sp_semaphore = 0,
       sp_last_dma_bytes = 0\<rparr>,
     m_dp = \<lparr>dp_start = 0, dp_end = 0, dp_current = 0, dp_status = 0x80\<rparr>,
     m_vi = vi_new, m_ai = ai_new, m_pif = pif_new, m_rsp = rsp_new, m_rdp = rdp_new,
     m_sched = sched_new, m_dbg = debugger_new, m_rdram = rdram, m_cart = [], m_pif_rom = [],
     m_dmem = (\<lambda>_. 0), m_imem = (\<lambda>_. 0), m_pif_ram = (\<lambda>_. 0), m_device_debt = 0\<rparr>"

lemma machine_new_sel [simp]:
  "m_rdram (machine_new r) = r" "m_cache (machine_new r) = bc_new" "m_cpu (machine_new r) = cpu_new"
  "m_cart (machine_new r) = []" "m_pif (machine_new r) = pif_new" "m_rdp (machine_new r) = rdp_new"
  "m_rsp (machine_new r) = rsp_new" "m_dbg (machine_new r) = debugger_new"
  "m_device_debt (machine_new r) = 0"
  by (simp_all add: machine_new_def)

text \<open>\<open>MipsInterface::raise\<close> and \<open>clear\<close> with the callback \<open>Bus::connect\<close> installs: the level
  of the CPU line follows the controller at once.\<close>

definition irq_callback :: "mips_interface \<times> cpu \<Rightarrow> mips_interface \<times> cpu" where
  "irq_callback s = (fst s, set_rcp_interrupt (cpu_irq_level (fst s)) (snd s))"

definition raise_line :: "u32 \<Rightarrow> mips_interface \<times> cpu \<Rightarrow> mips_interface \<times> cpu" where
  "raise_line bit_mask s = irq_callback (mi_raise bit_mask (fst s), snd s)"

definition clear_line :: "u32 \<Rightarrow> mips_interface \<times> cpu \<Rightarrow> mips_interface \<times> cpu" where
  "clear_line bit_mask s = irq_callback (mi_clear bit_mask (fst s), snd s)"

definition with_mi_cpu :: "(mips_interface \<times> cpu \<Rightarrow> mips_interface \<times> cpu) \<Rightarrow> machine \<Rightarrow> machine" where
  "with_mi_cpu f m = (case f (m_mi m, m_cpu m) of (mi, c) \<Rightarrow> m\<lparr>m_mi := mi, m_cpu := c\<rparr>)"

definition raise_irq :: "u32 \<Rightarrow> machine \<Rightarrow> machine" where
  "raise_irq bit_mask = with_mi_cpu (raise_line bit_mask)"

definition clear_irq :: "u32 \<Rightarrow> machine \<Rightarrow> machine" where
  "clear_irq bit_mask = with_mi_cpu (clear_line bit_mask)"

section \<open>Addresses\<close>

definition physical :: "u32 \<Rightarrow> u32" where
  "physical a = a AND 0x1FFFFFFF"

definition in_region :: "u32 \<Rightarrow> u32 \<Rightarrow> u32 \<Rightarrow> bool" where
  "in_region p base sz \<longleftrightarrow> p \<ge> base \<and> p < base + sz"

definition is_mmio_region :: "u32 \<Rightarrow> bool" where
  "is_mmio_region p \<longleftrightarrow>
    in_region p 0x04040000 0x20 \<or> in_region p 0x04080000 0x10 \<or> in_region p 0x04100000 0x20
    \<or> in_region p 0x04300000 0x10 \<or> in_region p 0x04400000 0x40 \<or> in_region p 0x04500000 0x20
    \<or> in_region p 0x04600000 0x40 \<or> in_region p 0x04700000 0x20 \<or> in_region p 0x04800000 0x20"

text \<open>The notification that a write bypassed the typed helpers. The walk of the cache always
  ends (lemma \<open>notify_total\<close> below), so the second branch of the case is never taken from a
  state the machine reaches.\<close>

definition notify_memory_write :: "u32 \<Rightarrow> u32 \<Rightarrow> machine \<Rightarrow> machine" where
  "notify_memory_write paddr sz m =
    (if sz = 0 then m
     else if bc_count (m_cache m) \<noteq> 0 then
       (case bc_invalidate (physical paddr) sz (m_cache m) of
          Some c \<Rightarrow> m\<lparr>m_cache := c\<rparr>
        | None \<Rightarrow> m)
     else m)"

section \<open>Memory\<close>

definition rdram_index :: "machine \<Rightarrow> u32 \<Rightarrow> nat" where
  "rdram_index m a = unat a mod length (m_rdram m)"

definition rdram_get :: "machine \<Rightarrow> u32 \<Rightarrow> u8" where
  "rdram_get m a = (if m_rdram m = [] then 0 else m_rdram m ! rdram_index m a)"

definition rdram_put :: "u32 \<Rightarrow> u8 \<Rightarrow> machine \<Rightarrow> machine" where
  "rdram_put a b m =
    (if m_rdram m = [] then m else m\<lparr>m_rdram := vec_wr (rdram_index m a) b (m_rdram m)\<rparr>)"

definition cart_offset :: "u32 \<Rightarrow> u32" where
  "cart_offset cart_addr = (if cart_addr \<ge> 0x10000000 then cart_addr - 0x10000000 else cart_addr)"

definition cart_read_byte :: "machine \<Rightarrow> u32 \<Rightarrow> u8" where
  "cart_read_byte m cart_addr =
    (if unat (cart_offset cart_addr) < length (m_cart m)
     then m_cart m ! unat (cart_offset cart_addr) else 0)"

definition cart_write_byte :: "u32 \<Rightarrow> u8 \<Rightarrow> machine \<Rightarrow> machine" where
  "cart_write_byte cart_addr b m =
    (if unat (cart_offset cart_addr) < length (m_cart m)
     then m\<lparr>m_cart := vec_wr (unat (cart_offset cart_addr)) b (m_cart m)\<rparr> else m)"

definition read_open_bus :: "u32 \<Rightarrow> u8" where
  "read_open_bus addr = ucast (drop_bit 8 addr AND 0xFF)"

definition read8_const :: "machine \<Rightarrow> u32 \<Rightarrow> u8" where
  "read8_const m addr =
    (let paddr = physical addr in
     if paddr < 0x03F00000 then
       (if m_rdram m = [] then read_open_bus paddr else m_rdram m ! rdram_index m paddr)
     else if paddr \<ge> 0x04000000 \<and> paddr < 0x04001000 then m_dmem m (unat (paddr - 0x04000000))
     else if paddr \<ge> 0x04001000 \<and> paddr < 0x04002000 then m_imem m (unat (paddr - 0x04001000))
     else if paddr \<ge> 0x10000000 \<and> paddr < 0x1FBFFFFF + 1 then
       (let off = unat (paddr - 0x10000000) in if off < length (m_cart m) then m_cart m ! off else 0)
     else if paddr \<ge> 0x1FC00000 \<and> paddr < 0x1FC007C0 then
       (let off = unat (paddr - 0x1FC00000)
        in if off < length (m_pif_rom m) then m_pif_rom m ! off else 0)
     else if paddr \<ge> 0x1FC007C0 \<and> paddr \<le> 0x1FC007FF then
       pif_bytes (m_pif m) ! unat (paddr - 0x1FC007C0)
     else read_open_bus paddr)"

definition read16_const :: "machine \<Rightarrow> u32 \<Rightarrow> u16" where
  "read16_const m addr =
    (let paddr = physical addr in
     if paddr < 0x03F00000 \<and> m_rdram m \<noteq> [] \<and> rdram_index m paddr + 1 < length (m_rdram m)
     then bswap16 (le16 (nth (m_rdram m)) (rdram_index m paddr))
     else be16 (read8_const m addr) (read8_const m (addr + 1)))"

definition read32_const :: "machine \<Rightarrow> u32 \<Rightarrow> u32" where
  "read32_const m addr =
    (let paddr = physical addr in
     if paddr < 0x03F00000 \<and> m_rdram m \<noteq> [] \<and> rdram_index m paddr + 3 < length (m_rdram m)
     then bswap32 (le32 (nth (m_rdram m)) (rdram_index m paddr))
     else if paddr \<ge> 0x10000000 \<and> paddr \<le> 0x1FBFFFFF
       \<and> unat (paddr - 0x10000000) + 3 < length (m_cart m)
     then bswap32 (le32 (nth (m_cart m)) (unat (paddr - 0x10000000)))
     else if paddr \<ge> 0x04000000 \<and> paddr < 0x04001000 \<and> unat (paddr - 0x04000000) + 3 < 4096
     then bswap32 (le32 (m_dmem m) (unat (paddr - 0x04000000)))
     else if paddr \<ge> 0x04001000 \<and> paddr < 0x04002000 \<and> unat (paddr - 0x04001000) + 3 < 4096
     then bswap32 (le32 (m_imem m) (unat (paddr - 0x04001000)))
     else be32 (read8_const m addr) (read8_const m (addr + 1)) (read8_const m (addr + 2))
            (read8_const m (addr + 3)))"


section \<open>What the shared operations keep\<close>

text \<open>The invariant of the machine: the components' own invariants, and the CPU's external
  interrupt line agreeing with the controller.\<close>

definition machine_wf :: "machine \<Rightarrow> bool" where
  "machine_wf m \<longleftrightarrow> cpu_wf (m_cpu m) \<and> bc_wf (m_cache m) \<and> pif_wf (m_pif m)
    \<and> ip2 (m_cpu m) = cpu_irq_level (m_mi m)"

lemma machine_wf_frame [simp]:
  "machine_wf (m\<lparr>m_pi := a1\<rparr>) = machine_wf m" "machine_wf (m\<lparr>m_si := a2\<rparr>) = machine_wf m"
  "machine_wf (m\<lparr>m_ri := a3\<rparr>) = machine_wf m" "machine_wf (m\<lparr>m_sp := a4\<rparr>) = machine_wf m"
  "machine_wf (m\<lparr>m_dp := a5\<rparr>) = machine_wf m" "machine_wf (m\<lparr>m_vi := a6\<rparr>) = machine_wf m"
  "machine_wf (m\<lparr>m_ai := a7\<rparr>) = machine_wf m" "machine_wf (m\<lparr>m_rsp := a8\<rparr>) = machine_wf m"
  "machine_wf (m\<lparr>m_rdp := a9\<rparr>) = machine_wf m" "machine_wf (m\<lparr>m_sched := b1\<rparr>) = machine_wf m"
  "machine_wf (m\<lparr>m_dbg := b2\<rparr>) = machine_wf m" "machine_wf (m\<lparr>m_rdram := b3\<rparr>) = machine_wf m"
  "machine_wf (m\<lparr>m_cart := b4\<rparr>) = machine_wf m" "machine_wf (m\<lparr>m_pif_rom := b5\<rparr>) = machine_wf m"
  "machine_wf (m\<lparr>m_dmem := b6\<rparr>) = machine_wf m" "machine_wf (m\<lparr>m_imem := b7\<rparr>) = machine_wf m"
  "machine_wf (m\<lparr>m_pif_ram := b8\<rparr>) = machine_wf m"
  "machine_wf (m\<lparr>m_device_debt := b9\<rparr>) = machine_wf m"
  by (simp_all add: machine_wf_def)

lemma machine_wf_cpu [wf_intros]:
  "machine_wf m \<Longrightarrow> cpu_wf c \<Longrightarrow> ip2 c = ip2 (m_cpu m) \<Longrightarrow> machine_wf (m\<lparr>m_cpu := c\<rparr>)"
  by (simp add: machine_wf_def)

lemma machine_wf_cache [wf_intros]:
  "machine_wf m \<Longrightarrow> bc_wf c \<Longrightarrow> machine_wf (m\<lparr>m_cache := c\<rparr>)"
  by (simp add: machine_wf_def)

lemma machine_wf_pif [wf_intros]:
  "machine_wf m \<Longrightarrow> pif_wf p \<Longrightarrow> machine_wf (m\<lparr>m_pif := p\<rparr>)"
  by (simp add: machine_wf_def)

lemma cpu_wf_set_rcp [wf_intros]: "cpu_wf c \<Longrightarrow> cpu_wf (set_rcp_interrupt l c)"
  by (simp add: set_rcp_interrupt_def cpu_wf_def cop0_wf_def)

text \<open>Whatever the controller did, the callback leaves the CPU line agreeing with it.\<close>

lemma irq_callback_wf:
  "cpu_wf (snd s) \<Longrightarrow> cpu_wf (snd (irq_callback s))
    \<and> ip2 (snd (irq_callback s)) = cpu_irq_level (fst (irq_callback s))"
  by (simp add: irq_callback_def cpu_wf_set_rcp irq_simps)

lemma machine_wf_irq [wf_intros]:
  "machine_wf m \<Longrightarrow> machine_wf (raise_irq b m)" "machine_wf m \<Longrightarrow> machine_wf (clear_irq b m)"
  using irq_callback_wf [of "(mi_raise b (m_mi m), m_cpu m)"]
    irq_callback_wf [of "(mi_clear b (m_mi m), m_cpu m)"]
  by (simp_all add: machine_wf_def raise_irq_def clear_irq_def with_mi_cpu_def raise_line_def
      clear_line_def split_def)

text \<open>The walk of the cache ends, so a notification only changes the cache.\<close>

lemma notify_total:
  assumes "bc_wf (m_cache m)"
  obtains c where "notify_memory_write p s m = m\<lparr>m_cache := c\<rparr>" "bc_wf c"
    "bc_aligned (m_cache m) \<Longrightarrow> bc_aligned c"
proof (cases "s = 0 \<or> bc_count (m_cache m) = 0")
  case True
  then have "notify_memory_write p s m = m\<lparr>m_cache := m_cache m\<rparr>"
    by (auto simp: notify_memory_write_def)
  then show ?thesis using assms by (rule that)
next
  case False
  obtain c where c: "bc_invalidate (physical p) s (m_cache m) = Some c" "bc_wf c"
    using invalidate_correct [OF assms, of "physical p" s] by blast
  then show ?thesis
    using False assms bc_aligned_invalidate [OF assms]
    by (intro that [of c]) (auto simp: notify_memory_write_def)
qed

lemma notify_frame [simp]:
  "m_cpu (notify_memory_write p s m) = m_cpu m" "m_mi (notify_memory_write p s m) = m_mi m"
  "m_pi (notify_memory_write p s m) = m_pi m" "m_si (notify_memory_write p s m) = m_si m"
  "m_ri (notify_memory_write p s m) = m_ri m" "m_sp (notify_memory_write p s m) = m_sp m"
  "m_dp (notify_memory_write p s m) = m_dp m" "m_vi (notify_memory_write p s m) = m_vi m"
  "m_ai (notify_memory_write p s m) = m_ai m" "m_pif (notify_memory_write p s m) = m_pif m"
  "m_rsp (notify_memory_write p s m) = m_rsp m" "m_rdp (notify_memory_write p s m) = m_rdp m"
  "m_sched (notify_memory_write p s m) = m_sched m" "m_dbg (notify_memory_write p s m) = m_dbg m"
  "m_rdram (notify_memory_write p s m) = m_rdram m" "m_cart (notify_memory_write p s m) = m_cart m"
  "m_pif_rom (notify_memory_write p s m) = m_pif_rom m" "m_dmem (notify_memory_write p s m) = m_dmem m"
  "m_imem (notify_memory_write p s m) = m_imem m" "m_pif_ram (notify_memory_write p s m) = m_pif_ram m"
  "m_device_debt (notify_memory_write p s m) = m_device_debt m"
  by (simp_all add: notify_memory_write_def split: option.split)

lemma machine_wf_notify [wf_intros]: "machine_wf m \<Longrightarrow> machine_wf (notify_memory_write p s m)"
  by (rule notify_total [of m p s]) (simp_all add: machine_wf_def)

lemma irq_frame [simp]:
  "m_cache (raise_irq b m) = m_cache m" "m_cache (clear_irq b m) = m_cache m"
  "m_pi (raise_irq b m) = m_pi m" "m_pi (clear_irq b m) = m_pi m"
  "m_si (raise_irq b m) = m_si m" "m_si (clear_irq b m) = m_si m"
  "m_sp (raise_irq b m) = m_sp m" "m_sp (clear_irq b m) = m_sp m"
  "m_dp (raise_irq b m) = m_dp m" "m_dp (clear_irq b m) = m_dp m"
  "m_vi (raise_irq b m) = m_vi m" "m_vi (clear_irq b m) = m_vi m"
  "m_ai (raise_irq b m) = m_ai m" "m_ai (clear_irq b m) = m_ai m"
  "m_pif (raise_irq b m) = m_pif m" "m_pif (clear_irq b m) = m_pif m"
  "m_rsp (raise_irq b m) = m_rsp m" "m_rsp (clear_irq b m) = m_rsp m"
  "m_rdp (raise_irq b m) = m_rdp m" "m_rdp (clear_irq b m) = m_rdp m"
  "m_sched (raise_irq b m) = m_sched m" "m_sched (clear_irq b m) = m_sched m"
  "m_dbg (raise_irq b m) = m_dbg m" "m_dbg (clear_irq b m) = m_dbg m"
  "m_rdram (raise_irq b m) = m_rdram m" "m_rdram (clear_irq b m) = m_rdram m"
  "m_cart (raise_irq b m) = m_cart m" "m_cart (clear_irq b m) = m_cart m"
  "m_dmem (raise_irq b m) = m_dmem m" "m_dmem (clear_irq b m) = m_dmem m"
  "m_imem (raise_irq b m) = m_imem m" "m_imem (clear_irq b m) = m_imem m"
  "m_pif_ram (raise_irq b m) = m_pif_ram m" "m_pif_ram (clear_irq b m) = m_pif_ram m"
  by (simp_all add: raise_irq_def clear_irq_def with_mi_cpu_def split: prod.split)

lemma irq_lines_of_machine:
  "m_mi (raise_irq b m) = mi_raise b (m_mi m)" "m_mi (clear_irq b m) = mi_clear b (m_mi m)"
  "m_cpu (raise_irq b m) = set_rcp_interrupt (cpu_irq_level (mi_raise b (m_mi m))) (m_cpu m)"
  "m_cpu (clear_irq b m) = set_rcp_interrupt (cpu_irq_level (mi_clear b (m_mi m))) (m_cpu m)"
  by (simp_all add: raise_irq_def clear_irq_def with_mi_cpu_def raise_line_def clear_line_def
      irq_callback_def)

lemma machine_wf_new: "machine_wf (machine_new rdram)"
  by (simp add: machine_wf_def machine_new_def cpu_wf_def cpu_new_def cop0_wf_def tlb_entry_wf_def
      empty_tlb_entry_def bc_wf_new pif_wf_def pif_new_def ip2_def cpu_irq_level_def)

end
