(* ===== verification/Bus_Read.thy ===== *)
theory Bus_Read
  imports Machine
begin

text \<open>
  The reading half of \<open>bus/bus.cpp\<close>: the register reads of the devices behind the bus
  (\<open>pi.cpp\<close>, \<open>si.cpp\<close>, \<open>ri.cpp\<close>, \<open>sp_regs.cpp\<close>, \<open>dp_regs.cpp\<close>), the MMIO dispatch and
  the sized reads with their debugger hook, and the proof that the wide fast paths read what
  the byte path reads.
\<close>

section \<open>Register reads\<close>

definition pi_read :: "u32 \<Rightarrow> pi_regs \<Rightarrow> u32" where
  "pi_read offset p =
    (let r = offset AND 0x3C in
     if r = 0x00 then pi_dram_addr p AND 0x00FFFFFE
     else if r = 0x04 then pi_cart_addr p AND 0xFFFFFFFE
     else if r = 0x08 then pi_rd_len p
     else if r = 0x0C then pi_wr_len p
     else if r = 0x10 then pi_status p
     else if r = 0x14 then pi_dom1_lat p
     else if r = 0x18 then pi_dom1_pwd p
     else if r = 0x1C then pi_dom1_pgs p
     else if r = 0x20 then pi_dom1_rls p
     else if r = 0x24 then pi_dom2_lat p
     else if r = 0x28 then pi_dom2_pwd p
     else if r = 0x2C then pi_dom2_pgs p
     else if r = 0x30 then pi_dom2_rls p
     else 0)"

definition si_read :: "u32 \<Rightarrow> si_regs \<Rightarrow> u32" where
  "si_read offset s =
    (let r = offset AND 0x1C in
     if r = 0x00 then si_dram_addr s AND 0x00FFFFFF
     else if r = 0x04 \<or> r = 0x10 then 0
     else if r = 0x18 then si_status s
     else 0)"

definition ri_read :: "u32 \<Rightarrow> ri_regs \<Rightarrow> u32" where
  "ri_read offset s =
    (let r = offset AND 0x1C in
     if r = 0x00 then ri_mode s
     else if r = 0x04 then ri_config s
     else if r = 0x08 then ri_current_load s
     else if r = 0x0C then ri_select s
     else if r = 0x10 then ri_refresh s
     else if r = 0x14 then ri_latency s
     else if r = 0x18 then ri_rerror s
     else ri_werror s)"

definition StHalt :: u32 where "StHalt = 0x1"
definition StBroke :: u32 where "StBroke = 0x2"
definition StDmaBusy :: u32 where "StDmaBusy = 0x4"
definition StDmaFull :: u32 where "StDmaFull = 0x8"
definition StSingleStep :: u32 where "StSingleStep = 0x20"
definition StIntrOnBreak :: u32 where "StIntrOnBreak = 0x40"
definition StSignal0 :: u32 where "StSignal0 = 0x80"

definition sp_read :: "u32 \<Rightarrow> sp_regs \<Rightarrow> u32" where
  "sp_read offset s =
    (let r = offset AND 0x1C in
     if r = 0x00 then sp_mem_addr s AND 0x1FFF
     else if r = 0x04 then sp_dram_addr s AND 0x00FFFFFF
     else if r = 0x08 \<or> r = 0x0C then 0
     else if r = 0x10 then sp_status s
     else if r = 0x14 then (if sp_status s AND StDmaFull \<noteq> 0 then 1 else 0)
     else if r = 0x18 then (if sp_status s AND StDmaBusy \<noteq> 0 then 1 else 0)
     else sp_semaphore s)"

definition sp_read_semaphore :: "sp_regs \<Rightarrow> u32 \<times> sp_regs" where
  "sp_read_semaphore s = (sp_semaphore s, s\<lparr>sp_semaphore := 1\<rparr>)"

definition sp_read_pc :: "u32 \<Rightarrow> rsp \<Rightarrow> u32" where
  "sp_read_pc offset r = (if offset AND 0x0C = 0 then r_pc r AND 0xFFC else 0)"

definition dp_read :: "u32 \<Rightarrow> dp_regs \<Rightarrow> u32" where
  "dp_read offset d =
    (let r = offset AND 0x1C in
     if r = 0x00 then dp_start d
     else if r = 0x04 then dp_end d
     else if r = 0x08 then dp_current d
     else if r = 0x0C then dp_status d
     else 0)"

section \<open>The sized reads\<close>

definition read_mmio32 :: "u32 \<Rightarrow> machine \<Rightarrow> u32 \<times> machine" where
  "read_mmio32 p m =
    (if in_region p 0x04040000 0x20 then
       (let off = p - 0x04040000 in
        if off AND 0x1C = 0x1C
        then (case sp_read_semaphore (m_sp m) of (v, s) \<Rightarrow> (v, m\<lparr>m_sp := s\<rparr>))
        else (sp_read off (m_sp m), m))
     else if in_region p 0x04080000 0x10 then (sp_read_pc (p - 0x04080000) (m_rsp m), m)
     else if in_region p 0x04100000 0x20 then (dp_read (p - 0x04100000) (m_dp m), m)
     else if in_region p 0x04300000 0x10 then (mi_read (p - 0x04300000) (m_mi m), m)
     else if in_region p 0x04400000 0x40 then (vi_read (p - 0x04400000) (m_vi m), m)
     else if in_region p 0x04500000 0x20 then (ai_read (p - 0x04500000) (m_ai m), m)
     else if in_region p 0x04600000 0x40 then (pi_read (p - 0x04600000) (m_pi m), m)
     else if in_region p 0x04700000 0x20 then (ri_read (p - 0x04700000) (m_ri m), m)
     else if in_region p 0x04800000 0x20 then (si_read (p - 0x04800000) (m_si m), m)
     else (0, m))"

definition dbg_read :: "u32 \<Rightarrow> u32 \<Rightarrow> machine \<Rightarrow> machine" where
  "dbg_read paddr sz m = m\<lparr>m_dbg := on_bus_read paddr sz (m_dbg m)\<rparr>"

definition bus_read8 :: "u32 \<Rightarrow> machine \<Rightarrow> u8 \<times> machine" where
  "bus_read8 addr m0 =
    (let paddr = physical addr; m = dbg_read paddr 1 m0 in
     if is_mmio_region paddr then
       (case read_mmio32 (paddr AND NOT 3) m of
          (w, m1) \<Rightarrow> (ucast (drop_bit (unat ((3 - (paddr AND 3)) * 8)) w AND 0xFF), m1))
     else (read8_const m paddr, m))"

definition bus_read16 :: "u32 \<Rightarrow> machine \<Rightarrow> u16 \<times> machine" where
  "bus_read16 addr m0 =
    (let paddr = physical addr; m = dbg_read paddr 2 m0 in
     if is_mmio_region (paddr AND NOT 3) \<or> is_mmio_region paddr then
       (case read_mmio32 (paddr AND NOT 3) m of
          (w, m1) \<Rightarrow> (if paddr AND 2 = 0 then ucast (drop_bit 16 w AND 0xFFFF) else ucast (w AND 0xFFFF), m1))
     else (read16_const m paddr, m))"

definition bus_read32 :: "u32 \<Rightarrow> machine \<Rightarrow> u32 \<times> machine" where
  "bus_read32 addr m0 =
    (let paddr = physical addr; m = dbg_read paddr 4 m0 in
     if is_mmio_region paddr then read_mmio32 (paddr AND NOT 3) m
     else (read32_const m paddr, m))"

definition bus_read64 :: "u32 \<Rightarrow> machine \<Rightarrow> u64 \<times> machine" where
  "bus_read64 addr m0 =
    (let paddr = physical addr; m = dbg_read paddr 8 m0 in
     if paddr < 0x03F00000 \<and> m_rdram m \<noteq> [] \<and> rdram_index m paddr + 7 < length (m_rdram m)
     then (bswap64 (le64 (nth (m_rdram m)) (rdram_index m paddr)), m)
     else (let (hi, m1) = bus_read32 addr m; (lo, m2) = bus_read32 (addr + 4) m1
           in (push_bit 32 (ucast hi) OR ucast lo, m2)))"

section \<open>What a read changes\<close>

text \<open>A read moves nothing but the semaphore and the debugger.\<close>

lemma dbg_read_frame [simp]:
  "m_cpu (dbg_read p s m) = m_cpu m" "m_mi (dbg_read p s m) = m_mi m" "m_sp (dbg_read p s m) = m_sp m"
  "m_rsp (dbg_read p s m) = m_rsp m" "m_rdram (dbg_read p s m) = m_rdram m"
  "m_dmem (dbg_read p s m) = m_dmem m" "m_imem (dbg_read p s m) = m_imem m"
  "m_cache (dbg_read p s m) = m_cache m" "m_pif (dbg_read p s m) = m_pif m"
  "m_rdp (dbg_read p s m) = m_rdp m" "m_cart (dbg_read p s m) = m_cart m"
  "machine_wf (dbg_read p s m) = machine_wf m"
  by (simp_all add: dbg_read_def)

lemma read_mmio32_frame [simp]:
  "m_cpu (snd (read_mmio32 p m)) = m_cpu m" "m_mi (snd (read_mmio32 p m)) = m_mi m"
  "m_rsp (snd (read_mmio32 p m)) = m_rsp m" "m_rdram (snd (read_mmio32 p m)) = m_rdram m"
  "m_dmem (snd (read_mmio32 p m)) = m_dmem m" "m_imem (snd (read_mmio32 p m)) = m_imem m"
  "m_cache (snd (read_mmio32 p m)) = m_cache m" "m_pif (snd (read_mmio32 p m)) = m_pif m"
  "m_rdp (snd (read_mmio32 p m)) = m_rdp m" "m_cart (snd (read_mmio32 p m)) = m_cart m"
  "machine_wf (snd (read_mmio32 p m)) = machine_wf m"
  "sp_status (m_sp (snd (read_mmio32 p m))) = sp_status (m_sp m)"
  by (simp_all add: read_mmio32_def Let_def sp_read_semaphore_def)

lemmas bus_read_defs = bus_read8_def bus_read16_def bus_read32_def bus_read64_def

lemma bus_read_frame [simp]:
  "m_cpu (snd (bus_read8 p m)) = m_cpu m" "m_cpu (snd (bus_read16 p m)) = m_cpu m"
  "m_cpu (snd (bus_read32 p m)) = m_cpu m" "m_cpu (snd (bus_read64 p m)) = m_cpu m"
  "m_mi (snd (bus_read8 p m)) = m_mi m" "m_mi (snd (bus_read16 p m)) = m_mi m"
  "m_mi (snd (bus_read32 p m)) = m_mi m" "m_mi (snd (bus_read64 p m)) = m_mi m"
  "m_rsp (snd (bus_read8 p m)) = m_rsp m" "m_rsp (snd (bus_read16 p m)) = m_rsp m"
  "m_rsp (snd (bus_read32 p m)) = m_rsp m" "m_rsp (snd (bus_read64 p m)) = m_rsp m"
  "m_rdram (snd (bus_read8 p m)) = m_rdram m" "m_rdram (snd (bus_read16 p m)) = m_rdram m"
  "m_rdram (snd (bus_read32 p m)) = m_rdram m" "m_rdram (snd (bus_read64 p m)) = m_rdram m"
  "m_dmem (snd (bus_read8 p m)) = m_dmem m" "m_dmem (snd (bus_read16 p m)) = m_dmem m"
  "m_dmem (snd (bus_read32 p m)) = m_dmem m" "m_dmem (snd (bus_read64 p m)) = m_dmem m"
  "m_imem (snd (bus_read8 p m)) = m_imem m" "m_imem (snd (bus_read16 p m)) = m_imem m"
  "m_imem (snd (bus_read32 p m)) = m_imem m" "m_imem (snd (bus_read64 p m)) = m_imem m"
  "m_cache (snd (bus_read8 p m)) = m_cache m" "m_cache (snd (bus_read16 p m)) = m_cache m"
  "m_cache (snd (bus_read32 p m)) = m_cache m" "m_cache (snd (bus_read64 p m)) = m_cache m"
  "m_rdp (snd (bus_read32 p m)) = m_rdp m"
  by (simp_all add: bus_read_defs Let_def split_def)

lemma bus_read_wf [simp]:
  "machine_wf (snd (bus_read8 p m)) = machine_wf m" "machine_wf (snd (bus_read16 p m)) = machine_wf m"
  "machine_wf (snd (bus_read32 p m)) = machine_wf m" "machine_wf (snd (bus_read64 p m)) = machine_wf m"
  "sp_status (m_sp (snd (bus_read8 p m))) = sp_status (m_sp m)"
  "sp_status (m_sp (snd (bus_read16 p m))) = sp_status (m_sp m)"
  "sp_status (m_sp (snd (bus_read32 p m))) = sp_status (m_sp m)"
  "sp_status (m_sp (snd (bus_read64 p m))) = sp_status (m_sp m)"
  by (simp_all add: bus_read_defs Let_def split_def)

section \<open>Wide reads are byte reads\<close>

lemma unat_minus_base: "b \<le> p \<Longrightarrow> unat (p - b) = unat p - unat (b :: u32)"
  by (rule unat_sub)

lemma read8_nat:
  "read8_const m a =
    (let n = unat (physical a) in
     if n < 0x03F00000 then
       (if m_rdram m = [] then read_open_bus (physical a) else m_rdram m ! (n mod length (m_rdram m)))
     else if 0x04000000 \<le> n \<and> n < 0x04001000 then m_dmem m (n - 0x04000000)
     else if 0x04001000 \<le> n \<and> n < 0x04002000 then m_imem m (n - 0x04001000)
     else if 0x10000000 \<le> n \<and> n < 0x1FC00000 then
       (if n - 0x10000000 < length (m_cart m) then m_cart m ! (n - 0x10000000) else 0)
     else if 0x1FC00000 \<le> n \<and> n < 0x1FC007C0 then
       (if n - 0x1FC00000 < length (m_pif_rom m) then m_pif_rom m ! (n - 0x1FC00000) else 0)
     else if 0x1FC007C0 \<le> n \<and> n < 0x1FC00800 then pif_bytes (m_pif m) ! (n - 0x1FC007C0)
     else read_open_bus (physical a))"
proof -
  have le: "n \<le> 0x1FC007FF \<longleftrightarrow> n < 0x1FC00800" for n :: nat by arith
  show ?thesis
    unfolding read8_const_def Let_def rdram_index_def word_less_nat_alt word_le_nat_alt
    by (simp add: unat_sub word_le_nat_alt le)
qed

lemma unat_and_mask: "unat (w AND mask n) = unat (w :: u32) mod 2 ^ n"
  unfolding take_bit_eq_mask [symmetric] unsigned_take_bit_eq by (simp only: take_bit_eq_mod)

lemma mod_plus_small: "n mod L + k < L \<Longrightarrow> (n + k) mod L = n mod L + (k :: nat)"
  by (metis mod_add_left_eq mod_less)

lemma physical_aligned:
  assumes "a AND 3 = 0" "k < 4"
  shows "unat (physical (a + of_nat k)) = unat (physical a) + k" "4 dvd unat (physical a)"
proof -
  have m: "(0x1FFFFFFF :: u32) = mask 29" "(3 :: u32) = mask 2" by (simp_all add: mask_eq_exp_minus_1)
  have p: "unat (physical b) = unat b mod 2 ^ 29" for b
    unfolding physical_def m by (rule unat_and_mask)
  have "unat a mod 2 ^ 2 = 0" using assms(1) unat_and_mask [of a 2] unfolding m by simp
  then have d: "4 dvd unat a" by (simp add: mod_eq_0_iff_dvd)
  then obtain q where q: "unat a = 4 * q" by (auto elim: dvdE)
  have b: "unat a < 2 ^ 32" using unsigned_less [of a] by simp
  then have "unat (a + of_nat k) = unat a + k"
    using assms(2) q by (simp add: unat_word_ariths unat_of_nat)
  moreover have r: "4 * q mod 2 ^ 29 = 4 * (q mod 2 ^ 27)"
    using mult_mod_right [of 4 q "2 ^ 27"] by simp
  moreover have "q mod 2 ^ 27 < 2 ^ 27" by simp
  moreover have "4 * q mod 2 ^ 29 + k < 2 ^ 29"
    using assms(2) calculation by simp
  ultimately show "unat (physical (a + of_nat k)) = unat (physical a) + k"
    unfolding p q using mod_plus_small by simp
  show "4 dvd unat (physical a)" unfolding p q r by simp
qed

text \<open>The byte that \<open>k\<close> places past an aligned address reads, region by region.\<close>

lemma read8_at:
  assumes "a AND 3 = 0" "k < 4" "n = unat (physical a)"
  shows "n < 0x03F00000 \<Longrightarrow> m_rdram m \<noteq> [] \<Longrightarrow>
      read8_const m (a + of_nat k) = m_rdram m ! ((n + k) mod length (m_rdram m))"
    "0x04000000 \<le> n \<Longrightarrow> n < 0x04001000 \<Longrightarrow> read8_const m (a + of_nat k) = m_dmem m (n - 0x04000000 + k)"
    "0x04001000 \<le> n \<Longrightarrow> n < 0x04002000 \<Longrightarrow> read8_const m (a + of_nat k) = m_imem m (n - 0x04001000 + k)"
    "0x10000000 \<le> n \<Longrightarrow> n < 0x1FC00000 \<Longrightarrow> n - 0x10000000 + k < length (m_cart m) \<Longrightarrow>
      read8_const m (a + of_nat k) = m_cart m ! (n - 0x10000000 + k)"
proof -
  obtain q where q: "n = 4 * q" using physical_aligned(2) [OF assms(1,2)] assms(3) by (auto elim: dvdE)
  have u: "unat (physical (a + of_nat k)) = n + k" using physical_aligned(1) [OF assms(1,2)] assms(3) by simp
  have lt: "n + k < 4 * c \<longleftrightarrow> n < 4 * c" for c using q assms(2) by presburger
  note b = lt [of "0x00FC0000", simplified] lt [of "0x01000400", simplified]
    lt [of "0x01000800", simplified] lt [of "0x07F00000", simplified]
  show "n < 0x03F00000 \<Longrightarrow> m_rdram m \<noteq> [] \<Longrightarrow>
      read8_const m (a + of_nat k) = m_rdram m ! ((n + k) mod length (m_rdram m))"
    by (simp add: read8_nat u b)
  show "0x04000000 \<le> n \<Longrightarrow> n < 0x04001000 \<Longrightarrow> read8_const m (a + of_nat k) = m_dmem m (n - 0x04000000 + k)"
    by (simp add: read8_nat u b)
  show "0x04001000 \<le> n \<Longrightarrow> n < 0x04002000 \<Longrightarrow> read8_const m (a + of_nat k) = m_imem m (n - 0x04001000 + k)"
    by (simp add: read8_nat u b)
  show "0x10000000 \<le> n \<Longrightarrow> n < 0x1FC00000 \<Longrightarrow> n - 0x10000000 + k < length (m_cart m) \<Longrightarrow>
      read8_const m (a + of_nat k) = m_cart m ! (n - 0x10000000 + k)"
    by (simp add: read8_nat u b)
qed

lemma read32_bytewise:
  assumes "a AND 3 = 0"
  shows "read32_const m a = be32 (read8_const m a) (read8_const m (a + 1))
      (read8_const m (a + 2)) (read8_const m (a + 3))" (is "_ = ?E")
proof -
  define n where "n = unat (physical a)"
  let ?L = "length (m_rdram m)"
  note r = read8_at [OF assms _ n_def, of 0 m, simplified] read8_at [OF assms _ n_def, of 1 m, simplified]
    read8_at [OF assms _ n_def, of 2 m, simplified] read8_at [OF assms _ n_def, of 3 m, simplified]
  have le: "n \<le> 0x1FBFFFFF \<longleftrightarrow> n < 0x1FC00000" by arith
  note s = word_less_nat_alt word_le_nat_alt n_def [symmetric] unat_sub le
  have rd: "(n + 1) mod ?L = n mod ?L + 1" "(n + 2) mod ?L = n mod ?L + 2" "(n + 3) mod ?L = n mod ?L + 3"
    if "n mod ?L + 3 < ?L"
    using that mod_plus_small [of n ?L 1] mod_plus_small [of n ?L 2] mod_plus_small [of n ?L 3] by linarith+
  show ?thesis
    unfolding read32_const_def Let_def rdram_index_def
  proof (intro pred_if [where P = "\<lambda>v. v = ?E"], goal_cases)
    case 1
    then show ?case using r(1,5,9,13) rd by (simp add: s bswap32_le32)
  next
    case 2
    then have "0x10000000 \<le> n" "n < 0x1FC00000" "n - 0x10000000 + 3 < length (m_cart m)"
      by (auto simp: s)
    then show ?case using r(4,8,12,16) by (simp add: s bswap32_le32)
  next
    case 3
    then show ?case using r(2,6,10,14) by (simp add: s bswap32_le32)
  next
    case 4
    then show ?case using r(3,7,11,15) by (simp add: s bswap32_le32)
  qed (rule refl)
qed

lemma read16_bytewise:
  assumes "a AND 3 = 0"
  shows "read16_const m a = be16 (read8_const m a) (read8_const m (a + 1))"
proof -
  define n where "n = unat (physical a)"
  let ?L = "length (m_rdram m)"
  note r = read8_at [OF assms _ n_def, of 0 m, simplified] read8_at [OF assms _ n_def, of 1 m, simplified]
  show ?thesis
  proof (cases "n < 0x03F00000 \<and> m_rdram m \<noteq> [] \<and> n mod ?L + 1 < ?L")
    case True
    then have "(n + 1) mod ?L = n mod ?L + 1"
      using mod_plus_small [of n ?L 1] by linarith
    then show ?thesis
      using True r
      by (simp add: read16_const_def Let_def rdram_index_def n_def word_less_nat_alt bswap16_le16)
  next
    case False
    then show ?thesis
      by (auto simp: read16_const_def Let_def rdram_index_def n_def word_less_nat_alt)
  qed
qed

text \<open>The wide reads of the bus are the byte reads put together, big-endian: the \<open>memcpy\<close>
  fast paths of RDRAM, the cartridge and the two SP memories give what the byte path gives, for
  every aligned address of every region.\<close>

theorem wide_reads_bytewise:
  assumes "a AND 3 = 0"
  shows "read32_const m a = be32 (read8_const m a) (read8_const m (a + 1))
      (read8_const m (a + 2)) (read8_const m (a + 3))
    \<and> read16_const m a = be16 (read8_const m a) (read8_const m (a + 1))"
  using read32_bytewise [OF assms] read16_bytewise [OF assms] by simp

theorem wide_reads_bytewise_witness:
  "read32_const (machine_new [1, 2, 3, 4, 5, 6]) 0 = 0x01020304
    \<and> read16_const (machine_new [1, 2, 3, 4, 5, 6]) 4 = 0x0506"
  using wide_reads_bytewise [of 0 "machine_new [1, 2, 3, 4, 5, 6]"]
    wide_reads_bytewise [of 4 "machine_new [1, 2, 3, 4, 5, 6]"]
  by (simp add: machine_new_def read8_const_def physical_def rdram_index_def be32_def be16_def)

end
