(* ===== verification/Rdp.thy ===== *)
theory Rdp
  imports Bus_Read
begin

text \<open>
  The display processor (\<open>rcp/rdp/rdp.cpp\<close>): the command list, the state-setting commands,
  the loads into texture memory and the two rectangle commands, on the machine's RDRAM.
  Coordinates are C++ \<open>int\<close>; every value they take fits, so they are integers here. A command
  list is read through the bus, so reading it can hit a debugger watchpoint.
\<close>

section \<open>Command fields\<close>

definition fld :: "u64 \<Rightarrow> nat \<Rightarrow> u64 \<Rightarrow> u32" where
  "fld cmd sh msk = ucast (drop_bit sh cmd AND msk)"

definition rdp_opcode :: "u64 \<Rightarrow> u32" where
  "rdp_opcode cmd = fld cmd 56 0x3F"

definition fx10_2_floor :: "u32 \<Rightarrow> int" where
  "fx10_2_floor v = int (unat (drop_bit 2 v))"

definition kTmemBytes :: nat where "kTmemBytes = 4096"

definition upd_rdp :: "(rdp \<Rightarrow> rdp) \<Rightarrow> machine \<Rightarrow> machine" where
  "upd_rdp f m = m\<lparr>m_rdp := f (m_rdp m)\<rparr>"

section \<open>State-setting commands\<close>

definition rdp_reset :: "rdp \<Rightarrow> rdp" where
  "rdp_reset d = d\<lparr>d_color_image := empty_image, d_texture_image := empty_image,
     d_scissor := empty_scissor\<lparr>sc_xl := 320, sc_yl := 240\<rparr>, d_tiles := (\<lambda>_. empty_tile),
     d_tmem := (\<lambda>_. 0), d_fill_color := 0, d_blend_color := 0, d_other_modes := 0,
     d_busy := False, d_cmds_executed := 0, d_fill_pixels := 0, d_tex_pixels := 0\<rparr>"

definition rdp_flush :: "rdp \<Rightarrow> rdp" where
  "rdp_flush d = d\<lparr>d_busy := False\<rparr>"

definition image_of_cmd :: "u64 \<Rightarrow> rdp_image" where
  "image_of_cmd cmd =
    (let width = ucast ((drop_bit 32 cmd AND 0x3FF) + 1) :: u32 in
     \<lparr>im_address = fld cmd 0 0x03FFFFFF AND NOT 7, im_width = width,
      im_size = ucast (drop_bit 51 cmd AND 3), im_format = ucast (drop_bit 53 cmd AND 7),
      im_valid = width > 0\<rparr>)"

definition cmd_set_color_image :: "u64 \<Rightarrow> rdp \<Rightarrow> rdp" where
  "cmd_set_color_image cmd d = d\<lparr>d_color_image := image_of_cmd cmd\<rparr>"

definition cmd_set_texture_image :: "u64 \<Rightarrow> rdp \<Rightarrow> rdp" where
  "cmd_set_texture_image cmd d = d\<lparr>d_texture_image := image_of_cmd cmd\<rparr>"

definition cmd_set_scissor :: "u64 \<Rightarrow> rdp \<Rightarrow> rdp" where
  "cmd_set_scissor cmd d = d\<lparr>d_scissor :=
     \<lparr>sc_xh = fx10_2_floor (fld cmd 44 0xFFF), sc_yh = fx10_2_floor (fld cmd 32 0xFFF),
      sc_xl = fx10_2_floor (fld cmd 12 0xFFF), sc_yl = fx10_2_floor (fld cmd 0 0xFFF),
      sc_set = True\<rparr>\<rparr>"

definition cmd_set_fill_color :: "u64 \<Rightarrow> rdp \<Rightarrow> rdp" where
  "cmd_set_fill_color cmd d = d\<lparr>d_fill_color := fld cmd 0 0xFFFFFFFF\<rparr>"

definition cmd_set_blend_color :: "u64 \<Rightarrow> rdp \<Rightarrow> rdp" where
  "cmd_set_blend_color cmd d = d\<lparr>d_blend_color := fld cmd 0 0xFFFFFFFF\<rparr>"

definition cmd_set_other_modes :: "u64 \<Rightarrow> rdp \<Rightarrow> rdp" where
  "cmd_set_other_modes cmd d = d\<lparr>d_other_modes := cmd\<rparr>"

definition cmd_sync_full :: "machine \<Rightarrow> machine" where
  "cmd_sync_full = raise_irq MiIntr_DP"

definition upd_tile :: "u32 \<Rightarrow> (rdp_tile \<Rightarrow> rdp_tile) \<Rightarrow> rdp \<Rightarrow> rdp" where
  "upd_tile i f d = d\<lparr>d_tiles := (d_tiles d)(i := f (d_tiles d i))\<rparr>"

definition cmd_set_tile :: "u64 \<Rightarrow> rdp \<Rightarrow> rdp" where
  "cmd_set_tile cmd = upd_tile (fld cmd 24 7) (\<lambda>t. t\<lparr>
     tl_format := ucast (drop_bit 53 cmd AND 7), tl_size := ucast (drop_bit 51 cmd AND 3),
     tl_line := ucast (drop_bit 41 cmd AND 0x1FF), tl_tmem := ucast (drop_bit 32 cmd AND 0x1FF),
     tl_palette := ucast (drop_bit 20 cmd AND 0xF),
     tl_ct := ucast (drop_bit 19 cmd AND 1), tl_mt := ucast (drop_bit 18 cmd AND 1),
     tl_mask_t := ucast (drop_bit 14 cmd AND 0xF), tl_shift_t := ucast (drop_bit 10 cmd AND 0xF),
     tl_cs := ucast (drop_bit 9 cmd AND 1), tl_ms := ucast (drop_bit 8 cmd AND 1),
     tl_mask_s := ucast (drop_bit 4 cmd AND 0xF), tl_shift_s := ucast (cmd AND 0xF),
     tl_defined := True\<rparr>)"

definition cmd_set_tile_size :: "u64 \<Rightarrow> rdp \<Rightarrow> rdp" where
  "cmd_set_tile_size cmd = upd_tile (fld cmd 24 7) (\<lambda>t. t\<lparr>
     tl_sl := ucast (drop_bit 44 cmd AND 0xFFF), tl_tl := ucast (drop_bit 32 cmd AND 0xFFF),
     tl_sh := ucast (drop_bit 12 cmd AND 0xFFF), tl_th := ucast (cmd AND 0xFFF),
     tl_defined := True\<rparr>)"

section \<open>Texture memory\<close>

definition copy_rdram_to_tmem :: "u32 \<Rightarrow> u32 \<Rightarrow> u32 \<Rightarrow> machine \<Rightarrow> machine" where
  "copy_rdram_to_tmem dram tmem_byte nbytes m =
    (if nbytes = 0 \<or> m_rdram m = [] then m
     else upd_rdp (\<lambda>d. d\<lparr>d_tmem :=
       fold (\<lambda>i. arr_wr (unat (tmem_byte + of_nat i) mod kTmemBytes) (rdram_get m (dram + of_nat i)))
         [0..<unat nbytes] (d_tmem d)\<rparr>) m)"

definition block_bpp :: "u8 \<Rightarrow> u32" where
  "block_bpp sz = (if sz = 3 then 4 else if sz = 1 then 1 else if sz = 0 then 1 else 2)"

definition tile_bpp :: "u8 \<Rightarrow> u32" where
  "tile_bpp sz = (if sz = 3 then 4 else if sz \<le> 1 then 1 else 2)"

definition cmd_load_block :: "u64 \<Rightarrow> machine \<Rightarrow> machine" where
  "cmd_load_block cmd m =
    (let im = d_texture_image (m_rdp m) in
     if \<not> im_valid im then m
     else
       let t = d_tiles (m_rdp m) (fld cmd 24 7);
           s0 = drop_bit 2 (fld cmd 44 0xFFF);
           s1 = drop_bit 2 (fld cmd 12 0xFFF);
           texels = (if s1 \<ge> s0 then s1 - s0 + 1 else 1);
           bpp = block_bpp (im_size im)
       in copy_rdram_to_tmem (im_address im + s0 * bpp) (ucast (tl_tmem t) * 8)
            (min (texels * bpp) (of_nat kTmemBytes)) m)"

definition load_tile_row :: "rdp_image \<Rightarrow> u32 \<Rightarrow> u32 \<Rightarrow> u32 \<Rightarrow> u32 \<Rightarrow> u32 \<Rightarrow> nat
    \<Rightarrow> u32 \<times> machine \<Rightarrow> u32 \<times> machine" where
  "load_tile_row im sl tl0 bpp tw line_bytes row s =
    (case s of (tmem_byte, m) \<Rightarrow>
      (tmem_byte + line_bytes,
       copy_rdram_to_tmem (im_address im + (tl0 + of_nat row) * im_width im * bpp + sl * bpp)
         tmem_byte (tw * bpp) m))"

definition cmd_load_tile :: "u64 \<Rightarrow> machine \<Rightarrow> machine" where
  "cmd_load_tile cmd m =
    (let im = d_texture_image (m_rdp m) in
     if \<not> im_valid im then m
     else
       let i = fld cmd 24 7;
           sl = drop_bit 2 (fld cmd 44 0xFFF);
           tl0 = drop_bit 2 (fld cmd 32 0xFFF);
           sh = drop_bit 2 (fld cmd 12 0xFFF);
           th = drop_bit 2 (fld cmd 0 0xFFF);
           m1 = upd_rdp (upd_tile i (\<lambda>t. t\<lparr>tl_sl := ucast (push_bit 2 sl),
             tl_tl := ucast (push_bit 2 tl0), tl_sh := ucast (push_bit 2 sh),
             tl_th := ucast (push_bit 2 th)\<rparr>)) m;
           t = d_tiles (m_rdp m1) i;
           bpp = tile_bpp (im_size im);
           tw = (if sh \<ge> sl then sh - sl + 1 else 1);
           thh = (if th \<ge> tl0 then th - tl0 + 1 else 1);
           line_bytes = (if tl_line t \<noteq> 0 then ucast (tl_line t) * 8 else tw * bpp)
       in snd (fold (load_tile_row im sl tl0 bpp tw line_bytes) [0..<unat thh]
            (ucast (tl_tmem t) * 8, m1)))"

section \<open>Pixels\<close>

definition clip_point :: "int \<Rightarrow> int \<Rightarrow> rdp \<Rightarrow> bool" where
  "clip_point x y d =
    (if x < 0 \<or> y < 0 then False
     else if sc_set (d_scissor d) \<and> (x < sc_xh (d_scissor d) \<or> x \<ge> sc_xl (d_scissor d)
       \<or> y < sc_yh (d_scissor d) \<or> y \<ge> sc_yl (d_scissor d)) then False
     else if im_valid (d_color_image d) \<and> of_int x \<ge> im_width (d_color_image d) then False
     else True)"

definition pixel_addr :: "rdp_image \<Rightarrow> u32 \<Rightarrow> int \<Rightarrow> int \<Rightarrow> u32" where
  "pixel_addr im bpp x y = im_address im + of_int y * im_width im * bpp + of_int x * bpp"

definition put_pixel16 :: "u32 \<Rightarrow> u16 \<Rightarrow> machine \<Rightarrow> machine" where
  "put_pixel16 addr p m =
    (if unat (addr + 1) \<ge> length (m_rdram m) then m
     else m\<lparr>m_rdram := vec_wr (unat (addr + 1)) (ucast (p AND 0xFF))
       (vec_wr (unat addr) (ucast (drop_bit 8 p AND 0xFF)) (m_rdram m))\<rparr>)"

definition put_pixel32 :: "u32 \<Rightarrow> u32 \<Rightarrow> machine \<Rightarrow> machine" where
  "put_pixel32 addr p m =
    (if unat (addr + 3) \<ge> length (m_rdram m) then m
     else m\<lparr>m_rdram := vec_wr (unat (addr + 3)) (ucast (p AND 0xFF))
       (vec_wr (unat (addr + 2)) (ucast (drop_bit 8 p AND 0xFF))
       (vec_wr (unat (addr + 1)) (ucast (drop_bit 16 p AND 0xFF))
       (vec_wr (unat addr) (ucast (drop_bit 24 p AND 0xFF)) (m_rdram m))))\<rparr>)"

definition pack_5551 :: "u32 \<Rightarrow> u16" where
  "pack_5551 pix32 =
    (let r8 = ucast (drop_bit 24 pix32 AND 0xFF) :: u16;
         g8 = ucast (drop_bit 16 pix32 AND 0xFF);
         b8 = ucast (drop_bit 8 pix32 AND 0xFF);
         a1 = (if pix32 AND 0xFF \<noteq> 0 then 1 else 0)
     in push_bit 11 (drop_bit 3 r8) OR push_bit 6 (drop_bit 3 g8) OR push_bit 1 (drop_bit 3 b8) OR a1)"

definition write_color_pixel :: "int \<Rightarrow> int \<Rightarrow> u16 \<Rightarrow> u32 \<Rightarrow> bool \<Rightarrow> machine \<Rightarrow> machine" where
  "write_color_pixel x y pix16 pix32 use32 m =
    (let im = d_color_image (m_rdp m) in
     if \<not> im_valid im \<or> \<not> clip_point x y (m_rdp m) then m
     else if m_rdram m = [] then m
     else if im_size im = 2 \<and> \<not> use32 then put_pixel16 (pixel_addr im 2 x y) pix16 m
     else if im_size im = 3 \<or> use32 then
       (if im_size im = 2 then put_pixel16 (pixel_addr im 2 x y) (pack_5551 pix32) m
        else put_pixel32 (pixel_addr im 4 x y) pix32 m)
     else m)"

definition count_fill_pixel :: "machine \<Rightarrow> machine" where
  "count_fill_pixel = upd_rdp (\<lambda>d. d\<lparr>d_fill_pixels := d_fill_pixels d + 1\<rparr>)"

definition write_fill_pixel :: "int \<Rightarrow> int \<Rightarrow> machine \<Rightarrow> machine" where
  "write_fill_pixel x y m =
    (let d = m_rdp m; im = d_color_image d in
     if \<not> im_valid im \<or> \<not> clip_point x y d then m
     else if im_size im = 2 then
       (let pix = (if pixel_addr im 2 x y AND 2 \<noteq> 0 then ucast (d_fill_color d AND 0xFFFF)
                   else ucast (drop_bit 16 (d_fill_color d) AND 0xFFFF))
        in count_fill_pixel (write_color_pixel x y pix 0 False m))
     else if im_size im = 3 then
       count_fill_pixel (write_color_pixel x y 0 (d_fill_color d) True m)
     else m)"

section \<open>Rectangles\<close>

text \<open>The pixel bounds both rectangle commands compute: the lower right corner rounded up, and
  the corners put in order.\<close>

definition rect_bounds :: "u64 \<Rightarrow> int \<times> int \<times> int \<times> int" where
  "rect_bounds cmd =
    (let xl_fx = fld cmd 44 0xFFF; yl_fx = fld cmd 32 0xFFF;
         xh = fx10_2_floor (fld cmd 12 0xFFF); yh = fx10_2_floor (fld cmd 0 0xFFF);
         xl = fx10_2_floor xl_fx + (if xl_fx AND 3 \<noteq> 0 then 1 else 0);
         yl = fx10_2_floor yl_fx + (if yl_fx AND 3 \<noteq> 0 then 1 else 0);
         (xl', xh') = (if xl < xh then (xh, xl) else (xl, xh));
         (yl', yh') = (if yl < yh then (yh, yl) else (yl, yh))
     in (xh', yh', xl', yl'))"

definition cmd_fill_rectangle :: "u64 \<Rightarrow> machine \<Rightarrow> machine" where
  "cmd_fill_rectangle cmd m =
    (case rect_bounds cmd of (xh, yh, xl, yl) \<Rightarrow>
      if \<not> im_valid (d_color_image (m_rdp m)) then m
      else fold (\<lambda>y. fold (\<lambda>x. write_fill_pixel x y) [xh..xl - 1]) [yh..yl - 1] m)"

definition apply_mask :: "int \<Rightarrow> u8 \<Rightarrow> int" where
  "apply_mask v msk = (if msk = 0 \<or> msk \<ge> 10 then v else v AND mask (unat msk))"

text \<open>The texel as the 16-bit and the 32-bit output of the code and the flag that says which
  one was set; the outputs not set keep the caller's zeros.\<close>

definition sample_tile :: "rdp \<Rightarrow> u32 \<Rightarrow> int \<Rightarrow> int \<Rightarrow> (u16 \<times> u32 \<times> bool) option" where
  "sample_tile d tile_idx s0 t0 =
    (let tile = d_tiles d (tile_idx AND 7); im = d_texture_image d;
         s = apply_mask s0 (tl_mask_s tile); t = apply_mask t0 (tl_mask_t tile) in
     if s < 0 \<or> t < 0 then None
     else
       let sz = (if tl_defined tile then tl_size tile else im_size im);
           bpp = tile_bpp sz;
           line_words = ucast (tl_line tile) :: u32;
           line_bytes = (if line_words \<noteq> 0 then line_words * 8
                         else if im_valid im then im_width im * bpp else of_int (s + 1) * bpp);
           off = ucast (tl_tmem tile) * 8 + of_int t * line_bytes + of_int s * bpp;
           b = (\<lambda>k. d_tmem d (unat (off + k)))
       in if unat (off + bpp) > kTmemBytes then None
          else if sz = 2 then Some (be16 (b 0) (b 1), 0, False)
          else if sz = 3 then Some (0, be32 (b 0) (b 1) (b 2) (b 3), True)
          else (let p = ucast (drop_bit 3 (b 0)) :: u16
                in Some (push_bit 11 p OR push_bit 6 p OR push_bit 1 p OR 1, 0, False)))"

definition tex_pixel :: "u32 \<Rightarrow> int \<Rightarrow> int \<Rightarrow> int \<Rightarrow> int \<Rightarrow> int \<times> machine \<Rightarrow> int \<times> machine" where
  "tex_pixel tile_idx t_fx ds y x s =
    (case s of (s_fx, m) \<Rightarrow>
      (s_fx + ds,
       case sample_tile (m_rdp m) tile_idx (drop_bit 5 s_fx) (drop_bit 5 t_fx) of
         None \<Rightarrow> m
       | Some (p16, p32, is32) \<Rightarrow>
           upd_rdp (\<lambda>d. d\<lparr>d_tex_pixels := d_tex_pixels d + 1\<rparr>)
             (write_color_pixel x y p16 p32 is32 m)))"

definition tex_row :: "u32 \<Rightarrow> int \<Rightarrow> int \<Rightarrow> int \<Rightarrow> int \<Rightarrow> int \<Rightarrow> int \<Rightarrow> int \<times> machine \<Rightarrow> int \<times> machine" where
  "tex_row tile_idx s0_fx ds dt xh xl y s =
    (case s of (t_fx, m) \<Rightarrow>
      (t_fx + dt, snd (fold (tex_pixel tile_idx t_fx ds y) [xh..xl - 1] (s0_fx, m))))"

definition s16_field :: "u64 \<Rightarrow> nat \<Rightarrow> int" where
  "s16_field v sh = sint (ucast (drop_bit sh v AND 0xFFFF) :: 16 word)"

definition cmd_texture_rectangle :: "u64 \<Rightarrow> u64 \<Rightarrow> bool \<Rightarrow> machine \<Rightarrow> machine" where
  "cmd_texture_rectangle hi lo flip m =
    (case rect_bounds hi of (xh, yh, xl, yl) \<Rightarrow>
      let s0_fx = s16_field lo 48; t0_fx = s16_field lo 32;
          a = s16_field lo 16; b = s16_field lo 0;
          (dsdx, dtdy) = (if flip then (b, a) else (a, b))
      in if \<not> im_valid (d_color_image (m_rdp m)) then m
         else snd (fold (tex_row (fld hi 24 7) s0_fx (drop_bit 5 dsdx) (drop_bit 5 dtdy) xh xl)
                     [yh..yl - 1] (t0_fx, m)))"

section \<open>The command list\<close>

definition count_cmd :: "machine \<Rightarrow> machine" where
  "count_cmd = upd_rdp (\<lambda>d. d\<lparr>d_cmds_executed := d_cmds_executed d + 1\<rparr>)"

definition execute_command_pair :: "u64 \<Rightarrow> u64 \<Rightarrow> machine \<Rightarrow> machine" where
  "execute_command_pair hi lo m0 =
    (let m = count_cmd m0; opc = rdp_opcode hi in
     if opc = 0x24 then cmd_texture_rectangle hi lo False m
     else if opc = 0x25 then cmd_texture_rectangle hi lo True m
     else m)"

text \<open>The opcodes the code accepts and ignores (triangles, combiner, mask image, lookup
  tables) and the unknown ones fall through alike.\<close>

definition rdp_execute_command :: "u64 \<Rightarrow> machine \<Rightarrow> machine" where
  "rdp_execute_command cmd m0 =
    (let m = count_cmd m0; opc = rdp_opcode cmd in
     if opc = 0x29 then cmd_sync_full m
     else if opc = 0x2D then upd_rdp (cmd_set_scissor cmd) m
     else if opc = 0x2F then upd_rdp (cmd_set_other_modes cmd) m
     else if opc = 0x36 then cmd_fill_rectangle cmd m
     else if opc = 0x37 then upd_rdp (cmd_set_fill_color cmd) m
     else if opc = 0x39 then upd_rdp (cmd_set_blend_color cmd) m
     else if opc = 0x3F then upd_rdp (cmd_set_color_image cmd) m
     else if opc = 0x3D then upd_rdp (cmd_set_texture_image cmd) m
     else if opc = 0x35 then upd_rdp (cmd_set_tile cmd) m
     else if opc = 0x32 then upd_rdp (cmd_set_tile_size cmd) m
     else if opc = 0x33 then cmd_load_block cmd m
     else if opc = 0x34 then cmd_load_tile cmd m
     else m)"

definition read_cmd_word :: "u32 \<Rightarrow> bool \<Rightarrow> machine \<Rightarrow> u32 \<times> machine" where
  "read_cmd_word addr xbus_dmem m =
    (if xbus_dmem then bus_read32 (0x04000000 + (addr AND 0xFFF)) m
     else bus_read32 (addr AND 0x00FFFFFF) m)"

definition read_cmd64 :: "u32 \<Rightarrow> bool \<Rightarrow> machine \<Rightarrow> u64 \<times> machine" where
  "read_cmd64 addr xbus_dmem m =
    (let (hi, m1) = read_cmd_word addr xbus_dmem m;
         (lo, m2) = read_cmd_word (addr + 4) xbus_dmem m1
     in (push_bit 32 (ucast hi) OR ucast lo, m2))"

text \<open>The loop over the list. A list that ends in the last sixteen bytes of the address space
  may step over its end and not stop, so the loop is partial; the registers only hold 24-bit
  addresses, and for those it ends (theorem \<open>command_list_returns\<close>).\<close>

partial_function (option) command_loop :: "u32 \<Rightarrow> bool \<Rightarrow> u32 \<Rightarrow> machine \<Rightarrow> machine option" where
  "command_loop stop xbus_dmem pc m =
    (if pc < stop then
       (let (cmd, m1) = read_cmd64 pc xbus_dmem m; opc = rdp_opcode cmd in
        if opc = 0x24 \<or> opc = 0x25 then
          (if pc + 16 > stop then Some m1
           else (let (cmd2, m2) = read_cmd64 (pc + 8) xbus_dmem m1
                 in command_loop stop xbus_dmem (pc + 16) (execute_command_pair cmd cmd2 m2)))
        else command_loop stop xbus_dmem (pc + 8) (rdp_execute_command cmd m1))
     else Some m)"

declare command_loop.simps [code]

definition run_command_list :: "u32 \<Rightarrow> u32 \<Rightarrow> bool \<Rightarrow> machine \<Rightarrow> machine option" where
  "run_command_list start stop_at xbus_dmem m =
    (if stop_at \<le> start then Some m
     else map_option (upd_rdp (\<lambda>d. d\<lparr>d_busy := False\<rparr>))
       (command_loop (stop_at AND NOT 7) xbus_dmem (start AND NOT 7)
         (upd_rdp (\<lambda>d. d\<lparr>d_busy := True\<rparr>) m)))"


section \<open>What the commands keep\<close>

lemma fold_keeps: "(\<And>x s. g (f x s) = g s) \<Longrightarrow> g (fold f xs s) = g s"
  by (induction xs arbitrary: s) simp_all

lemma upd_rdp_frame [simp]:
  "m_rdp (upd_rdp f m) = f (m_rdp m)" "m_rdram (upd_rdp f m) = m_rdram m"
  "m_cache (upd_rdp f m) = m_cache m" "m_mi (upd_rdp f m) = m_mi m" "m_cpu (upd_rdp f m) = m_cpu m"
  "m_sp (upd_rdp f m) = m_sp m" "m_dp (upd_rdp f m) = m_dp m" "m_rsp (upd_rdp f m) = m_rsp m"
  "m_dmem (upd_rdp f m) = m_dmem m" "m_imem (upd_rdp f m) = m_imem m" "m_pif (upd_rdp f m) = m_pif m"
  "machine_wf (upd_rdp f m) = machine_wf m"
  by (simp_all add: upd_rdp_def)

text \<open>The part of the machine outside the display processor and RDRAM; painting keeps it.\<close>

definition beside_rdp :: "machine \<Rightarrow> machine" where
  "beside_rdp m = m\<lparr>m_rdram := [], m_rdp := rdp_new\<rparr>"

lemma beside_rdp_upd [simp]:
  "beside_rdp (m\<lparr>m_rdram := r\<rparr>) = beside_rdp m" "beside_rdp (upd_rdp f m) = beside_rdp m"
  by (simp_all add: beside_rdp_def upd_rdp_def)

lemma beside_rdp_put [simp]:
  "beside_rdp (put_pixel16 a p m) = beside_rdp m" "beside_rdp (put_pixel32 a q m) = beside_rdp m"
  by (simp_all add: put_pixel16_def put_pixel32_def)

lemma beside_rdp_color [simp]: "beside_rdp (write_color_pixel x y p q u m) = beside_rdp m"
  unfolding write_color_pixel_def Let_def
  by (intro pred_if [where P = "\<lambda>z. beside_rdp z = beside_rdp m"]) (simp_all only: beside_rdp_put)

lemma beside_rdp_fill_pixel [simp]: "beside_rdp (write_fill_pixel x y m) = beside_rdp m"
  unfolding write_fill_pixel_def Let_def count_fill_pixel_def
  by (intro pred_if [where P = "\<lambda>z. beside_rdp z = beside_rdp m"])
    (simp_all only: beside_rdp_upd beside_rdp_color)

lemma beside_rdp_fill [simp]: "beside_rdp (cmd_fill_rectangle cmd m) = beside_rdp m"
  by (simp add: cmd_fill_rectangle_def split_def fold_keeps [where g = beside_rdp])

lemma beside_rdp_texture [simp]: "beside_rdp (cmd_texture_rectangle hi lo flip m) = beside_rdp m"
proof -
  have px: "beside_rdp (snd (tex_pixel i t ds y x s)) = beside_rdp (snd s)" for i t ds y x s
    by (simp add: tex_pixel_def split_def split: option.split)
  have row: "beside_rdp (snd (tex_row i s0 ds dt xh xl y s)) = beside_rdp (snd s)" for i s0 ds dt xh xl y s
    by (simp add: tex_row_def split_def fold_keeps [where g = "\<lambda>s. beside_rdp (snd s)"] px)
  show ?thesis
    by (simp add: cmd_texture_rectangle_def split_def Let_def
        fold_keeps [where g = "\<lambda>s. beside_rdp (snd s)"] row)
qed

lemma beside_rdp_copy [simp]: "beside_rdp (copy_rdram_to_tmem d t n m) = beside_rdp m"
  by (simp add: copy_rdram_to_tmem_def)

lemma beside_rdp_load [simp]:
  "beside_rdp (cmd_load_block cmd m) = beside_rdp m" "beside_rdp (cmd_load_tile cmd m) = beside_rdp m"
proof -
  have row: "beside_rdp (snd (load_tile_row im sl tl0 bpp tw lb r s)) = beside_rdp (snd s)"
    for im sl tl0 bpp tw lb r and s :: "u32 \<times> machine"
    by (simp add: load_tile_row_def split_def)
  show "beside_rdp (cmd_load_block cmd m) = beside_rdp m"
    unfolding cmd_load_block_def Let_def
    by (rule pred_if [where P = "\<lambda>z. beside_rdp z = beside_rdp m"], rule refl)
      (simp only: beside_rdp_copy)
  show "beside_rdp (cmd_load_tile cmd m) = beside_rdp m"
    unfolding cmd_load_tile_def Let_def
    by (rule pred_if [where P = "\<lambda>z. beside_rdp z = beside_rdp m"], rule refl)
      (simp only: fold_keeps [where g = "\<lambda>s. beside_rdp (snd s)", OF row] snd_conv beside_rdp_upd)
qed

text \<open>What is beside the display processor determines everything the other parts read.\<close>

lemma beside_rdp_eqD:
  assumes "beside_rdp m = beside_rdp m'"
  shows "m_cache m = m_cache m'" "m_mi m = m_mi m'" "m_cpu m = m_cpu m'" "m_sp m = m_sp m'"
    "m_dp m = m_dp m'" "m_rsp m = m_rsp m'" "m_dmem m = m_dmem m'" "m_imem m = m_imem m'"
    "m_pif m = m_pif m'" "machine_wf m = machine_wf m'"
  using arg_cong [OF assms, of m_cache] arg_cong [OF assms, of m_mi] arg_cong [OF assms, of m_cpu]
    arg_cong [OF assms, of m_sp] arg_cong [OF assms, of m_dp] arg_cong [OF assms, of m_rsp]
    arg_cong [OF assms, of m_dmem] arg_cong [OF assms, of m_imem] arg_cong [OF assms, of m_pif]
    arg_cong [OF assms, of machine_wf]
  by (simp_all add: beside_rdp_def)

text \<open>The block cache is not told of what the display processor paints: it stays as it was,
  whatever code lies under the painted bytes.\<close>

lemma fill_rectangle_keeps_cache: "m_cache (cmd_fill_rectangle cmd m) = m_cache m"
  by (rule beside_rdp_eqD) simp

section \<open>The command list ends\<close>

abbreviation cmds :: "machine \<Rightarrow> u64" where
  "cmds m \<equiv> d_cmds_executed (m_rdp m)"

lemma cmds_put [simp]: "cmds (put_pixel16 a p m) = cmds m" "cmds (put_pixel32 a q m) = cmds m"
  by (simp_all add: put_pixel16_def put_pixel32_def)

lemma cmds_color [simp]: "cmds (write_color_pixel x y p q u m) = cmds m"
  unfolding write_color_pixel_def Let_def
  by (intro pred_if [where P = "\<lambda>z. cmds z = cmds m"]) (simp_all only: cmds_put)

lemma cmds_fill_pixel [simp]: "cmds (write_fill_pixel x y m) = cmds m"
  unfolding write_fill_pixel_def Let_def count_fill_pixel_def
  by (intro pred_if [where P = "\<lambda>z. cmds z = cmds m"]) simp_all

lemma cmds_fill [simp]: "cmds (cmd_fill_rectangle cmd m) = cmds m"
  by (simp add: cmd_fill_rectangle_def split_def fold_keeps [where g = cmds])

lemma cmds_texture [simp]: "cmds (cmd_texture_rectangle hi lo flip m) = cmds m"
proof -
  have px: "cmds (snd (tex_pixel i t ds y x s)) = cmds (snd s)" for i t ds y x s
    by (simp add: tex_pixel_def split_def split: option.split)
  have row: "cmds (snd (tex_row i s0 ds dt xh xl y s)) = cmds (snd s)" for i s0 ds dt xh xl y s
    by (simp add: tex_row_def split_def fold_keeps [where g = "\<lambda>s. cmds (snd s)"] px)
  show ?thesis
    by (simp add: cmd_texture_rectangle_def split_def Let_def
        fold_keeps [where g = "\<lambda>s. cmds (snd s)"] row)
qed

lemma cmds_copy [simp]: "cmds (copy_rdram_to_tmem d t n m) = cmds m"
  by (simp add: copy_rdram_to_tmem_def)

lemma cmds_load [simp]: "cmds (cmd_load_block cmd m) = cmds m" "cmds (cmd_load_tile cmd m) = cmds m"
proof -
  have row: "cmds (snd (load_tile_row im sl tl0 bpp tw lb r s)) = cmds (snd s)"
    for im sl tl0 bpp tw lb r and s :: "u32 \<times> machine"
    by (simp add: load_tile_row_def split_def)
  have up: "cmds (upd_rdp (upd_tile i f) m) = cmds m" for i f
    by (simp add: upd_tile_def)
  show "cmds (cmd_load_block cmd m) = cmds m"
    unfolding cmd_load_block_def Let_def
    by (rule pred_if [where P = "\<lambda>z. cmds z = cmds m"], rule refl) (simp only: cmds_copy)
  show "cmds (cmd_load_tile cmd m) = cmds m"
    unfolding cmd_load_tile_def Let_def
    by (rule pred_if [where P = "\<lambda>z. cmds z = cmds m"], rule refl)
      (simp only: fold_keeps [where g = "\<lambda>s. cmds (snd s)", OF row] snd_conv up)
qed

lemmas set_cmd_defs = cmd_set_scissor_def cmd_set_other_modes_def cmd_set_fill_color_def
  cmd_set_blend_color_def cmd_set_color_image_def cmd_set_texture_image_def cmd_set_tile_def
  cmd_set_tile_size_def upd_tile_def

lemma cmds_step:
  "cmds (rdp_execute_command cmd m) = cmds m + 1" "cmds (execute_command_pair hi lo m) = cmds m + 1"
proof -
  have c: "cmds (count_cmd m) = cmds m + 1" by (simp add: count_cmd_def)
  show "cmds (rdp_execute_command cmd m) = cmds m + 1"
    unfolding rdp_execute_command_def Let_def
    by (intro pred_if [where P = "\<lambda>z. cmds z = cmds m + 1"])
      (simp_all add: c cmd_sync_full_def set_cmd_defs)
  show "cmds (execute_command_pair hi lo m) = cmds m + 1"
    by (simp add: execute_command_pair_def Let_def c)
qed

lemma machine_wf_command:
  assumes "machine_wf m"
  shows "machine_wf (rdp_execute_command cmd m)" "machine_wf (execute_command_pair hi lo m)"
proof -
  have c: "machine_wf (count_cmd m)" using assms by (simp add: count_cmd_def)
  have k: "machine_wf (cmd_fill_rectangle cmd z) = machine_wf z"
    "machine_wf (cmd_load_block cmd z) = machine_wf z" "machine_wf (cmd_load_tile cmd z) = machine_wf z"
    "machine_wf (cmd_texture_rectangle hi lo flip z) = machine_wf z" for z flip
    by (rule beside_rdp_eqD(10); simp)+
  show "machine_wf (rdp_execute_command cmd m)"
    unfolding rdp_execute_command_def Let_def
    by (intro pred_if [where P = machine_wf]) (simp_all add: c k cmd_sync_full_def machine_wf_irq)
  show "machine_wf (execute_command_pair hi lo m)"
    by (simp add: execute_command_pair_def Let_def c k)
qed

lemma read_cmd64_frame [simp]:
  "cmds (snd (read_cmd64 a x m)) = cmds m" "machine_wf (snd (read_cmd64 a x m)) = machine_wf m"
  by (simp_all add: read_cmd64_def read_cmd_word_def split_def Let_def)

lemma words_left:
  fixes p s n :: nat
  assumes "p < s" "n \<le> (s - (p + 8) + 7) div 8"
  shows "Suc n \<le> (s - p + 7) div 8"
proof (cases "p + 8 \<le> s")
  case True
  then have "s - p + 7 = s - (p + 8) + 7 + 8" by simp
  then show ?thesis using assms by simp
next
  case False
  then have "n = 0" "8 \<le> s - p + 7" using assms by auto
  then show ?thesis by (simp add: Suc_le_eq div_greater_zero_iff)
qed

lemma command_loop_ends:
  assumes "unat stop \<le> 0xFFFFFFF0" "machine_wf m"
  shows "\<exists>m' n. command_loop stop xbus pc m = Some m' \<and> machine_wf m'
    \<and> cmds m' = cmds m + of_nat n \<and> n \<le> (unat stop - unat pc + 7) div 8"
  using assms(2)
proof (induction "unat stop - unat pc" arbitrary: pc m rule: less_induct)
  case less
  define m1 where "m1 = snd (read_cmd64 pc xbus m)"
  define cmd where "cmd = fst (read_cmd64 pc xbus m)"
  have r1: "read_cmd64 pc xbus m = (cmd, m1)" by (simp add: cmd_def m1_def)
  have m1: "machine_wf m1" "cmds m1 = cmds m" using less.prems by (simp_all add: m1_def)
  show ?case
  proof (cases "pc < stop")
    case False
    then show ?thesis
      using less.prems by (intro exI [of _ m] exI [of _ 0]) (simp add: command_loop.simps)
  next
    case lt: True
    then have p: "unat pc < unat stop" by (simp add: word_less_nat_alt)
    then have a8: "unat (pc + 8) = unat pc + 8" and a16: "unat (pc + 16) = unat pc + 16 \<or> unat pc + 16 > unat stop"
      using assms(1) by (auto simp: unat_word_ariths)
    show ?thesis
    proof (cases "rdp_opcode cmd = 0x24 \<or> rdp_opcode cmd = 0x25")
      case False
      have "unat stop - unat (pc + 8) < unat stop - unat pc" using p a8 by linarith
      from less.hyps [OF this machine_wf_command(1) [OF m1(1)], of cmd]
      obtain m' n where m': "command_loop stop xbus (pc + 8) (rdp_execute_command cmd m1) = Some m'"
          "machine_wf m'" "cmds m' = cmds (rdp_execute_command cmd m1) + of_nat n"
          "n \<le> (unat stop - unat (pc + 8) + 7) div 8" by blast
      have "Suc n \<le> (unat stop - unat pc + 7) div 8" using words_left [OF p] m'(4) a8 by simp
      then show ?thesis
        using m' False lt r1 m1
        by (intro exI [of _ m'] exI [of _ "Suc n"]) (simp add: command_loop.simps [of _ _ pc] cmds_step)
    next
      case tex: True
      show ?thesis
      proof (cases "pc + 16 > stop")
        case True
        then show ?thesis
          using tex lt r1 m1
          by (intro exI [of _ m1] exI [of _ 0]) (simp add: command_loop.simps [of _ _ pc])
      next
        case False
        define m2 where "m2 = snd (read_cmd64 (pc + 8) xbus m1)"
        define cmd2 where "cmd2 = fst (read_cmd64 (pc + 8) xbus m1)"
        have r2: "read_cmd64 (pc + 8) xbus m1 = (cmd2, m2)" by (simp add: cmd2_def m2_def)
        have m2: "machine_wf m2" "cmds m2 = cmds m" using m1 by (simp_all add: m2_def)
        have "unat pc + 16 < 2 ^ 32" using p assms(1) by simp
        then have a: "unat (pc + 16) = unat pc + 16" by (simp add: unat_word_ariths)
        then have le: "unat pc + 16 \<le> unat stop" using False by (simp add: word_less_nat_alt)
        then have "unat stop - unat (pc + 16) < unat stop - unat pc" using a by linarith
        from less.hyps [OF this machine_wf_command(2) [OF m2(1)], of cmd cmd2]
        obtain m' n where m': "command_loop stop xbus (pc + 16) (execute_command_pair cmd cmd2 m2) = Some m'"
            "machine_wf m'" "cmds m' = cmds (execute_command_pair cmd cmd2 m2) + of_nat n"
            "n \<le> (unat stop - unat (pc + 16) + 7) div 8" by blast
        have "Suc n \<le> (unat stop - unat pc + 7) div 8"
          by (rule words_left [OF p]) (rule order_trans [OF m'(4)], rule div_le_mono, use a in simp)
        then show ?thesis
          using m' False tex lt r1 r2 m2
          by (intro exI [of _ m'] exI [of _ "Suc n"]) (simp add: command_loop.simps [of _ _ pc] cmds_step)
      qed
    qed
  qed
qed

text \<open>C34: A command list always ends. For every list the DP registers can hold (their addresses
  have 24 bits), whatever its bytes are and even if it overwrites itself, running it returns,
  executes no more commands than the list has double words, leaves the processor idle, and keeps
  the machine's invariant.\<close>

theorem command_list_returns:
  assumes "stop_at \<le> 0x00FFFFF8" "start < stop_at" "machine_wf m"
  shows "\<exists>m' n. run_command_list start stop_at xbus m = Some m'
    \<and> d_cmds_executed (m_rdp m') = d_cmds_executed (m_rdp m) + of_nat n
    \<and> n \<le> (unat (stop_at AND NOT 7) - unat (start AND NOT 7) + 7) div 8
    \<and> \<not> d_busy (m_rdp m') \<and> machine_wf m'"
proof -
  have "unat (stop_at AND NOT 7) \<le> unat stop_at" by (simp add: word_le_nat_alt [symmetric] word_and_le2)
  moreover have "unat stop_at \<le> 0x00FFFFF8" using assms(1) by (simp add: word_le_nat_alt)
  ultimately have "unat (stop_at AND NOT 7) \<le> 0xFFFFFFF0" by linarith
  from command_loop_ends [OF this, of "upd_rdp (\<lambda>d. d\<lparr>d_busy := True\<rparr>) m" xbus "start AND NOT 7"]
  show ?thesis using assms(2,3) by (auto simp: run_command_list_def)
qed

theorem command_list_returns_witness:
  "\<exists>m' n. run_command_list 0 8 False (machine_new [0x29, 0, 0, 0, 0, 0, 0, 0]) = Some m'
    \<and> d_cmds_executed (m_rdp m') = 0 + of_nat n \<and> n \<le> 1 \<and> machine_wf m'"
proof -
  have "d_cmds_executed (m_rdp (machine_new r)) = 0" for r
    by (simp add: machine_new_def rdp_new_def)
  with command_list_returns [of 8 0 "machine_new [0x29, 0, 0, 0, 0, 0, 0, 0]" False]
  show ?thesis by (auto simp: machine_wf_new)
qed

section \<open>What a filled rectangle leaves in memory\<close>

text \<open>The specification: the bytes of the pixels that survive the clipping and fit in RDRAM, and
  the byte of the fill colour that belongs at each address.\<close>

definition fill_bpp :: "rdp_image \<Rightarrow> u32" where
  "fill_bpp im = (if im_size im = 2 then 2 else 4)"

definition pixel_bytes :: "rdp \<Rightarrow> nat \<Rightarrow> int \<Rightarrow> int \<Rightarrow> nat set" where
  "pixel_bytes d len x y =
    (let im = d_color_image d; n = unat (fill_bpp im); a = unat (pixel_addr im (fill_bpp im) x y)
     in if clip_point x y d \<and> a + n \<le> len then {a..<a + n} else {})"

definition fill_byte :: "u32 \<Rightarrow> nat \<Rightarrow> u8" where
  "fill_byte color i = byte_of (3 - i mod 4) color"

text \<open>Painting pixel after pixel with a colour that only depends on the address.\<close>

lemma paint_fold:
  assumes step: "\<And>p m. ok m \<Longrightarrow> ok (f p m) \<and> (\<forall>i. img (f p m) i = (if i \<in> S p then pat i else img m i))"
    and "ok m"
  shows "ok (fold f ps m) \<and>
    (\<forall>i. img (fold f ps m) i = (if \<exists>p\<in>set ps. i \<in> S p then pat i else img m i))"
  using assms(2)
proof (induction ps arbitrary: m)
  case (Cons p ps)
  then show ?case using step [OF Cons.prems, of p] by simp
qed simp

lemma byte_fields:
  "ucast (drop_bit 8 (ucast (drop_bit 16 (c :: u32) AND 0xFFFF) :: u16) AND 0xFF) = byte_of 3 c"
  "ucast ((ucast (drop_bit 16 c AND 0xFFFF) :: u16) AND 0xFF) = byte_of 2 c"
  "ucast (drop_bit 8 (ucast (c AND 0xFFFF) :: u16) AND 0xFF) = byte_of 1 c"
  "ucast ((ucast (c AND 0xFFFF) :: u16) AND 0xFF) = byte_of 0 c"
  "ucast (drop_bit 24 c AND 0xFF) = byte_of 3 c" "ucast (drop_bit 16 c AND 0xFF) = byte_of 2 c"
  "ucast (drop_bit 8 c AND 0xFF) = byte_of 1 c" "ucast (c AND 0xFF) = byte_of 0 c"
proof -
  have m: "(0xFFFF :: u32) = mask 16" "(0xFF :: u16) = mask 8" "(0xFF :: u32) = mask 8"
    by (simp_all add: mask_eq_exp_minus_1)
  show "ucast (drop_bit 8 (ucast (drop_bit 16 c AND 0xFFFF) :: u16) AND 0xFF) = byte_of 3 c"
    "ucast ((ucast (drop_bit 16 c AND 0xFFFF) :: u16) AND 0xFF) = byte_of 2 c"
    "ucast (drop_bit 8 (ucast (c AND 0xFFFF) :: u16) AND 0xFF) = byte_of 1 c"
    "ucast ((ucast (c AND 0xFFFF) :: u16) AND 0xFF) = byte_of 0 c"
    "ucast (drop_bit 24 c AND 0xFF) = byte_of 3 c" "ucast (drop_bit 16 c AND 0xFF) = byte_of 2 c"
    "ucast (drop_bit 8 c AND 0xFF) = byte_of 1 c" "ucast (c AND 0xFF) = byte_of 0 c"
    unfolding m byte_of_def by (rule bit_word_eqI; simp add: bit_simps)+
qed

lemma byte_of_shifted:
  "byte_of 0 (drop_bit 24 c) = byte_of 3 c" "byte_of 0 (drop_bit 16 c) = byte_of 2 c"
  "byte_of 0 (drop_bit 8 c) = byte_of 1 c" "byte_of (Suc 0) (drop_bit 16 c) = byte_of 3 c"
  by (simp_all add: byte_of_def)

lemma unat_mod_ops:
  assumes "k dvd 2 ^ 32"
  shows "unat (a + b :: u32) mod k = (unat a mod k + unat b mod k) mod k"
    "unat (a * b) mod k = (unat a * unat b) mod k"
  using assms by (simp_all add: unat_word_ariths mod_mod_cancel mod_add_eq)

lemma pixel_addr_aligned:
  assumes "im_address im AND 7 = 0"
  shows "unat (pixel_addr im 2 x y) mod 2 = 0" "unat (pixel_addr im 4 x y) mod 4 = 0"
proof -
  have m: "(7 :: u32) = mask 3" by (simp add: mask_eq_exp_minus_1)
  have "unat (im_address im) mod 8 = 0" using assms unat_and_mask [of "im_address im" 3] unfolding m by simp
  then have t: "unat (im_address im) mod 2 = 0" "unat (im_address im) mod 4 = 0" by presburger+
  show "unat (pixel_addr im 2 x y) mod 2 = 0"
    using t(1) by (simp add: pixel_addr_def unat_mod_ops)
  show "unat (pixel_addr im 4 x y) mod 4 = 0"
    using t(2) by (simp add: pixel_addr_def unat_mod_ops)
qed

lemma word_bit1: "(w :: u32) AND 2 \<noteq> 0 \<longleftrightarrow> odd (unat w div 2)"
proof -
  have "w AND 2 = 0 \<longleftrightarrow> \<not> bit w 1" using and_exp_eq_0_iff_not_bit [of w 1] by simp
  moreover have "bit w 1 \<longleftrightarrow> bit (unat w) 1" by (simp add: bit_unsigned_iff)
  ultimately show ?thesis by (simp add: bit_iff_odd)
qed

lemma clip_point_cong:
  "d_color_image d = d_color_image d' \<Longrightarrow> d_scissor d = d_scissor d' \<Longrightarrow>
    clip_point x y d = clip_point x y d'"
  by (simp only: clip_point_def)

text \<open>The registers a fill depends on.\<close>

definition fill_regs :: "rdp \<Rightarrow> nat \<Rightarrow> machine \<Rightarrow> bool" where
  "fill_regs d len m \<longleftrightarrow> d_color_image (m_rdp m) = d_color_image d \<and> d_scissor (m_rdp m) = d_scissor d
    \<and> d_fill_color (m_rdp m) = d_fill_color d \<and> length (m_rdram m) = len"

lemma fill_regs_put [simp]:
  "fill_regs d len (put_pixel16 a p m) = fill_regs d len m"
  "fill_regs d len (put_pixel32 a q m) = fill_regs d len m"
  "fill_regs d len (count_fill_pixel m) = fill_regs d len m"
  by (simp_all add: fill_regs_def put_pixel16_def put_pixel32_def count_fill_pixel_def)

lemma rdram_count [simp]: "m_rdram (count_fill_pixel m) = m_rdram m"
  by (simp add: count_fill_pixel_def)

lemma put_pixel16_nth:
  assumes "unat a mod 2 = 0"
  shows "m_rdram (put_pixel16 a p m) ! i =
    (if unat a + 2 \<le> length (m_rdram m) \<and> i = unat a then ucast (drop_bit 8 p AND 0xFF)
     else if unat a + 2 \<le> length (m_rdram m) \<and> i = unat a + 1 then ucast (p AND 0xFF)
     else m_rdram m ! i)"
proof -
  obtain q where q: "unat a = 2 * q" using assms by (auto elim: dvdE)
  have "unat a < 2 ^ 32" using unsigned_less [of a] by simp
  then have "unat a + 1 < 2 ^ 32" using q by simp
  then have "unat (a + 1) = unat a + 1" by (simp add: unat_word_ariths)
  then show ?thesis by (auto simp: put_pixel16_def vec_wr_def nth_list_update)
qed

lemma put_pixel32_nth:
  assumes "unat a mod 4 = 0"
  shows "m_rdram (put_pixel32 a p m) ! i =
    (if unat a + 4 \<le> length (m_rdram m) \<and> unat a \<le> i \<and> i < unat a + 4
     then fill_byte p i else m_rdram m ! i)"
proof -
  obtain q where q: "unat a = 4 * q" using assms by (auto elim: dvdE)
  have "unat a < 2 ^ 32" using unsigned_less [of a] by simp
  then have "unat (a + 1) = unat a + 1" "unat (a + 2) = unat a + 2" "unat (a + 3) = unat a + 3"
    using q by (simp_all add: unat_word_ariths)
  moreover have mods: "Suc (4 * q) mod 4 = 1" "Suc (Suc (4 * q)) mod 4 = 2" "(4 * q + 3) mod 4 = 3"
    by presburger+
  moreover have "i < 4 * q + 4 \<and> 4 * q \<le> i \<longleftrightarrow> i = 4 * q \<or> i = 4 * q + 1 \<or> i = 4 * q + 2 \<or> i = 4 * q + 3"
    by linarith
  ultimately show ?thesis
    by (auto simp: put_pixel32_def vec_wr_def nth_list_update byte_fields byte_of_shifted q fill_byte_def mods)
qed

lemma fill_pixel_step:
  assumes "im_valid (d_color_image d)" "im_size (d_color_image d) = 2 \<or> im_size (d_color_image d) = 3"
    "im_address (d_color_image d) AND 7 = 0" "fill_regs d len m"
  shows "fill_regs d len (write_fill_pixel x y m) \<and> (\<forall>i. m_rdram (write_fill_pixel x y m) ! i =
    (if i \<in> pixel_bytes d len x y then fill_byte (d_fill_color d) i else m_rdram m ! i))"
proof -
  let ?im = "d_color_image d" and ?c = "d_fill_color d"
  have r: "d_color_image (m_rdp m) = ?im" "d_fill_color (m_rdp m) = ?c" "length (m_rdram m) = len"
    "clip_point x y (m_rdp m) = clip_point x y d"
    using assms(4) clip_point_cong [of "m_rdp m" d x y] by (simp_all add: fill_regs_def)
  show ?thesis
  proof (cases "clip_point x y d \<and> len > 0")
    case False
    have "write_fill_pixel x y m = m \<or> write_fill_pixel x y m = count_fill_pixel m"
    proof (cases "clip_point x y d")
      case True
      then have "m_rdram m = []" using False r(3) by auto
      then have "write_color_pixel x y p q u m = m" for p q u
        by (simp add: write_color_pixel_def Let_def)
      then show ?thesis by (simp add: write_fill_pixel_def Let_def)
    next
      case False
      then show ?thesis using r by (simp add: write_fill_pixel_def)
    qed
    moreover have "pixel_bytes d len x y = {}"
      using False by (auto simp: pixel_bytes_def Let_def fill_bpp_def)
    ultimately show ?thesis using assms(4) by auto
  next
    case clip: True
    then have ne: "m_rdram m \<noteq> []" using r(3) by auto
    show ?thesis
    proof (cases "im_size ?im = 2")
      case True
      define a where "a = pixel_addr ?im 2 x y"
      have ev: "unat a mod 2 = 0" unfolding a_def by (rule pixel_addr_aligned(1) [OF assms(3)])
      have w: "write_fill_pixel x y m = count_fill_pixel (put_pixel16 a
          (if a AND 2 \<noteq> 0 then ucast (?c AND 0xFFFF) else ucast (drop_bit 16 ?c AND 0xFFFF)) m)"
        using True clip r assms(1) ne by (simp add: write_fill_pixel_def write_color_pixel_def Let_def a_def)
      have p: "pixel_bytes d len x y = (if unat a + 2 \<le> len then {unat a..<unat a + 2} else {})"
        using True clip by (simp add: pixel_bytes_def Let_def a_def fill_bpp_def)
      have lanes: "unat a mod 4 = (if a AND 2 \<noteq> 0 then 2 else 0)"
        "(unat a + 1) mod 4 = (if a AND 2 \<noteq> 0 then 3 else 1)"
        unfolding word_bit1 using ev by presburger+
      have b: "i \<in> {unat a..<unat a + 2} \<longleftrightarrow> i = unat a \<or> i = unat a + 1" for i by auto
      show ?thesis
        unfolding w p using assms(4) r(3)
        by (auto simp: put_pixel16_nth [OF ev] b fill_byte_def lanes [simplified] byte_fields byte_of_shifted)
    next
      case False
      define a where "a = pixel_addr ?im 4 x y"
      have ev: "unat a mod 4 = 0" unfolding a_def by (rule pixel_addr_aligned(2) [OF assms(3)])
      have w: "write_fill_pixel x y m = count_fill_pixel (put_pixel32 a ?c m)"
        using False clip r assms(1,2) ne by (simp add: write_fill_pixel_def write_color_pixel_def Let_def a_def)
      have p: "pixel_bytes d len x y = (if unat a + 4 \<le> len then {unat a..<unat a + 4} else {})"
        using False clip by (simp add: pixel_bytes_def Let_def a_def fill_bpp_def)
      show ?thesis
        unfolding w p using assms(4) r(3) by (auto simp: put_pixel32_nth [OF ev])
    qed
  qed
qed

text \<open>The two loops of the command, by the bytes they paint.\<close>

lemma fill_rectangle_paints:
  assumes "im_valid (d_color_image (m_rdp m))"
    and "im_size (d_color_image (m_rdp m)) = 2 \<or> im_size (d_color_image (m_rdp m)) = 3"
    and "im_address (d_color_image (m_rdp m)) AND 7 = 0"
    and "rect_bounds cmd = (xh, yh, xl, yl)"
  shows "length (m_rdram (cmd_fill_rectangle cmd m)) = length (m_rdram m) \<and>
    m_rdram (cmd_fill_rectangle cmd m) ! i =
      (if \<exists>x\<in>{xh..<xl}. \<exists>y\<in>{yh..<yl}. i \<in> pixel_bytes (m_rdp m) (length (m_rdram m)) x y
       then fill_byte (d_fill_color (m_rdp m)) i else m_rdram m ! i)"
proof -
  let ?d = "m_rdp m" and ?len = "length (m_rdram m)"
  let ?row = "\<lambda>y. fold (\<lambda>x. write_fill_pixel x y) [xh..xl - 1]"
  have row: "fill_regs ?d ?len (?row y n) \<and> (\<forall>i. m_rdram (?row y n) ! i =
      (if i \<in> {i. \<exists>x\<in>set [xh..xl - 1]. i \<in> pixel_bytes ?d ?len x y}
       then fill_byte (d_fill_color ?d) i else m_rdram n ! i))"
    if "fill_regs ?d ?len n" for y n
    using paint_fold [where ok = "fill_regs ?d ?len" and f = "\<lambda>x. write_fill_pixel x y"
        and img = "\<lambda>m i. m_rdram m ! i" and S = "\<lambda>x. pixel_bytes ?d ?len x y"
        and pat = "fill_byte (d_fill_color ?d)",
        OF fill_pixel_step [OF assms(1-3)] that] by simp
  have "fill_regs ?d ?len m" by (simp add: fill_regs_def)
  from paint_fold [where ok = "fill_regs ?d ?len" and f = ?row and img = "\<lambda>m i. m_rdram m ! i"
      and S = "\<lambda>y. {i. \<exists>x\<in>set [xh..xl - 1]. i \<in> pixel_bytes ?d ?len x y}"
      and pat = "fill_byte (d_fill_color ?d)", OF row this, of "[yh..yl - 1]"]
  show ?thesis
    using assms(1) by (auto simp: cmd_fill_rectangle_def assms(4) fill_regs_def)
qed

text \<open>A fill rectangle paints exactly its pixels. For a 16- or 32-bit colour image at an
  aligned address (the only ones the command to set it produces), every byte of RDRAM that
  belongs to a pixel inside the rectangle, inside the scissor and the image width, and inside
  memory, ends up with the byte of the fill colour for that address; every other byte keeps
  its value, and memory keeps its size.\<close>

theorem fill_rectangle_exact:
  assumes "im_valid (d_color_image (m_rdp m))"
    and "im_size (d_color_image (m_rdp m)) = 2 \<or> im_size (d_color_image (m_rdp m)) = 3"
    and "im_address (d_color_image (m_rdp m)) AND 7 = 0"
    and "rect_bounds cmd = (xh, yh, xl, yl)"
  shows "length (m_rdram (cmd_fill_rectangle cmd m)) = length (m_rdram m) \<and>
    m_rdram (cmd_fill_rectangle cmd m) ! i =
      (if \<exists>x\<in>{xh..<xl}. \<exists>y\<in>{yh..<yl}. i \<in> pixel_bytes (m_rdp m) (length (m_rdram m)) x y
       then fill_byte (d_fill_color (m_rdp m)) i else m_rdram m ! i)"
  using fill_rectangle_paints [OF assms] .

theorem fill_rectangle_exact_witness:
  "m_rdram (cmd_fill_rectangle 0x0000800400004000 ((machine_new (replicate 16 0))\<lparr>m_rdp := rdp_new\<lparr>
      d_color_image := \<lparr>im_address = 0, im_width = 4, im_size = 2, im_format = 0, im_valid = True\<rparr>,
      d_fill_color := 0xAABBCCDD\<rparr>\<rparr>)) ! 2 = 0xCC
    \<and> m_rdram (cmd_fill_rectangle 0x0000800400004000 ((machine_new (replicate 16 0))\<lparr>m_rdp := rdp_new\<lparr>
      d_color_image := \<lparr>im_address = 0, im_width = 4, im_size = 2, im_format = 0, im_valid = True\<rparr>,
      d_fill_color := 0xAABBCCDD\<rparr>\<rparr>)) ! 0 = 0"
proof -
  let ?m = "(machine_new (replicate 16 0))\<lparr>m_rdp := rdp_new\<lparr>
      d_color_image := \<lparr>im_address = 0, im_width = 4, im_size = 2, im_format = 0, im_valid = True\<rparr>,
      d_fill_color := 0xAABBCCDD\<rparr>\<rparr>"
  have b: "rect_bounds 0x0000800400004000 = (1, 0, 2, 1)"
    by (simp add: rect_bounds_def fld_def fx10_2_floor_def Let_def)
  have s: "{1..<2::int} = {1}" "{0..<1::int} = {0}" by auto
  have p: "pixel_bytes (m_rdp ?m) (length (m_rdram ?m)) 1 0 = {2..<4}"
    by (simp add: pixel_bytes_def Let_def fill_bpp_def clip_point_def pixel_addr_def rdp_new_def
        empty_scissor_def machine_new_def word_le_nat_alt)
  have e: "fill_byte (d_fill_color (m_rdp ?m)) 2 = 0xCC" by (simp add: fill_byte_def byte_of_def)
  have z: "m_rdram ?m ! 0 = 0" by (simp add: machine_new_def)
  show ?thesis
    using fill_rectangle_exact [of ?m, OF _ _ _ b, of 2] fill_rectangle_exact [of ?m, OF _ _ _ b, of 0]
    unfolding s by (simp add: p [simplified] e [simplified] z [simplified])
qed

end
