(* ===== verification/Devices.thy ===== *)
theory Devices
  imports Rdp
begin

text \<open>
  The writing half of the devices behind the bus: the register writes of the peripheral, serial
  and RDRAM interfaces and of the SP and DP register blocks (\<open>bus/pi.cpp\<close>, \<open>si.cpp\<close>,
  \<open>ri.cpp\<close>, \<open>sp_regs.cpp\<close>, \<open>dp_regs.cpp\<close>) with the transfers they start. A transfer runs
  at once, byte by byte, tells the block cache what it wrote, and raises its interrupt.
\<close>

section \<open>The peripheral interface\<close>

definition PI_StatusDmaBusy :: u32 where "PI_StatusDmaBusy = 0x1"
definition PI_StatusIoBusy :: u32 where "PI_StatusIoBusy = 0x2"
definition PI_StatusError :: u32 where "PI_StatusError = 0x4"
definition PI_StatusIntr :: u32 where "PI_StatusIntr = 0x8"

definition upd_pi :: "(pi_regs \<Rightarrow> pi_regs) \<Rightarrow> machine \<Rightarrow> machine" where
  "upd_pi f m = m\<lparr>m_pi := f (m_pi m)\<rparr>"

definition pi_reset :: "pi_regs \<Rightarrow> pi_regs" where
  "pi_reset p = p\<lparr>pi_dram_addr := 0, pi_cart_addr := 0, pi_rd_len := 0, pi_wr_len := 0,
     pi_status := 0, pi_dom1_lat := 0x40, pi_dom1_pwd := 0x12, pi_dom1_pgs := 0x07,
     pi_dom1_rls := 0x03, pi_dom2_lat := 0x40, pi_dom2_pwd := 0x12, pi_dom2_pgs := 0x07,
     pi_dom2_rls := 0x03, pi_last_dma_bytes := 0\<rparr>"

definition pi_finish_dma :: "machine \<Rightarrow> machine" where
  "pi_finish_dma m = raise_irq MiIntr_PI
     (upd_pi (\<lambda>p. p\<lparr>pi_status := (pi_status p AND NOT PI_StatusDmaBusy) OR PI_StatusIntr\<rparr>) m)"

definition pi_advance :: "u32 \<Rightarrow> u32 \<Rightarrow> u32 \<Rightarrow> machine \<Rightarrow> machine" where
  "pi_advance dram cart len = upd_pi (\<lambda>p. p\<lparr>pi_dram_addr := dram + len,
     pi_cart_addr := cart + len, pi_last_dma_bytes := len\<rparr>)"

definition pi_set_busy :: "machine \<Rightarrow> machine" where
  "pi_set_busy = upd_pi (\<lambda>p. p\<lparr>pi_status := pi_status p OR PI_StatusDmaBusy\<rparr>)"

definition start_dma_to_rdram :: "machine \<Rightarrow> machine" where
  "start_dma_to_rdram m =
    (let len = (pi_rd_len (m_pi m) AND 0x00FFFFFF) + 1;
         dram = pi_dram_addr (m_pi m) AND NOT 1;
         cart = pi_cart_addr (m_pi m) AND NOT 1;
         m1 = fold (\<lambda>i m. rdram_put (dram + of_nat i) (cart_read_byte m (cart + of_nat i)) m)
                [0..<unat len] (pi_set_busy m)
     in pi_finish_dma (pi_advance dram cart len (notify_memory_write dram len m1)))"

definition start_dma_to_cart :: "machine \<Rightarrow> machine" where
  "start_dma_to_cart m =
    (let len = (pi_wr_len (m_pi m) AND 0x00FFFFFF) + 1;
         dram = pi_dram_addr (m_pi m) AND NOT 1;
         cart = pi_cart_addr (m_pi m) AND NOT 1;
         m1 = fold (\<lambda>i m. cart_write_byte (cart + of_nat i) (rdram_get m (dram + of_nat i)) m)
                [0..<unat len] (pi_set_busy m)
     in pi_finish_dma (pi_advance dram cart len m1))"

definition pi_write_status :: "u32 \<Rightarrow> machine \<Rightarrow> machine" where
  "pi_write_status v m =
    (let m1 = (if v AND 1 \<noteq> 0 then upd_pi (\<lambda>p. p\<lparr>pi_status := pi_status p
                 AND NOT (PI_StatusDmaBusy OR PI_StatusIoBusy OR PI_StatusError)\<rparr>) m else m)
     in if v AND 2 \<noteq> 0
        then clear_irq MiIntr_PI (upd_pi (\<lambda>p. p\<lparr>pi_status := pi_status p AND NOT PI_StatusIntr\<rparr>) m1)
        else m1)"

definition pi_write :: "u32 \<Rightarrow> u32 \<Rightarrow> machine \<Rightarrow> machine" where
  "pi_write offset v m =
    (let r = offset AND 0x3C in
     if r = 0x00 then upd_pi (\<lambda>p. p\<lparr>pi_dram_addr := v AND 0x00FFFFFF\<rparr>) m
     else if r = 0x04 then upd_pi (\<lambda>p. p\<lparr>pi_cart_addr := v\<rparr>) m
     else if r = 0x08 then start_dma_to_rdram (upd_pi (\<lambda>p. p\<lparr>pi_rd_len := v AND 0x00FFFFFF\<rparr>) m)
     else if r = 0x0C then start_dma_to_cart (upd_pi (\<lambda>p. p\<lparr>pi_wr_len := v AND 0x00FFFFFF\<rparr>) m)
     else if r = 0x10 then pi_write_status v m
     else if r = 0x14 then upd_pi (\<lambda>p. p\<lparr>pi_dom1_lat := v AND 0xFF\<rparr>) m
     else if r = 0x18 then upd_pi (\<lambda>p. p\<lparr>pi_dom1_pwd := v AND 0xFF\<rparr>) m
     else if r = 0x1C then upd_pi (\<lambda>p. p\<lparr>pi_dom1_pgs := v AND 0xFF\<rparr>) m
     else if r = 0x20 then upd_pi (\<lambda>p. p\<lparr>pi_dom1_rls := v AND 0xFF\<rparr>) m
     else if r = 0x24 then upd_pi (\<lambda>p. p\<lparr>pi_dom2_lat := v AND 0xFF\<rparr>) m
     else if r = 0x28 then upd_pi (\<lambda>p. p\<lparr>pi_dom2_pwd := v AND 0xFF\<rparr>) m
     else if r = 0x2C then upd_pi (\<lambda>p. p\<lparr>pi_dom2_pgs := v AND 0xFF\<rparr>) m
     else if r = 0x30 then upd_pi (\<lambda>p. p\<lparr>pi_dom2_rls := v AND 0xFF\<rparr>) m
     else m)"

section \<open>The serial interface\<close>

definition SI_StatusDmaBusy :: u32 where "SI_StatusDmaBusy = 0x1"
definition SI_StatusIntr :: u32 where "SI_StatusIntr = 0x1000"

definition upd_si :: "(si_regs \<Rightarrow> si_regs) \<Rightarrow> machine \<Rightarrow> machine" where
  "upd_si f m = m\<lparr>m_si := f (m_si m)\<rparr>"

definition si_reset :: "si_regs \<Rightarrow> si_regs" where
  "si_reset s = s\<lparr>si_dram_addr := 0, si_status := 0, si_last_dma_bytes := 0\<rparr>"

definition si_set_busy :: "machine \<Rightarrow> machine" where
  "si_set_busy = upd_si (\<lambda>s. s\<lparr>si_status := si_status s OR SI_StatusDmaBusy\<rparr>)"

definition si_finish_dma :: "machine \<Rightarrow> machine" where
  "si_finish_dma m = raise_irq MiIntr_SI
     (upd_si (\<lambda>s. s\<lparr>si_status := (si_status s AND NOT SI_StatusDmaBusy) OR SI_StatusIntr\<rparr>) m)"

text \<open>The joybus interpreter never fails on the 64-byte RAM (lemma \<open>process_joybus_total\<close>),
  so the second branch is never taken from a state the machine reaches.\<close>

definition run_joybus :: "machine \<Rightarrow> machine" where
  "run_joybus m = (case process_joybus (m_pif m) of Some (_, p) \<Rightarrow> m\<lparr>m_pif := p\<rparr> | None \<Rightarrow> m)"

definition mirror_pif :: "machine \<Rightarrow> machine" where
  "mirror_pif m = m\<lparr>m_pif_ram := (\<lambda>i. if i < 64 then pif_bytes (m_pif m) ! i else m_pif_ram m i)\<rparr>"

definition dma_from_pif :: "machine \<Rightarrow> machine" where
  "dma_from_pif m =
    (let m1 = si_set_busy m;
         m2 = (if process_requested (m_pif m1) then run_joybus m1 else m1);
         dram = si_dram_addr (m_si m2) AND NOT 7;
         m3 = fold (\<lambda>i m. rdram_put (dram + of_nat i) (pif_bytes (m_pif m) ! i) m) [0..<64] m2;
         m4 = mirror_pif (notify_memory_write dram 64 m3)
     in si_finish_dma (upd_si (\<lambda>s. s\<lparr>si_last_dma_bytes := 64\<rparr>) m4))"

definition put_pif_byte :: "nat \<Rightarrow> u8 \<Rightarrow> machine \<Rightarrow> machine" where
  "put_pif_byte i b m = m\<lparr>m_pif := (m_pif m)\<lparr>pif_bytes := vec_wr i b (pif_bytes (m_pif m))\<rparr>\<rparr>"

definition dma_to_pif :: "machine \<Rightarrow> machine" where
  "dma_to_pif m =
    (let m1 = si_set_busy m;
         dram = si_dram_addr (m_si m1) AND NOT 7;
         m2 = mirror_pif (fold (\<lambda>i m. put_pif_byte i (rdram_get m (dram + of_nat i)) m) [0..<64] m1);
         m3 = (if process_requested (m_pif m2) then mirror_pif (run_joybus m2) else m2)
     in si_finish_dma (upd_si (\<lambda>s. s\<lparr>si_last_dma_bytes := 64\<rparr>) m3))"

definition si_write :: "u32 \<Rightarrow> u32 \<Rightarrow> machine \<Rightarrow> machine" where
  "si_write offset v m =
    (let r = offset AND 0x1C in
     if r = 0x00 then upd_si (\<lambda>s. s\<lparr>si_dram_addr := v AND 0x00FFFFFF\<rparr>) m
     else if r = 0x04 then dma_from_pif m
     else if r = 0x10 then dma_to_pif m
     else if r = 0x18 then
       clear_irq MiIntr_SI (upd_si (\<lambda>s. s\<lparr>si_status := si_status s AND NOT SI_StatusIntr\<rparr>) m)
     else m)"

section \<open>The RDRAM interface\<close>

definition ri_reset :: "ri_regs \<Rightarrow> ri_regs" where
  "ri_reset r = r\<lparr>ri_mode := 0x0E, ri_config := 0x40, ri_current_load := 0, ri_select := 0x14,
     ri_refresh := 0x00063624, ri_latency := 0x15, ri_rerror := 0, ri_werror := 0\<rparr>"

definition ri_write :: "u32 \<Rightarrow> u32 \<Rightarrow> ri_regs \<Rightarrow> ri_regs" where
  "ri_write offset v s =
    (let r = offset AND 0x1C in
     if r = 0x00 then s\<lparr>ri_mode := v\<rparr>
     else if r = 0x04 then s\<lparr>ri_config := v\<rparr>
     else if r = 0x08 then s\<lparr>ri_current_load := v\<rparr>
     else if r = 0x0C then s\<lparr>ri_select := v\<rparr>
     else if r = 0x10 then s\<lparr>ri_refresh := v\<rparr>
     else if r = 0x14 then s\<lparr>ri_latency := v\<rparr>
     else if r = 0x18 then s\<lparr>ri_rerror := 0\<rparr>
     else s\<lparr>ri_werror := 0\<rparr>)"

section \<open>The SP registers\<close>

definition upd_sp :: "(sp_regs \<Rightarrow> sp_regs) \<Rightarrow> machine \<Rightarrow> machine" where
  "upd_sp f m = m\<lparr>m_sp := f (m_sp m)\<rparr>"

definition upd_rsp :: "(rsp \<Rightarrow> rsp) \<Rightarrow> machine \<Rightarrow> machine" where
  "upd_rsp f m = m\<lparr>m_rsp := f (m_rsp m)\<rparr>"

definition set_halted :: "bool \<Rightarrow> rsp \<Rightarrow> rsp" where
  "set_halted h r = (if h then r\<lparr>r_halted := True\<rparr> else r\<lparr>r_halted := False, r_broke := False\<rparr>)"

definition set_broke :: "bool \<Rightarrow> rsp \<Rightarrow> rsp" where
  "set_broke b r = r\<lparr>r_broke := b\<rparr>"

definition set_intr_on_break :: "bool \<Rightarrow> rsp \<Rightarrow> rsp" where
  "set_intr_on_break b r = r\<lparr>r_intr_on_break := b\<rparr>"

definition rsp_set_pc :: "u32 \<Rightarrow> rsp \<Rightarrow> rsp" where
  "rsp_set_pc pc r = r\<lparr>r_pc := pc AND 0xFFC, r_next_pc := ((pc AND 0xFFC) + 4) AND 0xFFC,
     r_branch_pending := False\<rparr>"

definition pull_mem_from_bus :: "machine \<Rightarrow> machine" where
  "pull_mem_from_bus m = upd_rsp (\<lambda>r. r\<lparr>r_dmem := m_dmem m, r_imem := m_imem m\<rparr>) m"

definition push_mem_to_bus :: "machine \<Rightarrow> machine" where
  "push_mem_to_bus m = m\<lparr>m_dmem := r_dmem (m_rsp m), m_imem := r_imem (m_rsp m)\<rparr>"

definition sp_reset :: "machine \<Rightarrow> machine" where
  "sp_reset m = upd_rsp (set_halted True) (upd_sp (\<lambda>s. s\<lparr>sp_mem_addr := 0, sp_dram_addr := 0,
     sp_status := StHalt, sp_semaphore := 0, sp_last_dma_bytes := 0\<rparr>) m)"

text \<open>One byte and one line of a transfer. The two SP memories are arrays of 4096 bytes and
  the offsets are masked to 12 bits.\<close>

definition sp_mem_get :: "bool \<Rightarrow> u32 \<Rightarrow> machine \<Rightarrow> u8" where
  "sp_mem_get imem off m = (if imem then m_imem m (unat off) else m_dmem m (unat off))"

definition sp_mem_put :: "bool \<Rightarrow> u32 \<Rightarrow> u8 \<Rightarrow> machine \<Rightarrow> machine" where
  "sp_mem_put imem off b m =
    (if imem then m\<lparr>m_imem := arr_wr (unat off) b (m_imem m)\<rparr>
     else m\<lparr>m_dmem := arr_wr (unat off) b (m_dmem m)\<rparr>)"

definition sp_dma_byte :: "bool \<Rightarrow> bool \<Rightarrow> u32 \<Rightarrow> u32 \<Rightarrow> nat \<Rightarrow> machine \<Rightarrow> machine" where
  "sp_dma_byte to_sp imem mem dram i m =
    (let sp_off = (mem + of_nat i) AND 0xFFF; dr_off = dram + of_nat i in
     if to_sp then sp_mem_put imem sp_off (rdram_get m dr_off) m
     else rdram_put dr_off (sp_mem_get imem sp_off m) m)"

record sp_dma_state =
  dma_mem :: u32
  dma_dram :: u32
  dma_total :: u32
  dma_machine :: machine

definition sp_dma_line :: "bool \<Rightarrow> bool \<Rightarrow> u32 \<Rightarrow> u32 \<Rightarrow> sp_dma_state \<Rightarrow> sp_dma_state" where
  "sp_dma_line to_sp imem len skip s =
    (let mem = dma_mem s; dram = dma_dram s;
         m1 = fold (sp_dma_byte to_sp imem mem dram) [0..<unat len] (dma_machine s);
         m2 = (if to_sp then notify_memory_write ((if imem then 0x04001000 else 0x04000000) + mem) len m1
               else notify_memory_write dram len m1)
     in \<lparr>dma_mem = (mem + len) AND 0xFFF, dma_dram = dram + len + skip,
         dma_total = dma_total s + len, dma_machine = m2\<rparr>)"

definition sp_dma_length :: "u32 \<Rightarrow> u32" where "sp_dma_length v = (v AND 0xFFF) + 1"
definition sp_dma_count :: "u32 \<Rightarrow> u32" where "sp_dma_count v = (drop_bit 12 v AND 0xFF) + 1"
definition sp_dma_skip :: "u32 \<Rightarrow> u32" where "sp_dma_skip v = drop_bit 20 v AND 0xFFF"

definition copy_spmem_to_rsp :: "bool \<Rightarrow> machine \<Rightarrow> machine" where
  "copy_spmem_to_rsp imem m =
    (if imem then upd_rsp (\<lambda>r. r\<lparr>r_imem := m_imem m\<rparr>) m
     else upd_rsp (\<lambda>r. r\<lparr>r_dmem := m_dmem m\<rparr>) m)"

definition sp_do_dma :: "bool \<Rightarrow> u32 \<Rightarrow> machine \<Rightarrow> machine" where
  "sp_do_dma to_sp len_reg m0 =
    (let m = upd_sp (\<lambda>s. s\<lparr>sp_status := sp_status s OR StDmaBusy\<rparr>) m0;
         mem = sp_mem_addr (m_sp m) AND 0x1FFF;
         imem = (mem AND 0x1000 \<noteq> 0);
         s = (sp_dma_line to_sp imem (sp_dma_length len_reg) (sp_dma_skip len_reg)
                ^^ unat (sp_dma_count len_reg))
             \<lparr>dma_mem = mem AND 0xFFF, dma_dram = sp_dram_addr (m_sp m) AND 0x00FFFFFF,
              dma_total = 0, dma_machine = m\<rparr>
     in raise_irq MiIntr_SP
          (upd_sp (\<lambda>r. r\<lparr>sp_mem_addr := (if imem then 0x1000 else 0) OR dma_mem s,
             sp_dram_addr := dma_dram s AND 0x00FFFFFF, sp_last_dma_bytes := dma_total s,
             sp_status := sp_status r AND NOT StDmaBusy\<rparr>)
            (copy_spmem_to_rsp imem (dma_machine s))))"

definition sp_write_pc :: "u32 \<Rightarrow> u32 \<Rightarrow> machine \<Rightarrow> machine" where
  "sp_write_pc offset v m =
    (if offset AND 0x0C = 0 then upd_rsp (rsp_set_pc (v AND 0xFFC)) m else m)"

definition sp_notify_break :: "bool \<Rightarrow> machine \<Rightarrow> machine" where
  "sp_notify_break intr_on_break m =
    (let m1 = upd_sp (\<lambda>s. s\<lparr>sp_status := sp_status s OR (StBroke OR StHalt)\<rparr>) m
     in if intr_on_break then raise_irq MiIntr_SP m1 else m1)"

definition set_status_bits :: "u32 \<Rightarrow> u32 \<Rightarrow> sp_regs \<Rightarrow> sp_regs" where
  "set_status_bits set_mask clear_mask s =
    s\<lparr>sp_status := (sp_status s AND NOT clear_mask) OR set_mask\<rparr>"

abbreviation sp_set :: "u32 \<Rightarrow> machine \<Rightarrow> machine" where
  "sp_set b \<equiv> upd_sp (\<lambda>s. s\<lparr>sp_status := sp_status s OR b\<rparr>)"

abbreviation sp_clr :: "u32 \<Rightarrow> machine \<Rightarrow> machine" where
  "sp_clr b \<equiv> upd_sp (\<lambda>s. s\<lparr>sp_status := sp_status s AND NOT b\<rparr>)"

text \<open>The steps of a status write, in the order of the code; each looks at one bit of the
  written value.\<close>

definition status_step :: "u32 \<Rightarrow> u32 \<Rightarrow> (machine \<Rightarrow> machine) \<Rightarrow> machine \<Rightarrow> machine" where
  "status_step v b f m = (if v AND b \<noteq> 0 then f m else m)"

definition sp_signal_step :: "u32 \<Rightarrow> nat \<Rightarrow> machine \<Rightarrow> machine" where
  "sp_signal_step v i m =
    status_step v (push_bit (10 + i * 2) 1) (sp_set (push_bit i StSignal0))
      (status_step v (push_bit (9 + i * 2) 1) (sp_clr (push_bit i StSignal0)) m)"

definition apply_status_write :: "u32 \<Rightarrow> machine \<Rightarrow> machine" where
  "apply_status_write v m =
    fold (sp_signal_step v) [0..<8]
     (status_step v 0x100 (\<lambda>m. upd_rsp (set_intr_on_break True) (sp_set StIntrOnBreak m))
     (status_step v 0x80 (\<lambda>m. upd_rsp (set_intr_on_break False) (sp_clr StIntrOnBreak m))
     (status_step v 0x40 (sp_set StSingleStep)
     (status_step v 0x20 (sp_clr StSingleStep)
     (status_step v 0x10 (raise_irq MiIntr_SP)
     (status_step v 0x8 (clear_irq MiIntr_SP)
     (status_step v 0x4 (\<lambda>m. upd_rsp (set_broke False) (sp_clr StBroke m))
     (status_step v 0x2 (\<lambda>m. upd_rsp (set_halted True) (sp_set StHalt m))
     (status_step v 0x1 (\<lambda>m. pull_mem_from_bus (upd_rsp (set_broke False)
         (upd_rsp (set_halted False) (sp_clr StBroke (sp_clr StHalt m))))) m)))))))))"

definition sp_write :: "u32 \<Rightarrow> u32 \<Rightarrow> machine \<Rightarrow> machine" where
  "sp_write offset v m =
    (let r = offset AND 0x1C in
     if r = 0x00 then upd_sp (\<lambda>s. s\<lparr>sp_mem_addr := v AND 0x1FFF\<rparr>) m
     else if r = 0x04 then upd_sp (\<lambda>s. s\<lparr>sp_dram_addr := v AND 0x00FFFFFF\<rparr>) m
     else if r = 0x08 then sp_do_dma True v m
     else if r = 0x0C then sp_do_dma False v m
     else if r = 0x10 then apply_status_write v m
     else if r = 0x1C then upd_sp (\<lambda>s. s\<lparr>sp_semaphore := 0\<rparr>) m
     else m)"

section \<open>The DP registers\<close>

definition DP_StXbusDma :: u32 where "DP_StXbusDma = 0x1"
definition DP_StFreeze :: u32 where "DP_StFreeze = 0x2"
definition DP_StFlush :: u32 where "DP_StFlush = 0x4"
definition DP_StPipeBusy :: u32 where "DP_StPipeBusy = 0x20"
definition DP_StCmdBusy :: u32 where "DP_StCmdBusy = 0x40"
definition DP_StCbufReady :: u32 where "DP_StCbufReady = 0x80"
definition DP_StDmaBusy :: u32 where "DP_StDmaBusy = 0x100"
definition DP_StEndValid :: u32 where "DP_StEndValid = 0x200"
definition DP_StStartValid :: u32 where "DP_StStartValid = 0x400"

definition upd_dp :: "(dp_regs \<Rightarrow> dp_regs) \<Rightarrow> machine \<Rightarrow> machine" where
  "upd_dp f m = m\<lparr>m_dp := f (m_dp m)\<rparr>"

abbreviation dp_set :: "u32 \<Rightarrow> machine \<Rightarrow> machine" where
  "dp_set b \<equiv> upd_dp (\<lambda>s. s\<lparr>dp_status := dp_status s OR b\<rparr>)"

abbreviation dp_clr :: "u32 \<Rightarrow> machine \<Rightarrow> machine" where
  "dp_clr b \<equiv> upd_dp (\<lambda>s. s\<lparr>dp_status := dp_status s AND NOT b\<rparr>)"

definition dp_reset :: "dp_regs \<Rightarrow> dp_regs" where
  "dp_reset d = d\<lparr>dp_start := 0, dp_end := 0, dp_current := 0, dp_status := DP_StCbufReady\<rparr>"

text \<open>The list the registers describe always ends (theorem \<open>Rdp.command_list_returns\<close>), so
  the second branch of the case is never taken.\<close>

definition dp_run_commands :: "machine \<Rightarrow> machine" where
  "dp_run_commands m =
    (let m1 = dp_clr DP_StCbufReady (dp_set (DP_StCmdBusy OR DP_StPipeBusy) m);
         xbus = (dp_status (m_dp m1) AND DP_StXbusDma \<noteq> 0);
         m2 = (case run_command_list (dp_start (m_dp m1)) (dp_end (m_dp m1)) xbus m1 of
                 Some m' \<Rightarrow> m' | None \<Rightarrow> m1);
         m3 = upd_dp (\<lambda>s. s\<lparr>dp_current := dp_end s\<rparr>) m2;
         m4 = upd_dp (\<lambda>s. s\<lparr>dp_start := dp_end s\<rparr>) m3;
         m5 = dp_clr (DP_StStartValid OR DP_StEndValid OR DP_StCmdBusy OR DP_StPipeBusy
                OR DP_StDmaBusy OR DP_StFlush) m4
     in raise_irq MiIntr_DP (dp_set DP_StCbufReady m5))"

definition dp_write_status :: "u32 \<Rightarrow> machine \<Rightarrow> machine" where
  "dp_write_status v m =
     status_step v 0x20 (\<lambda>m. raise_irq MiIntr_DP (upd_rdp rdp_flush (dp_set DP_StFlush m)))
     (status_step v 0x10 (dp_clr DP_StFlush)
     (status_step v 0x8 (dp_set DP_StFreeze)
     (status_step v 0x4 (dp_clr DP_StFreeze)
     (status_step v 0x2 (dp_set DP_StXbusDma)
     (status_step v 0x1 (dp_clr DP_StXbusDma) m)))))"

definition dp_write :: "u32 \<Rightarrow> u32 \<Rightarrow> machine \<Rightarrow> machine" where
  "dp_write offset v m =
    (let r = offset AND 0x1C in
     if r = 0x00 then
       dp_set DP_StStartValid (upd_dp (\<lambda>s. s\<lparr>dp_start := v AND 0x00FFFFF8,
         dp_current := v AND 0x00FFFFF8\<rparr>) m)
     else if r = 0x04 then
       (let m1 = dp_set DP_StEndValid (upd_dp (\<lambda>s. s\<lparr>dp_end := v AND 0x00FFFFF8\<rparr>) m)
        in if dp_status (m_dp m1) AND DP_StStartValid \<noteq> 0 \<and> dp_end (m_dp m1) > dp_start (m_dp m1)
             \<and> dp_status (m_dp m1) AND DP_StFreeze = 0
           then dp_run_commands m1 else m1)
     else if r = 0x0C then dp_write_status v m
     else m)"

section \<open>Invariants\<close>

text \<open>The SP's view of the RSP: the two copies of its memories agree, and the halt, broke and
  interrupt-on-break bits of the status register are the flags of the processor.\<close>

definition sp_coherent :: "machine \<Rightarrow> bool" where
  "sp_coherent m \<longleftrightarrow> r_dmem (m_rsp m) = m_dmem m \<and> r_imem (m_rsp m) = m_imem m
    \<and> r_halted (m_rsp m) = bit (sp_status (m_sp m)) 0 \<and> r_broke (m_rsp m) = bit (sp_status (m_sp m)) 1
    \<and> r_intr_on_break (m_rsp m) = bit (sp_status (m_sp m)) 6"

lemma sp_coherent_new: "sp_coherent (machine_new rdram)"
  by (simp add: sp_coherent_def machine_new_def rsp_new_def bit_1_iff)

lemma sp_coherent_cong:
  "m_rsp m' = m_rsp m \<Longrightarrow> sp_status (m_sp m') = sp_status (m_sp m) \<Longrightarrow> m_dmem m' = m_dmem m \<Longrightarrow>
    m_imem m' = m_imem m \<Longrightarrow> sp_coherent m' = sp_coherent m"
  by (simp add: sp_coherent_def)

lemma sp_coherent_frame [simp]:
  "sp_coherent (m\<lparr>m_pi := a1\<rparr>) = sp_coherent m" "sp_coherent (m\<lparr>m_si := a2\<rparr>) = sp_coherent m"
  "sp_coherent (m\<lparr>m_ri := a3\<rparr>) = sp_coherent m" "sp_coherent (m\<lparr>m_dp := a5\<rparr>) = sp_coherent m"
  "sp_coherent (m\<lparr>m_rdp := a6\<rparr>) = sp_coherent m" "sp_coherent (m\<lparr>m_rdram := a7\<rparr>) = sp_coherent m"
  "sp_coherent (m\<lparr>m_pif := a8\<rparr>) = sp_coherent m" "sp_coherent (m\<lparr>m_pif_ram := a9\<rparr>) = sp_coherent m"
  "sp_coherent (m\<lparr>m_cart := b1\<rparr>) = sp_coherent m" "sp_coherent (m\<lparr>m_dbg := b2\<rparr>) = sp_coherent m"
  "sp_coherent (m\<lparr>m_cpu := b3\<rparr>) = sp_coherent m" "sp_coherent (m\<lparr>m_cache := b4\<rparr>) = sp_coherent m"
  "sp_coherent (m\<lparr>m_mi := b5\<rparr>) = sp_coherent m" "sp_coherent (m\<lparr>m_vi := b6\<rparr>) = sp_coherent m"
  "sp_coherent (m\<lparr>m_ai := b7\<rparr>) = sp_coherent m" "sp_coherent (m\<lparr>m_sched := b8\<rparr>) = sp_coherent m"
  "sp_coherent (m\<lparr>m_pif_rom := b9\<rparr>) = sp_coherent m"
  "sp_coherent (m\<lparr>m_device_debt := c1\<rparr>) = sp_coherent m"
  "sp_coherent (raise_irq b m) = sp_coherent m" "sp_coherent (clear_irq b m) = sp_coherent m"
  "sp_coherent (notify_memory_write p s m) = sp_coherent m"
  by (simp_all add: sp_coherent_def)

text \<open>The invariant the register writes keep, as one predicate: the machine's own and the SP's.\<close>

definition machine_ok :: "machine \<Rightarrow> bool" where
  "machine_ok m \<longleftrightarrow> machine_wf m \<and> sp_coherent m"

lemma machine_ok_new: "machine_ok (machine_new rdram)"
  by (simp add: machine_ok_def machine_wf_new sp_coherent_new)

lemmas upd_defs = upd_pi_def upd_si_def upd_sp_def upd_rsp_def upd_dp_def upd_rdp_def

lemma machine_ok_frame [simp]:
  "machine_ok (upd_pi f1 m) = machine_ok m" "machine_ok (upd_si f2 m) = machine_ok m"
  "machine_ok (upd_dp f3 m) = machine_ok m" "machine_ok (upd_rdp f4 m) = machine_ok m"
  "machine_ok (m\<lparr>m_ri := a3\<rparr>) = machine_ok m" "machine_ok (m\<lparr>m_rdram := a7\<rparr>) = machine_ok m"
  "machine_ok (m\<lparr>m_cart := b1\<rparr>) = machine_ok m" "machine_ok (m\<lparr>m_pif_ram := b2\<rparr>) = machine_ok m"
  "machine_ok (m\<lparr>m_vi := b6\<rparr>) = machine_ok m" "machine_ok (m\<lparr>m_ai := b7\<rparr>) = machine_ok m"
  "machine_ok (m\<lparr>m_dbg := b3\<rparr>) = machine_ok m" "machine_ok (m\<lparr>m_sched := b8\<rparr>) = machine_ok m"
  "machine_ok (m\<lparr>m_pif_rom := b9\<rparr>) = machine_ok m"
  "machine_ok (m\<lparr>m_device_debt := c1\<rparr>) = machine_ok m"
  "machine_ok (rdram_put p b m) = machine_ok m" "machine_ok (cart_write_byte p b m) = machine_ok m"
  by (simp_all add: machine_ok_def upd_defs rdram_put_def cart_write_byte_def)

lemma machine_ok_irq [wf_intros]:
  "machine_ok m \<Longrightarrow> machine_ok (raise_irq b m)" "machine_ok m \<Longrightarrow> machine_ok (clear_irq b m)"
  "machine_ok m \<Longrightarrow> machine_ok (notify_memory_write p s m)"
  by (simp_all add: machine_ok_def wf_intros)

lemma fold_ok: "(\<And>x s. P s \<Longrightarrow> P (f x s)) \<Longrightarrow> P s \<Longrightarrow> P (fold f xs s)"
  by (induction xs arbitrary: s) simp_all

lemma status_step_ok: "P m \<Longrightarrow> (P m \<Longrightarrow> P (f m)) \<Longrightarrow> P (status_step v b f m)"
  by (simp add: status_step_def)

text \<open>The peripheral interface.\<close>

lemma pi_write_ok [wf_intros]:
  assumes "machine_ok m"
  shows "machine_ok (pi_write off v m)"
proof -
  have fin: "machine_ok (pi_finish_dma n)" if "machine_ok n" for n
    using that by (simp add: pi_finish_dma_def machine_ok_irq)
  have adv: "machine_ok (pi_advance d c l n) = machine_ok n" "machine_ok (pi_set_busy n) = machine_ok n"
    for d c l n
    by (simp_all add: pi_advance_def pi_set_busy_def)
  have to_rdram: "machine_ok (start_dma_to_rdram n)" if "machine_ok n" for n
    unfolding start_dma_to_rdram_def Let_def
    by (rule fin) (simp add: adv machine_ok_irq fold_keeps [where g = machine_ok] that)
  have to_cart: "machine_ok (start_dma_to_cart n)" if "machine_ok n" for n
    unfolding start_dma_to_cart_def Let_def
    by (rule fin) (simp add: adv fold_keeps [where g = machine_ok] that)
  have st: "machine_ok (pi_write_status v m)"
    unfolding pi_write_status_def Let_def
    by (simp add: assms machine_ok_irq)
  show ?thesis
    unfolding pi_write_def Let_def
    by (intro pred_if [where P = machine_ok]) (simp_all add: assms to_rdram to_cart st)
qed

text \<open>The serial interface.\<close>

lemma machine_ok_pif: "machine_ok m \<Longrightarrow> pif_wf p \<Longrightarrow> machine_ok (m\<lparr>m_pif := p\<rparr>)"
  by (simp add: machine_ok_def machine_wf_pif)

lemma machine_ok_pif_wf: "machine_ok m \<Longrightarrow> pif_wf (m_pif m)"
  by (simp add: machine_ok_def machine_wf_def)

lemma run_joybus_ok [wf_intros]:
  assumes "machine_ok m"
  shows "machine_ok (run_joybus m)"
proof -
  obtain a p where "process_joybus (m_pif m) = Some (a, p)" "pif_wf p"
    using process_joybus_total [OF machine_ok_pif_wf [OF assms]] by blast
  then show ?thesis using machine_ok_pif [OF assms] by (simp add: run_joybus_def)
qed

lemma mirror_pif_ok [simp]: "machine_ok (mirror_pif m) = machine_ok m"
  by (simp add: mirror_pif_def)

lemma put_pif_byte_ok: "machine_ok m \<Longrightarrow> machine_ok (put_pif_byte i b m)"
  unfolding put_pif_byte_def
  by (intro machine_ok_pif) (use machine_ok_pif_wf in \<open>auto simp: pif_wf_def\<close>)

lemma si_write_ok [wf_intros]:
  assumes "machine_ok m"
  shows "machine_ok (si_write off v m)"
proof -
  have b: "machine_ok (si_set_busy m)" using assms by (simp add: si_set_busy_def)
  have fin: "machine_ok (si_finish_dma n)" if "machine_ok n" for n
    using that by (simp add: si_finish_dma_def machine_ok_irq)
  have from_pif: "machine_ok (dma_from_pif m)"
    unfolding dma_from_pif_def Let_def
    by (rule fin) (simp add: machine_ok_irq fold_keeps [where g = machine_ok] b run_joybus_ok)
  have "machine_ok (fold (\<lambda>i m. put_pif_byte i (g i m) m) [0..<64] (si_set_busy m))" for g
    by (rule fold_ok [where P = machine_ok]) (simp_all add: put_pif_byte_ok b)
  then have to_pif: "machine_ok (dma_to_pif m)"
    unfolding dma_to_pif_def Let_def
    by (intro fin) (simp add: run_joybus_ok)
  show ?thesis
    unfolding si_write_def Let_def
    by (intro pred_if [where P = machine_ok])
      (simp_all add: assms from_pif to_pif machine_ok_irq)
qed

text \<open>The SP registers. A status bit the RSP does not mirror can change freely.\<close>

lemma upd_sp_ok:
  assumes "machine_ok m"
    and "\<And>k. k = 0 \<or> k = 1 \<or> k = 6 \<Longrightarrow> bit (sp_status (f (m_sp m))) k = bit (sp_status (m_sp m)) k"
  shows "machine_ok (upd_sp f m)"
  using assms(1) assms(2) [of 0] assms(2) [of 1] assms(2) [of 6]
  by (simp add: machine_ok_def sp_coherent_def upd_sp_def)

lemma bit_pow32: "n < 32 \<Longrightarrow> bit (2 ^ n :: u32) k \<longleftrightarrow> k = n"
  by (auto simp: bit_exp_iff)

lemma status_bits:
  "bit StHalt k \<longleftrightarrow> k = 0" "bit StBroke k \<longleftrightarrow> k = 1" "bit StDmaBusy k \<longleftrightarrow> k = 2"
  "bit StSingleStep k \<longleftrightarrow> k = 5" "bit StIntrOnBreak k \<longleftrightarrow> k = 6" "bit StSignal0 k \<longleftrightarrow> k = 7"
  using bit_pow32 [of 0 k] bit_pow32 [of 1 k] bit_pow32 [of 2 k] bit_pow32 [of 5 k] bit_pow32 [of 6 k]
    bit_pow32 [of 7 k]
  by (simp_all add: StHalt_def StBroke_def StDmaBusy_def StSingleStep_def StIntrOnBreak_def StSignal0_def)

lemma apply_status_ok [wf_intros]:
  assumes "machine_ok m"
  shows "machine_ok (apply_status_write v m)"
proof -
  have signal: "machine_ok (sp_signal_step v i n)" if "machine_ok n" for i n
    unfolding sp_signal_step_def
    by (intro status_step_ok [where P = machine_ok] upd_sp_ok that)
      (auto simp: bit_or_iff bit_and_iff bit_not_iff bit_push_bit_iff status_bits)
  have steps: "machine_ok n \<Longrightarrow> machine_ok (upd_rsp (set_intr_on_break True) (sp_set StIntrOnBreak n))"
    "machine_ok n \<Longrightarrow> machine_ok (upd_rsp (set_intr_on_break False) (sp_clr StIntrOnBreak n))"
    "machine_ok n \<Longrightarrow> machine_ok (upd_rsp (set_broke False) (sp_clr StBroke n))"
    "machine_ok n \<Longrightarrow> machine_ok (upd_rsp (set_halted True) (sp_set StHalt n))"
    "machine_ok n \<Longrightarrow> machine_ok (pull_mem_from_bus (upd_rsp (set_broke False)
         (upd_rsp (set_halted False) (sp_clr StBroke (sp_clr StHalt n)))))"
    "machine_ok n \<Longrightarrow> machine_ok (sp_set StSingleStep n)" "machine_ok n \<Longrightarrow> machine_ok (sp_clr StSingleStep n)" for n
    by (auto simp: machine_ok_def sp_coherent_def upd_rsp_def upd_sp_def set_intr_on_break_def
        set_broke_def set_halted_def pull_mem_from_bus_def bit_or_iff bit_and_iff bit_not_iff status_bits)
  show ?thesis
    unfolding apply_status_write_def
    by (intro fold_ok [where P = machine_ok] signal status_step_ok [where P = machine_ok]
        steps machine_ok_irq assms)
qed

text \<open>A transfer leaves the processor and the registers alone, and of the two memories the one
  it does not address.\<close>

definition dma_keeps :: "bool \<Rightarrow> machine \<Rightarrow> machine \<Rightarrow> bool" where
  "dma_keeps imem m m' \<longleftrightarrow> (machine_wf m \<longrightarrow> machine_wf m') \<and> m_rsp m' = m_rsp m \<and> m_sp m' = m_sp m
    \<and> (if imem then m_dmem m' = m_dmem m else m_imem m' = m_imem m)"

lemma dma_keeps_byte: "dma_keeps imem m (sp_dma_byte to_sp imem mem dram i m)"
  by (simp add: dma_keeps_def sp_dma_byte_def Let_def sp_mem_put_def rdram_put_def)

lemma dma_keeps_trans: "dma_keeps i a b \<Longrightarrow> dma_keeps i b c \<Longrightarrow> dma_keeps i a c"
  by (auto simp: dma_keeps_def split: if_splits)

lemma dma_keeps_refl: "dma_keeps i a a"
  by (simp add: dma_keeps_def)

lemma dma_keeps_line: "dma_keeps imem (dma_machine s) (dma_machine (sp_dma_line to_sp imem len skip s))"
proof -
  let ?m = "dma_machine s"
  have f: "dma_keeps imem ?m (fold (sp_dma_byte to_sp imem (dma_mem s) (dma_dram s)) xs ?m)" for xs
    by (rule fold_ok [where P = "dma_keeps imem ?m"]) (auto intro: dma_keeps_trans dma_keeps_byte dma_keeps_refl)
  have n: "dma_keeps imem n (notify_memory_write p l n)" for n p l
    by (simp add: dma_keeps_def machine_wf_notify)
  show ?thesis
    unfolding sp_dma_line_def Let_def sp_dma_state.simps
    by (intro pred_if [where P = "dma_keeps imem ?m"]; rule dma_keeps_trans [OF f n])
qed

lemma dma_keeps_lines:
  "dma_keeps imem (dma_machine s) (dma_machine ((sp_dma_line to_sp imem len skip ^^ n) s))"
  by (induction n) (auto intro: dma_keeps_refl dma_keeps_trans dma_keeps_line)

lemma sp_do_dma_ok [wf_intros]:
  assumes "machine_ok m0"
  shows "machine_ok (sp_do_dma to_sp v m0)"
proof -
  define m where "m = upd_sp (\<lambda>s. s\<lparr>sp_status := sp_status s OR StDmaBusy\<rparr>) m0"
  have m: "machine_ok m"
    unfolding m_def by (rule upd_sp_ok [OF assms]) (auto simp: bit_or_iff status_bits)
  define imem where "imem = ((sp_mem_addr (m_sp m) AND 0x1FFF) AND 0x1000 \<noteq> 0)"
  define s where "s = (sp_dma_line to_sp imem (sp_dma_length v) (sp_dma_skip v) ^^ unat (sp_dma_count v))
             \<lparr>dma_mem = (sp_mem_addr (m_sp m) AND 0x1FFF) AND 0xFFF,
              dma_dram = sp_dram_addr (m_sp m) AND 0x00FFFFFF, dma_total = 0, dma_machine = m\<rparr>"
  have "dma_keeps imem m (dma_machine s)"
    using dma_keeps_lines [of imem "\<lparr>dma_mem = (sp_mem_addr (m_sp m) AND 0x1FFF) AND 0xFFF,
        dma_dram = sp_dram_addr (m_sp m) AND 0x00FFFFFF, dma_total = 0, dma_machine = m\<rparr>"]
    by (simp add: s_def)
  then have c: "machine_ok (copy_spmem_to_rsp imem (dma_machine s))"
    using m by (auto simp: machine_ok_def sp_coherent_def dma_keeps_def copy_spmem_to_rsp_def upd_rsp_def
        split: if_splits)
  show ?thesis
    unfolding sp_do_dma_def Let_def m_def [symmetric] imem_def [symmetric] s_def [symmetric]
    by (rule machine_ok_irq, rule upd_sp_ok [OF c])
      (auto simp: bit_and_iff bit_not_iff status_bits)
qed

lemma sp_write_ok [wf_intros]:
  assumes "machine_ok m"
  shows "machine_ok (sp_write off v m)"
  unfolding sp_write_def Let_def
  by (intro pred_if [where P = machine_ok] sp_do_dma_ok apply_status_ok upd_sp_ok assms) simp_all

lemma sp_write_pc_ok [wf_intros]: "machine_ok m \<Longrightarrow> machine_ok (sp_write_pc off v m)"
  by (simp add: sp_write_pc_def machine_ok_def sp_coherent_def upd_rsp_def rsp_set_pc_def)

text \<open>The DP registers: what every command keeps, the command list keeps.\<close>

lemma machine_ok_beside: "beside_rdp m' = beside_rdp m \<Longrightarrow> machine_ok m' = machine_ok m"
  using beside_rdp_eqD [of m' m] sp_coherent_cong [of m' m] by (simp add: machine_ok_def)

lemma machine_ok_command:
  assumes "machine_ok m"
  shows "machine_ok (rdp_execute_command cmd m)" "machine_ok (execute_command_pair hi lo m)"
proof -
  have c: "machine_ok (count_cmd m)" using assms by (simp add: count_cmd_def)
  have k: "machine_ok (cmd_fill_rectangle cmd z) = machine_ok z"
    "machine_ok (cmd_load_block cmd z) = machine_ok z" "machine_ok (cmd_load_tile cmd z) = machine_ok z"
    "machine_ok (cmd_texture_rectangle hi lo flip z) = machine_ok z" for z flip
    by (rule machine_ok_beside; simp)+
  show "machine_ok (rdp_execute_command cmd m)"
    unfolding rdp_execute_command_def Let_def
    by (intro pred_if [where P = machine_ok]) (simp_all add: c k cmd_sync_full_def machine_ok_irq)
  show "machine_ok (execute_command_pair hi lo m)"
    by (simp add: execute_command_pair_def Let_def c k)
qed

lemma machine_ok_read [simp]:
  "machine_ok (snd (bus_read32 a m)) = machine_ok m" "machine_ok (snd (read_cmd64 a x m)) = machine_ok m"
proof -
  have r: "machine_ok (snd (bus_read32 a m)) = machine_ok m" for a m
    using sp_coherent_cong [of "snd (bus_read32 a m)" m] by (simp add: machine_ok_def)
  then show "machine_ok (snd (bus_read32 a m)) = machine_ok m" .
  show "machine_ok (snd (read_cmd64 a x m)) = machine_ok m"
    by (simp add: read_cmd64_def read_cmd_word_def split_def Let_def r)
qed

lemma command_loop_ok:
  assumes "command_loop stop xbus pc m = Some m'" "machine_ok m"
  shows "machine_ok m'"
proof -
  have "machine_ok m \<longrightarrow> machine_ok m'"
  proof (rule command_loop.raw_induct [where P = "\<lambda>stop xbus pc m m'. machine_ok m \<longrightarrow> machine_ok m'",
        OF _ assms(1)], goal_cases)
    case (1 f stop xbus pc m m')
    show ?case
    proof
      assume ok: "machine_ok m"
      show "machine_ok m'"
        using 1(2) 1(1) [THEN mp] ok machine_ok_command
        by (auto simp: split_def Let_def split: if_splits)
    qed
  qed
  then show ?thesis using assms(2) by simp
qed

lemma dp_run_commands_ok [wf_intros]:
  assumes "machine_ok m"
  shows "machine_ok (dp_run_commands m)"
proof -
  have "machine_ok (case run_command_list a b x n of Some m' \<Rightarrow> m' | None \<Rightarrow> n)"
    if "machine_ok n" for a b x n
    using that command_loop_ok
    by (auto simp: run_command_list_def split: option.splits if_splits)
  then show ?thesis
    using assms by (simp add: dp_run_commands_def Let_def machine_ok_irq)
qed

lemma dp_write_ok [wf_intros]:
  assumes "machine_ok m"
  shows "machine_ok (dp_write off v m)"
proof -
  have "machine_ok (dp_write_status v m)"
    unfolding dp_write_status_def
    by (intro status_step_ok [where P = machine_ok] machine_ok_irq assms | simp)+
  then show ?thesis
    unfolding dp_write_def Let_def
    by (intro pred_if [where P = machine_ok]) (simp_all add: assms dp_run_commands_ok)
qed

section \<open>What a transfer to memory does\<close>

text \<open>The loop every transfer to RDRAM runs. Its source (the cartridge, PIF RAM) is not RDRAM, so
  it stays the same throughout.\<close>

lemma rdram_copy:
  assumes src: "\<And>i b a z. g i (rdram_put a b z) = g i z"
    and fits: "unat dram + n \<le> length (m_rdram m)" and len: "length (m_rdram m) \<le> 2 ^ 29"
  shows "\<exists>r. fold (\<lambda>i m. rdram_put (dram + of_nat i) (g i m) m) [0..<n] m = m\<lparr>m_rdram := r\<rparr>
    \<and> length r = length (m_rdram m)
    \<and> (\<forall>j. r ! j = (if unat dram \<le> j \<and> j < unat dram + n then g (j - unat dram) m else m_rdram m ! j))"
  using fits
proof (induction n)
  case 0
  then show ?case by (intro exI [of _ "m_rdram m"]) auto
next
  case (Suc n)
  let ?f = "\<lambda>i m. rdram_put (dram + of_nat i) (g i m) m"
  obtain r where r: "fold ?f [0..<n] m = m\<lparr>m_rdram := r\<rparr>" "length r = length (m_rdram m)"
    "\<And>j. r ! j = (if unat dram \<le> j \<and> j < unat dram + n then g (j - unat dram) m else m_rdram m ! j)"
    using Suc by auto
  have keep: "g i (fold ?f xs m) = g i m" for i xs
    by (induction xs arbitrary: m) (simp_all add: src)
  have "unat dram + n < 2 ^ 32" using Suc.prems len by simp
  then have u: "unat (dram + of_nat n) = unat dram + n"
    by (simp add: unat_word_ariths unat_of_nat)
  have "r \<noteq> []" using Suc.prems r(2) by auto
  then have "fold ?f [0..<Suc n] m = m\<lparr>m_rdram := r[unat dram + n := g n m]\<rparr>"
    using Suc.prems r(1,2) keep [of n "[0..<n]"]
    by (simp add: rdram_put_def rdram_index_def u vec_wr_def)
  then show ?case
    using Suc.prems r by (intro exI [of _ "r[unat dram + n := g n m]"]) (auto simp: nth_list_update)
qed

text \<open>A notification of bytes in the 29-bit space leaves no valid block that meets them.\<close>

lemma notify_fresh:
  assumes "bc_wf (m_cache m)" "bc_aligned (m_cache m)" "sz \<noteq> 0" "unat p < 2 ^ 29"
    and "sl_valid (bc_table (m_cache (notify_memory_write p sz m)) i)"
  shows "\<not> overlaps (unat p) (unat p + unat sz) (sl_block (bc_table (m_cache (notify_memory_write p sz m)) i))"
proof -
  have m: "(0x1FFFFFFF :: u32) = mask 29" by (simp add: mask_eq_exp_minus_1)
  have ph: "physical p = p"
    unfolding physical_def m by (rule word_mask_self [OF assms(4)])
  have "finite {i. sl_valid (bc_table (m_cache m) i)}"
    using assms(1) by (intro finite_valid) (simp add: bc_wf_def)
  then have none: "\<not> sl_valid (bc_table (m_cache m) i)" if "bc_count (m_cache m) = 0" for i
    using assms(1) that by (auto simp: bc_wf_def)
  show ?thesis
  proof (cases "bc_count (m_cache m) = 0")
    case True
    then have "notify_memory_write p sz m = m" by (simp add: notify_memory_write_def)
    then show ?thesis using assms(5) none [OF True] by simp
  next
    case False
    obtain c where "bc_invalidate p sz (m_cache m) = Some c"
      "\<forall>i. sl_valid (bc_table c i) \<longrightarrow> \<not> overlaps (unat p) (unat p + unat sz) (sl_block (bc_table c i))"
      using invalidate_correct [OF assms(1), of p sz] assms(2) by blast
    then show ?thesis
      using False assms(3,5) ph by (simp add: notify_memory_write_def)
  qed
qed

lemma bits_of_irq: "mi_intr (m_mi (raise_irq b m)) AND b = b"
  by (rule bit_word_eqI) (auto simp: irq_lines_of_machine mi_raise_def bit_or_iff bit_and_iff)

lemma cart_read_rdram [simp]: "cart_read_byte (rdram_put a b z) c = cart_read_byte z c"
  by (simp add: cart_read_byte_def rdram_put_def)

lemma pi_dma_correct:
  assumes wf: "machine_wf m" and al: "bc_aligned (m_cache m)"
    and n: "n = unat ((v AND 0x00FFFFFF) + 1)"
    and dram: "dram = pi_dram_addr (m_pi m) AND NOT 1" and cart: "cart = pi_cart_addr (m_pi m) AND NOT 1"
    and fits: "unat dram + n \<le> length (m_rdram m)" and len: "length (m_rdram m) \<le> 2 ^ 29"
    and m': "m' = pi_write 0x08 v m"
  shows "(\<forall>k<n. m_rdram m' ! (unat dram + k) = cart_read_byte m (cart + of_nat k))
    \<and> (\<forall>j. j < unat dram \<or> unat dram + n \<le> j \<longrightarrow> m_rdram m' ! j = m_rdram m ! j)
    \<and> length (m_rdram m') = length (m_rdram m)
    \<and> mi_intr (m_mi m') AND MiIntr_PI = MiIntr_PI
    \<and> pi_status (m_pi m') AND PI_StatusDmaBusy = 0
    \<and> (\<forall>i. sl_valid (bc_table (m_cache m') i) \<longrightarrow>
        \<not> overlaps (unat dram) (unat dram + n) (sl_block (bc_table (m_cache m') i)))"
proof -
  define l where "l = (v AND 0x00FFFFFF) + 1"
  define m1 where "m1 = pi_set_busy (upd_pi (\<lambda>p. p\<lparr>pi_rd_len := v AND 0x00FFFFFF\<rparr>) m)"
  have m1: "m_rdram m1 = m_rdram m" "m_cache m1 = m_cache m" "cart_read_byte m1 a = cart_read_byte m a" for a
    by (simp_all add: m1_def pi_set_busy_def upd_pi_def cart_read_byte_def)
  obtain r where r: "fold (\<lambda>i m. rdram_put (dram + of_nat i) (cart_read_byte m (cart + of_nat i)) m) [0..<n] m1
      = m1\<lparr>m_rdram := r\<rparr>" "length r = length (m_rdram m)"
    "\<forall>j. r ! j = (if unat dram \<le> j \<and> j < unat dram + n then cart_read_byte m (cart + of_nat (j - unat dram))
       else m_rdram m ! j)"
    using rdram_copy [of "\<lambda>i m. cart_read_byte m (cart + of_nat i)" dram n m1] fits len m1 by auto
  define m2 where "m2 = notify_memory_write dram l (m1\<lparr>m_rdram := r\<rparr>)"
  have "m' = pi_finish_dma (pi_advance dram cart l m2)"
    using r(1) unfolding m' n m2_def l_def m1_def dram cart
    by (simp add: pi_write_def start_dma_to_rdram_def Let_def and.assoc upd_pi_def)
  moreover have "m_rdram m2 = r" by (simp add: m2_def)
  moreover have "PI_StatusIntr AND PI_StatusDmaBusy = 0"
    by (simp add: PI_StatusIntr_def PI_StatusDmaBusy_def)
  moreover have "l \<noteq> 0" "n = unat l"
  proof -
    have "unat (v AND mask 24) < 2 ^ 24" by (rule unat_mask_less)
    then have "unat l \<noteq> 0" by (simp add: l_def mask_literals unat_word_ariths)
    then show "l \<noteq> 0" by auto
  qed (simp add: n l_def)
  moreover have "unat dram < 2 ^ 29" using fits len calculation(4,5) unat_gt_0 [of l] by linarith
  ultimately show ?thesis
    using r(2,3) wf al m1
      notify_fresh [of "m1\<lparr>m_rdram := r\<rparr>" l dram, folded m2_def]
    by (auto simp: pi_finish_dma_def pi_advance_def upd_pi_def bits_of_irq machine_wf_def MiIntr_PI_def
        bit.conj_disj_distrib2 and.assoc)
qed



end
