(* ===== verification/Bus_Write.thy ===== *)
theory Bus_Write
  imports Devices Cart_Header
begin

text \<open>
  The writing half of \<open>bus/bus.cpp\<close>: the MMIO dispatch, the sized writes with their cache
  notification and debugger hook, the reset and the loading of the user's images; and the
  invariant that every write of every width keeps.
\<close>

section \<open>The MMIO dispatch\<close>

text \<open>The devices that only see the interrupt lines (\<open>MI\<close>, \<open>VI\<close>, \<open>AI\<close>) on the machine.\<close>

definition mi_write_m :: "u32 \<Rightarrow> u32 \<Rightarrow> machine \<Rightarrow> machine" where
  "mi_write_m off v m =
    (case mi_write off v (m_mi m) of (mi, notified) \<Rightarrow>
      if notified then with_mi_cpu irq_callback (m\<lparr>m_mi := mi\<rparr>) else m\<lparr>m_mi := mi\<rparr>)"

definition vi_write_m :: "u32 \<Rightarrow> u32 \<Rightarrow> machine \<Rightarrow> machine" where
  "vi_write_m off v m =
    (case vi_write (clear_irq MiIntr_VI) off v (m_vi m, m) of (vi, m') \<Rightarrow> m'\<lparr>m_vi := vi\<rparr>)"

definition ai_write_m :: "u32 \<Rightarrow> u32 \<Rightarrow> machine \<Rightarrow> machine" where
  "ai_write_m off v m =
    (case ai_write (clear_irq MiIntr_AI) off v (m_ai m, m) of (ai, m') \<Rightarrow> m'\<lparr>m_ai := ai\<rparr>)"

definition ri_write_m :: "u32 \<Rightarrow> u32 \<Rightarrow> machine \<Rightarrow> machine" where
  "ri_write_m off v m = m\<lparr>m_ri := ri_write off v (m_ri m)\<rparr>"

definition log_unknown :: "u32 \<Rightarrow> u32 \<Rightarrow> machine \<Rightarrow> machine" where
  "log_unknown paddr v m = m\<lparr>m_dbg := log_unknown_mmio paddr True v (m_dbg m)\<rparr>"

definition write_mmio32 :: "u32 \<Rightarrow> u32 \<Rightarrow> machine \<Rightarrow> machine" where
  "write_mmio32 p v m =
    (if in_region p 0x04040000 0x20 then sp_write (p - 0x04040000) v m
     else if in_region p 0x04080000 0x10 then sp_write_pc (p - 0x04080000) v m
     else if in_region p 0x04100000 0x20 then dp_write (p - 0x04100000) v m
     else if in_region p 0x04300000 0x10 then mi_write_m (p - 0x04300000) v m
     else if in_region p 0x04400000 0x40 then vi_write_m (p - 0x04400000) v m
     else if in_region p 0x04500000 0x20 then ai_write_m (p - 0x04500000) v m
     else if in_region p 0x04600000 0x40 then pi_write (p - 0x04600000) v m
     else if in_region p 0x04700000 0x20 then ri_write_m (p - 0x04700000) v m
     else if in_region p 0x04800000 0x20 then si_write (p - 0x04800000) v m
     else log_unknown p v m)"

section \<open>The sized writes\<close>

definition dbg_write :: "u32 \<Rightarrow> u32 \<Rightarrow> machine \<Rightarrow> machine" where
  "dbg_write paddr sz m = m\<lparr>m_dbg := on_bus_write paddr sz (m_dbg m)\<rparr>"

text \<open>What every write does first: the block cache learns of it, then the debugger.\<close>

definition announce_write :: "u32 \<Rightarrow> u32 \<Rightarrow> machine \<Rightarrow> machine" where
  "announce_write paddr sz m = dbg_write paddr sz (notify_memory_write paddr sz m)"

text \<open>The two copies of each SP memory, written together.\<close>

definition put_dmem :: "(bytes \<Rightarrow> bytes) \<Rightarrow> machine \<Rightarrow> machine" where
  "put_dmem f m = m\<lparr>m_dmem := f (m_dmem m), m_rsp := (m_rsp m)\<lparr>r_dmem := f (r_dmem (m_rsp m))\<rparr>\<rparr>"

definition put_imem :: "(bytes \<Rightarrow> bytes) \<Rightarrow> machine \<Rightarrow> machine" where
  "put_imem f m = m\<lparr>m_imem := f (m_imem m), m_rsp := (m_rsp m)\<lparr>r_imem := f (r_imem (m_rsp m))\<rparr>\<rparr>"

definition write_pif_ram :: "nat \<Rightarrow> u8 \<Rightarrow> machine \<Rightarrow> machine" where
  "write_pif_ram off v m =
    (let m1 = put_pif_byte off v (m\<lparr>m_pif_ram := arr_wr off v (m_pif_ram m)\<rparr>)
     in if off = 0x3F \<and> v AND kCtrlProcess \<noteq> 0 then mirror_pif (run_joybus m1) else m1)"

definition bus_write8 :: "u32 \<Rightarrow> u8 \<Rightarrow> machine \<Rightarrow> machine" where
  "bus_write8 addr v m0 =
    (let paddr = physical addr; m = announce_write paddr 1 m0 in
     if is_mmio_region paddr then
       (case read_mmio32 (paddr AND NOT 3) m of
          (w, m1) \<Rightarrow>
            (let sh = unat ((3 - (paddr AND 3)) * 8);
                 w' = (w AND NOT (push_bit sh 0xFF)) OR push_bit sh (ucast v)
             in write_mmio32 (paddr AND NOT 3) w' m1))
     else if paddr < 0x03F00000 then rdram_put paddr v m
     else if paddr \<ge> 0x04000000 \<and> paddr < 0x04001000 then
       put_dmem (arr_wr (unat (paddr - 0x04000000)) v) m
     else if paddr \<ge> 0x04001000 \<and> paddr < 0x04002000 then
       put_imem (arr_wr (unat (paddr - 0x04001000)) v) m
     else if paddr \<ge> 0x1FC007C0 \<and> paddr \<le> 0x1FC007FF then
       write_pif_ram (unat (paddr - 0x1FC007C0)) v m
     else log_unknown paddr (ucast v) m)"

definition bus_write16 :: "u32 \<Rightarrow> u16 \<Rightarrow> machine \<Rightarrow> machine" where
  "bus_write16 addr v m0 =
    (let paddr = physical addr; m = announce_write paddr 2 m0 in
     if is_mmio_region paddr then
       (case read_mmio32 (paddr AND NOT 3) m of
          (w, m1) \<Rightarrow>
            (let w' = (if paddr AND 2 = 0 then (w AND 0x0000FFFF) OR push_bit 16 (ucast v)
                       else (w AND 0xFFFF0000) OR ucast v)
             in write_mmio32 (paddr AND NOT 3) w' m1))
     else if paddr < 0x03F00000 \<and> m_rdram m \<noteq> [] \<and> rdram_index m paddr + 1 < length (m_rdram m) then
       m\<lparr>m_rdram := store_le16 vec_wr (rdram_index m paddr) (bswap16 v) (m_rdram m)\<rparr>
     else if paddr \<ge> 0x04000000 \<and> paddr < 0x04001000 \<and> unat (paddr - 0x04000000) + 1 < 4096 then
       put_dmem (store_le16 arr_wr (unat (paddr - 0x04000000)) (bswap16 v)) m
     else bus_write8 (addr + 1) (ucast (v AND 0xFF))
            (bus_write8 addr (ucast (drop_bit 8 v AND 0xFF)) m))"

definition bus_write32 :: "u32 \<Rightarrow> u32 \<Rightarrow> machine \<Rightarrow> machine" where
  "bus_write32 addr v m0 =
    (let paddr = physical addr; m = announce_write paddr 4 m0 in
     if is_mmio_region paddr then write_mmio32 (paddr AND NOT 3) v m
     else if paddr < 0x03F00000 \<and> m_rdram m \<noteq> [] \<and> rdram_index m paddr + 3 < length (m_rdram m) then
       m\<lparr>m_rdram := store_le32 vec_wr (rdram_index m paddr) (bswap32 v) (m_rdram m)\<rparr>
     else if paddr \<ge> 0x04000000 \<and> paddr < 0x04001000 \<and> unat (paddr - 0x04000000) + 3 < 4096 then
       put_dmem (store_le32 arr_wr (unat (paddr - 0x04000000)) (bswap32 v)) m
     else if paddr \<ge> 0x04001000 \<and> paddr < 0x04002000 \<and> unat (paddr - 0x04001000) + 3 < 4096 then
       put_imem (store_le32 arr_wr (unat (paddr - 0x04001000)) (bswap32 v)) m
     else bus_write8 (addr + 3) (ucast (v AND 0xFF))
           (bus_write8 (addr + 2) (ucast (drop_bit 8 v AND 0xFF))
           (bus_write8 (addr + 1) (ucast (drop_bit 16 v AND 0xFF))
           (bus_write8 addr (ucast (drop_bit 24 v AND 0xFF)) m))))"

definition bus_write64 :: "u32 \<Rightarrow> u64 \<Rightarrow> machine \<Rightarrow> machine" where
  "bus_write64 addr v m0 =
    (let paddr = physical addr; m = announce_write paddr 8 m0 in
     if paddr < 0x03F00000 \<and> m_rdram m \<noteq> [] \<and> rdram_index m paddr + 7 < length (m_rdram m) then
       m\<lparr>m_rdram := store_le64 vec_wr (rdram_index m paddr) (bswap64 v) (m_rdram m)\<rparr>
     else bus_write32 (addr + 4) (ucast v) (bus_write32 addr (ucast (drop_bit 32 v)) m))"

section \<open>Reset and images\<close>

definition bus_reset :: "machine \<Rightarrow> machine" where
  "bus_reset m =
    (let m1 = m\<lparr>m_rdram := replicate (length (m_rdram m)) 0, m_dmem := (\<lambda>_. 0), m_imem := (\<lambda>_. 0),
                m_pif_ram := (\<lambda>_. 0)\<rparr>;
         m2 = m1\<lparr>m_mi := mi_reset (m_mi m1)\<rparr>;
         m3 = upd_pi pi_reset m2;
         m4 = upd_si si_reset m3;
         m5 = m4\<lparr>m_ri := ri_reset (m_ri m4)\<rparr>
     in upd_dp dp_reset (sp_reset m5))"

definition load_cartridge :: "u8 list \<Rightarrow> machine \<Rightarrow> bool \<times> machine" where
  "load_cartridge data m =
    (if data = [] then (False, m) else (True, m\<lparr>m_cart := normalize_cart_endian data\<rparr>))"

definition load_pif_rom :: "u8 list \<Rightarrow> machine \<Rightarrow> bool \<times> machine" where
  "load_pif_rom data m =
    (if data = [] then (False, m)
     else if length data > 8 * 1024 then (False, m)
     else (True, m\<lparr>m_pif_rom := data\<rparr>))"

section \<open>Every write keeps the invariant\<close>

lemma mi_write_m_ok [wf_intros]:
  assumes "machine_ok m"
  shows "machine_ok (mi_write_m off v m)"
proof -
  have "machine_wf (with_mi_cpu irq_callback (m\<lparr>m_mi := mi\<rparr>))" for mi
    using assms irq_callback_wf [of "(mi, m_cpu m)"]
    by (simp add: machine_ok_def machine_wf_def with_mi_cpu_def split_def)
  moreover have "sp_coherent (with_mi_cpu irq_callback n) = sp_coherent n" for n
    by (simp add: with_mi_cpu_def split_def)
  moreover have "machine_wf (m\<lparr>m_mi := (m_mi m)\<lparr>mi_mode := v\<rparr>\<rparr>)"
    using assms by (simp add: machine_ok_def machine_wf_def cpu_irq_level_def)
  ultimately show ?thesis
    using assms by (simp add: mi_write_m_def mi_write_def Let_def machine_ok_def)
qed

lemma vi_write_m_ok [wf_intros]: "machine_ok m \<Longrightarrow> machine_ok (vi_write_m off v m)"
  by (simp add: vi_write_m_def vi_write_def Let_def machine_ok_irq)

lemma ai_write_m_ok [wf_intros]: "machine_ok m \<Longrightarrow> machine_ok (ai_write_m off v m)"
  by (simp add: ai_write_m_def ai_write_def Let_def machine_ok_irq)

lemma write_mmio32_ok [wf_intros]:
  assumes "machine_ok m"
  shows "machine_ok (write_mmio32 p v m)"
  unfolding write_mmio32_def
  by (intro pred_if [where P = machine_ok]) (simp_all add: assms wf_intros ri_write_m_def log_unknown_def)

lemma announce_write_ok [wf_intros]: "machine_ok m \<Longrightarrow> machine_ok (announce_write p s m)"
  by (simp add: announce_write_def dbg_write_def machine_ok_irq)

lemma read_mmio32_ok: "machine_ok m \<Longrightarrow> machine_ok (snd (read_mmio32 p m))"
  using sp_coherent_cong [of "snd (read_mmio32 p m)" m] by (simp add: machine_ok_def)

lemma put_mem_ok [wf_intros]:
  "machine_ok m \<Longrightarrow> machine_ok (put_dmem f m)" "machine_ok m \<Longrightarrow> machine_ok (put_imem f m)"
  by (simp_all add: machine_ok_def sp_coherent_def put_dmem_def put_imem_def)

lemma write_pif_ram_ok [wf_intros]: "machine_ok m \<Longrightarrow> machine_ok (write_pif_ram off v m)"
  by (simp add: write_pif_ram_def Let_def run_joybus_ok put_pif_byte_ok)

lemma bus_write8_ok [wf_intros]:
  assumes "machine_ok m"
  shows "machine_ok (bus_write8 addr v m)"
  unfolding bus_write8_def Let_def split_def
  by (intro pred_if [where P = machine_ok])
    (simp_all add: assms wf_intros read_mmio32_ok log_unknown_def)

lemma bus_write16_ok [wf_intros]:
  assumes "machine_ok m"
  shows "machine_ok (bus_write16 addr v m)"
  unfolding bus_write16_def Let_def split_def
  by (intro pred_if [where P = machine_ok] write_mmio32_ok)
    (simp_all add: assms wf_intros read_mmio32_ok)

lemma bus_write32_ok [wf_intros]:
  assumes "machine_ok m"
  shows "machine_ok (bus_write32 addr v m)"
  unfolding bus_write32_def Let_def
  by (intro pred_if [where P = machine_ok]) (simp_all add: assms wf_intros)

lemma bus_write64_ok [wf_intros]:
  assumes "machine_ok m"
  shows "machine_ok (bus_write64 addr v m)"
  unfolding bus_write64_def Let_def
  by (intro pred_if [where P = machine_ok]) (simp_all add: assms wf_intros)

text \<open>C36: Every write of the CPU, of every width, to every address and whatever transfer, command
  list or joybus run it starts, keeps the invariant of the machine: the register file and the TLB
  are well formed, the block cache is consistent, the CPU's interrupt line is the level of the
  MIPS interface, the RSP's memories are the bus's, and its halt, broke and interrupt-on-break
  flags are the bits of the SP status register.\<close>

theorem writes_keep_invariant:
  assumes "machine_ok m"
  shows "machine_ok (bus_write8 a v8 m) \<and> machine_ok (bus_write16 a v16 m)
    \<and> machine_ok (bus_write32 a v32 m) \<and> machine_ok (bus_write64 a v64 m)"
  by (simp add: wf_intros assms)

theorem writes_keep_invariant_witness:
  "machine_ok (bus_write32 0xA4040010 0x1 (machine_new [0, 0, 0, 0]))"
  using writes_keep_invariant [OF machine_ok_new, of "0xA4040010"] by blast

section \<open>The DP interrupt\<close>

definition dp_pending :: "machine \<Rightarrow> bool" where
  "dp_pending m \<longleftrightarrow> mi_intr (m_mi m) AND MiIntr_DP \<noteq> 0"

lemma dp_pending_cong: "m_mi m' = m_mi m \<Longrightarrow> dp_pending m' = dp_pending m"
  by (simp add: dp_pending_def)

lemma dp_pending_irq:
  "dp_pending m \<Longrightarrow> dp_pending (raise_irq b m)"
  "dp_pending m \<Longrightarrow> b = MiIntr_SP \<or> b = MiIntr_SI \<or> b = MiIntr_AI \<or> b = MiIntr_VI \<or> b = MiIntr_PI \<Longrightarrow>
    dp_pending (clear_irq b m)"
  using mi.clear_other [of b MiIntr_DP "m_mi m"]
  by (auto simp: dp_pending_def irq_lines_of_machine mi_raise_def bit.conj_disj_distrib2 or_eq_0_iff
      MiIntr_SP_def MiIntr_SI_def MiIntr_AI_def MiIntr_VI_def MiIntr_PI_def MiIntr_DP_def)

lemma dp_pending_frame [simp]:
  "dp_pending (upd_pi f1 m) = dp_pending m" "dp_pending (upd_si f2 m) = dp_pending m"
  "dp_pending (upd_dp f3 m) = dp_pending m" "dp_pending (upd_rdp f4 m) = dp_pending m"
  "dp_pending (upd_sp f5 m) = dp_pending m" "dp_pending (upd_rsp f6 m) = dp_pending m"
  "dp_pending (m\<lparr>m_ri := a3\<rparr>) = dp_pending m" "dp_pending (m\<lparr>m_rdram := a7\<rparr>) = dp_pending m"
  "dp_pending (m\<lparr>m_vi := a8\<rparr>) = dp_pending m" "dp_pending (m\<lparr>m_ai := a9\<rparr>) = dp_pending m"
  "dp_pending (rdram_put p b m) = dp_pending m" "dp_pending (cart_write_byte p b m) = dp_pending m"
  "dp_pending (put_pif_byte i b m) = dp_pending m" "dp_pending (mirror_pif m) = dp_pending m"
  "dp_pending (run_joybus m) = dp_pending m" "dp_pending (notify_memory_write p s m) = dp_pending m"
  "dp_pending (announce_write p s m) = dp_pending m" "dp_pending (log_unknown p w m) = dp_pending m"
  "dp_pending (put_dmem g m) = dp_pending m" "dp_pending (put_imem g m) = dp_pending m"
  "dp_pending (write_pif_ram n b m) = dp_pending m" "dp_pending (pull_mem_from_bus m) = dp_pending m"
  "dp_pending (copy_spmem_to_rsp i2 m) = dp_pending m" "dp_pending (snd (read_mmio32 p m)) = dp_pending m"
  "dp_pending (snd (bus_read32 p m)) = dp_pending m"
  by (simp_all add: dp_pending_def upd_defs rdram_put_def cart_write_byte_def put_pif_byte_def
      mirror_pif_def run_joybus_def announce_write_def dbg_write_def log_unknown_def put_dmem_def
      put_imem_def write_pif_ram_def Let_def pull_mem_from_bus_def copy_spmem_to_rsp_def
      split: option.split)

lemma dp_pending_command:
  assumes "dp_pending m"
  shows "dp_pending (rdp_execute_command cmd m)" "dp_pending (execute_command_pair hi lo m)"
proof -
  have c: "dp_pending (count_cmd m)" using assms by (simp add: count_cmd_def)
  have k: "dp_pending (cmd_fill_rectangle cmd z) = dp_pending z"
    "dp_pending (cmd_load_block cmd z) = dp_pending z" "dp_pending (cmd_load_tile cmd z) = dp_pending z"
    "dp_pending (cmd_texture_rectangle hi lo flip z) = dp_pending z" for z flip
    by (rule dp_pending_cong, rule beside_rdp_eqD(2), simp)+
  show "dp_pending (rdp_execute_command cmd m)"
    unfolding rdp_execute_command_def Let_def
    by (intro pred_if [where P = dp_pending]) (simp_all add: c k cmd_sync_full_def dp_pending_irq)
  show "dp_pending (execute_command_pair hi lo m)"
    by (simp add: execute_command_pair_def Let_def c k)
qed

lemma dp_pending_list:
  assumes "command_loop stop xbus pc m = Some m'" "dp_pending m"
  shows "dp_pending m'"
proof -
  have r: "dp_pending (snd (read_cmd64 a x n)) = dp_pending n" for a x n
    by (simp add: read_cmd64_def read_cmd_word_def split_def Let_def)
  have "dp_pending m \<longrightarrow> dp_pending m'"
  proof (rule command_loop.raw_induct [where P = "\<lambda>stop xbus pc m m'. dp_pending m \<longrightarrow> dp_pending m'",
        OF _ assms(1)], goal_cases)
    case (1 f stop xbus pc m m')
    show ?case
    proof
      assume p: "dp_pending m"
      show "dp_pending m'"
        using 1(2) 1(1) [THEN mp] p dp_pending_command r
        by (auto simp: split_def Let_def split: if_splits)
    qed
  qed
  then show ?thesis using assms(2) by simp
qed

lemma dp_pending_sp_line:
  "dp_pending (dma_machine (sp_dma_line to_sp imem len skip s)) = dp_pending (dma_machine s)"
proof -
  have "dp_pending (sp_dma_byte to_sp imem mem dram i n) = dp_pending n" for to_sp mem dram i n
    by (simp add: sp_dma_byte_def Let_def sp_mem_put_def dp_pending_def rdram_put_def)
  then show ?thesis
    by (simp add: sp_dma_line_def Let_def fold_keeps [where g = dp_pending])
qed

lemma dp_pending_devices:
  assumes p: "dp_pending m"
  shows "dp_pending (sp_write off v m)" "dp_pending (pi_write off v m)" "dp_pending (si_write off v m)"
    "dp_pending (dp_write off v m)" "dp_pending (sp_write_pc off v m)"
proof -
  have lines: "dp_pending (dma_machine ((sp_dma_line to_sp imem len skip ^^ n) s))
      = dp_pending (dma_machine s)" for to_sp imem len skip n s
    by (induction n) (simp_all add: dp_pending_sp_line)
  have dma: "dp_pending (sp_do_dma to_sp v m)" for to_sp
    unfolding sp_do_dma_def Let_def by (rule dp_pending_irq) (simp add: lines p)
  have st: "dp_pending (apply_status_write v m)"
    unfolding apply_status_write_def sp_signal_step_def
    by (intro fold_ok [where P = dp_pending] status_step_ok [where P = dp_pending] dp_pending_irq | simp add: p)+
  show "dp_pending (sp_write off v m)"
    unfolding sp_write_def Let_def
    by (intro pred_if [where P = dp_pending]) (simp_all add: p dma st)
  have to_rdram: "dp_pending (start_dma_to_rdram n)" if "dp_pending n" for n
    unfolding start_dma_to_rdram_def Let_def pi_finish_dma_def pi_advance_def pi_set_busy_def
    by (rule dp_pending_irq) (simp add: fold_keeps [where g = dp_pending] that)
  have to_cart: "dp_pending (start_dma_to_cart n)" if "dp_pending n" for n
    unfolding start_dma_to_cart_def Let_def pi_finish_dma_def pi_advance_def pi_set_busy_def
    by (rule dp_pending_irq) (simp add: fold_keeps [where g = dp_pending] that)
  have "dp_pending (pi_write_status v m)"
    unfolding pi_write_status_def Let_def
    by (simp add: dp_pending_irq(2) p)
  then show "dp_pending (pi_write off v m)"
    unfolding pi_write_def Let_def
    by (intro pred_if [where P = dp_pending]) (simp_all add: p to_rdram to_cart)
  have "dp_pending (dma_from_pif m)"
    unfolding dma_from_pif_def Let_def si_finish_dma_def si_set_busy_def
    by (rule dp_pending_irq) (simp add: fold_keeps [where g = dp_pending] p)
  moreover have "dp_pending (dma_to_pif m)"
    unfolding dma_to_pif_def Let_def si_finish_dma_def si_set_busy_def
    by (rule dp_pending_irq) (simp add: fold_keeps [where g = dp_pending] p)
  ultimately show "dp_pending (si_write off v m)"
    unfolding si_write_def Let_def
    by (intro pred_if [where P = dp_pending]) (simp_all add: p dp_pending_irq(2))
  have "dp_pending (case run_command_list a b x n of Some m' \<Rightarrow> m' | None \<Rightarrow> n)"
    if "dp_pending n" for a b x n
    using that dp_pending_list by (auto simp: run_command_list_def split: option.splits if_splits)
  then have run: "dp_pending (dp_run_commands n)" if "dp_pending n" for n
    using that by (simp add: dp_run_commands_def Let_def dp_pending_irq)
  have "dp_pending (dp_write_status v m)"
    unfolding dp_write_status_def
    by (intro status_step_ok [where P = dp_pending] dp_pending_irq | simp add: p)+
  then show "dp_pending (dp_write off v m)"
    unfolding dp_write_def Let_def
    by (intro pred_if [where P = dp_pending]) (simp_all add: p run)
  show "dp_pending (sp_write_pc off v m)"
    by (simp add: sp_write_pc_def p)
qed

lemma dp_pending_mmio:
  assumes p: "dp_pending m"
  shows "dp_pending (write_mmio32 a v m)"
proof -
  have "dp_pending (mi_write_m off v m)" for off
    using p by (simp add: mi_write_m_def mi_write_def Let_def dp_pending_def with_mi_cpu_def split_def irq_callback_def)
  moreover have "dp_pending (vi_write_m off v m)" for off
    by (simp add: vi_write_m_def vi_write_def Let_def p dp_pending_irq(2))
  moreover have "dp_pending (ai_write_m off v m)" for off
    by (simp add: ai_write_m_def ai_write_def Let_def p dp_pending_irq(2))
  ultimately show ?thesis
    unfolding write_mmio32_def
    by (intro pred_if [where P = dp_pending]) (simp_all add: p dp_pending_devices ri_write_m_def)
qed

lemma dp_pending_writes:
  assumes p: "dp_pending m"
  shows "dp_pending (bus_write8 a v8 m)" "dp_pending (bus_write16 a v16 m)"
    "dp_pending (bus_write32 a v32 m)" "dp_pending (bus_write64 a v64 m)"
proof -
  have w8: "dp_pending (bus_write8 a v8 n)" if "dp_pending n" for a v8 n
    unfolding bus_write8_def Let_def split_def
    by (intro pred_if [where P = dp_pending]) (simp_all add: that dp_pending_mmio)
  have w32: "dp_pending (bus_write32 a v n)" if "dp_pending n" for a v n
    unfolding bus_write32_def Let_def
    by (intro pred_if [where P = dp_pending]) (simp_all add: that dp_pending_mmio w8)
  show "dp_pending (bus_write8 a v8 m)" "dp_pending (bus_write32 a v32 m)" by (rule w8 w32, rule p)+
  show "dp_pending (bus_write16 a v16 m)"
    unfolding bus_write16_def Let_def split_def
    by (intro pred_if [where P = dp_pending] dp_pending_mmio) (simp_all add: p w8)
  show "dp_pending (bus_write64 a v64 m)"
    unfolding bus_write64_def Let_def
    by (intro pred_if [where P = dp_pending]) (simp_all add: p w32)
qed

text \<open>The display processor's interrupt cannot be acknowledged. Once it is pending, no write
  of any width to any address, neither to the DP registers nor to the MIPS interface, takes it
  back, although the comment of \<open>MipsInterface::write\<close> says that the devices clear their
  interrupts through their own status registers.\<close>

theorem dp_interrupt_sticky:
  assumes "mi_intr (m_mi m) AND MiIntr_DP \<noteq> 0"
  shows "mi_intr (m_mi (bus_write8 a v8 m)) AND MiIntr_DP \<noteq> 0
    \<and> mi_intr (m_mi (bus_write16 a v16 m)) AND MiIntr_DP \<noteq> 0
    \<and> mi_intr (m_mi (bus_write32 a v32 m)) AND MiIntr_DP \<noteq> 0
    \<and> mi_intr (m_mi (bus_write64 a v64 m)) AND MiIntr_DP \<noteq> 0"
  using dp_pending_writes [of m] assms by (simp add: dp_pending_def)

theorem dp_interrupt_sticky_witness:
  "mi_intr (m_mi (bus_write32 0x0410000C 0x3FF (raise_irq MiIntr_DP (machine_new [0])))) AND MiIntr_DP \<noteq> 0"
proof -
  have "mi_intr (m_mi (raise_irq MiIntr_DP (machine_new [0]))) AND MiIntr_DP \<noteq> 0"
    by (simp add: irq_lines_of_machine mi_raise_def MiIntr_DP_def machine_new_def)
  from dp_interrupt_sticky [OF this] show ?thesis by blast
qed

section \<open>Stores to RDRAM\<close>

lemma announce_frame [simp]:
  "m_rdram (announce_write p s m) = m_rdram m" "m_cart (announce_write p s m) = m_cart m"
  by (simp_all add: announce_write_def dbg_write_def)

lemma rdram_index_announce [simp]: "rdram_index (announce_write p s m) a = rdram_index m a"
  by (simp add: rdram_index_def)

lemma no_mmio_in_rdram:
  assumes "p < 0x03F00000"
  shows "\<not> is_mmio_region p"
  using assms by (simp add: is_mmio_region_def in_region_def word_less_nat_alt word_le_nat_alt)

lemma physical_idem: "physical (physical a) = physical a"
  by (simp add: physical_def and.assoc)

lemma bus_write_rdram:
  assumes "physical a < 0x03F00000" "m_rdram m \<noteq> []"
  shows "rdram_index m (physical a) + 1 < length (m_rdram m) \<Longrightarrow> bus_write16 a v16 m =
      (announce_write (physical a) 2 m)\<lparr>m_rdram :=
        store_le16 vec_wr (rdram_index m (physical a)) (bswap16 v16) (m_rdram m)\<rparr>"
    "rdram_index m (physical a) + 3 < length (m_rdram m) \<Longrightarrow> bus_write32 a v32 m =
      (announce_write (physical a) 4 m)\<lparr>m_rdram :=
        store_le32 vec_wr (rdram_index m (physical a)) (bswap32 v32) (m_rdram m)\<rparr>"
    "rdram_index m (physical a) + 7 < length (m_rdram m) \<Longrightarrow> bus_write64 a v64 m =
      (announce_write (physical a) 8 m)\<lparr>m_rdram :=
        store_le64 vec_wr (rdram_index m (physical a)) (bswap64 v64) (m_rdram m)\<rparr>"
  using assms no_mmio_in_rdram [OF assms(1)]
  by (simp_all add: bus_write16_def bus_write32_def bus_write64_def Let_def)

lemma announce_fresh:
  assumes "bc_wf (m_cache m)" "bc_aligned (m_cache m)" "sz \<noteq> 0"
    and "sl_valid (bc_table (m_cache (announce_write (physical a) sz m)) i)"
  shows "\<not> overlaps (unat (physical a)) (unat (physical a) + unat sz)
    (sl_block (bc_table (m_cache (announce_write (physical a) sz m)) i))"
proof -
  have "(0x1FFFFFFF :: u32) = mask 29" by (simp add: mask_eq_exp_minus_1)
  then have "unat (physical a) < 2 ^ 29"
    unfolding physical_def using unat_mask_less [of a 29] by simp
  moreover have c: "m_cache (announce_write p s n) = m_cache (notify_memory_write p s n)" for p s n
    by (simp add: announce_write_def dbg_write_def)
  ultimately show ?thesis
    using notify_fresh [OF assms(1-3), of "physical a" i] assms(4) by simp
qed



text \<open>The notification carries the address of the store, not the place in RDRAM it is reduced to.
  A store through a mirror of RDRAM overwrites code and leaves its block valid.\<close>

lemma mirrored_store_keeps_block:
  assumes wf: "machine_wf m" and k: "sl_valid (bc_table (m_cache m) k)"
    and blk: "unat (bb_paddr (sl_block (bc_table (m_cache m) k)))
      + length (bb_insns (sl_block (bc_table (m_cache m) k))) * 4 \<le> length (m_rdram m)"
    and a: "physical a < 0x03F00000" "length (m_rdram m) \<le> unat (physical a)"
    and i: "i = rdram_index m (physical a)" "i + 3 < length (m_rdram m)"
  shows "sl_valid (bc_table (m_cache (bus_write32 a v m)) k)
    \<and> sl_block (bc_table (m_cache (bus_write32 a v m)) k) = sl_block (bc_table (m_cache m) k)
    \<and> m_rdram (bus_write32 a v m) ! i = byte_of 3 v"
proof -
  let ?p = "physical a"
  have ne: "m_rdram m \<noteq> []" using i(2) by auto
  have w: "bus_write32 a v m = (announce_write ?p 4 m)\<lparr>m_rdram :=
      store_le32 vec_wr i (bswap32 v) (m_rdram m)\<rparr>"
    using bus_write_rdram(2) [OF a(1) ne, of v] i by simp
  have "\<not> overlaps (unat ?p) (unat ?p + unat (4 :: u32)) (sl_block (bc_table (m_cache m) k))"
    using blk a(2) by (simp add: overlaps_def Let_def)
  moreover have "bc_wf (m_cache m)" using wf by (simp add: machine_wf_def)
  ultimately obtain c where c: "bc_invalidate ?p 4 (m_cache m) = Some c" "sl_valid (bc_table c k)"
      "sl_block (bc_table c k) = sl_block (bc_table (m_cache m) k)"
    using invalidate_keeps [of "m_cache m" 4 k ?p] k by (auto simp: kDirectTableSize_def)
  have "sl_valid (bc_table (m_cache (notify_memory_write ?p 4 m)) k)
      \<and> sl_block (bc_table (m_cache (notify_memory_write ?p 4 m)) k) = sl_block (bc_table (m_cache m) k)"
    using c k by (simp add: notify_memory_write_def physical_idem)
  moreover have "store_le32 vec_wr i (bswap32 v) (m_rdram m) ! i = byte_of 3 v"
    using vec.store32_bytes [of i "m_rdram m" v i] i(2) by simp
  ultimately show ?thesis by (simp add: w announce_write_def dbg_write_def)
qed

text \<open>The reset leaves the devices in their reset states and the two SP memories clear.\<close>

lemma bus_reset_keeps:
  "m_cart (bus_reset m) = m_cart m" "m_pif_rom (bus_reset m) = m_pif_rom m"
  "length (m_rdram (bus_reset m)) = length (m_rdram m)" "m_cpu (bus_reset m) = m_cpu m"
  "m_cache (bus_reset m) = m_cache m" "m_pif (bus_reset m) = m_pif m"
  by (simp_all add: bus_reset_def Let_def upd_defs sp_reset_def)

end
