(* ===== verification/Rsp_Vector.thy ===== *)
theory Rsp_Vector
  imports Bus_Write
begin

text \<open>
  The vector unit of the signal processor (\<open>rcp/rsp/rsp_vector.cpp\<close>): the 48-bit
  accumulators, the computational instructions with their carry, compare and clip flags, the
  reciprocal tables, the register transfers and the vector loads and stores. Accumulators and
  the divider registers are C++ signed integers; every intermediate value fits its type, so they
  are integers here. A vector register is a function on lane numbers, of which \<open>0..7\<close> are used.
\<close>

section \<open>Lanes and accumulators\<close>

type_synonym vec = "nat \<Rightarrow> u16"

definition kElementSelect :: "nat list list" where
  "kElementSelect =
    [[0, 1, 2, 3, 4, 5, 6, 7], [0, 1, 2, 3, 4, 5, 6, 7],
     [0, 0, 2, 2, 4, 4, 6, 6], [1, 1, 3, 3, 5, 5, 7, 7],
     [0, 0, 0, 0, 4, 4, 4, 4], [1, 1, 1, 1, 5, 5, 5, 5],
     [2, 2, 2, 2, 6, 6, 6, 6], [3, 3, 3, 3, 7, 7, 7, 7],
     [0, 0, 0, 0, 0, 0, 0, 0], [1, 1, 1, 1, 1, 1, 1, 1],
     [2, 2, 2, 2, 2, 2, 2, 2], [3, 3, 3, 3, 3, 3, 3, 3],
     [4, 4, 4, 4, 4, 4, 4, 4], [5, 5, 5, 5, 5, 5, 5, 5],
     [6, 6, 6, 6, 6, 6, 6, 6], [7, 7, 7, 7, 7, 7, 7, 7]]"

definition kAccumulatorModulus :: u64 where "kAccumulatorModulus = 0x1000000000000"
definition kAccumulatorMask :: u64 where "kAccumulatorMask = kAccumulatorModulus - 1"
definition kAccumulatorSign :: u64 where "kAccumulatorSign = 0x800000000000"

definition signed_lane :: "u16 \<Rightarrow> int" where
  "signed_lane v = (if v < 0x8000 then uint v else uint v - 0x10000)"

definition lane_bits :: "int \<Rightarrow> u16" where
  "lane_bits v = ucast ((of_int v :: u64) AND 0xFFFF)"

definition from_accumulator_bits :: "u64 \<Rightarrow> int" where
  "from_accumulator_bits raw0 =
    (let raw = raw0 AND kAccumulatorMask
     in if raw AND kAccumulatorSign = 0 then uint raw else - uint (kAccumulatorModulus - raw))"

definition wrap_accumulator :: "int \<Rightarrow> int" where
  "wrap_accumulator v = from_accumulator_bits (of_int v)"

definition replace_accumulator_low :: "int \<Rightarrow> u16 \<Rightarrow> int" where
  "replace_accumulator_low acc low =
     from_accumulator_bits ((of_int acc AND kAccumulatorMask AND NOT 0xFFFF) OR ucast low)"

definition accumulator_shift16 :: "int \<Rightarrow> int" where
  "accumulator_shift16 acc =
    (if acc \<ge> 0 then acc div 0x10000 else - ((- acc + 0xFFFF) div 0x10000))"

definition arithmetic_shift1 :: "int \<Rightarrow> int" where
  "arithmetic_shift1 v = (if v \<ge> 0 then v div 2 else - ((- v + 1) div 2))"

definition replace_accumulator_upper :: "int \<Rightarrow> int \<Rightarrow> int" where
  "replace_accumulator_upper acc upper =
     from_accumulator_bits (push_bit 16 (ucast (of_int upper :: u32)) OR (of_int acc AND 0xFFFF))"

definition signed_clamp :: "int \<Rightarrow> u16" where
  "signed_clamp v = lane_bits (max (- 32768) (min 32767 v))"

definition signed_accumulator_clamp :: "int \<Rightarrow> u16" where
  "signed_accumulator_clamp acc = signed_clamp (accumulator_shift16 acc)"

definition unsigned_accumulator_clamp :: "int \<Rightarrow> u16" where
  "unsigned_accumulator_clamp acc = of_int (max 0 (min 0xFFFF (accumulator_shift16 acc)))"

definition accumulator_low_clamp :: "int \<Rightarrow> u16" where
  "accumulator_low_clamp acc =
    (let middle = accumulator_shift16 acc
     in if middle > 32767 then 0xFFFF else if middle < - 32768 then 0 else lane_bits acc)"

definition sign_extend7 :: "u32 \<Rightarrow> int" where
  "sign_extend7 v0 =
    (let v = v0 AND 0x7F in if v AND 0x40 \<noteq> 0 then uint v - 0x80 else uint v)"

definition vflag :: "u16 \<Rightarrow> nat \<Rightarrow> bool \<Rightarrow> bool" where
  "vflag v lane high \<longleftrightarrow> drop_bit (lane + (if high then 8 else 0)) v AND 1 \<noteq> 0"

definition set_vflag :: "nat \<Rightarrow> bool \<Rightarrow> bool \<Rightarrow> u16 \<Rightarrow> u16" where
  "set_vflag lane enabled high v =
    (let msk = push_bit (lane + (if high then 8 else 0)) 1
     in if enabled then v OR msk else v AND NOT msk)"

section \<open>The reciprocal tables\<close>

lemma unat_quarter: "0 < unat b \<Longrightarrow> unat (drop_bit 2 b) < unat (b :: u64)"
  by (simp add: drop_bit_eq_div unat_div)

function sqrt_start :: "u64 \<Rightarrow> u64 \<Rightarrow> u64" where
  "sqrt_start v b = (if b > v then sqrt_start v (drop_bit 2 b) else b)"
  by pat_completeness auto

termination
  by (relation "measure (\<lambda>(v, b). unat b)") (auto simp: unat_quarter word_less_nat_alt)

function sqrt_loop :: "u64 \<Rightarrow> u64 \<Rightarrow> u64 \<Rightarrow> u64" where
  "sqrt_loop v r b =
    (if b \<noteq> 0 then
       (if v \<ge> r + b then sqrt_loop (v - (r + b)) (drop_bit 1 r + b) (drop_bit 2 b)
        else sqrt_loop v (drop_bit 1 r) (drop_bit 2 b))
     else r)"
  by pat_completeness auto

termination
  by (relation "measure (\<lambda>(v, r, b). unat b)")
    (auto simp: unat_quarter unat_gt_0)

declare sqrt_start.simps [simp del] sqrt_loop.simps [simp del]

definition integer_square_root :: "u64 \<Rightarrow> u32" where
  "integer_square_root v = ucast (sqrt_loop v 0 (sqrt_start v (push_bit 62 1)))"

definition division_rom :: "u32 \<Rightarrow> u16" where
  "division_rom address =
    (let full = (if address < 512 then ucast (push_bit 26 1 div (ucast (address + 512)) :: u64)
                 else (let index = address - 512; fraction = drop_bit 1 index;
                           exponent = (if index AND 1 \<noteq> 0 then 42 else 41)
                       in integer_square_root (push_bit exponent 1 div ucast (fraction + 256))));
         full' = min full 0x1FFFF
     in ucast (full' - 0x10000))"

definition signed_word :: "u32 \<Rightarrow> int" where
  "signed_word v = (if v \<le> 0x7FFFFFFF then uint v else - (0x100000000 - uint v))"

text \<open>\<open>std::countl_zero\<close>.\<close>

definition countl_zero :: "u32 \<Rightarrow> nat" where
  "countl_zero v = length (takeWhile (\<lambda>k. \<not> bit v k) (rev [0..<32]))"

definition division_estimate :: "int \<Rightarrow> bool \<Rightarrow> bool \<Rightarrow> int" where
  "division_estimate input square_root double_precision =
    (let magnitude =
       (if \<not> double_precision then (if input < 0 then of_int (- input) else of_int input)
        else if input < 0 then (if input \<ge> - 32768 then of_int (- input) else NOT (of_int input))
        else of_int input) :: u32;
       shift = (if magnitude = 0 then (if double_precision then 0 else 16)
                else of_nat (countl_zero magnitude)) :: u32;
       normalized = (if magnitude = 0 then magnitude else push_bit (countl_zero magnitude) magnitude);
       address0 = drop_bit 22 normalized AND 0x1FF;
       address = (if square_root then (address0 AND 0x1FE) OR 0x200 OR (shift AND 1) else address0);
       output_shift0 = shift XOR 31;
       output_shift = (if square_root then drop_bit 1 output_shift0 else output_shift0);
       output0 = drop_bit (unat output_shift) (0x40000000 OR push_bit 14 (ucast (division_rom address)));
       output = (if input = 0 then 0x7FFFFFFF
                 else if input = - 32768 then 0xFFFF0000
                 else if input < 0 then NOT output0 else output0) :: u32
     in signed_word output)"

section \<open>Register access\<close>

definition set_accumulator :: "nat \<Rightarrow> int \<Rightarrow> rsp \<Rightarrow> rsp" where
  "set_accumulator lane v r = r\<lparr>r_accumulator := (r_accumulator r)(lane mod 8 := wrap_accumulator v)\<rparr>"

definition vector_byte :: "rsp \<Rightarrow> u32 \<Rightarrow> u32 \<Rightarrow> u8" where
  "vector_byte r reg byte =
    (let v = r_vpr r (reg AND 31) (unat (drop_bit 1 (byte AND 15)))
     in if byte AND 1 = 0 then ucast (drop_bit 8 v) else ucast (v AND 0xFF))"

definition set_vector_byte :: "u32 \<Rightarrow> u32 \<Rightarrow> u8 \<Rightarrow> rsp \<Rightarrow> rsp" where
  "set_vector_byte reg byte v r =
    (let lane = unat (drop_bit 1 (byte AND 15)); old = r_vpr r (reg AND 31) lane;
         new = (if byte AND 1 = 0 then (old AND 0x00FF) OR push_bit 8 (ucast v)
                else (old AND 0xFF00) OR ucast v)
     in r\<lparr>r_vpr := (r_vpr r)(reg AND 31 := (r_vpr r (reg AND 31))(lane := new))\<rparr>)"

definition rsp_write_gpr :: "u32 \<Rightarrow> u32 \<Rightarrow> rsp \<Rightarrow> rsp" where
  "rsp_write_gpr idx v r = (if idx \<noteq> 0 then r\<lparr>r_gpr := (r_gpr r)(idx := v)\<rparr> else r)"

section \<open>Computational instructions\<close>

text \<open>Each instruction is a loop over the eight lanes on the processor and the result register.\<close>

type_synonym vstate = "rsp \<times> vec"

definition lanes :: "(nat \<Rightarrow> vstate \<Rightarrow> vstate) \<Rightarrow> vstate \<Rightarrow> vstate" where
  "lanes f = fold f [0..<8]"

definition put_acc :: "nat \<Rightarrow> int \<Rightarrow> rsp \<Rightarrow> rsp" where
  "put_acc lane v r = r\<lparr>r_accumulator := (r_accumulator r)(lane := v)\<rparr>"

text \<open>A lane whose result also replaces the low third of its accumulator.\<close>

definition put_low :: "nat \<Rightarrow> u16 \<Rightarrow> vstate \<Rightarrow> vstate" where
  "put_low lane x s =
    (case s of (r, res) \<Rightarrow>
      (put_acc lane (replace_accumulator_low (r_accumulator r lane) x) r, res(lane := x)))"

definition vrnd_lane :: "u32 \<Rightarrow> u32 \<Rightarrow> vec \<Rightarrow> nat \<Rightarrow> vstate \<Rightarrow> vstate" where
  "vrnd_lane func vs st lane s =
    (case s of (r, res) \<Rightarrow>
      (let v = signed_lane (st lane) * (if vs AND 1 \<noteq> 0 then 0x10000 else 1);
           acc = r_accumulator r lane;
           add = (if func = 0x02 then acc \<ge> 0 else acc < 0);
           acc' = (if add then wrap_accumulator (acc + v) else acc)
       in (put_acc lane acc' r, res(lane := signed_accumulator_clamp acc'))))"

definition vmulq_lane :: "vec \<Rightarrow> vec \<Rightarrow> nat \<Rightarrow> vstate \<Rightarrow> vstate" where
  "vmulq_lane ss st lane s =
    (case s of (r, res) \<Rightarrow>
      (let p0 = signed_lane (ss lane) * signed_lane (st lane);
           p = (if p0 < 0 then p0 + 31 else p0)
       in (put_acc lane (wrap_accumulator (p * 0x10000)) r,
           res(lane := signed_clamp (arithmetic_shift1 p) AND 0xFFF0))))"

definition vmacq_lane :: "nat \<Rightarrow> vstate \<Rightarrow> vstate" where
  "vmacq_lane lane s =
    (case s of (r, res) \<Rightarrow>
      (let raw = of_int (r_accumulator r lane) AND kAccumulatorMask;
           u = signed_word (ucast (drop_bit 16 raw));
           upper = (if u < - 0x20 \<and> u AND 0x20 = 0 then u + 0x20
                    else if u > 0x20 \<and> u AND 0x20 = 0 then u - 0x20 else u)
       in (put_acc lane (replace_accumulator_upper (r_accumulator r lane) upper) r,
           res(lane := signed_clamp (arithmetic_shift1 upper) AND 0xFFF0))))"

text \<open>The twelve multiplications: what the accumulator becomes, and which clamp gives the
  result.\<close>

definition mul_acc :: "u32 \<Rightarrow> u16 \<Rightarrow> u16 \<Rightarrow> int \<Rightarrow> int" where
  "mul_acc func a b acc =
    (let ss = signed_lane a; st = signed_lane b; us = uint a; ut = uint b in
     if func = 0x00 then (ss * st * 2) + 0x8000
     else if func = 0x01 then (ss * st * 2) + 0x8000
     else if func = 0x04 then drop_bit 16 (us * ut)
     else if func = 0x05 then ss * ut
     else if func = 0x06 then us * st
     else if func = 0x07 then push_bit 16 (ss * st)
     else if func = 0x08 then acc + ss * st * 2
     else if func = 0x09 then acc + ss * st * 2
     else if func = 0x0C then acc + drop_bit 16 (us * ut)
     else if func = 0x0D then acc + ss * ut
     else if func = 0x0E then acc + us * st
     else if func = 0x0F then acc + push_bit 16 (ss * st)
     else acc)"

definition mul_result :: "u32 \<Rightarrow> int \<Rightarrow> u16" where
  "mul_result func acc =
    (if func \<in> {0x00, 0x05, 0x07, 0x08, 0x0D, 0x0F} then signed_accumulator_clamp acc
     else if func \<in> {0x01, 0x09} then unsigned_accumulator_clamp acc
     else accumulator_low_clamp acc)"

definition vmul_lane :: "u32 \<Rightarrow> vec \<Rightarrow> vec \<Rightarrow> nat \<Rightarrow> vstate \<Rightarrow> vstate" where
  "vmul_lane func ss st lane s =
    (case s of (r, res) \<Rightarrow>
      (let acc = wrap_accumulator (mul_acc func (ss lane) (st lane) (r_accumulator r lane))
       in (put_acc lane acc r, res(lane := mul_result func acc))))"

text \<open>Addition and subtraction, with the carry bit in the low half of \<open>VCO\<close> and the inequality
  bit in its high half.\<close>

definition vabs_value :: "int \<Rightarrow> int \<Rightarrow> int" where
  "vabs_value a b = (if a < 0 then (if b = - 32768 then 32767 else - b) else if a > 0 then b else 0)"

definition set_vco :: "(u16 \<Rightarrow> u16) \<Rightarrow> rsp \<Rightarrow> rsp" where
  "set_vco f r = r\<lparr>r_vco := f (r_vco r)\<rparr>"

definition set_vcc :: "(u16 \<Rightarrow> u16) \<Rightarrow> rsp \<Rightarrow> rsp" where
  "set_vcc f r = r\<lparr>r_vcc := f (r_vcc r)\<rparr>"

definition set_vce :: "(u8 \<Rightarrow> u8) \<Rightarrow> rsp \<Rightarrow> rsp" where
  "set_vce f r = r\<lparr>r_vce := f (r_vce r)\<rparr>"

definition vadd_lane :: "u32 \<Rightarrow> vec \<Rightarrow> vec \<Rightarrow> nat \<Rightarrow> vstate \<Rightarrow> vstate" where
  "vadd_lane func ss st lane s =
    (case s of (r, res) \<Rightarrow>
      (let a = signed_lane (ss lane); b = signed_lane (st lane);
           carry = (if vflag (r_vco r) lane False then 1 else 0) in
       if func = 0x10 then put_low lane (signed_clamp (a + b + carry)) (r, res)
       else if func = 0x11 then put_low lane (signed_clamp (a - b - carry)) (r, res)
       else if func = 0x13 then put_low lane (lane_bits (vabs_value a b)) (r, res)
       else if func = 0x14 then
         (let total = ucast (ss lane) + ucast (st lane) :: u32
          in put_low lane (ucast total)
               (set_vco (set_vflag lane False True \<circ> set_vflag lane (total > 0xFFFF) False) r, res))
       else
         (let difference = uint (ss lane) - uint (st lane)
          in put_low lane (of_int difference)
               (set_vco (set_vflag lane (ss lane \<noteq> st lane) True
                         \<circ> set_vflag lane (difference < 0) False) r, res))))"

definition vsar_lane :: "u32 \<Rightarrow> nat \<Rightarrow> vstate \<Rightarrow> vstate" where
  "vsar_lane element lane s =
    (case s of (r, res) \<Rightarrow>
      (let raw = of_int (r_accumulator r lane) AND kAccumulatorMask :: u64
       in (r, res(lane := (if element \<ge> 8 \<and> element \<le> 10
                           then ucast (drop_bit (unat ((10 - element) * 16)) raw) else 0)))))"

definition compare_condition :: "u32 \<Rightarrow> int \<Rightarrow> int \<Rightarrow> bool \<Rightarrow> bool \<Rightarrow> bool" where
  "compare_condition func a b ne carry =
    (if func = 0x20 then a < b \<or> (a = b \<and> ne \<and> carry)
     else if func = 0x21 then a = b \<and> \<not> ne
     else if func = 0x22 then a \<noteq> b \<or> ne
     else a > b \<or> (a = b \<and> \<not> (ne \<and> carry)))"

definition vcompare_lane :: "u32 \<Rightarrow> vec \<Rightarrow> vec \<Rightarrow> nat \<Rightarrow> vstate \<Rightarrow> vstate" where
  "vcompare_lane func ss st lane s =
    (case s of (r, res) \<Rightarrow>
      (let cond = compare_condition func (signed_lane (ss lane)) (signed_lane (st lane))
             (vflag (r_vco r) lane True) (vflag (r_vco r) lane False)
       in put_low lane (if cond then ss lane else st lane)
            (set_vcc (set_vflag lane cond False) r, res)))"

definition vcl_lane :: "vec \<Rightarrow> vec \<Rightarrow> nat \<Rightarrow> vstate \<Rightarrow> vstate" where
  "vcl_lane ss st lane s =
    (case s of (r, res) \<Rightarrow>
      (let sgn = vflag (r_vco r) lane False; eq = \<not> vflag (r_vco r) lane True;
           a = ss lane; b = st lane;
           adjusted_b = (if sgn then 0 - b else b);
           low_zero = (a - adjusted_b = 0);
           unsigned_zero = (ucast a + ucast b < (0x10000 :: u32));
           vce_bit = (r_vce r AND push_bit lane 1 \<noteq> 0);
           extended_low = (low_zero \<and> unsigned_zero \<and> \<not> vce_bit
             \<or> (low_zero \<or> unsigned_zero) \<and> vce_bit);
           low = (if eq \<and> sgn then extended_low else vflag (r_vcc r) lane False);
           high = (if eq \<and> \<not> sgn then a \<ge> adjusted_b else vflag (r_vcc r) lane True);
           cond = (if sgn then low else high)
       in put_low lane (if cond then adjusted_b else a)
            (set_vcc (set_vflag lane high True \<circ> set_vflag lane low False) r, res)))"

definition vch_lane :: "vec \<Rightarrow> vec \<Rightarrow> nat \<Rightarrow> vstate \<Rightarrow> vstate" where
  "vch_lane ss st lane s =
    (case s of (r, res) \<Rightarrow>
      (let a = signed_lane (ss lane); b = signed_lane (st lane);
           sgn = ((ss lane XOR st lane) AND 0x8000 \<noteq> 0);
           corner = (b = - 32768);
           bits0 = (if sgn then NOT (st lane) else st lane);
           extension = (sgn \<and> a = signed_lane bits0);
           bits = (if sgn \<and> \<not> corner then bits0 + 1 else bits0);
           eq = (a = signed_lane bits \<and> \<not> corner \<or> extension);
           low = (if sgn then signed_lane (bits - ss lane) \<ge> 0 else b < 0);
           high = ((if sgn then - 1 else a) \<ge> b);
           cond = (if sgn then low else high);
           r1 = set_vcc (set_vflag lane high True \<circ> set_vflag lane low False) r;
           r2 = set_vco (set_vflag lane (\<not> eq) True \<circ> set_vflag lane sgn False) r1;
           r3 = (if extension then set_vce (\<lambda>v. v OR push_bit lane 1) r2 else r2)
       in put_low lane (if cond then bits else ss lane) (r3, res)))"

definition vcr_lane :: "vec \<Rightarrow> vec \<Rightarrow> nat \<Rightarrow> vstate \<Rightarrow> vstate" where
  "vcr_lane ss st lane s =
    (case s of (r, res) \<Rightarrow>
      (let b = signed_lane (st lane);
           sgn = ((ss lane XOR st lane) AND 0x8000 \<noteq> 0);
           sign_mask = (if sgn then 0xFFFF else 0);
           low = (b \<le> signed_lane (NOT (ss lane AND sign_mask)));
           high = (signed_lane (ss lane OR sign_mask) \<ge> b);
           cond = (if sgn then low else high)
       in put_low lane (if cond then st lane XOR sign_mask else ss lane)
            (set_vcc (set_vflag lane high True \<circ> set_vflag lane low False) r, res)))"

definition vmrg_lane :: "vec \<Rightarrow> vec \<Rightarrow> nat \<Rightarrow> vstate \<Rightarrow> vstate" where
  "vmrg_lane ss st lane s =
    (case s of (r, res) \<Rightarrow> put_low lane (if vflag (r_vcc r) lane False then ss lane else st lane) (r, res))"

definition logic_value :: "u32 \<Rightarrow> u16 \<Rightarrow> u16 \<Rightarrow> u16" where
  "logic_value func a b =
    (if func = 0x28 then a AND b else if func = 0x29 then NOT (a AND b)
     else if func = 0x2A then a OR b else if func = 0x2B then NOT (a OR b)
     else if func = 0x2C then a XOR b else NOT (a XOR b))"

text \<open>The divider: the high half of an operand is latched by one instruction and used by the
  next.\<close>

definition vdivide :: "u32 \<Rightarrow> u32 \<Rightarrow> u32 \<Rightarrow> vec \<Rightarrow> u16 \<Rightarrow> vstate \<Rightarrow> vstate" where
  "vdivide func vs element st input_bits s =
    (case lanes (\<lambda>lane (r, res). (put_acc lane (replace_accumulator_low (r_accumulator r lane) (st lane)) r, res)) s of
      (r, res) \<Rightarrow>
      (let dl = unat (vs AND 7) in
       if func = 0x33 then (r, res(dl := st dl))
       else if func = 0x32 \<or> func = 0x36 then
         (r\<lparr>r_div_in := signed_lane input_bits * 0x10000, r_div_high_pending := True\<rparr>,
          res(dl := ucast (drop_bit 16 (of_int (r_div_out r) :: u32))))
       else
         (let div_in = (if (func = 0x31 \<or> func = 0x35) \<and> r_div_high_pending r
                        then signed_word (of_int (r_div_in r) OR ucast input_bits)
                        else signed_lane input_bits);
              div_out = division_estimate div_in (func = 0x34 \<or> func = 0x35) (r_div_high_pending r)
          in (r\<lparr>r_div_in := div_in, r_div_out := div_out, r_div_high_pending := False\<rparr>,
              res(dl := of_int div_out)))))"

text \<open>The computation of one instruction: the new processor and, unless it writes none, the
  result.\<close>

definition vector_result :: "u32 \<Rightarrow> u32 \<Rightarrow> u32 \<Rightarrow> u32 \<Rightarrow> u32 \<Rightarrow> vec \<Rightarrow> vec \<Rightarrow> rsp \<Rightarrow> rsp \<times> vec option" where
  "vector_result func element vt vs vd ss st r =
    (let out = (\<lambda>(r', res). (r', Some res)); zero = (\<lambda>_. 0) in
     if func = 0x02 \<or> func = 0x0A then out (lanes (vrnd_lane func vs st) (r, zero))
     else if func = 0x03 then out (lanes (vmulq_lane ss st) (r, zero))
     else if func = 0x0B then out (lanes vmacq_lane (r, zero))
     else if func < 0x10 then out (lanes (vmul_lane func ss st) (r, zero))
     else if func = 0x10 \<or> func = 0x11 then
       out (map_prod (set_vco (\<lambda>_. 0)) id (lanes (vadd_lane func ss st) (r, zero)))
     else if func = 0x13 \<or> func = 0x14 \<or> func = 0x15 then out (lanes (vadd_lane func ss st) (r, zero))
     else if func = 0x1D then out (lanes (vsar_lane element) (r, zero))
     else if 0x20 \<le> func \<and> func \<le> 0x23 then
       out (map_prod (\<lambda>r. r\<lparr>r_vco := 0, r_vce := 0\<rparr>) id
         (lanes (vcompare_lane func ss st) (set_vcc (\<lambda>_. 0) r, zero)))
     else if func = 0x24 then
       out (map_prod (\<lambda>r. r\<lparr>r_vco := 0, r_vce := 0\<rparr>) id (lanes (vcl_lane ss st) (r, zero)))
     else if func = 0x25 then
       out (lanes (vch_lane ss st) (r\<lparr>r_vcc := 0, r_vco := 0, r_vce := 0\<rparr>, zero))
     else if func = 0x26 then
       out (map_prod (\<lambda>r. r\<lparr>r_vco := 0, r_vce := 0\<rparr>) id
         (lanes (vcr_lane ss st) (set_vcc (\<lambda>_. 0) r, zero)))
     else if func = 0x27 then out (lanes (vmrg_lane ss st) (r, zero))
     else if 0x28 \<le> func \<and> func \<le> 0x2D then
       out (lanes (\<lambda>lane. put_low lane (logic_value func (ss lane) (st lane))) (r, zero))
     else if 0x30 \<le> func \<and> func \<le> 0x36 then
       out (vdivide func vs element st (r_vpr r vt (unat (element AND 7))) (r, r_vpr r vd))
     else (r, None))"

definition exec_vector :: "u32 \<Rightarrow> rsp \<Rightarrow> rsp" where
  "exec_vector insn r =
    (let element = drop_bit 21 insn AND 15; vt = i_rt insn; vs = i_rd insn; vd = i_sa insn;
         st = (\<lambda>lane. r_vpr r vt (kElementSelect ! unat element ! lane))
     in case vector_result (i_fn insn) element vt vs vd (r_vpr r vs) st r of
          (r', Some res) \<Rightarrow> r'\<lparr>r_vpr := (r_vpr r')(vd := res)\<rparr>
        | (r', None) \<Rightarrow> r')"

section \<open>Register transfers\<close>

definition rsp_exec_cop2 :: "u32 \<Rightarrow> rsp \<Rightarrow> rsp" where
  "rsp_exec_cop2 insn r =
    (let subop = i_rs insn; scalar = i_rt insn; vreg = i_rd insn; element = drop_bit 7 insn AND 15 in
     if subop AND 0x10 \<noteq> 0 then exec_vector insn r
     else if subop = 0x00 then
       (let v = push_bit 8 (ucast (vector_byte r vreg element))
              OR ucast (vector_byte r vreg ((element + 1) AND 15))
        in rsp_write_gpr scalar (of_int (signed_lane v)) r)
     else if subop = 0x02 then
       (let v = (if vreg AND 3 = 0 then r_vco r else if vreg AND 3 = 1 then r_vcc r else ucast (r_vce r))
        in rsp_write_gpr scalar (of_int (signed_lane v)) r)
     else if subop = 0x04 then
       (let v = ucast (r_gpr r scalar) :: u16;
            r1 = set_vector_byte vreg element (ucast (drop_bit 8 v)) r
        in if element \<noteq> 15 then set_vector_byte vreg (element + 1) (ucast v) r1 else r1)
     else if subop = 0x06 then
       (let v = ucast (r_gpr r scalar) :: u16
        in if vreg AND 3 = 0 then r\<lparr>r_vco := v\<rparr> else if vreg AND 3 = 1 then r\<lparr>r_vcc := v\<rparr>
           else r\<lparr>r_vce := ucast v\<rparr>)
     else r)"

section \<open>The accumulators hold 48-bit values\<close>

lemma accumulator_bits:
  "kAccumulatorMask = mask 48" "kAccumulatorSign = 2 ^ 47" "kAccumulatorModulus = 2 ^ 48"
  by (simp_all add: kAccumulatorMask_def kAccumulatorSign_def kAccumulatorModulus_def mask_eq_exp_minus_1)

text \<open>The bit fiddling is reduction to a signed 48-bit value.\<close>

lemma from_accumulator_bits_eq: "from_accumulator_bits raw = signed_take_bit 47 (uint raw)"
proof -
  let ?r = "raw AND kAccumulatorMask"
  have u: "uint ?r = take_bit 48 (uint raw)"
    by (simp add: accumulator_bits take_bit_eq_mask [symmetric] unsigned_take_bit_eq)
  have b: "?r AND kAccumulatorSign = 0 \<longleftrightarrow> \<not> bit (uint raw) 47"
    using and_exp_eq_0_iff_not_bit [of ?r 47]
    by (simp add: accumulator_bits bit_and_iff bit_mask_iff bit_uint_iff)
  have lt: "take_bit 48 (uint raw) < 2 ^ 48" by (rule take_bit_int_less_exp)
  have "uint (kAccumulatorModulus - ?r) = 2 ^ 48 - take_bit 48 (uint raw)"
    using lt u by (simp add: accumulator_bits uint_sub_if' )
  then show ?thesis
    by (simp add: from_accumulator_bits_def Let_def u b signed_take_bit_eq_take_bit_minus)
qed

lemma wrap_accumulator_eq: "wrap_accumulator v = signed_take_bit 47 v"
  by (simp add: wrap_accumulator_def from_accumulator_bits_eq unsigned_of_int signed_take_bit_take_bit)

definition acc_range :: "int \<Rightarrow> bool" where
  "acc_range a \<longleftrightarrow> - (2 ^ 47) \<le> a \<and> a < 2 ^ 47"

lemma acc_range_wrap: "acc_range (signed_take_bit 47 v)"
  using signed_take_bit_int_greater_eq_minus_exp [of 47 v] signed_take_bit_int_less_exp [of 47 v]
  by (simp add: acc_range_def)

lemma wrap_in_range: "acc_range v \<Longrightarrow> wrap_accumulator v = v"
  by (simp add: wrap_accumulator_eq acc_range_def signed_take_bit_int_eq_self)

lemma acc_range_ops [simp]:
  "acc_range (wrap_accumulator v)" "acc_range (replace_accumulator_low a l)"
  "acc_range (replace_accumulator_upper a u)" "acc_range (from_accumulator_bits raw)"
  by (simp_all add: wrap_accumulator_eq replace_accumulator_low_def replace_accumulator_upper_def
      from_accumulator_bits_eq acc_range_wrap)

text \<open>The divisions that stand for arithmetic shifts.\<close>

lemma div_by_ceiling:
  fixes d :: int
  assumes "0 < d"
  shows "- ((- a + (d - 1)) div d) = a div d"
proof -
  have "- a + (d - 1) = (d - 1 - a mod d) + (- (a div d)) * d"
    using div_mult_mod_eq [of a d] by (simp only: algebra_simps)
  moreover have "(d - 1 - a mod d) div d = 0"
    by (rule div_pos_pos_trivial)
      (use assms pos_mod_bound [of d a] pos_mod_sign [of d a] in linarith)+
  ultimately show ?thesis using assms by (simp only: div_mult_self1)
qed

lemma accumulator_shift16_eq: "accumulator_shift16 a = a div 65536"
  using div_by_ceiling [of 65536 a] by (simp add: accumulator_shift16_def)

lemma arithmetic_shift1_eq: "arithmetic_shift1 v = v div 2"
  using div_by_ceiling [of 2 v] by (simp add: arithmetic_shift1_def)

lemma signed_lane_eq: "signed_lane v = sint v"
proof -
  have n: "unat v < 65536" by (rule less_le_trans [OF unsigned_less]) simp
  have "bit v 15 \<longleftrightarrow> odd (unat v div 32768)"
    using bit_unsigned_iff [of v 15, where 'a = nat] by (simp add: bit_iff_odd)
  also have "\<dots> \<longleftrightarrow> 32768 \<le> unat v" using n by (cases "unat v < 32768") (auto simp: div_if)
  finally have "bit v 15 \<longleftrightarrow> \<not> v < 0x8000" by (simp add: word_less_nat_alt not_less)
  moreover have "take_bit 16 (uint v) = uint v"
    by (rule take_bit_int_eq_self [OF uint_nonnegative]) (rule less_le_trans [OF unsigned_less]; simp)
  ultimately show ?thesis
    by (simp add: signed_lane_def sint_uint signed_take_bit_eq_take_bit_minus bit_uint_iff)
qed

text \<open>What a vector instruction can change of the processor: accumulators, flags, divider and
  registers. A predicate closed under those updates, with accumulator values from \<open>Q\<close>, survives
  every instruction; the two instances below are the range of the accumulators and the part of the
  state the unit leaves alone.\<close>

locale vector_invariant =
  fixes P :: "rsp \<Rightarrow> bool" and Q :: "int \<Rightarrow> bool"
  assumes put_acc_P: "P r \<Longrightarrow> Q v \<Longrightarrow> P (put_acc lane v r)"
    and acc_P: "P r \<Longrightarrow> Q (r_accumulator r lane)"
    and Q_wrap: "Q (wrap_accumulator v)"
    and Q_low: "Q (replace_accumulator_low v x)"
    and Q_upper: "Q (replace_accumulator_upper v u)"
    and vco_P: "P (r\<lparr>r_vco := f\<rparr>) = P r"
    and vcc_P: "P (r\<lparr>r_vcc := f\<rparr>) = P r"
    and vce_P: "P (r\<lparr>r_vce := c\<rparr>) = P r"
    and vpr_P: "P (r\<lparr>r_vpr := w\<rparr>) = P r"
    and gpr_P: "P (r\<lparr>r_gpr := g\<rparr>) = P r"
    and div_P: "P (r\<lparr>r_div_in := i\<rparr>) = P r" "P (r\<lparr>r_div_out := i\<rparr>) = P r"
      "P (r\<lparr>r_div_high_pending := h\<rparr>) = P r"
begin

lemma P_flags: "P (set_vco h r) = P r" "P (set_vcc h r) = P r" "P (set_vce k r) = P r"
  by (simp_all add: set_vco_def set_vcc_def set_vce_def vco_P vcc_P vce_P)

lemmas P_frame [simp] = vco_P vcc_P vce_P vpr_P gpr_P div_P P_flags

lemmas P_put [simp] = put_acc_P acc_P Q_wrap Q_low Q_upper

lemma P_low [simp]: "P (fst s) \<Longrightarrow> P (fst (put_low lane x s))"
  by (simp add: put_low_def split_def)

lemma P_lanes:
  assumes "\<And>lane s. P (fst s) \<Longrightarrow> P (fst (f lane s))" "P (fst s)"
  shows "P (fst (lanes f s))"
  unfolding lanes_def by (rule fold_ok [where P = "\<lambda>s. P (fst s)"]) (use assms in auto)

lemma P_lane_ops:
  assumes "P (fst s)"
  shows "P (fst (vrnd_lane func vs st lane s))" "P (fst (vmulq_lane ss st lane s))"
    "P (fst (vmacq_lane lane s))" "P (fst (vmul_lane func ss st lane s))"
    "P (fst (vadd_lane func ss st lane s))" "P (fst (vsar_lane e lane s))"
    "P (fst (vcompare_lane func ss st lane s))" "P (fst (vcl_lane ss st lane s))"
    "P (fst (vch_lane ss st lane s))" "P (fst (vcr_lane ss st lane s))"
    "P (fst (vmrg_lane ss st lane s))"
proof -
  obtain r res where s: "s = (r, res)" by (cases s)
  have r: "P r" using assms s by simp
  show "P (fst (vrnd_lane func vs st lane s))" "P (fst (vmulq_lane ss st lane s))"
    "P (fst (vmacq_lane lane s))" "P (fst (vmul_lane func ss st lane s))"
    "P (fst (vsar_lane e lane s))" "P (fst (vmrg_lane ss st lane s))"
    using r unfolding s vrnd_lane_def vmulq_lane_def vmacq_lane_def vmul_lane_def vsar_lane_def
      vmrg_lane_def Let_def prod.case by simp_all
  show "P (fst (vcompare_lane func ss st lane s))" "P (fst (vcl_lane ss st lane s))"
    "P (fst (vcr_lane ss st lane s))"
    unfolding s vcompare_lane_def vcl_lane_def vcr_lane_def Let_def prod.case
    by (rule P_low, unfold fst_conv P_frame, rule r)+
  have "P (if b then set_vce f (set_vco g (set_vcc h r)) else set_vco g (set_vcc h r))" for b f g h
    using r by simp
  then show "P (fst (vch_lane ss st lane s))"
    unfolding s vch_lane_def Let_def prod.case by (intro P_low) (unfold fst_conv)
  show "P (fst (vadd_lane func ss st lane s))"
    unfolding s vadd_lane_def Let_def prod.case
    by (intro pred_if [where P = "\<lambda>z. P (fst z)"]; rule P_low; unfold fst_conv P_frame; rule r)
qed

lemma P_vdivide:
  assumes "P (fst s)"
  shows "P (fst (vdivide func vs e st b s))"
proof -
  have "P (fst (lanes (\<lambda>lane (r, res). (put_acc lane (replace_accumulator_low (r_accumulator r lane)
      (st lane)) r, res)) s))" (is "P (fst ?l)")
    by (rule P_lanes) (use assms in auto)
  moreover obtain r res where "?l = (r, res)" by (cases ?l)
  ultimately show ?thesis by (simp add: vdivide_def Let_def)
qed

lemma P_vector_result:
  assumes "P r"
  shows "P (fst (vector_result func e vt vs vd ss st r))"
proof -
  note lane = P_lanes [OF P_lane_ops(1)] P_lanes [OF P_lane_ops(2)]
    P_lanes [OF P_lane_ops(3)] P_lanes [OF P_lane_ops(4)]
    P_lanes [OF P_lane_ops(5)] P_lanes [OF P_lane_ops(6)]
    P_lanes [OF P_lane_ops(7)] P_lanes [OF P_lane_ops(8)]
    P_lanes [OF P_lane_ops(9)] P_lanes [OF P_lane_ops(10)]
    P_lanes [OF P_lane_ops(11)] P_lanes [OF P_low]
  show ?thesis
    unfolding vector_result_def Let_def
    by (intro pred_if [where P = "\<lambda>z. P (fst z)"];
        simp add: split_def lane P_vdivide assms)
qed

lemma P_exec_vector:
  assumes "P r"
  shows "P (exec_vector insn r)"
proof -
  have *: "P (case z of (r', Some res) \<Rightarrow> r'\<lparr>r_vpr := f r' res\<rparr> | (r', None) \<Rightarrow> r')"
    if "P (fst z)" for z :: "rsp \<times> vec option" and f
    using that by (cases z) (simp split: option.split)
  show ?thesis
    unfolding exec_vector_def Let_def by (rule * [OF P_vector_result [OF assms]])
qed

lemma P_rsp_write [simp]: "P (rsp_write_gpr i v r) = P r"
  by (simp add: rsp_write_gpr_def)

lemma P_set_vector_byte [simp]: "P (set_vector_byte reg byte v r) = P r"
  by (simp add: set_vector_byte_def Let_def)

lemma P_exec_cop2:
  assumes "P r"
  shows "P (rsp_exec_cop2 insn r)"
  unfolding rsp_exec_cop2_def Let_def
  by (intro pred_if [where P = P];
      (rule P_exec_vector [OF assms]
        | ((unfold P_rsp_write P_set_vector_byte P_frame)?, rule assms)))

end

text \<open>The type of the accumulator file: every instruction leaves every lane a 48-bit value.\<close>

definition accs_ok :: "rsp \<Rightarrow> bool" where
  "accs_ok r \<longleftrightarrow> (\<forall>lane. acc_range (r_accumulator r lane))"

interpretation acc48: vector_invariant accs_ok acc_range
  by unfold_locales (simp_all add: accs_ok_def put_acc_def)

text \<open>The part of the processor the buses and the SP registers share with it.\<close>

definition rsp_io :: "rsp \<Rightarrow> bytes \<times> bytes \<times> bool \<times> bool \<times> bool" where
  "rsp_io r = (r_dmem r, r_imem r, r_halted r, r_broke r, r_intr_on_break r)"

interpretation vio: vector_invariant "\<lambda>r. rsp_io r = shared" "\<lambda>_. True" for shared
  by unfold_locales (simp_all add: rsp_io_def put_acc_def)

lemma rsp_io_cop2 [simp]: "rsp_io (rsp_exec_cop2 insn r) = rsp_io r"
  by (rule vio.P_exec_cop2) simp

text \<open>every vector instruction and register transfer leaves all the accumulators signed 48-bit values.\<close>

theorem vector_unit_type:
  assumes "accs_ok r"
  shows "accs_ok (rsp_exec_cop2 insn r)"
  using assms by (rule acc48.P_exec_cop2)

lemma accs_ok_new: "accs_ok rsp_new"
  by (simp add: accs_ok_def rsp_new_def acc_range_def)

theorem vector_unit_type_witness: "accs_ok (rsp_exec_cop2 0x4A0000C0 rsp_new)"
  by (rule vector_unit_type [OF accs_ok_new])

section \<open>The square root of the reciprocal tables\<close>

text \<open>The trial bit before step \<open>k\<close>: \<open>4\<^sup>k\<^sup>-\<^sup>1\<close>, and zero when no step is left.\<close>

definition trial_bit :: "nat \<Rightarrow> nat" where
  "trial_bit k = (case k of 0 \<Rightarrow> 0 | Suc j \<Rightarrow> 4 ^ j)"

lemma trial_bit_quarter: "trial_bit (Suc k) div 4 = trial_bit k"
  by (cases k) (simp_all add: trial_bit_def)

lemma trial_bit_drop: "unat b = trial_bit (Suc k) \<Longrightarrow> unat (drop_bit 2 b) = trial_bit k"
  for b :: u64
  by (simp add: trial_bit_quarter drop_bit_eq_div unat_div)

lemma trial_bit_pos: "unat b = trial_bit (Suc k) \<Longrightarrow> b \<noteq> 0"
  for b :: u64
  by (auto simp: trial_bit_def)

lemma sqrt_start_bit:
  "unat b = trial_bit k \<Longrightarrow> unat v < 4 ^ k
    \<Longrightarrow> \<exists>j\<le>k. unat (sqrt_start v b) = trial_bit j \<and> unat v < 4 ^ j"
proof (induction k arbitrary: b)
  case 0
  then show ?case
    by (subst sqrt_start.simps) (auto simp: trial_bit_def word_less_nat_alt)
next
  case (Suc k)
  show ?case
  proof (cases "b > v")
    case True
    then have "unat v < 4 ^ k" using Suc.prems by (simp add: trial_bit_def word_less_nat_alt)
    with True Suc.IH [OF trial_bit_drop [OF Suc.prems(1)]] show ?thesis
      by (subst sqrt_start.simps) (auto intro: le_SucI)
  next
    case False
    then show ?thesis using Suc.prems by (subst sqrt_start.simps) auto
  qed
qed

text \<open>The digit-by-digit invariant: with \<open>k\<close> steps left and partial root \<open>P\<close>, the register
  holds \<open>P \<cdot> 2\<^sup>k\<close> and the remainder is \<open>N - P\<^sup>2\<close>.\<close>

lemma sqrt_loop_root:
  assumes "unat b = trial_bit k" "unat r = P * 2 ^ k" "unat v + P * P = N"
    "N < (P + 2 ^ k) * (P + 2 ^ k)" "P + 2 ^ k \<le> 2 ^ 32"
  shows "\<exists>R. unat (sqrt_loop v r b) = R \<and> R * R \<le> N \<and> N < (R + 1) * (R + 1) \<and> R < 2 ^ 32"
  using assms
proof (induction k arbitrary: b r v P)
  case 0
  then have "b = 0" by (simp add: trial_bit_def unat_eq_0)
  with 0 show ?case by (subst sqrt_loop.simps) auto
next
  case (Suc k)
  define x :: nat where "x = 2 ^ k"
  have b: "unat b = x * x" using Suc.prems(1) by (simp add: trial_bit_def x_def power2_eq_square flip: power_mult_distrib)
  have r: "unat r = 2 * (P * x)" using Suc.prems(2) by (simp add: x_def)
  have x: "0 < x" "P + 2 * x \<le> 2 ^ 32" using Suc.prems(5) by (simp_all add: x_def)
  have "2 * (P * x) + x * x < (P + 2 * x) * (2 * x)" using x(1) by (simp add: algebra_simps)
  also have "\<dots> \<le> 2 ^ 32 * 2 ^ 32" using x by (intro mult_mono) auto
  finally have rb: "unat (r + b) = 2 * (P * x) + x * x"
    by (subst unat_add_lem [THEN iffD1]) (simp_all add: r b)
  have q: "unat (drop_bit 2 b) = trial_bit k" by (rule trial_bit_drop [OF Suc.prems(1)])
  have h: "unat (drop_bit 1 r) = P * x" by (simp add: drop_bit_eq_div unat_div r)
  have loop: "sqrt_loop v r b = (if v \<ge> r + b then sqrt_loop (v - (r + b)) (drop_bit 1 r + b) (drop_bit 2 b)
        else sqrt_loop v (drop_bit 1 r) (drop_bit 2 b))"
    using trial_bit_pos [OF Suc.prems(1)] by (subst sqrt_loop.simps) simp
  have sq: "(P + x) * (P + x) = P * P + 2 * (P * x) + x * x" by (simp add: algebra_simps)
  show ?case
  proof (cases "v \<ge> r + b")
    case True
    then have le: "2 * (P * x) + x * x \<le> unat v" using rb by (simp add: word_le_nat_alt)
    have v': "unat (v - (r + b)) = unat v - (2 * (P * x) + x * x)"
      using True rb by (simp add: unat_sub word_le_nat_alt)
    have "P * x + x * x < 2 ^ 64" using rb unsigned_less [of "r + b", where 'a = nat] by simp
    then have r': "unat (drop_bit 1 r + b) = (P + x) * 2 ^ k"
      using h b by (subst unat_add_lem [THEN iffD1]) (simp_all add: distrib_right flip: x_def)
    have "unat (v - (r + b)) + (P + x) * (P + x) = N"
      using v' le Suc.prems(3) by (simp add: sq)
    then show ?thesis
      using Suc.IH [OF q r'] Suc.prems(4) x(2) True by (simp add: loop add.assoc mult_2 flip: x_def)
  next
    case False
    then have "N < (P + x) * (P + x)" using rb Suc.prems(3) by (simp add: word_le_nat_alt sq)
    then show ?thesis
      using Suc.IH [OF q h [unfolded x_def] Suc.prems(3)] x(2) False by (simp add: loop flip: x_def)
  qed
qed

text \<open>the digit-by-digit square root of the reciprocal tables is the integer square root, for
  every 64-bit operand.\<close>

theorem integer_square_root_correct:
  "unat (integer_square_root v) * unat (integer_square_root v) \<le> unat v
    \<and> unat v < (unat (integer_square_root v) + 1) * (unat (integer_square_root v) + 1)"
proof -
  have b: "unat (push_bit 62 1 :: u64) = trial_bit 32"
    by (simp add: trial_bit_def push_bit_eq_mult)
  have "unat v < 4 ^ 32" using unsigned_less [of v, where 'a = nat] by simp
  then obtain j where j: "j \<le> 32" "unat (sqrt_start v (push_bit 62 1)) = trial_bit j" "unat v < 4 ^ j"
    using sqrt_start_bit [OF b] by blast
  have "(2 :: nat) ^ j \<le> 2 ^ 32" using j(1) by (intro power_increasing) auto
  then obtain R where R: "unat (sqrt_loop v 0 (sqrt_start v (push_bit 62 1))) = R"
    "R * R \<le> unat v" "unat v < (R + 1) * (R + 1)" "R < 2 ^ 32"
    using sqrt_loop_root [OF j(2), of 0 0 v "unat v"] j(3) by (auto simp: power_mult_distrib [symmetric])
  then have "unat (integer_square_root v) = R"
    by (simp add: integer_square_root_def unsigned_ucast_eq take_bit_nat_eq_self)
  with R show ?thesis by simp
qed

section \<open>The multiply-accumulate chain\<close>

text \<open>What a multiplication does to each lane: the loop touches every lane once.\<close>

lemma fold_vmul:
  "distinct xs \<Longrightarrow> fold (vmul_lane func ss st) xs (r, res)
    = (r\<lparr>r_accumulator := (\<lambda>l. if l \<in> set xs
          then wrap_accumulator (mul_acc func (ss l) (st l) (r_accumulator r l)) else r_accumulator r l)\<rparr>,
       (\<lambda>l. if l \<in> set xs
          then mul_result func (wrap_accumulator (mul_acc func (ss l) (st l) (r_accumulator r l))) else res l))"
proof (induction xs arbitrary: r res)
  case (Cons x xs)
  then show ?case by (auto simp: vmul_lane_def Let_def put_acc_def fun_eq_iff)
qed simp

definition is_multiply :: "u32 \<Rightarrow> bool" where
  "is_multiply func \<longleftrightarrow> func < 0x10 \<and> func \<noteq> 0x02 \<and> func \<noteq> 0x03 \<and> func \<noteq> 0x0A \<and> func \<noteq> 0x0B"

definition vmul_acc :: "u32 \<Rightarrow> vec \<Rightarrow> vec \<Rightarrow> rsp \<Rightarrow> nat \<Rightarrow> int" where
  "vmul_acc func ss st r l =
    (if l < 8 then wrap_accumulator (mul_acc func (ss l) (st l) (r_accumulator r l)) else r_accumulator r l)"

lemma vmul_result:
  assumes "is_multiply func"
  shows "vector_result func e vt vs vd ss st r
    = (r\<lparr>r_accumulator := vmul_acc func ss st r\<rparr>,
       Some (\<lambda>l. if l < 8 then mul_result func (vmul_acc func ss st r l) else 0))"
  using assms
  by (simp add: vector_result_def is_multiply_def Let_def lanes_def fold_vmul vmul_acc_def
      fun_eq_iff cong: if_cong)

definition source_t :: "u32 \<Rightarrow> rsp \<Rightarrow> vec" where
  "source_t insn r = (\<lambda>l. r_vpr r (i_rt insn) (kElementSelect ! unat (drop_bit 21 insn AND 15) ! l))"

lemma exec_multiply:
  assumes "is_multiply (i_fn insn)"
  shows "r_accumulator (exec_vector insn r) = vmul_acc (i_fn insn) (r_vpr r (i_rd insn)) (source_t insn r) r"
    and "k \<noteq> i_sa insn \<Longrightarrow> r_vpr (exec_vector insn r) k = r_vpr r k"
    and "l < 8 \<Longrightarrow> r_vpr (exec_vector insn r) (i_sa insn) l
      = mul_result (i_fn insn) (r_accumulator (exec_vector insn r) l)"
  by (simp_all add: exec_vector_def Let_def vmul_result [OF assms] source_t_def)

text \<open>A 16.16 fixed-point number held as a signed integer part and an unsigned fraction, each
  in a vector register, and its product with another.\<close>

definition fixed_value :: "u16 \<Rightarrow> u16 \<Rightarrow> int" where
  "fixed_value hi lo = signed_lane hi * 65536 + uint lo"

lemma fixed_product:
  "(fixed_value ah al * fixed_value bh bl) div 65536
    = uint al * uint bl div 65536 + signed_lane ah * uint bl + uint al * signed_lane bh
      + signed_lane ah * signed_lane bh * 65536"
proof -
  have "fixed_value ah al * fixed_value bh bl
    = uint al * uint bl + (signed_lane ah * uint bl + uint al * signed_lane bh
        + signed_lane ah * signed_lane bh * 65536) * 65536"
    by (simp add: fixed_value_def algebra_simps)
  then show ?thesis by simp
qed

lemma wrap_add: "wrap_accumulator (wrap_accumulator a + b) = wrap_accumulator (a + b)"
  using signed_take_bit_add [of 47 "signed_take_bit 47 a" b] signed_take_bit_add [of 47 a b]
  by (simp add: wrap_accumulator_eq)

text \<open>The four-instruction chain, with whole-vector operands whose registers the first three
  instructions leave alone.\<close>

definition fixed_chain :: "u32 \<Rightarrow> u32 \<Rightarrow> u32 \<Rightarrow> u32 \<Rightarrow> u32 \<Rightarrow> u32 \<Rightarrow> u32 \<Rightarrow> u32 \<Rightarrow> bool" where
  "fixed_chain a b c d sh slo th tlo \<longleftrightarrow>
    i_fn a = 0x04 \<and> i_fn b = 0x0D \<and> i_fn c = 0x0E \<and> i_fn d = 0x0F
    \<and> (\<forall>i \<in> {a, b, c, d}. drop_bit 21 i AND 15 = 0)
    \<and> i_rd a = slo \<and> i_rt a = tlo \<and> i_rd b = sh \<and> i_rt b = tlo
    \<and> i_rd c = slo \<and> i_rt c = th \<and> i_rd d = sh \<and> i_rt d = th
    \<and> {i_sa a, i_sa b, i_sa c} \<inter> {slo, sh, tlo, th} = {}"

lemma fixed_value_range: "- (2 ^ 31) \<le> fixed_value hi lo \<and> fixed_value hi lo < 2 ^ 31"
proof -
  have "uint lo < 65536" using unsigned_less [of lo, where 'a = int] by simp
  moreover have "0 \<le> uint lo" by simp
  moreover have "- 32768 \<le> sint hi" "sint hi < 32768"
    using sint_greater_eq [of hi] sint_less [of hi] by simp_all
  ultimately have "- 2147483648 \<le> sint hi * 65536 + uint lo \<and> sint hi * 65536 + uint lo < 2147483648"
    by linarith
  then show ?thesis by (simp add: fixed_value_def signed_lane_eq)
qed

lemma product_range:
  "acc_range ((fixed_value ah al * fixed_value bh bl) div 65536)"
proof -
  have "\<bar>fixed_value ah al\<bar> \<le> 2 ^ 31" "\<bar>fixed_value bh bl\<bar> \<le> 2 ^ 31"
    using fixed_value_range [of ah al] fixed_value_range [of bh bl] by (simp_all add: abs_le_iff)
  then have "\<bar>fixed_value ah al * fixed_value bh bl\<bar> \<le> 2 ^ 31 * 2 ^ 31"
    unfolding abs_mult by (intro mult_mono) auto
  then have "fixed_value ah al * fixed_value bh bl div 65536 \<le> 2 ^ 62 div 65536"
    "- (2 ^ 62) div 65536 \<le> fixed_value ah al * fixed_value bh bl div 65536"
    by (intro zdiv_mono1; simp)+
  then show ?thesis by (simp add: acc_range_def)
qed

text \<open>C38: \<open>VMUDL\<close>, \<open>VMADM\<close>, \<open>VMADN\<close>, \<open>VMADH\<close> on the halves of two vectors of 16.16 fixed-point
  numbers leave the exact product, shifted right by sixteen, in every accumulator, and its clamped
  integer part in the last destination register.\<close>

theorem fixed_point_multiply:
  assumes "fixed_chain a b c d sh slo th tlo" "lane < 8"
  shows "let r' = exec_vector d (exec_vector c (exec_vector b (exec_vector a r)));
      p = fixed_value (r_vpr r sh lane) (r_vpr r slo lane) * fixed_value (r_vpr r th lane) (r_vpr r tlo lane)
    in r_accumulator r' lane = p div 65536 \<and> r_vpr r' (i_sa d) lane = signed_clamp (p div 65536 div 65536)"
proof -
  let ?r = "exec_vector d (exec_vector c (exec_vector b (exec_vector a r)))"
  let ?p = "fixed_value (r_vpr r sh lane) (r_vpr r slo lane) * fixed_value (r_vpr r th lane) (r_vpr r tlo lane)"
  note ch = assms(1) [unfolded fixed_chain_def]
  have m: "is_multiply 0x04" "is_multiply 0x0D" "is_multiply 0x0E" "is_multiply 0x0F"
    by (simp_all add: is_multiply_def)
  have sel: "kElementSelect ! 0 ! lane = lane"
    using assms(2) by (auto simp: kElementSelect_def less_Suc_eq numeral_eq_Suc)
  have reg: "r_vpr (exec_vector a r) k = r_vpr r k"
    "r_vpr (exec_vector b (exec_vector a r)) k = r_vpr r k"
    "r_vpr (exec_vector c (exec_vector b (exec_vector a r))) k = r_vpr r k"
    if "k \<in> {slo, sh, tlo, th}" for k
    using that ch m by (auto simp: exec_multiply(2))
  have "r_accumulator ?r lane = wrap_accumulator (?p div 65536)"
    unfolding fixed_product
    using ch m sel assms(2)
    by (simp add: exec_multiply(1) vmul_acc_def mul_acc_def source_t_def reg wrap_add
        drop_bit_eq_div push_bit_eq_mult)
  then have acc: "r_accumulator ?r lane = ?p div 65536" by (simp add: wrap_in_range product_range)
  have "r_vpr ?r (i_sa d) lane = mul_result 0x0F (r_accumulator ?r lane)"
    using exec_multiply(3) [of d lane] ch assms(2) m by simp
  with acc show ?thesis
    by (simp add: mul_result_def signed_accumulator_clamp_def accumulator_shift16_eq)
qed

theorem fixed_point_multiply_witness:
  "let r = rsp_new\<lparr>r_vpr := (\<lambda>k _. if k = 2 then 1 else if k = 4 then 2 else if k = 1 \<or> k = 3 then 0x8000 else 0)\<rparr>;
      r' = exec_vector 0x4A04118F (exec_vector 0x4A04094E (exec_vector 0x4A03114D (exec_vector 0x4A030944 r)))
    in r_accumulator r' 5 = 0x3C000 \<and> r_vpr r' 6 5 = 3"
proof -
  have c: "fixed_chain 0x4A030944 0x4A03114D 0x4A04094E 0x4A04118F 2 1 4 3"
    by (simp add: fixed_chain_def i_fn_def i_rt_def i_rd_def i_sa_def)
  have f: "fixed_value 1 0x8000 = 0x18000" "fixed_value 2 0x8000 = 0x28000"
    by (simp_all add: fixed_value_def signed_lane_def)
  show ?thesis
    using fixed_point_multiply [OF c, of 5 "rsp_new\<lparr>r_vpr := (\<lambda>k _. if k = 2 then 1 else if k = 4 then 2
        else if k = 1 \<or> k = 3 then 0x8000 else 0)\<rparr>"]
    by (simp add: Let_def f i_sa_def signed_clamp_def lane_bits_def)
qed

end
