(* ===== verification/Rsp_Exec.thy ===== *)
theory Rsp_Exec
  imports Rsp_Vector
begin

text \<open>
  The signal processor as a processor (\<open>rcp/rsp/rsp.cpp\<close>, and the vector loads and stores of
  \<open>rsp_vector.cpp\<close>): instruction fetch, data memory with its mirror in the bus, the scalar
  instructions, the register window onto the SP and DP registers, and the step with its delay
  slot. It runs on the whole machine, because a register write can start a transfer, run a display
  list or raise an interrupt.
\<close>

section \<open>Memory\<close>

definition kImemMask :: u32 where "kImemMask = 0xFFC"

definition rsp_fetch :: "u32 \<Rightarrow> rsp \<Rightarrow> u32" where
  "rsp_fetch pc r =
    (let off = unat (pc AND kImemMask) in
     push_bit 24 (ucast (r_imem r off)) OR push_bit 16 (ucast (r_imem r (off + 1)))
       OR push_bit 8 (ucast (r_imem r (off + 2))) OR ucast (r_imem r (off + 3)))"

definition dmem_at :: "u32 \<Rightarrow> rsp \<Rightarrow> u8" where
  "dmem_at a r = r_dmem r (unat (a AND 0xFFF))"

definition rsp_load_byte :: "u32 \<Rightarrow> rsp \<Rightarrow> u32" where
  "rsp_load_byte addr r = ucast (dmem_at addr r)"

definition rsp_load_half :: "u32 \<Rightarrow> rsp \<Rightarrow> u32" where
  "rsp_load_half addr r =
    (let a = addr AND 0xFFF in push_bit 8 (ucast (dmem_at a r)) OR ucast (dmem_at (a + 1) r))"

definition rsp_load_word :: "u32 \<Rightarrow> rsp \<Rightarrow> u32" where
  "rsp_load_word addr r =
    (let a = addr AND 0xFFF in
     push_bit 24 (ucast (dmem_at a r)) OR push_bit 16 (ucast (dmem_at (a + 1) r))
       OR push_bit 8 (ucast (dmem_at (a + 2) r)) OR ucast (dmem_at (a + 3) r))"

text \<open>A store goes to the processor's memory, is copied to the bus window and announced to the
  instruction cache.\<close>

definition set_dmem :: "u32 \<Rightarrow> u8 \<Rightarrow> rsp \<Rightarrow> rsp" where
  "set_dmem a b r = r\<lparr>r_dmem := arr_wr (unat (a AND 0xFFF)) b (r_dmem r)\<rparr>"

definition mirror_dmem :: "u32 \<Rightarrow> machine \<Rightarrow> machine" where
  "mirror_dmem a m =
    m\<lparr>m_dmem := arr_wr (unat (a AND 0xFFF)) (dmem_at a (m_rsp m)) (m_dmem m)\<rparr>"

definition announce_dmem :: "u32 \<Rightarrow> machine \<Rightarrow> machine" where
  "announce_dmem a = notify_memory_write (0x04000000 + (a AND 0xFFF)) 1"

definition rsp_store_byte :: "u32 \<Rightarrow> u8 \<Rightarrow> machine \<Rightarrow> machine" where
  "rsp_store_byte addr v m =
    (let a = addr AND 0xFFF
     in announce_dmem a (mirror_dmem a (upd_rsp (set_dmem a v) m)))"

definition rsp_store_half :: "u32 \<Rightarrow> u16 \<Rightarrow> machine \<Rightarrow> machine" where
  "rsp_store_half addr v m =
    (let a = addr AND 0xFFF in
     announce_dmem (a + 1) (announce_dmem a (mirror_dmem (a + 1) (mirror_dmem a
       (upd_rsp (set_dmem (a + 1) (ucast (v AND 0xFF)))
         (upd_rsp (set_dmem a (ucast (drop_bit 8 v AND 0xFF))) m))))))"

definition rsp_store_word :: "u32 \<Rightarrow> u32 \<Rightarrow> machine \<Rightarrow> machine" where
  "rsp_store_word addr v m =
    (let a = addr AND 0xFFF in
     fold (\<lambda>i m. announce_dmem (a + of_nat i) (mirror_dmem (a + of_nat i) m)) [0..<4]
       (upd_rsp (set_dmem (a + 3) (ucast (v AND 0xFF)))
       (upd_rsp (set_dmem (a + 2) (ucast (drop_bit 8 v AND 0xFF)))
       (upd_rsp (set_dmem (a + 1) (ucast (drop_bit 16 v AND 0xFF)))
       (upd_rsp (set_dmem a (ucast (drop_bit 24 v AND 0xFF))) m)))))"

section \<open>Branches\<close>

definition rsp_branch_abs :: "u32 \<Rightarrow> rsp \<Rightarrow> rsp" where
  "rsp_branch_abs t r = r\<lparr>r_next_pc := t AND kImemMask, r_branch_pending := True\<rparr>"

definition rsp_branch_rel :: "u16 \<Rightarrow> rsp \<Rightarrow> rsp" where
  "rsp_branch_rel off_imm r =
    r\<lparr>r_next_pc := ((r_pc r + 4) + push_bit 2 (scast off_imm)) AND kImemMask,
      r_branch_pending := True\<rparr>"

definition rsp_link :: "u32 \<Rightarrow> rsp \<Rightarrow> rsp" where
  "rsp_link reg r = rsp_write_gpr reg ((r_pc r + 8) AND kImemMask) r"

section \<open>Scalar instructions\<close>

text \<open>The \<open>SPECIAL\<close> group, \<open>BREAK\<close> apart, changes the processor only.\<close>

definition rsp_special_alu :: "u32 \<Rightarrow> rsp \<Rightarrow> rsp" where
  "rsp_special_alu insn r =
    (let s = r_gpr r (i_rs insn); t = r_gpr r (i_rt insn); d = i_rd insn; f = i_fn insn in
     if f = 0x00 then rsp_write_gpr d (push_bit (unat (i_sa insn)) t) r
     else if f = 0x02 then rsp_write_gpr d (drop_bit (unat (i_sa insn)) t) r
     else if f = 0x03 then rsp_write_gpr d (signed_drop_bit (unat (i_sa insn)) t) r
     else if f = 0x04 then rsp_write_gpr d (push_bit (unat (s AND 31)) t) r
     else if f = 0x06 then rsp_write_gpr d (drop_bit (unat (s AND 31)) t) r
     else if f = 0x07 then rsp_write_gpr d (signed_drop_bit (unat (s AND 31)) t) r
     else if f = 0x08 then rsp_branch_abs s r
     else if f = 0x09 then rsp_branch_abs s (rsp_link (if d = 0 then 31 else d) r)
     else if f = 0x20 \<or> f = 0x21 then rsp_write_gpr d (s + t) r
     else if f = 0x22 \<or> f = 0x23 then rsp_write_gpr d (s - t) r
     else if f = 0x24 then rsp_write_gpr d (s AND t) r
     else if f = 0x25 then rsp_write_gpr d (s OR t) r
     else if f = 0x26 then rsp_write_gpr d (s XOR t) r
     else if f = 0x27 then rsp_write_gpr d (NOT (s OR t)) r
     else if f = 0x2A then rsp_write_gpr d (if s <s t then 1 else 0) r
     else if f = 0x2B then rsp_write_gpr d (if s < t then 1 else 0) r
     else r)"

definition rsp_do_break :: "machine \<Rightarrow> machine" where
  "rsp_do_break m =
    (let m1 = upd_rsp (\<lambda>r. r\<lparr>r_broke := True, r_halted := True, r_branch_pending := False\<rparr>) m
     in sp_notify_break (r_intr_on_break (m_rsp m1)) (push_mem_to_bus m1))"

definition rsp_exec_special :: "u32 \<Rightarrow> machine \<Rightarrow> machine" where
  "rsp_exec_special insn m =
    (if i_fn insn = 0x0D then rsp_do_break m else upd_rsp (rsp_special_alu insn) m)"

definition rsp_exec_regimm :: "u32 \<Rightarrow> rsp \<Rightarrow> rsp" where
  "rsp_exec_regimm insn r =
    (let neg = r_gpr r (i_rs insn) <s 0; k = i_rt insn in
     if k = 0x00 then (if neg then rsp_branch_rel (i_simm insn) r else r)
     else if k = 0x01 then (if \<not> neg then rsp_branch_rel (i_simm insn) r else r)
     else if k = 0x10 then
       (let r1 = rsp_link 31 r in if neg then rsp_branch_rel (i_simm insn) r1 else r1)
     else if k = 0x11 then
       (let r1 = rsp_link 31 r in if \<not> neg then rsp_branch_rel (i_simm insn) r1 else r1)
     else r)"

text \<open>The register window. A status write is followed by a refresh of the two flags the
  processor keeps of it.\<close>

definition rsp_exec_cop0 :: "u32 \<Rightarrow> machine \<Rightarrow> machine" where
  "rsp_exec_cop0 insn m =
    (let co_rs = i_rs insn; rd = i_rd insn; rt = i_rt insn in
     if co_rs = 0 then
       (case (if rd \<le> 7 then
                (if rd = 7 then (case sp_read_semaphore (m_sp m) of (v, s) \<Rightarrow> (v, m\<lparr>m_sp := s\<rparr>))
                 else (sp_read (rd * 4) (m_sp m), m))
              else if rd \<le> 15 then (dp_read ((rd - 8) * 4) (m_dp m), m)
              else (0, m)) of
          (v, m1) \<Rightarrow> upd_rsp (rsp_write_gpr rt v) m1)
     else if co_rs = 4 then
       (let v = r_gpr (m_rsp m) rt in
        if rd \<le> 7 then
          (let m1 = sp_write (rd * 4) v m
           in if rd = 4
              then upd_rsp (\<lambda>r. r\<lparr>r_halted := (sp_status (m_sp m1) AND StHalt \<noteq> 0),
                     r_intr_on_break := (sp_status (m_sp m1) AND StIntrOnBreak \<noteq> 0)\<rparr>) m1
              else m1)
        else if rd \<le> 15 then dp_write ((rd - 8) * 4) v m
        else m)
     else m)"

section \<open>Unaligned accesses\<close>

definition rsp_addr :: "u32 \<Rightarrow> rsp \<Rightarrow> u32" where
  "rsp_addr insn r = r_gpr r (i_rs insn) + scast (i_simm insn)"

definition lane_shift_left :: "u32 \<Rightarrow> nat" where "lane_shift_left addr = unat ((3 - (addr AND 3)) * 8)"
definition lane_shift_right :: "u32 \<Rightarrow> nat" where "lane_shift_right addr = unat ((addr AND 3) * 8)"

definition rsp_exec_lwl :: "u32 \<Rightarrow> rsp \<Rightarrow> rsp" where
  "rsp_exec_lwl insn r =
    (let addr = rsp_addr insn r; mem = rsp_load_word (addr AND NOT 3) r;
         msk = push_bit (lane_shift_left addr) 0xFFFFFFFF; merged = push_bit (lane_shift_left addr) mem
     in rsp_write_gpr (i_rt insn) ((r_gpr r (i_rt insn) AND NOT msk) OR (merged AND msk)) r)"

definition rsp_exec_lwr :: "u32 \<Rightarrow> rsp \<Rightarrow> rsp" where
  "rsp_exec_lwr insn r =
    (let addr = rsp_addr insn r; mem = rsp_load_word (addr AND NOT 3) r;
         msk = drop_bit (lane_shift_right addr) 0xFFFFFFFF; merged = drop_bit (lane_shift_right addr) mem
     in rsp_write_gpr (i_rt insn) ((r_gpr r (i_rt insn) AND NOT msk) OR (merged AND msk)) r)"

definition rsp_exec_swl :: "u32 \<Rightarrow> machine \<Rightarrow> machine" where
  "rsp_exec_swl insn m =
    (let r = m_rsp m; addr = rsp_addr insn r; reg = r_gpr r (i_rt insn);
         mem = rsp_load_word (addr AND NOT 3) r; msk = push_bit (lane_shift_left addr) 0xFFFFFFFF
     in rsp_store_word (addr AND NOT 3)
          ((mem AND NOT msk) OR (drop_bit (lane_shift_left addr) reg AND msk)) m)"

definition rsp_exec_swr :: "u32 \<Rightarrow> machine \<Rightarrow> machine" where
  "rsp_exec_swr insn m =
    (let r = m_rsp m; addr = rsp_addr insn r; reg = r_gpr r (i_rt insn);
         mem = rsp_load_word (addr AND NOT 3) r; msk = drop_bit (lane_shift_right addr) 0xFFFFFFFF
     in rsp_store_word (addr AND NOT 3)
          ((mem AND NOT msk) OR (push_bit (lane_shift_right addr) reg AND msk)) m)"

section \<open>Vector loads and stores\<close>

definition put_vpr :: "u32 \<Rightarrow> nat \<Rightarrow> u16 \<Rightarrow> rsp \<Rightarrow> rsp" where
  "put_vpr reg lane v r = r\<lparr>r_vpr := (r_vpr r)(reg := (r_vpr r reg)(lane := v))\<rparr>"

definition vmem_scale :: "u32 \<Rightarrow> nat" where
  "vmem_scale subop =
    (if subop \<le> 3 then unat subop else if subop = 4 \<or> subop = 5 then 4
     else if subop = 6 \<or> subop = 7 then 3 else 4)"

definition vmem_address :: "u32 \<Rightarrow> rsp \<Rightarrow> u32" where
  "vmem_address insn r =
    of_int (uint (r_gpr r (i_rs insn)) + sign_extend7 insn * 2 ^ vmem_scale (i_rd insn)) AND 0xFFF"

text \<open>One step of each transfer loop, by the lane or byte number.\<close>

definition vmem_packed :: "bool \<Rightarrow> u32 \<Rightarrow> nat \<Rightarrow> u32 \<Rightarrow> nat \<Rightarrow> nat \<Rightarrow> machine \<Rightarrow> machine" where
  "vmem_packed store vt shift address lane offset m =
    (if store then rsp_store_byte (address + of_nat offset)
                     (ucast (drop_bit shift (r_vpr (m_rsp m) vt lane))) m
     else upd_rsp (put_vpr vt lane
            (ucast (push_bit shift (rsp_load_byte (address + of_nat offset) (m_rsp m))))) m)"

definition vmem_byte :: "bool \<Rightarrow> u32 \<Rightarrow> u32 \<Rightarrow> u32 \<Rightarrow> machine \<Rightarrow> machine" where
  "vmem_byte store vt index address m =
    (if store then rsp_store_byte address (vector_byte (m_rsp m) vt index) m
     else upd_rsp (set_vector_byte vt index (ucast (rsp_load_byte address (m_rsp m)))) m)"

definition vmem_transpose :: "bool \<Rightarrow> u32 \<Rightarrow> u32 \<Rightarrow> u32 \<Rightarrow> nat \<Rightarrow> machine \<Rightarrow> machine" where
  "vmem_transpose store vt element address lane m =
    (if store then
       (let reg = (vt + (drop_bit 1 element + of_nat lane) mod 8) AND 31
        in rsp_store_half (address + of_nat lane * 2) (r_vpr (m_rsp m) reg lane) m)
     else
       (let reg = (vt + of_nat lane) AND 31;
            destination_lane = unat ((of_nat lane + 8 - drop_bit 1 element) AND 7)
        in upd_rsp (put_vpr reg destination_lane
             (ucast (rsp_load_half (address + of_nat lane * 2) (m_rsp m)))) m))"

definition exec_vector_memory :: "u32 \<Rightarrow> bool \<Rightarrow> machine \<Rightarrow> machine" where
  "exec_vector_memory insn store m =
    (let vt = i_rt insn; subop = i_rd insn; element = drop_bit 7 insn AND 15;
         address = vmem_address insn (m_rsp m) in
     if subop > 11 then m
     else if subop = 6 \<or> subop = 7 then
       (if element \<noteq> 0 then m
        else fold (\<lambda>lane. vmem_packed store vt (if subop = 6 then 8 else 7) address lane lane) [0..<8] m)
     else if subop = 8 then
       (if element \<noteq> 0 then m
        else fold (\<lambda>lane. vmem_packed store vt 7 address lane (lane * 2)) [0..<8] m)
     else if subop = 9 then
       (let first_lane = unat (drop_bit 1 element AND 7)
        in fold (\<lambda>i. vmem_packed store vt 7 address (first_lane + i) (i * 4))
             [0..<min 4 (8 - first_lane)] m)
     else if subop = 10 then
       (if \<not> store then m
        else fold (\<lambda>i. vmem_byte True vt ((element + of_nat i) AND 15) (address + of_nat i)) [0..<16] m)
     else if subop = 11 then fold (vmem_transpose store vt element address) [0..<8] m
     else if subop \<le> 3 then
       fold (\<lambda>i. vmem_byte store vt (element + of_nat i) (address + of_nat i))
         [0..<min (2 ^ unat subop) (16 - unat element)] m
     else if subop = 4 then
       fold (\<lambda>i. vmem_byte store vt (element + of_nat i) (address + of_nat i))
         [0..<min (16 - unat (address AND 15)) (16 - unat element)] m
     else
       (let count = unat (address AND 15); aligned = address AND NOT 15
        in fold (\<lambda>i. vmem_byte store vt ((element + (16 - of_nat count) + of_nat i) AND 15)
                       (aligned + of_nat i)) [0..<count] m))"

section \<open>The step\<close>

text \<open>The instructions that change the processor only.\<close>

definition rsp_execute_local :: "u32 \<Rightarrow> rsp \<Rightarrow> rsp" where
  "rsp_execute_local insn r =
    (let s = r_gpr r (i_rs insn); t = r_gpr r (i_rt insn); d = i_rt insn; k = i_op insn;
         simm = scast (i_simm insn); addr = rsp_addr insn r;
         target = push_bit 2 (i_target insn) AND kImemMask in
     if k = 0x01 then rsp_exec_regimm insn r
     else if k = 0x02 then rsp_branch_abs target r
     else if k = 0x03 then rsp_branch_abs target (rsp_link 31 r)
     else if k = 0x04 then (if s = t then rsp_branch_rel (i_simm insn) r else r)
     else if k = 0x05 then (if s \<noteq> t then rsp_branch_rel (i_simm insn) r else r)
     else if k = 0x06 then (if s \<le>s 0 then rsp_branch_rel (i_simm insn) r else r)
     else if k = 0x07 then (if 0 <s s then rsp_branch_rel (i_simm insn) r else r)
     else if k = 0x08 \<or> k = 0x09 then rsp_write_gpr d (s + simm) r
     else if k = 0x0A then rsp_write_gpr d (if s <s simm then 1 else 0) r
     else if k = 0x0B then rsp_write_gpr d (if s < simm then 1 else 0) r
     else if k = 0x0C then rsp_write_gpr d (s AND i_imm insn) r
     else if k = 0x0D then rsp_write_gpr d (s OR i_imm insn) r
     else if k = 0x0E then rsp_write_gpr d (s XOR i_imm insn) r
     else if k = 0x0F then rsp_write_gpr d (push_bit 16 (i_imm insn)) r
     else if k = 0x12 then rsp_exec_cop2 insn r
     else if k = 0x20 then rsp_write_gpr d (scast (ucast (rsp_load_byte addr r) :: u8)) r
     else if k = 0x21 then rsp_write_gpr d (scast (ucast (rsp_load_half addr r) :: u16)) r
     else if k = 0x22 then rsp_exec_lwl insn r
     else if k = 0x23 then rsp_write_gpr d (rsp_load_word addr r) r
     else if k = 0x24 then rsp_write_gpr d (rsp_load_byte addr r) r
     else if k = 0x25 then rsp_write_gpr d (rsp_load_half addr r) r
     else if k = 0x26 then rsp_exec_lwr insn r
     else r)"

definition rsp_execute :: "u32 \<Rightarrow> machine \<Rightarrow> machine" where
  "rsp_execute insn m =
    (let k = i_op insn; addr = rsp_addr insn (m_rsp m); t = r_gpr (m_rsp m) (i_rt insn) in
     if k = 0x00 then rsp_exec_special insn m
     else if k = 0x10 then rsp_exec_cop0 insn m
     else if k = 0x28 then rsp_store_byte addr (ucast t) m
     else if k = 0x29 then rsp_store_half addr (ucast t) m
     else if k = 0x2A then rsp_exec_swl insn m
     else if k = 0x2B then rsp_store_word addr t m
     else if k = 0x2E then rsp_exec_swr insn m
     else if k = 0x32 then exec_vector_memory insn False m
     else if k = 0x3A then exec_vector_memory insn True m
     else upd_rsp (rsp_execute_local insn) m)"

definition rsp_begin :: "rsp \<Rightarrow> rsp" where
  "rsp_begin r =
    (let delay_slot = r_branch_pending r; r1 = r\<lparr>r_in_delay_slot := delay_slot\<rparr> in
     if \<not> delay_slot then r1\<lparr>r_next_pc := (r_pc r + 4) AND kImemMask, r_branch_pending := False\<rparr>
     else r1)"

definition rsp_count :: "rsp \<Rightarrow> rsp" where
  "rsp_count r = r\<lparr>r_gpr := (r_gpr r)(0 := 0), r_cycles := r_cycles r + 1,
     r_retired := r_retired r + 1, r_in_delay_slot := False\<rparr>"

definition rsp_advance :: "u32 \<Rightarrow> bool \<Rightarrow> rsp \<Rightarrow> rsp" where
  "rsp_advance insn_pc delay_slot r =
    (if delay_slot then
       r\<lparr>r_pc := r_next_pc r, r_next_pc := (r_next_pc r + 4) AND kImemMask, r_branch_pending := False\<rparr>
     else if r_branch_pending r then r\<lparr>r_pc := (insn_pc + 4) AND kImemMask\<rparr>
     else r\<lparr>r_pc := r_next_pc r, r_next_pc := (r_next_pc r + 4) AND kImemMask\<rparr>)"

definition rsp_step :: "machine \<Rightarrow> machine" where
  "rsp_step m =
    (if r_halted (m_rsp m) then upd_rsp (\<lambda>r. r\<lparr>r_cycles := r_cycles r + 1\<rparr>) m
     else
       (let insn_pc = r_pc (m_rsp m); delay_slot = r_branch_pending (m_rsp m);
            m1 = rsp_execute (rsp_fetch insn_pc (m_rsp m)) (upd_rsp rsp_begin m) in
        if r_halted (m_rsp m1) then push_mem_to_bus (upd_rsp rsp_count m1)
        else upd_rsp (\<lambda>r. rsp_count (rsp_advance insn_pc delay_slot r)) m1))"

text \<open>\<open>run\<close>: the number of steps taken and the machine after them.\<close>

fun rsp_run :: "nat \<Rightarrow> machine \<Rightarrow> nat \<times> machine" where
  "rsp_run 0 m = (0, m)"
| "rsp_run (Suc n) m =
    (if r_halted (m_rsp m) then (0, m)
     else (case rsp_run n (rsp_step m) of (k, m') \<Rightarrow> (Suc k, m')))"

definition rsp_reset :: "rsp \<Rightarrow> rsp" where
  "rsp_reset _ = rsp_new"

section \<open>What the processor keeps\<close>

lemma rsp_io_frame [simp]:
  "rsp_io (rsp_write_gpr i v r) = rsp_io r" "rsp_io (rsp_branch_abs t r) = rsp_io r"
  "rsp_io (rsp_branch_rel f r) = rsp_io r" "rsp_io (rsp_link reg r) = rsp_io r"
  "rsp_io (put_vpr reg lane w r) = rsp_io r" "rsp_io (set_vector_byte reg byte b r) = rsp_io r"
  "rsp_io (rsp_count r) = rsp_io r" "rsp_io (rsp_begin r) = rsp_io r"
  "rsp_io (rsp_advance pc d r) = rsp_io r" "rsp_io (r\<lparr>r_cycles := c\<rparr>) = rsp_io r"
  by (simp_all add: rsp_io_def rsp_write_gpr_def rsp_branch_abs_def rsp_branch_rel_def rsp_link_def put_vpr_def
      set_vector_byte_def rsp_count_def rsp_begin_def rsp_advance_def Let_def)

lemma rsp_io_special [simp]: "rsp_io (rsp_special_alu insn r) = rsp_io r"
  unfolding rsp_special_alu_def Let_def
  by (intro pred_if [where P = "\<lambda>z. rsp_io z = rsp_io r"]; (unfold rsp_io_frame)?, rule refl)

lemma rsp_io_regimm [simp]: "rsp_io (rsp_exec_regimm insn r) = rsp_io r"
  unfolding rsp_exec_regimm_def Let_def
  by (intro pred_if [where P = "\<lambda>z. rsp_io z = rsp_io r"]; (unfold rsp_io_frame)?, rule refl)

lemma rsp_io_unaligned [simp]:
  "rsp_io (rsp_exec_lwl insn r) = rsp_io r" "rsp_io (rsp_exec_lwr insn r) = rsp_io r"
  by (simp_all add: rsp_exec_lwl_def rsp_exec_lwr_def Let_def)

lemma rsp_io_local [simp]: "rsp_io (rsp_execute_local insn r) = rsp_io r"
  unfolding rsp_execute_local_def Let_def
  by (intro pred_if [where P = "\<lambda>z. rsp_io z = rsp_io r"];
      (unfold rsp_io_frame rsp_io_regimm rsp_io_unaligned rsp_io_cop2)?, rule refl)

lemma machine_ok_rsp [wf_intros]:
  "machine_ok m \<Longrightarrow> rsp_io (f (m_rsp m)) = rsp_io (m_rsp m) \<Longrightarrow> machine_ok (upd_rsp f m)"
  by (simp add: machine_ok_def upd_rsp_def sp_coherent_def rsp_io_def)

text \<open>Inside a store the two copies of the data memory differ on the bytes not yet mirrored.\<close>

definition ok_except :: "nat set \<Rightarrow> machine \<Rightarrow> bool" where
  "ok_except A m \<longleftrightarrow> machine_wf m \<and> (\<forall>i. i \<notin> A \<longrightarrow> r_dmem (m_rsp m) i = m_dmem m i)
    \<and> sp_coherent (m\<lparr>m_dmem := r_dmem (m_rsp m)\<rparr>)"

lemma ok_except_empty: "ok_except {} m \<longleftrightarrow> machine_ok m"
  by (auto simp: ok_except_def machine_ok_def sp_coherent_def fun_eq_iff)

lemma ok_except_set:
  "ok_except A m \<Longrightarrow> ok_except (insert (unat (a AND 0xFFF)) A) (upd_rsp (set_dmem a b) m)"
  by (auto simp: ok_except_def upd_rsp_def set_dmem_def sp_coherent_def arr_wr_def)

lemma ok_except_mirror:
  "ok_except A m \<Longrightarrow> ok_except (A - {unat (a AND 0xFFF)}) (mirror_dmem a m)"
  by (auto simp: ok_except_def mirror_dmem_def sp_coherent_def arr_wr_def dmem_at_def)

lemma ok_except_announce: "ok_except A m \<Longrightarrow> ok_except A (announce_dmem a m)"
  by (auto simp: ok_except_def announce_dmem_def wf_intros sp_coherent_def)

lemma upt4: "[0..<4] = [0, 1, 2, 3]"
  by (simp add: upt_rec)

lemmas ok_except_store = ok_except_announce ok_except_mirror ok_except_set

lemma rsp_store_ok [wf_intros]:
  assumes "machine_ok m"
  shows "machine_ok (rsp_store_byte a v8 m)" "machine_ok (rsp_store_half a v16 m)"
    "machine_ok (rsp_store_word a v32 m)"
proof -
  have e: "ok_except {} m" using assms by (simp add: ok_except_empty)
  have to: "machine_ok z" if "ok_except A z" "A = {}" for A z
    using that by (simp add: ok_except_empty)
  show "machine_ok (rsp_store_byte a v8 m)"
    unfolding rsp_store_byte_def Let_def by (rule to, (rule ok_except_store)+, rule e, simp)
  show "machine_ok (rsp_store_half a v16 m)"
    unfolding rsp_store_half_def Let_def by (rule to, (rule ok_except_store)+, rule e, auto)
  show "machine_ok (rsp_store_word a v32 m)"
    unfolding rsp_store_word_def Let_def upt4 fold.simps comp_def id_def
    by (rule to, (rule ok_except_store)+, rule e, auto)
qed

lemma vmem_ok:
  assumes "machine_ok m"
  shows "machine_ok (vmem_packed store vt sh a lane off m)" "machine_ok (vmem_byte store vt i a m)"
    "machine_ok (vmem_transpose store vt e a lane m)"
  using assms by (auto simp: vmem_packed_def vmem_byte_def vmem_transpose_def Let_def intro!: wf_intros)

lemma vector_memory_ok [wf_intros]:
  assumes "machine_ok m"
  shows "machine_ok (exec_vector_memory insn store m)"
  unfolding exec_vector_memory_def Let_def
  by (intro pred_if [where P = machine_ok];
      (rule assms | (rule fold_ok [where P = machine_ok], erule vmem_ok, rule assms)))

lemma machine_ok_push: "sp_coherent m \<Longrightarrow> push_mem_to_bus m = m"
  by (simp add: push_mem_to_bus_def sp_coherent_def)

lemma rsp_break_ok [wf_intros]:
  assumes "machine_ok m"
  shows "machine_ok (rsp_do_break m)"
proof -
  have "machine_ok (upd_sp (\<lambda>s. s\<lparr>sp_status := sp_status s OR (StBroke OR StHalt)\<rparr>)
      (push_mem_to_bus (upd_rsp (\<lambda>r. r\<lparr>r_broke := True, r_halted := True, r_branch_pending := False\<rparr>) m)))"
    using assms
    by (simp add: machine_ok_def upd_sp_def upd_rsp_def push_mem_to_bus_def sp_coherent_def
        StBroke_def StHalt_def bit_simps)
  then show ?thesis
    by (simp add: rsp_do_break_def sp_notify_break_def Let_def wf_intros)
qed

lemma sync_status_ok:
  assumes "machine_ok m"
  shows "upd_rsp (\<lambda>r. r\<lparr>r_halted := (sp_status (m_sp m) AND StHalt \<noteq> 0),
    r_intr_on_break := (sp_status (m_sp m) AND StIntrOnBreak \<noteq> 0)\<rparr>) m = m"
  using assms
  by (simp add: machine_ok_def sp_coherent_def upd_rsp_def StHalt_def StIntrOnBreak_def
      and_exp_eq_0_iff_not_bit [of _ 0, simplified] and_exp_eq_0_iff_not_bit [of _ 6, simplified])

lemma machine_ok_semaphore: "machine_ok m \<Longrightarrow> machine_ok (m\<lparr>m_sp := m_sp m\<lparr>sp_semaphore := v\<rparr>\<rparr>)"
  by (simp add: machine_ok_def sp_coherent_def)

lemma rsp_cop0_ok [wf_intros]:
  assumes "machine_ok m"
  shows "machine_ok (rsp_exec_cop0 insn m)"
proof -
  have sync: "machine_ok (let m1 = sp_write off v m in if b
      then upd_rsp (\<lambda>r. r\<lparr>r_halted := (sp_status (m_sp m1) AND StHalt \<noteq> 0),
             r_intr_on_break := (sp_status (m_sp m1) AND StIntrOnBreak \<noteq> 0)\<rparr>) m1 else m1)" for off v b
    using sp_write_ok [OF assms] by (simp add: Let_def sync_status_ok)
  show ?thesis
    using assms sync
    by (auto simp: rsp_exec_cop0_def sp_read_semaphore_def Let_def
        intro!: pred_if [where P = machine_ok] wf_intros machine_ok_semaphore split: prod.splits)
qed

lemma rsp_execute_ok:
  assumes "machine_ok m"
  shows "machine_ok (rsp_execute insn m)"
  unfolding rsp_execute_def rsp_exec_special_def rsp_exec_swl_def rsp_exec_swr_def Let_def
  by (intro pred_if [where P = machine_ok] wf_intros assms) simp_all

lemma push_mem_ok: "machine_ok m \<Longrightarrow> machine_ok (push_mem_to_bus m)"
  by (simp add: machine_ok_push machine_ok_def)

lemma rsp_step_ok:
  assumes "machine_ok m"
  shows "machine_ok (rsp_step m)"
proof -
  have "machine_ok (rsp_execute i (upd_rsp rsp_begin m))" for i
    by (intro rsp_execute_ok machine_ok_rsp assms) simp
  then show ?thesis
    unfolding rsp_step_def Let_def
    by (intro pred_if [where P = machine_ok] push_mem_ok machine_ok_rsp assms) simp_all
qed

lemma rsp_run_ok:
  assumes "machine_ok m"
  shows "machine_ok (snd (rsp_run n m)) \<and> fst (rsp_run n m) \<le> n
    \<and> (fst (rsp_run n m) < n \<longrightarrow> r_halted (m_rsp (snd (rsp_run n m))))"
  using assms
proof (induction n arbitrary: m)
  case (Suc n)
  obtain k m' where "rsp_run n (rsp_step m) = (k, m')" by fastforce
  with Suc.IH [OF rsp_step_ok [OF Suc.prems]] Suc.prems show ?case by simp
qed simp

text \<open>The signal processor may run any number of instructions, whatever they are: the bus's
  copy of its memories, the status bits, the interrupt level seen by the CPU and the instruction
  cache stay consistent. A run takes at most the steps it was given, and fewer only when the
  processor has halted.\<close>

theorem rsp_run_keeps:
  assumes "machine_ok m"
  shows "machine_ok (snd (rsp_run n m)) \<and> fst (rsp_run n m) \<le> n
    \<and> (fst (rsp_run n m) < n \<longrightarrow> r_halted (m_rsp (snd (rsp_run n m))))"
  using rsp_run_ok [OF assms] .

theorem rsp_run_keeps_witness:
  "machine_ok (snd (rsp_run 5 (upd_rsp (\<lambda>r. r\<lparr>r_pc := 8\<rparr>) (machine_new []))))"
proof -
  have "machine_ok (upd_rsp (\<lambda>r. r\<lparr>r_pc := 8\<rparr>) (machine_new []))"
    by (rule machine_ok_rsp [OF machine_ok_new]) (simp add: rsp_io_def)
  from rsp_run_keeps [OF this] show ?thesis by blast
qed

section \<open>BREAK\<close>

lemma rsp_io_upd_sp [simp]: "m_rsp (upd_sp f m) = m_rsp m"
  by (simp add: upd_sp_def)

lemma rsp_raise [simp]: "m_rsp (raise_irq b m) = m_rsp m" "m_rsp (clear_irq b m) = m_rsp m"
  by (simp_all add: raise_irq_def clear_irq_def with_mi_cpu_def split: prod.splits)

lemma rsp_of_break:
  "m_rsp (rsp_do_break m) = (m_rsp m)\<lparr>r_broke := True, r_halted := True, r_branch_pending := False\<rparr>"
  by (simp add: rsp_do_break_def sp_notify_break_def Let_def push_mem_to_bus_def upd_rsp_def)

lemma break_step:
  assumes "\<not> r_halted (m_rsp m)" "i_op (rsp_fetch (r_pc (m_rsp m)) (m_rsp m)) = 0"
    "i_fn (rsp_fetch (r_pc (m_rsp m)) (m_rsp m)) = 0x0D"
  shows "r_halted (m_rsp (rsp_step m)) \<and> r_broke (m_rsp (rsp_step m))
    \<and> r_pc (m_rsp (rsp_step m)) = r_pc (m_rsp m) \<and> r_imem (m_rsp (rsp_step m)) = r_imem (m_rsp m)"
proof -
  let ?m1 = "rsp_do_break (upd_rsp rsp_begin m)"
  have e: "rsp_execute (rsp_fetch (r_pc (m_rsp m)) (m_rsp m)) (upd_rsp rsp_begin m) = ?m1"
    unfolding rsp_execute_def rsp_exec_special_def Let_def assms(2,3) by simp
  have h: "r_halted (m_rsp ?m1)" by (simp add: rsp_of_break)
  have step: "rsp_step m = push_mem_to_bus (upd_rsp rsp_count ?m1)"
    unfolding rsp_step_def Let_def e using assms(1) h by simp
  have b: "r_pc (rsp_begin r) = r_pc r" "r_imem (rsp_begin r) = r_imem r" for r
    by (simp_all add: rsp_begin_def Let_def)
  show ?thesis
    unfolding step push_mem_to_bus_def upd_rsp_def
    by (simp add: rsp_of_break rsp_count_def b)
qed

lemma fetch_imem: "r_imem r' = r_imem r \<Longrightarrow> rsp_fetch pc r' = rsp_fetch pc r"
  by (simp add: rsp_fetch_def Let_def)

text \<open>The status write with which the CPU starts the processor again: clear halt, clear broke.\<close>

lemma resume_status:
  assumes "machine_ok m"
  shows "m_rsp (sp_write 0x10 0x5 m) = (m_rsp m)\<lparr>r_halted := False, r_broke := False\<rparr>"
proof -
  have s: "sp_signal_step 5 i n = n" if "i < 8" for i n
  proof -
    have b: "bit (5 :: u32) k \<longleftrightarrow> k = 0 \<or> k = 2" for k
      using bit_iff_odd_drop_bit [of "5 :: u32" k] by (cases k) (auto simp: bit_simps)
    have "\<not> bit (5 :: u32) (9 + i * 2)" "\<not> bit (5 :: u32) (10 + i * 2)" unfolding b by simp_all
    then have "(5 :: u32) AND push_bit (9 + i * 2) 1 = 0" "(5 :: u32) AND push_bit (10 + i * 2) 1 = 0"
      by (simp_all only: push_bit_of_1 and_exp_eq_0_iff_not_bit not_False_eq_True)
    then show ?thesis by (simp only: sp_signal_step_def status_step_def not_True_eq_False if_False refl)
  qed
  have f: "fold (sp_signal_step 5) xs n = n" if "\<forall>i \<in> set xs. i < 8" for xs n
    using that by (induction xs) (simp_all add: s)
  have c: "r_dmem (m_rsp m) = m_dmem m" "r_imem (m_rsp m) = m_imem m"
    using assms by (simp_all add: machine_ok_def sp_coherent_def)
  have "m_rsp (sp_write 0x10 0x5 m)
      = (m_rsp m)\<lparr>r_halted := False, r_broke := False, r_dmem := m_dmem m, r_imem := m_imem m\<rparr>"
    by (simp add: sp_write_def apply_status_write_def f status_step_def upd_rsp_def upd_sp_def
        pull_mem_from_bus_def set_halted_def set_broke_def)
  also have "\<dots> = (m_rsp m)\<lparr>r_halted := False, r_broke := False\<rparr>"
    by (simp add: c [symmetric])
  finally show ?thesis .
qed

text \<open>\<open>BREAK\<close> halts the processor with both status flags set and, when asked to, raises the
  SP interrupt; but it leaves the program counter on itself, so that the processor restarted by a
  status write executes the same \<open>BREAK\<close> again.\<close>

theorem break_restarts_at_break:
  assumes "machine_ok m" "\<not> r_halted (m_rsp m)"
    and "i_op (rsp_fetch (r_pc (m_rsp m)) (m_rsp m)) = 0" "i_fn (rsp_fetch (r_pc (m_rsp m)) (m_rsp m)) = 0x0D"
  shows "let m1 = rsp_step m; m2 = sp_write 0x10 0x5 m1; m3 = rsp_step m2
    in r_halted (m_rsp m1) \<and> bit (sp_status (m_sp m1)) 0 \<and> bit (sp_status (m_sp m1)) 1
      \<and> \<not> r_halted (m_rsp m2) \<and> r_halted (m_rsp m3) \<and> r_pc (m_rsp m3) = r_pc (m_rsp m)"
proof -
  let ?m1 = "rsp_step m"
  let ?m2 = "sp_write 0x10 0x5 ?m1"
  note m1 = break_step [OF assms(2-4)]
  have ok: "machine_ok ?m1" by (rule rsp_step_ok [OF assms(1)])
  note m2 = resume_status [OF ok]
  have run: "\<not> r_halted (m_rsp ?m2)" and pc: "r_pc (m_rsp ?m2) = r_pc (m_rsp m)"
    and im: "r_imem (m_rsp ?m2) = r_imem (m_rsp m)"
    using m1 m2 by simp_all
  have f: "rsp_fetch (r_pc (m_rsp ?m2)) (m_rsp ?m2) = rsp_fetch (r_pc (m_rsp m)) (m_rsp m)"
    unfolding pc by (rule fetch_imem [OF im])
  note m3 = break_step [OF run, unfolded f, OF assms(3,4), unfolded pc]
  have "bit (sp_status (m_sp ?m1)) 0 \<and> bit (sp_status (m_sp ?m1)) 1"
    using ok m1 by (simp add: machine_ok_def sp_coherent_def)
  then show ?thesis unfolding Let_def using m1 run m3 by blast
qed

text \<open>A processor about to execute the instruction word \<open>0x0000000D\<close>.\<close>

definition at_break :: machine where
  "at_break = (let i = (\<lambda>k. if k = 3 then 0x0D else 0); m = machine_new []
    in m\<lparr>m_imem := i, m_rsp := (m_rsp m)\<lparr>r_imem := i, r_halted := False\<rparr>,
         m_sp := (m_sp m)\<lparr>sp_status := 0\<rparr>\<rparr>)"

theorem break_restarts_at_break_witness:
  "r_halted (m_rsp (rsp_step at_break)) \<and> r_pc (m_rsp (rsp_step at_break)) = 0
    \<and> r_halted (m_rsp (rsp_step (sp_write 0x10 0x5 (rsp_step at_break))))"
proof -
  have r: "m_rsp at_break = rsp_new\<lparr>r_imem := (\<lambda>k. if k = 3 then 0x0D else 0), r_halted := False\<rparr>"
    by (simp add: at_break_def Let_def)
  have ok: "machine_ok at_break"
    using machine_ok_new [of "[]"]
    by (simp add: at_break_def Let_def machine_ok_def sp_coherent_def rsp_new_def)
  have f: "rsp_fetch (r_pc (m_rsp at_break)) (m_rsp at_break) = 0x0D"
    by (simp add: r rsp_fetch_def rsp_new_def Let_def)
  have op: "i_op (0x0D :: u32) = 0" "i_fn (0x0D :: u32) = 0x0D" by (simp_all add: i_defs)
  have h: "\<not> r_halted (m_rsp at_break)" by (simp add: r)
  have "r_pc (m_rsp at_break) = 0" by (simp add: r rsp_new_def)
  with break_restarts_at_break [OF ok h] break_step [OF h] f op show ?thesis by (simp add: Let_def)
qed

end
