(* ===== verification/Host_Float.thy ===== *)
theory Host_Float
  imports Complex_Main Prelude
begin

text \<open>
  The floating-point arithmetic \<open>cpu/cop1.cpp\<close> takes from C++: the binary32 and binary64
  formats, the operators \<open>+ - * /\<close> and \<open>std::sqrt\<close> under a rounding mode set by
  \<open>std::fesetround\<close>, the conversions, and the exception flags \<open>std::fetestexcept\<close> reports.
  Numbers are decoded to a sign, an integer significand and a power of two, operated on exactly
  and rounded once. Underflow is detected after rounding, as on the x86 hosts. A NaN result is
  always replaced by the caller, so it is one value here.
\<close>

section \<open>Formats\<close>

datatype fformat = Single | Double

fun frac_bits :: "fformat \<Rightarrow> nat" where
  "frac_bits Single = 23" | "frac_bits Double = 52"

fun exp_bits :: "fformat \<Rightarrow> nat" where
  "exp_bits Single = 8" | "exp_bits Double = 11"

fun exp_bias :: "fformat \<Rightarrow> int" where
  "exp_bias Single = 127" | "exp_bias Double = 1023"

text \<open>The exponent of the last place of the smallest numbers.\<close>

definition min_exp :: "fformat \<Rightarrow> int" where
  "min_exp k = 1 - exp_bias k - int (frac_bits k)"

text \<open>\<open>FNum s m e\<close> is the number \<open>\<plusminus>m \<cdot> 2\<^sup>e\<close>, negative when \<open>s\<close>; the zeros have \<open>m = 0\<close>.\<close>

datatype fp = FNaN | FInf bool | FNum bool nat int

definition fp_of_bits :: "fformat \<Rightarrow> nat \<Rightarrow> fp" where
  "fp_of_bits k n =
    (let fr = n mod 2 ^ frac_bits k; ex = n div 2 ^ frac_bits k mod 2 ^ exp_bits k;
         s = odd (n div 2 ^ (frac_bits k + exp_bits k)) in
     if ex = 2 ^ exp_bits k - 1 then (if fr = 0 then FInf s else FNaN)
     else if ex = 0 then FNum s fr (min_exp k)
     else FNum s (2 ^ frac_bits k + fr) (int ex - exp_bias k - int (frac_bits k)))"

definition fp_neg :: "fp \<Rightarrow> fp" where
  "fp_neg x = (case x of FNaN \<Rightarrow> FNaN | FInf s \<Rightarrow> FInf (\<not> s) | FNum s m e \<Rightarrow> FNum (\<not> s) m e)"

definition fp_zero_p :: "fp \<Rightarrow> bool" where
  "fp_zero_p x = (case x of FNum _ m _ \<Rightarrow> m = 0 | _ \<Rightarrow> False)"

definition fp_inf_p :: "fp \<Rightarrow> bool" where
  "fp_inf_p x = (case x of FInf _ \<Rightarrow> True | _ \<Rightarrow> False)"

definition fp_finite_p :: "fp \<Rightarrow> bool" where
  "fp_finite_p x = (case x of FNum _ _ _ \<Rightarrow> True | _ \<Rightarrow> False)"

text \<open>Numbers below zero; the zeros and the NaNs are not.\<close>

definition fp_negative_p :: "fp \<Rightarrow> bool" where
  "fp_negative_p x = (case x of FNum s m _ \<Rightarrow> s \<and> m \<noteq> 0 | FInf s \<Rightarrow> s | FNaN \<Rightarrow> False)"

section \<open>Rounding\<close>

definition kFcr31FlagInexact :: u32 where "kFcr31FlagInexact = 0x4"
definition kFcr31FlagUnderflow :: u32 where "kFcr31FlagUnderflow = 0x8"
definition kFcr31FlagOverflow :: u32 where "kFcr31FlagOverflow = 0x10"
definition kFcr31FlagDivZero :: u32 where "kFcr31FlagDivZero = 0x20"
definition kFcr31FlagInvalid :: u32 where "kFcr31FlagInvalid = 0x40"

fun bit_length :: "nat \<Rightarrow> nat" where
  "bit_length n = (if n = 0 then 0 else Suc (bit_length (n div 2)))"

declare bit_length.simps [simp del]

text \<open>The quotient of \<open>m\<close>, or of a number just above it when \<open>sticky\<close>, by \<open>2\<^sup>d\<close>, rounded to an
  integer, and whether that lost anything.\<close>

definition round_shift :: "u32 \<Rightarrow> bool \<Rightarrow> nat \<Rightarrow> nat \<Rightarrow> bool \<Rightarrow> nat \<times> bool" where
  "round_shift rm s m d sticky =
    (let q = m div 2 ^ d; r = m mod 2 ^ d; inexact = (r \<noteq> 0 \<or> sticky);
         above = (2 * r > 2 ^ d \<or> 2 * r = 2 ^ d \<and> sticky); tie = (2 * r = 2 ^ d \<and> \<not> sticky);
         up = (if rm = 1 then False else if rm = 2 then inexact \<and> \<not> s
               else if rm = 3 then inexact \<and> s else above \<or> tie \<and> odd q)
     in (if up then q + 1 else q, inexact))"

definition round_at :: "u32 \<Rightarrow> bool \<Rightarrow> nat \<Rightarrow> int \<Rightarrow> bool \<Rightarrow> int \<Rightarrow> nat \<times> bool" where
  "round_at rm s m e sticky u =
    (if u < e then (m * 2 ^ nat (e - u), sticky) else round_shift rm s m (nat (u - e)) sticky)"

definition sign_weight :: "fformat \<Rightarrow> bool \<Rightarrow> nat" where
  "sign_weight k s = (if s then 2 ^ (frac_bits k + exp_bits k) else 0)"

definition inf_bits :: "fformat \<Rightarrow> nat" where
  "inf_bits k = (2 ^ exp_bits k - 1) * 2 ^ frac_bits k"

text \<open>The result of an overflow: an infinity or the largest finite number.\<close>

definition overflow_bits :: "fformat \<Rightarrow> u32 \<Rightarrow> bool \<Rightarrow> nat" where
  "overflow_bits k rm s =
    sign_weight k s + (if rm = 0 \<or> rm = 2 \<and> \<not> s \<or> rm = 3 \<and> s then inf_bits k else inf_bits k - 1)"

definition round_to :: "fformat \<Rightarrow> u32 \<Rightarrow> bool \<Rightarrow> nat \<Rightarrow> int \<Rightarrow> bool \<Rightarrow> nat \<times> u32" where
  "round_to k rm s m e sticky =
    (if m = 0 then (sign_weight k s, 0)
     else
      (let p = frac_bits k + 1; u0 = e + int (bit_length m) - int p; u = max u0 (min_exp k);
           (M0, inexact) = round_at rm s m e sticky u;
           (M, ex) = (if M0 = 2 ^ p then (2 ^ frac_bits k, u + 1) else (M0, u));
           field = (if M \<ge> 2 ^ frac_bits k then ex - min_exp k + 1 else 0);
           tiny = (u0 < min_exp k \<and> \<not> (fst (round_at rm s m e sticky u0) = 2 ^ p \<and> u0 + 1 = min_exp k))
       in if field \<ge> 2 ^ exp_bits k - 1
          then (overflow_bits k rm s, kFcr31FlagOverflow OR kFcr31FlagInexact)
          else (sign_weight k s + nat field * 2 ^ frac_bits k + M mod 2 ^ frac_bits k,
                (if inexact then kFcr31FlagInexact else 0)
                OR (if tiny \<and> inexact then kFcr31FlagUnderflow else 0))))"

definition host_nan :: "fformat \<Rightarrow> nat" where
  "host_nan k = inf_bits k + 2 ^ (frac_bits k - 1)"

section \<open>The operators\<close>

definition signed_mant :: "bool \<Rightarrow> nat \<Rightarrow> int" where
  "signed_mant s m = (if s then - int m else int m)"

fun fp_add :: "fformat \<Rightarrow> u32 \<Rightarrow> fp \<Rightarrow> fp \<Rightarrow> nat \<times> u32" where
  "fp_add k rm (FInf s) (FInf t) =
    (if s = t then (sign_weight k s + inf_bits k, 0) else (host_nan k, kFcr31FlagInvalid))"
| "fp_add k rm (FInf s) (FNum _ _ _) = (sign_weight k s + inf_bits k, 0)"
| "fp_add k rm (FNum _ _ _) (FInf t) = (sign_weight k t + inf_bits k, 0)"
| "fp_add k rm (FNum s m e) (FNum t n f) =
    (let g = min e f;
         v = signed_mant s (m * 2 ^ nat (e - g)) + signed_mant t (n * 2 ^ nat (f - g))
     in if v = 0 then (sign_weight k (if s = t then s else rm = 3), 0)
        else round_to k rm (v < 0) (nat \<bar>v\<bar>) g False)"
| "fp_add k rm _ _ = (host_nan k, 0)"

definition fp_sub :: "fformat \<Rightarrow> u32 \<Rightarrow> fp \<Rightarrow> fp \<Rightarrow> nat \<times> u32" where
  "fp_sub k rm x y = fp_add k rm x (fp_neg y)"

fun fp_mul :: "fformat \<Rightarrow> u32 \<Rightarrow> fp \<Rightarrow> fp \<Rightarrow> nat \<times> u32" where
  "fp_mul k rm (FInf s) (FInf t) = (sign_weight k (s \<noteq> t) + inf_bits k, 0)"
| "fp_mul k rm (FInf s) (FNum t n f) =
    (if n = 0 then (host_nan k, kFcr31FlagInvalid) else (sign_weight k (s \<noteq> t) + inf_bits k, 0))"
| "fp_mul k rm (FNum s m e) (FInf t) =
    (if m = 0 then (host_nan k, kFcr31FlagInvalid) else (sign_weight k (s \<noteq> t) + inf_bits k, 0))"
| "fp_mul k rm (FNum s m e) (FNum t n f) = round_to k rm (s \<noteq> t) (m * n) (e + f) False"
| "fp_mul k rm _ _ = (host_nan k, 0)"

text \<open>A quotient is taken with enough extra bits that only its sticky bit can be lost.\<close>

fun fp_div :: "fformat \<Rightarrow> u32 \<Rightarrow> fp \<Rightarrow> fp \<Rightarrow> nat \<times> u32" where
  "fp_div k rm (FInf s) (FInf t) = (host_nan k, kFcr31FlagInvalid)"
| "fp_div k rm (FInf s) (FNum t n f) = (sign_weight k (s \<noteq> t) + inf_bits k, 0)"
| "fp_div k rm (FNum s m e) (FInf t) = (sign_weight k (s \<noteq> t), 0)"
| "fp_div k rm (FNum s m e) (FNum t n f) =
    (if n = 0 then (if m = 0 then (host_nan k, kFcr31FlagInvalid)
                    else (sign_weight k (s \<noteq> t) + inf_bits k, kFcr31FlagDivZero))
     else (let w = frac_bits k + 3 + bit_length n
           in round_to k rm (s \<noteq> t) (m * 2 ^ w div n) (e - f - int w) (m * 2 ^ w mod n \<noteq> 0)))"
| "fp_div k rm _ _ = (host_nan k, 0)"

fun int_sqrt :: "nat \<Rightarrow> nat" where
  "int_sqrt n = (if n = 0 then 0
     else (let r = 2 * int_sqrt (n div 4) in if (r + 1) * (r + 1) \<le> n then r + 1 else r))"

declare int_sqrt.simps [simp del]

fun fp_sqrt :: "fformat \<Rightarrow> u32 \<Rightarrow> fp \<Rightarrow> nat \<times> u32" where
  "fp_sqrt k rm (FInf s) = (if s then (host_nan k, kFcr31FlagInvalid) else (inf_bits k, 0))"
| "fp_sqrt k rm (FNum s m e) =
    (if m = 0 then (sign_weight k s, 0)
     else if s then (host_nan k, kFcr31FlagInvalid)
     else (let w = 2 * (frac_bits k + 3) + nat (e mod 2); m' = m * 2 ^ w; root = int_sqrt m'
           in round_to k rm False root ((e - int w) div 2) (root * root \<noteq> m')))"
| "fp_sqrt k rm FNaN = (host_nan k, 0)"

text \<open>Conversion between the formats and from an integer.\<close>

definition fp_convert :: "fformat \<Rightarrow> u32 \<Rightarrow> fp \<Rightarrow> nat \<times> u32" where
  "fp_convert k rm x =
    (case x of FNaN \<Rightarrow> (host_nan k, 0)
     | FInf s \<Rightarrow> (sign_weight k s + inf_bits k, 0)
     | FNum s m e \<Rightarrow> round_to k rm s m e False)"

definition fp_of_int :: "int \<Rightarrow> fp" where
  "fp_of_int v = FNum (v < 0) (nat \<bar>v\<bar>) 0"

section \<open>Comparison and integers\<close>

text \<open>The order of two numbers, none of them a NaN: their difference by integers.\<close>

fun fp_less :: "fp \<Rightarrow> fp \<Rightarrow> bool" where
  "fp_less (FInf s) (FInf t) = (s \<and> \<not> t)"
| "fp_less (FInf s) (FNum _ _ _) = s"
| "fp_less (FNum _ _ _) (FInf t) = (\<not> t)"
| "fp_less (FNum s m e) (FNum t n f) =
    (let g = min e f in signed_mant s (m * 2 ^ nat (e - g)) < signed_mant t (n * 2 ^ nat (f - g)))"
| "fp_less _ _ = False"

fun fp_equal :: "fp \<Rightarrow> fp \<Rightarrow> bool" where
  "fp_equal (FInf s) (FInf t) = (s = t)"
| "fp_equal (FNum s m e) (FNum t n f) =
    (let g = min e f in signed_mant s (m * 2 ^ nat (e - g)) = signed_mant t (n * 2 ^ nat (f - g)))"
| "fp_equal _ _ = False"

text \<open>\<open>rounded_integer\<close> of \<open>\<plusminus>m \<cdot> 2\<^sup>e\<close>, and whether it equals its argument.\<close>

definition rounded_integer :: "u32 \<Rightarrow> bool \<Rightarrow> nat \<Rightarrow> int \<Rightarrow> int \<times> bool" where
  "rounded_integer rm s m e =
    (if e \<ge> 0 then (signed_mant s (m * 2 ^ nat e), True)
     else
      (let d = 2 ^ nat (- e) :: int; v = signed_mant s m; lower = v div d; fraction = v mod d;
           q = rm AND 3;
           r = (if q = 1 then (if v \<ge> 0 then lower else - (- v div d))
                else if q = 2 then - (- v div d)
                else if q = 3 then lower
                else if 2 * fraction < d then lower
                else if 2 * fraction > d then lower + 1
                else if even lower then lower else lower + 1)
       in (r, r * d = v)))"

definition int_min :: "nat \<Rightarrow> int" where "int_min w = - (2 ^ (w - 1))"

definition convert_to_integer :: "nat \<Rightarrow> fp \<Rightarrow> u32 \<Rightarrow> int \<times> u32" where
  "convert_to_integer w source rm =
    (case source of
       FNum s m e \<Rightarrow>
         (case rounded_integer rm s m e of (rounded, exact) \<Rightarrow>
           (if rounded < int_min w \<or> rounded \<ge> - int_min w then (int_min w, kFcr31FlagInvalid)
            else (rounded, if \<not> exact then kFcr31FlagInexact else 0)))
     | _ \<Rightarrow> (int_min w, kFcr31FlagInvalid))"

section \<open>The arithmetic instructions' helper\<close>

definition host_operation :: "fformat \<Rightarrow> u32 \<Rightarrow> fp \<Rightarrow> fp \<Rightarrow> u32 \<Rightarrow> nat \<times> u32" where
  "host_operation k function lhs rhs rm =
    (if function = 0x00 then fp_add k rm lhs rhs
     else if function = 0x01 then fp_sub k rm lhs rhs
     else if function = 0x02 then fp_mul k rm lhs rhs
     else if function = 0x03 then fp_div k rm lhs rhs
     else if function = 0x04 then fp_sqrt k rm lhs
     else (0, 0))"

definition calculate_arithmetic :: "fformat \<Rightarrow> u32 \<Rightarrow> fp \<Rightarrow> fp \<Rightarrow> u32 \<Rightarrow> nat \<times> u32" where
  "calculate_arithmetic k function lhs rhs rm =
    (let (result, flags0) = host_operation k function lhs rhs rm;
         flags1 = (if function = 0x03 \<and> fp_zero_p rhs then
                     (if fp_zero_p lhs \<or> lhs = FNaN
                      then (flags0 OR kFcr31FlagInvalid) AND NOT kFcr31FlagDivZero
                      else if fp_finite_p lhs then flags0 OR kFcr31FlagDivZero else flags0)
                   else flags0);
         flags2 = (if function = 0x04 \<and> fp_negative_p lhs then flags1 OR kFcr31FlagInvalid else flags1);
         flags3 = (if function = 0x02 \<and> (fp_inf_p lhs \<and> fp_zero_p rhs \<or> fp_inf_p rhs \<and> fp_zero_p lhs)
                   then flags2 OR kFcr31FlagInvalid else flags2);
         flags4 = (if fp_inf_p (fp_of_bits k result) \<and> fp_finite_p lhs \<and> fp_finite_p rhs
                     \<and> (function \<noteq> 0x03 \<or> \<not> fp_zero_p rhs)
                   then flags3 OR (kFcr31FlagOverflow OR kFcr31FlagInexact) else flags3)
     in (result, flags4))"

definition convert_floating :: "fformat \<Rightarrow> fp \<Rightarrow> u32 \<Rightarrow> nat \<times> u32" where
  "convert_floating k source rm =
    (let (output, flags) = fp_convert k rm source
     in (output, if fp_finite_p source \<and> fp_inf_p (fp_of_bits k output)
                 then flags OR (kFcr31FlagOverflow OR kFcr31FlagInexact) else flags))"

section \<open>Integer square root\<close>

lemma int_sqrt_root: "int_sqrt n * int_sqrt n \<le> n \<and> n < (int_sqrt n + 1) * (int_sqrt n + 1)"
proof (induction n rule: int_sqrt.induct)
  case (1 n)
  show ?case
  proof (cases "n = 0")
    case False
    define q where "q = int_sqrt (n div 4)"
    have q: "q * q \<le> n div 4" "n div 4 < (q + 1) * (q + 1)"
      using 1 [OF False] by (simp_all add: q_def)
    have "n < (2 * q + 2) * (2 * q + 2)"
    proof -
      have "n < 4 * (n div 4 + 1)" by simp
      also have "\<dots> \<le> 4 * ((q + 1) * (q + 1))" using q(2) by simp
      finally show ?thesis by (simp add: algebra_simps)
    qed
    moreover have "2 * q * (2 * q) \<le> n"
    proof -
      have "4 * (q * q) \<le> 4 * (n div 4)" using q(1) by simp
      also have "\<dots> \<le> n" by simp
      finally show ?thesis by (simp add: algebra_simps)
    qed
    moreover have "int_sqrt n = (if (2 * q + 1) * (2 * q + 1) \<le> n then 2 * q + 1 else 2 * q)"
      using False by (subst int_sqrt.simps) (simp add: Let_def q_def)
    ultimately show ?thesis by (simp add: algebra_simps)
  qed (simp add: int_sqrt.simps)
qed

section \<open>Bit lengths\<close>

lemma bit_length_bounds: "n \<noteq> 0 \<Longrightarrow> 2 ^ (bit_length n - 1) \<le> n \<and> n < 2 ^ bit_length n"
proof (induction n rule: bit_length.induct)
  case (1 n)
  show ?case
  proof (cases "n div 2 = 0")
    case True
    then have "n = 1" using "1.prems" by simp
    then show ?thesis by (simp add: bit_length.simps)
  next
    case False
    have L: "bit_length n = Suc (bit_length (n div 2))" using "1.prems" by (subst bit_length.simps) simp
    have "bit_length (n div 2) \<noteq> 0" using False by (simp add: bit_length.simps)
    then obtain j where j: "bit_length (n div 2) = Suc j" by (cases "bit_length (n div 2)") auto
    have "2 ^ j \<le> n div 2" "n div 2 < 2 ^ Suc j" using 1 False j by auto
    then have "2 * 2 ^ j \<le> n" "n < 2 * 2 ^ Suc j" by linarith+
    then show ?thesis by (simp add: L j)
  qed
qed

lemma bit_length_unique:
  assumes "2 ^ j \<le> n" "n < 2 ^ Suc j" shows "bit_length n = Suc j"
proof -
  have n: "n \<noteq> 0" using assms(1) by (metis le_zero_eq power_not_zero zero_neq_numeral)
  note b = bit_length_bounds [OF n]
  have "bit_length n > j" using b assms(1) by (metis linorder_not_less power_increasing order.strict_trans1 one_le_numeral le_less_trans)
  moreover have "bit_length n - 1 < Suc j"
    using b assms(2) by (metis le_less_trans power_less_imp_less_exp one_less_numeral_iff semiring_norm(76))
  ultimately show ?thesis by simp
qed

lemma bit_length_le: assumes "n < 2 ^ j" shows "bit_length n \<le> j"
proof (cases "n = 0")
  case False
  have "(2::nat) ^ (bit_length n - 1) < 2 ^ j" using bit_length_bounds [OF False] assms by linarith
  then have "bit_length n - 1 < j" by simp
  then show ?thesis by simp
qed (simp add: bit_length.simps)

section \<open>Exact results\<close>

text \<open>A number that already has its place in the format is encoded unchanged.\<close>

lemma round_at_same: "round_at rm s m e False e = (m, False)"
  by (simp add: round_at_def round_shift_def Let_def)

lemma round_to_exact:
  assumes "m \<noteq> 0" "max (e + int (bit_length m) - int (frac_bits k + 1)) (min_exp k) = e" "m < 2 ^ (frac_bits k + 1)"
    and "m \<ge> 2 ^ frac_bits k \<Longrightarrow> e - min_exp k + 1 < 2 ^ exp_bits k - 1"
  shows "round_to k rm s m e False =
    (sign_weight k s + (if m \<ge> 2 ^ frac_bits k then nat (e - min_exp k + 1) * 2 ^ frac_bits k else 0)
       + m mod 2 ^ frac_bits k, 0)"
proof -
  have E: "(0::int) < 2 ^ exp_bits k - 1" by (cases k) simp_all
  show ?thesis
    using assms E unfolding round_to_def Let_def assms(2) round_at_same by auto
qed

lemma encoding_fields:
  assumes "n < 2 ^ (frac_bits k + exp_bits k + 1)"
  shows "n = sign_weight k (odd (n div 2 ^ (frac_bits k + exp_bits k)))
    + (n div 2 ^ frac_bits k mod 2 ^ exp_bits k) * 2 ^ frac_bits k + n mod 2 ^ frac_bits k"
proof -
  let ?F = "frac_bits k" and ?E = "exp_bits k"
  have "n div 2 ^ (?F + ?E) < 2" using assms by (simp add: less_mult_imp_div_less mult.commute)
  then have hi: "2 ^ (?F + ?E) * (n div 2 ^ (?F + ?E)) = sign_weight k (odd (n div 2 ^ (?F + ?E)))"
    by (cases "n div 2 ^ (?F + ?E) = 0") (auto simp: sign_weight_def less_2_cases_iff)
  have "n div 2 ^ ?F = n div 2 ^ ?F mod 2 ^ ?E + 2 ^ ?E * (n div 2 ^ (?F + ?E))"
    by (simp add: power_add div_mult2_eq)
  then have "n = (n div 2 ^ ?F mod 2 ^ ?E + 2 ^ ?E * (n div 2 ^ (?F + ?E))) * 2 ^ ?F + n mod 2 ^ ?F"
    using div_mult_mod_eq [of n "2 ^ ?F"] by simp
  then show ?thesis unfolding hi [symmetric] by (simp add: algebra_simps power_add)
qed

text \<open>decoding the bits of a number and converting it to its own format gives the same bits back, in
  every rounding mode and raising no flag: infinities, zeros of both signs, normal and subnormal numbers.\<close>

theorem encode_decode:
  assumes "n < 2 ^ (frac_bits k + exp_bits k + 1)" "fp_of_bits k n \<noteq> FNaN"
  shows "fp_convert k rm (fp_of_bits k n) = (n, 0)"
proof -
  let ?F = "frac_bits k" and ?E = "exp_bits k"
  define fr where "fr = n mod 2 ^ ?F"
  define ex where "ex = n div 2 ^ ?F mod 2 ^ ?E"
  define sg where "sg = odd (n div 2 ^ (?F + ?E))"
  have n: "n = sign_weight k sg + ex * 2 ^ ?F + fr"
    using encoding_fields [OF assms(1)] by (simp add: fr_def ex_def sg_def)
  have fr: "fr < 2 ^ ?F" and ex: "ex < 2 ^ ?E" by (simp_all add: fr_def ex_def)
  have d: "fp_of_bits k n = (if ex = 2 ^ ?E - 1 then (if fr = 0 then FInf sg else FNaN)
     else if ex = 0 then FNum sg fr (min_exp k)
     else FNum sg (2 ^ ?F + fr) (int ex - exp_bias k - int ?F))"
    by (simp add: fp_of_bits_def Let_def fr_def ex_def sg_def)
  consider "ex = 2 ^ ?E - 1" "fr = 0" | "ex = 0" "fr = 0" | "ex = 0" "fr \<noteq> 0" | "ex \<noteq> 0" "ex \<noteq> 2 ^ ?E - 1"
    using assms(2) unfolding d by fastforce
  then show ?thesis
  proof cases
    case 1
    then show ?thesis unfolding d fp_convert_def by (simp add: n inf_bits_def)
  next
    case 2
    then have "(0::nat) \<noteq> 2 ^ ?E - 1" by (cases k) simp_all
    with 2 show ?thesis unfolding d fp_convert_def by (simp add: n round_to_def)
  next
    case 3
    have z: "(0::nat) \<noteq> 2 ^ ?E - 1" by (cases k) simp_all
    have "bit_length fr \<le> ?F" using fr by (rule bit_length_le)
    then have "round_to k rm sg fr (min_exp k) False = (sign_weight k sg + fr, 0)"
      using 3(2) fr by (subst round_to_exact) auto
    with 3 z show ?thesis unfolding d fp_convert_def by (simp add: n)
  next
    case 4
    let ?m = "2 ^ ?F + fr" and ?e = "int ex - exp_bias k - int ?F"
    have L: "bit_length ?m = Suc ?F" using fr by (intro bit_length_unique) auto
    have field: "?e - min_exp k + 1 = int ex" by (simp add: min_exp_def)
    have "int ex < 2 ^ ?E - 1" using 4 ex by (cases k) simp_all
    moreover have "?e \<ge> min_exp k" using 4 by (simp add: min_exp_def)
    ultimately have "round_to k rm sg ?m ?e False = (sign_weight k sg + ex * 2 ^ ?F + fr, 0)"
      using fr L by (subst round_to_exact) (auto simp: field)
    with 4 show ?thesis unfolding d fp_convert_def by (simp add: n)
  qed
qed

theorem encode_decode_witness:
  "fp_convert Double 3 (fp_of_bits Double 0x8000000000000001) = (0x8000000000000001, 0)"
  by (rule encode_decode) (simp_all add: fp_of_bits_def Let_def)

section \<open>Rounding to an integer\<close>

definition fp_rat :: "bool \<Rightarrow> nat \<Rightarrow> int \<Rightarrow> rat" where
  "fp_rat s m e = (if e \<ge> 0 then of_int (signed_mant s m * 2 ^ nat e)
     else of_int (signed_mant s m) / of_int (2 ^ nat (- e)))"

text \<open>The four rounding modes of the integer conversions: to the nearest with ties to even,
  towards zero, up and down, on the exact value.\<close>

theorem rounded_integer_modes:
  "fst (rounded_integer 3 s m e) = \<lfloor>fp_rat s m e\<rfloor>
    \<and> fst (rounded_integer 2 s m e) = \<lceil>fp_rat s m e\<rceil>
    \<and> fst (rounded_integer 1 s m e) = (if fp_rat s m e \<ge> 0 then \<lfloor>fp_rat s m e\<rfloor> else \<lceil>fp_rat s m e\<rceil>)
    \<and> (let r = fst (rounded_integer 0 s m e); d = \<bar>of_int r - fp_rat s m e\<bar>
       in d < 1 / 2 \<or> d = 1 / 2 \<and> even r)
    \<and> snd (rounded_integer rm s m e) = (of_int (fst (rounded_integer rm s m e)) = fp_rat s m e)"
proof (cases "e \<ge> 0")
  case True
  define i where "i = signed_mant s (m * 2 ^ nat e)"
  have "fp_rat s m e = of_int i" using True by (simp add: fp_rat_def i_def signed_mant_def)
  moreover have "rounded_integer q s m e = (i, True)" for q using True by (simp add: rounded_integer_def i_def)
  ultimately show ?thesis by simp
next
  case False
  define d :: int where "d = 2 ^ nat (- e)"
  define v where "v = signed_mant s m"
  have d: "d > 0" by (simp add: d_def)
  have x: "fp_rat s m e = of_int v / of_int d" using False by (simp add: fp_rat_def v_def d_def)
  have fl: "\<lfloor>of_int v / (of_int d :: rat)\<rfloor> = v div d" by (rule floor_divide_of_int_eq)
  have ce: "\<lceil>of_int v / (of_int d :: rat)\<rceil> = - (- v div d)"
    using floor_divide_of_int_eq [of "- v" d, where 'a = rat] by (simp add: ceiling_def)
  define g :: rat where "g = of_int (v mod d) / of_int d"
  have frac: "of_int v / of_int d = of_int (v div d) + g"
    unfolding g_def using d div_mult_mod_eq [of v d]
    by (simp add: field_simps flip: of_int_mult of_int_add)
  have ge: "(fp_rat s m e \<ge> 0) = (v \<ge> 0)" using d by (simp add: x zero_le_divide_iff)
  have exact: "r * d = v \<longleftrightarrow> of_int r = of_int v / (of_int d :: rat)" for r
    using d by (simp add: field_simps flip: of_int_mult)
  have f: "0 \<le> g" "g < 1" "(2 * (v mod d) < d) = (g < 1 / 2)" "(2 * (v mod d) > d) = (g > 1 / 2)"
    unfolding g_def
    using d pos_mod_sign [OF d, of v] pos_mod_bound [OF d, of v]
      of_int_less_iff [of "2 * (v mod d)" d, where 'a = rat] of_int_less_iff [of d "2 * (v mod d)", where 'a = rat]
    by (simp_all only: of_int_mult of_int_numeral) (simp_all add: field_simps)
  have near: "let r = fst (rounded_integer 0 s m e); dist = \<bar>of_int r - fp_rat s m e\<bar>
      in dist < 1 / 2 \<or> dist = 1 / 2 \<and> even r"
    using f False unfolding x frac
    by (auto simp: rounded_integer_def Let_def v_def [symmetric] d_def [symmetric])
  show ?thesis
    unfolding ge using near False
    by (auto simp: rounded_integer_def Let_def x fl ce exact v_def [symmetric] d_def [symmetric])
qed

end
