(* ===== verification/Cop1.thy ===== *)
theory Cop1
  imports Host_Float Cpu_Alu
begin

text \<open>
  The floating-point coprocessor (\<open>cpu/cop1.cpp\<close>): the register file in its two modes, the
  control register with its cause, enable and flag bits, the operand checks, and every format
  instruction on top of the host arithmetic of \<open>Host_Float\<close>.
\<close>

section \<open>Bit patterns\<close>

definition kStatusFr :: u32 where "kStatusFr = 0x04000000"
definition kFcr31RmMask :: u32 where "kFcr31RmMask = 0x3"
definition kFcr31FlagMask :: u32 where "kFcr31FlagMask = 0x7C"
definition kFcr31EnableMask :: u32 where "kFcr31EnableMask = 0xF80"
definition kFcr31CauseMask :: u32 where "kFcr31CauseMask = 0x3F000"
definition kFcr31CauseUnimplemented :: u32 where "kFcr31CauseUnimplemented = 0x20000"
definition kFcr31Condition :: u32 where "kFcr31Condition = 0x800000"
definition kFcr31FlushSubnormals :: u32 where "kFcr31FlushSubnormals = 0x1000000"
definition kFcr31WritableMask :: u32 where "kFcr31WritableMask = 0x0183FFFF"
definition kFcr0Implementation :: u32 where "kFcr0Implementation = 0xB00"

definition kCanonicalQuietNan32 :: u32 where "kCanonicalQuietNan32 = 0x7FBFFFFF"
definition kCanonicalQuietNan64 :: u64 where "kCanonicalQuietNan64 = 0x7FF7FFFFFFFFFFFF"

datatype input_issue = NoIssue | InvalidOperand | UnimplementedOperand

definition is_nan32 :: "u32 \<Rightarrow> bool" where
  "is_nan32 b \<longleftrightarrow> b AND 0x7F800000 = 0x7F800000 \<and> b AND 0x007FFFFF \<noteq> 0"

definition is_nan64 :: "u64 \<Rightarrow> bool" where
  "is_nan64 b \<longleftrightarrow> b AND 0x7FF0000000000000 = 0x7FF0000000000000 \<and> b AND 0x000FFFFFFFFFFFFF \<noteq> 0"

definition is_signaling_nan32 :: "u32 \<Rightarrow> bool" where
  "is_signaling_nan32 b \<longleftrightarrow> is_nan32 b \<and> b AND 0x00400000 \<noteq> 0"

definition is_signaling_nan64 :: "u64 \<Rightarrow> bool" where
  "is_signaling_nan64 b \<longleftrightarrow> is_nan64 b \<and> b AND 0x0008000000000000 \<noteq> 0"

definition is_subnormal32 :: "u32 \<Rightarrow> bool" where
  "is_subnormal32 b \<longleftrightarrow> b AND 0x7F800000 = 0 \<and> b AND 0x007FFFFF \<noteq> 0"

definition is_subnormal64 :: "u64 \<Rightarrow> bool" where
  "is_subnormal64 b \<longleftrightarrow> b AND 0x7FF0000000000000 = 0 \<and> b AND 0x000FFFFFFFFFFFFF \<noteq> 0"

definition classify_operand32 :: "u32 \<Rightarrow> input_issue" where
  "classify_operand32 b =
    (if is_signaling_nan32 b then InvalidOperand
     else if is_nan32 b \<or> is_subnormal32 b then UnimplementedOperand else NoIssue)"

definition classify_operand64 :: "u64 \<Rightarrow> input_issue" where
  "classify_operand64 b =
    (if is_signaling_nan64 b then InvalidOperand
     else if is_nan64 b \<or> is_subnormal64 b then UnimplementedOperand else NoIssue)"

definition float_of :: "u32 \<Rightarrow> fp" where "float_of b = fp_of_bits Single (unat b)"
definition double_of :: "u64 \<Rightarrow> fp" where "double_of b = fp_of_bits Double (unat b)"

section \<open>The register file\<close>

definition fpu_fr_mode :: "cpu \<Rightarrow> bool" where
  "fpu_fr_mode c \<longleftrightarrow> c_cop0 c Cop0_Status AND kStatusFr \<noteq> 0"

definition read_fpr_word :: "u32 \<Rightarrow> cpu \<Rightarrow> u32" where
  "read_fpr_word idx c = ucast (c_fpr c (idx AND 31))"

definition write_fpr_word :: "u32 \<Rightarrow> u32 \<Rightarrow> cpu \<Rightarrow> cpu" where
  "write_fpr_word idx v c =
    c\<lparr>c_fpr := (c_fpr c)(idx AND 31 := (c_fpr c (idx AND 31) AND 0xFFFFFFFF00000000) OR ucast v)\<rparr>"

text \<open>In the 32-bit mode a double lives in an even-odd pair; an odd index is refused.\<close>

definition read_fpr_double :: "u32 \<Rightarrow> cpu \<Rightarrow> u64 option" where
  "read_fpr_double idx0 c =
    (let idx = idx0 AND 31 in
     if fpu_fr_mode c then Some (c_fpr c idx)
     else if idx AND 1 \<noteq> 0 then None
     else Some (ucast (read_fpr_word idx c) OR push_bit 32 (ucast (read_fpr_word (idx + 1) c))))"

definition write_fpr_double :: "u32 \<Rightarrow> u64 \<Rightarrow> cpu \<Rightarrow> cpu option" where
  "write_fpr_double idx0 v c =
    (let idx = idx0 AND 31 in
     if fpu_fr_mode c then Some (c\<lparr>c_fpr := (c_fpr c)(idx := v)\<rparr>)
     else if idx AND 1 \<noteq> 0 then None
     else Some (write_fpr_word (idx + 1) (ucast (drop_bit 32 v)) (write_fpr_word idx (ucast v) c)))"

section \<open>Exceptions\<close>

definition set_fcr31 :: "u32 \<Rightarrow> cpu \<Rightarrow> cpu" where
  "set_fcr31 v c = c\<lparr>c_fcr31 := v\<rparr>"

definition finish_fpu_operation :: "u32 \<Rightarrow> cpu \<Rightarrow> bool \<times> cpu" where
  "finish_fpu_operation flags0 c =
    (let flags = flags0 AND kFcr31FlagMask;
         c1 = set_fcr31 ((c_fcr31 c AND NOT kFcr31CauseMask) OR push_bit 10 flags) c;
         enabled = drop_bit 5 (c_fcr31 c1 AND kFcr31EnableMask)
     in if flags AND enabled \<noteq> 0 then (False, raise_plain Exc_FPE c1)
        else (True, set_fcr31 (c_fcr31 c1 OR flags) c1))"

definition raise_fpu_unimplemented :: "cpu \<Rightarrow> cpu" where
  "raise_fpu_unimplemented c =
    raise_plain Exc_FPE (set_fcr31 ((c_fcr31 c AND NOT kFcr31CauseMask) OR kFcr31CauseUnimplemented) c)"

text \<open>\<open>if (finish_fpu_operation(flags)) \<dots>\<close>\<close>

definition finish_then :: "u32 \<Rightarrow> (cpu \<Rightarrow> cpu) \<Rightarrow> cpu \<Rightarrow> cpu" where
  "finish_then flags f c = (case finish_fpu_operation flags c of (ok, c1) \<Rightarrow> if ok then f c1 else c1)"

text \<open>\<open>(void)write_fpr_double\<close>\<close>

definition put_double :: "u32 \<Rightarrow> u64 \<Rightarrow> cpu \<Rightarrow> cpu" where
  "put_double idx v c = (case write_fpr_double idx v c of Some c1 \<Rightarrow> c1 | None \<Rightarrow> c)"

section \<open>Results\<close>

definition toward_infinity :: "u32 \<Rightarrow> bool \<Rightarrow> bool" where
  "toward_infinity rm positive \<longleftrightarrow> rm = 0 \<or> rm = 2 \<and> positive \<or> rm = 3 \<and> \<not> positive"

definition toward_minimum_normal :: "u32 \<Rightarrow> bool \<Rightarrow> bool" where
  "toward_minimum_normal rm positive \<longleftrightarrow> rm = 2 \<and> positive \<or> rm = 3 \<and> \<not> positive"

definition subnormal_unimplemented :: "cpu \<Rightarrow> bool" where
  "subnormal_unimplemented c \<longleftrightarrow>
    c_fcr31 c AND kFcr31FlushSubnormals = 0 \<or> c_fcr31 c AND (0x100 OR 0x80) \<noteq> 0"

definition handle_single_result :: "u32 \<Rightarrow> u32 \<Rightarrow> nat \<times> u32 \<Rightarrow> cpu \<Rightarrow> cpu" where
  "handle_single_result fd rm res c =
    (let flags = snd res; raw0 = of_nat (fst res) :: u32;
         raw1 = (if flags AND kFcr31FlagInvalid \<noteq> 0 then kCanonicalQuietNan32 else raw0);
         sgn = raw1 AND 0x80000000;
         raw2 = (if flags AND kFcr31FlagOverflow \<noteq> 0
                 then sgn OR (if toward_infinity rm (sgn = 0) then 0x7F800000 else 0x7F7FFFFF) else raw1)
     in if flags AND kFcr31FlagUnderflow \<noteq> 0 \<or> is_subnormal32 raw2 then
          (if subnormal_unimplemented c then raise_fpu_unimplemented c
           else (let sgn2 = raw2 AND 0x80000000
                 in finish_then (flags OR (kFcr31FlagUnderflow OR kFcr31FlagInexact))
                      (write_fpr_word fd (sgn2 OR (if toward_minimum_normal rm (sgn2 = 0) then 0x00800000 else 0))) c))
        else finish_then flags (write_fpr_word fd raw2) c)"

definition finish_double :: "u32 \<Rightarrow> u32 \<Rightarrow> u64 \<Rightarrow> cpu \<Rightarrow> cpu" where
  "finish_double fd flags raw c =
    (if \<not> fpu_fr_mode c \<and> fd AND 1 \<noteq> 0 then raise_fpu_unimplemented c
     else finish_then flags (put_double fd raw) c)"

definition handle_double_result :: "u32 \<Rightarrow> u32 \<Rightarrow> nat \<times> u32 \<Rightarrow> cpu \<Rightarrow> cpu" where
  "handle_double_result fd rm res c =
    (let flags = snd res; raw0 = of_nat (fst res) :: u64;
         raw1 = (if flags AND kFcr31FlagInvalid \<noteq> 0 then kCanonicalQuietNan64 else raw0);
         sgn = raw1 AND 0x8000000000000000;
         raw2 = (if flags AND kFcr31FlagOverflow \<noteq> 0
                 then sgn OR (if toward_infinity rm (sgn = 0) then 0x7FF0000000000000 else 0x7FEFFFFFFFFFFFFF)
                 else raw1)
     in if flags AND kFcr31FlagUnderflow \<noteq> 0 \<or> is_subnormal64 raw2 then
          (if subnormal_unimplemented c then raise_fpu_unimplemented c
           else (let sgn2 = raw2 AND 0x8000000000000000
                 in finish_double fd (flags OR (kFcr31FlagUnderflow OR kFcr31FlagInexact))
                      (sgn2 OR (if toward_minimum_normal rm (sgn2 = 0) then 0x0010000000000000 else 0)) c))
        else finish_double fd flags raw2 c)"

text \<open>Of the issues of two operands, an unimplemented one decides.\<close>

definition merge_issue :: "input_issue \<Rightarrow> input_issue \<Rightarrow> input_issue" where
  "merge_issue fs_issue ft_issue =
    (if fs_issue = NoIssue \<or> ft_issue = UnimplementedOperand then ft_issue else fs_issue)"

section \<open>Format instructions\<close>

definition rounding_mode :: "cpu \<Rightarrow> u32" where
  "rounding_mode c = c_fcr31 c AND kFcr31RmMask"

definition fpu_arith_single :: "u32 \<Rightarrow> cpu \<Rightarrow> cpu" where
  "fpu_arith_single insn c =
    (let ft = i_rt insn; fs = i_rd insn; fd = i_sa insn; f = i_fn insn; rm = rounding_mode c;
         fs_raw = read_fpr_word fs c;
         issue = (if f \<le> 3 then merge_issue (classify_operand32 fs_raw) (classify_operand32 (read_fpr_word ft c))
                  else classify_operand32 fs_raw) in
     if f = 6 then write_fpr_word fd fs_raw c
     else if issue = UnimplementedOperand then raise_fpu_unimplemented c
     else if issue = InvalidOperand
       then handle_single_result fd rm (unat kCanonicalQuietNan32, kFcr31FlagInvalid) c
     else if f = 5 then finish_then 0 (write_fpr_word fd (fs_raw AND 0x7FFFFFFF)) c
     else if f = 7 then finish_then 0 (write_fpr_word fd (fs_raw XOR 0x80000000)) c
     else handle_single_result fd rm
            (calculate_arithmetic Single f (float_of fs_raw) (float_of (read_fpr_word ft c)) rm) c)"

definition fpu_arith_double :: "u32 \<Rightarrow> cpu \<Rightarrow> cpu" where
  "fpu_arith_double insn c =
    (let ft = i_rt insn; fs = i_rd insn; fd = i_sa insn; f = i_fn insn; rm = rounding_mode c in
     case (read_fpr_double fs c, if f \<le> 3 then read_fpr_double ft c else Some 0) of
       (Some fs_raw, Some ft_raw) \<Rightarrow>
        (let issue = (if f \<le> 3 then merge_issue (classify_operand64 fs_raw) (classify_operand64 ft_raw)
                      else classify_operand64 fs_raw) in
         if f = 6 then (case write_fpr_double fd fs_raw c of Some c1 \<Rightarrow> c1 | None \<Rightarrow> raise_fpu_unimplemented c)
         else if issue = UnimplementedOperand then raise_fpu_unimplemented c
         else if issue = InvalidOperand
           then handle_double_result fd rm (unat kCanonicalQuietNan64, kFcr31FlagInvalid) c
         else if f = 5 then handle_double_result fd rm (unat (fs_raw AND 0x7FFFFFFFFFFFFFFF), 0) c
         else if f = 7 then handle_double_result fd rm (unat (fs_raw XOR 0x8000000000000000), 0) c
         else handle_double_result fd rm
                (calculate_arithmetic Double f (double_of fs_raw) (double_of ft_raw) rm) c)
     | _ \<Rightarrow> raise_fpu_unimplemented c)"

text \<open>The outcome of a comparison: unordered, equal, less, and whether it is invalid.\<close>

record comparison =
  cmp_unordered :: bool
  cmp_equal :: bool
  cmp_less :: bool
  cmp_invalid :: bool

definition compare_fp :: "u32 \<Rightarrow> bool \<Rightarrow> bool \<Rightarrow> fp \<Rightarrow> fp \<Rightarrow> comparison" where
  "compare_fp condition_code unordered signaling lhs rhs =
    \<lparr>cmp_unordered = unordered,
     cmp_equal = (\<not> unordered \<and> fp_equal lhs rhs), cmp_less = (\<not> unordered \<and> fp_less lhs rhs),
     cmp_invalid = (signaling \<or> unordered \<and> condition_code AND 8 \<noteq> 0)\<rparr>"

definition finish_compare :: "u32 \<Rightarrow> comparison \<Rightarrow> cpu \<Rightarrow> cpu" where
  "finish_compare condition_code r c =
    finish_then (if cmp_invalid r then kFcr31FlagInvalid else 0)
      (\<lambda>c1. if cmp_unordered r \<and> condition_code AND 1 \<noteq> 0 \<or> cmp_equal r \<and> condition_code AND 2 \<noteq> 0
                \<or> cmp_less r \<and> condition_code AND 4 \<noteq> 0
             then set_fcr31 (c_fcr31 c1 OR kFcr31Condition) c1
             else set_fcr31 (c_fcr31 c1 AND NOT kFcr31Condition) c1) c"

definition fpu_compare :: "u32 \<Rightarrow> cpu \<Rightarrow> cpu" where
  "fpu_compare insn c =
    (let ft = i_rt insn; fs = i_rd insn; cc = i_fn insn AND 0xF in
     if i_rs insn = 0x10 then
       (let a = read_fpr_word fs c; b = read_fpr_word ft c
        in finish_compare cc (compare_fp cc (is_nan32 a \<or> is_nan32 b)
             (is_signaling_nan32 a \<or> is_signaling_nan32 b) (float_of a) (float_of b)) c)
     else
       (case (read_fpr_double fs c, read_fpr_double ft c) of
          (Some a, Some b) \<Rightarrow> finish_compare cc (compare_fp cc (is_nan64 a \<or> is_nan64 b)
             (is_signaling_nan64 a \<or> is_signaling_nan64 b) (double_of a) (double_of b)) c
        | _ \<Rightarrow> raise_fpu_unimplemented c))"

definition fpu_to_integer :: "u32 \<Rightarrow> cpu \<Rightarrow> cpu" where
  "fpu_to_integer insn c =
    (let fs = i_rd insn; fd = i_sa insn; f = i_fn insn;
         operand = (if i_rs insn = 0x10
                    then Some (classify_operand32 (read_fpr_word fs c), float_of (read_fpr_word fs c))
                    else map_option (\<lambda>raw. (classify_operand64 raw, double_of raw)) (read_fpr_double fs c)) in
     if i_rs insn \<noteq> 0x10 \<and> i_rs insn \<noteq> 0x11 then raise_fpu_unimplemented c
     else case operand of
       None \<Rightarrow> raise_fpu_unimplemented c
     | Some (issue, source) \<Rightarrow>
        (let operation_rm = (if 0x08 \<le> f \<and> f \<le> 0x0F then (f - 0x08) AND 3 else rounding_mode c);
             to_word = (0x0C \<le> f \<and> f \<le> 0x0F \<or> f = 0x24);
             convert = (\<lambda>w. if issue = InvalidOperand then (int_min w, kFcr31FlagInvalid)
                            else convert_to_integer w source operation_rm) in
         if issue = UnimplementedOperand then raise_fpu_unimplemented c
         else if to_word then
           (case convert 32 of (v, flags) \<Rightarrow> finish_then flags (write_fpr_word fd (of_int v)) c)
         else if \<not> fpu_fr_mode c \<and> fd AND 1 \<noteq> 0 then raise_fpu_unimplemented c
         else (case convert 64 of (v, flags) \<Rightarrow> finish_then flags (put_double fd (of_int v)) c)))"

definition fpu_to_single :: "u32 \<Rightarrow> cpu \<Rightarrow> cpu" where
  "fpu_to_single insn c =
    (let fmt = i_rs insn; fs = i_rd insn; fd = i_sa insn; rm = rounding_mode c in
     if fmt = 0x11 then
       (case read_fpr_double fs c of
          None \<Rightarrow> raise_fpu_unimplemented c
        | Some raw \<Rightarrow>
           (if classify_operand64 raw = UnimplementedOperand then raise_fpu_unimplemented c
            else if classify_operand64 raw = InvalidOperand
              then handle_single_result fd rm (unat kCanonicalQuietNan32, kFcr31FlagInvalid) c
            else handle_single_result fd rm (convert_floating Single (double_of raw) rm) c))
     else if fmt = 0x14 then
       handle_single_result fd rm (convert_floating Single (fp_of_int (sint (read_fpr_word fs c))) rm) c
     else if fmt = 0x15 then
       (case read_fpr_double fs c of
          None \<Rightarrow> raise_fpu_unimplemented c
        | Some raw \<Rightarrow> handle_single_result fd rm (convert_floating Single (fp_of_int (sint raw)) rm) c)
     else raise_fpu_unimplemented c)"

definition fpu_to_double :: "u32 \<Rightarrow> cpu \<Rightarrow> cpu" where
  "fpu_to_double insn c =
    (let fmt = i_rs insn; fs = i_rd insn; fd = i_sa insn; rm = rounding_mode c in
     if \<not> fpu_fr_mode c \<and> fd AND 1 \<noteq> 0 then raise_fpu_unimplemented c
     else if fmt = 0x10 then
       (let raw = read_fpr_word fs c in
        if classify_operand32 raw = UnimplementedOperand then raise_fpu_unimplemented c
        else if classify_operand32 raw = InvalidOperand
          then handle_double_result fd rm (unat kCanonicalQuietNan64, kFcr31FlagInvalid) c
        else handle_double_result fd rm (convert_floating Double (float_of raw) rm) c)
     else if fmt = 0x14 then
       handle_double_result fd rm (convert_floating Double (fp_of_int (sint (read_fpr_word fs c))) rm) c
     else if fmt = 0x15 then
       (case read_fpr_double fs c of
          None \<Rightarrow> raise_fpu_unimplemented c
        | Some raw \<Rightarrow> handle_double_result fd rm (convert_floating Double (fp_of_int (sint raw)) rm) c)
     else raise_fpu_unimplemented c)"

definition exec_cop1_format :: "u32 \<Rightarrow> cpu \<Rightarrow> cpu" where
  "exec_cop1_format insn c =
    (let fmt = i_rs insn; f = i_fn insn; float_fmt = (fmt = 0x10 \<or> fmt = 0x11) in
     if f \<le> 7 \<and> float_fmt then (if fmt = 0x10 then fpu_arith_single insn c else fpu_arith_double insn c)
     else if f AND 0x30 = 0x30 \<and> float_fmt then fpu_compare insn c
     else if 0x08 \<le> f \<and> f \<le> 0x0F \<or> f = 0x24 \<or> f = 0x25 then fpu_to_integer insn c
     else if f = 0x20 then fpu_to_single insn c
     else if f = 0x21 then fpu_to_double insn c
     else raise_fpu_unimplemented c)"

section \<open>The coprocessor instruction\<close>

definition fpu_ctc1 :: "u32 \<Rightarrow> cpu \<Rightarrow> cpu" where
  "fpu_ctc1 v c =
    (let c1 = set_fcr31 (v AND kFcr31WritableMask) c;
         causes = drop_bit 10 (c_fcr31 c1) AND kFcr31FlagMask;
         enables = drop_bit 5 (c_fcr31 c1) AND kFcr31FlagMask
     in if c_fcr31 c1 AND kFcr31CauseUnimplemented \<noteq> 0 \<or> causes AND enables \<noteq> 0
        then raise_plain Exc_FPE c1 else c1)"

definition exec_cop1 :: "u32 \<Rightarrow> cpu \<Rightarrow> cpu" where
  "exec_cop1 insn c =
    (let cop1_rs = i_rs insn; cop1_rt = i_rt insn; fs = i_rd insn in
     if \<not> coprocessor_usable 1 c then raise_exception Exc_CpU 0 1 False c
     else if cop1_rs = 0x00 then write_gpr cop1_rt (sext32 (read_fpr_word fs c)) c
     else if cop1_rs = 0x01 then
       (case read_fpr_double fs c of None \<Rightarrow> raise_fpu_unimplemented c | Some v \<Rightarrow> write_gpr cop1_rt v c)
     else if cop1_rs = 0x02 then
       write_gpr cop1_rt (sext32 (if fs = 31 then c_fcr31 c else if fs = 0 then kFcr0Implementation else 0)) c
     else if cop1_rs = 0x04 then write_fpr_word fs (ucast (c_gpr c cop1_rt)) c
     else if cop1_rs = 0x05 then
       (case write_fpr_double fs (c_gpr c cop1_rt) c of None \<Rightarrow> raise_fpu_unimplemented c | Some c1 \<Rightarrow> c1)
     else if cop1_rs = 0x06 then (if fs = 31 then fpu_ctc1 (ucast (c_gpr c cop1_rt)) c else c)
     else if cop1_rs = 0x08 then
       (if cop1_rt > 3 then raise_fpu_unimplemented c
        else (let condition = (c_fcr31 c AND kFcr31Condition \<noteq> 0); branch_on_true = (cop1_rt AND 1 \<noteq> 0);
                  likely = (cop1_rt AND 2 \<noteq> 0)
              in if condition = branch_on_true then branch_rel (i_simm insn) c
                 else if likely then nullify c
                 else branch_abs (c_pc c + 8) c))
     else if cop1_rs = 0x10 \<or> cop1_rs = 0x11 \<or> cop1_rs = 0x14 \<or> cop1_rs = 0x15 then exec_cop1_format insn c
     else raise_fpu_unimplemented c)"

section \<open>What every instruction keeps\<close>

text \<open>The control register only ever holds its writable bits.\<close>

definition fcr31_ok :: "cpu \<Rightarrow> bool" where
  "fcr31_ok c \<longleftrightarrow> c_fcr31 c AND NOT kFcr31WritableMask = 0"

definition fpu_ok :: "bool \<Rightarrow> cpu \<Rightarrow> bool" where
  "fpu_ok line c \<longleftrightarrow> cpu_wf c \<and> ip2 c = line"

lemma cpu_wf_fcr31: "cpu_wf c \<Longrightarrow> fcr31_ok c"
  by (simp add: cpu_wf_def fcr31_ok_def kFcr31WritableMask_def)

lemma fpu_ok_frame [simp]:
  "fpu_ok b (c\<lparr>c_fpr := f\<rparr>) = fpu_ok b c" "fpu_ok b (write_fpr_word i v c) = fpu_ok b c"
  "fpu_ok b (branch_abs t c) = fpu_ok b c" "fpu_ok b (branch_rel o1 c) = fpu_ok b c"
  "fpu_ok b (nullify c) = fpu_ok b c"
  by (simp_all add: fpu_ok_def cpu_wf_def fcr31_ok_def ip2_def write_fpr_word_def branch_abs_def
      branch_rel_def nullify_def)

lemma write_fpr_double_keeps: "write_fpr_double i v c = Some c1 \<Longrightarrow> fpu_ok b c1 = fpu_ok b c"
  by (auto simp: write_fpr_double_def Let_def split: if_splits)

lemma fpu_ok_put_double [simp]: "fpu_ok b (put_double i v c) = fpu_ok b c"
  by (auto simp: put_double_def write_fpr_double_keeps split: option.split)

lemma fpu_ok_write_gpr: "fpu_ok b c \<Longrightarrow> fpu_ok b (write_gpr r v c)"
  by (simp add: fpu_ok_def wf_intros irq_simps fcr31_ok_def)

lemma fpu_ok_raise: "fpu_ok b c \<Longrightarrow> fpu_ok b (raise_exception x bad ce t c)"
  by (simp add: fpu_ok_def wf_intros irq_simps fcr31_ok_def)

lemma fpu_ok_raise_plain: "fpu_ok b c \<Longrightarrow> fpu_ok b (raise_plain x c)"
  by (simp add: raise_plain_def fpu_ok_raise)

lemma fpu_ok_set_fcr31:
  "fpu_ok b c \<Longrightarrow> v AND NOT kFcr31WritableMask = 0 \<Longrightarrow> fpu_ok b (set_fcr31 v c)"
  by (simp add: fpu_ok_def cpu_wf_def kFcr31WritableMask_def ip2_def set_fcr31_def)

lemma literal_bits:
  "bit kFcr31WritableMask n \<longleftrightarrow> n < 18 \<or> n = 23 \<or> n = 24" "bit kFcr31FlagMask n \<longrightarrow> n < 7"
  "bit kFcr31CauseUnimplemented n \<longrightarrow> n = 17" "bit kFcr31Condition n \<longrightarrow> n = 23"
proof -
  have w: "kFcr31WritableMask = mask 18 OR push_bit 23 1 OR push_bit 24 1"
    and f: "kFcr31FlagMask = mask 7 AND NOT (mask 2)"
    and u: "kFcr31CauseUnimplemented = push_bit 17 1" and c: "kFcr31Condition = push_bit 23 1"
    by (simp_all add: kFcr31WritableMask_def kFcr31FlagMask_def kFcr31CauseUnimplemented_def
        kFcr31Condition_def mask_eq_exp_minus_1)
  show "bit kFcr31WritableMask n \<longleftrightarrow> n < 18 \<or> n = 23 \<or> n = 24"
    unfolding w bit_or_iff bit_mask_iff bit_push_bit_iff bit_1_iff by auto
  show "bit kFcr31FlagMask n \<longrightarrow> n < 7" "bit kFcr31CauseUnimplemented n \<longrightarrow> n = 17"
    "bit kFcr31Condition n \<longrightarrow> n = 23"
    unfolding f u c bit_and_iff bit_mask_iff bit_push_bit_iff bit_1_iff by auto
qed

lemma writable_bits: "(w AND NOT kFcr31WritableMask = 0) = (\<forall>n. bit w n \<longrightarrow> n < 18 \<or> n = 23 \<or> n = 24)"
proof
  assume z: "w AND NOT kFcr31WritableMask = 0"
  show "\<forall>n. bit w n \<longrightarrow> n < 18 \<or> n = 23 \<or> n = 24"
  proof (intro allI impI)
    fix n assume n: "bit w n"
    have "\<not> bit (w AND NOT kFcr31WritableMask) n" by (simp add: z)
    then show "n < 18 \<or> n = 23 \<or> n = 24"
      using n bit_imp_le_length [OF n] by (simp add: bit_and_iff bit_not_iff literal_bits)
  qed
next
  assume "\<forall>n. bit w n \<longrightarrow> n < 18 \<or> n = 23 \<or> n = 24"
  then show "w AND NOT kFcr31WritableMask = 0"
    by (intro bit_word_eqI) (simp add: bit_and_iff bit_not_iff literal_bits)
qed

lemma fcr31_updates:
  assumes "w AND NOT kFcr31WritableMask = 0"
  shows "(w AND z) AND NOT kFcr31WritableMask = 0"
    "(w OR push_bit 10 (f AND kFcr31FlagMask)) AND NOT kFcr31WritableMask = 0"
    "(w OR (f AND kFcr31FlagMask)) AND NOT kFcr31WritableMask = 0"
    "(w OR kFcr31CauseUnimplemented) AND NOT kFcr31WritableMask = 0"
    "(w OR kFcr31Condition) AND NOT kFcr31WritableMask = 0"
  using assms literal_bits(2-4) unfolding writable_bits
  by (fastforce simp: bit_and_iff bit_or_iff bit_push_bit_iff)+

lemma fpu_ok_fcr31: "fpu_ok b c \<Longrightarrow> c_fcr31 c AND NOT kFcr31WritableMask = 0"
  using cpu_wf_fcr31 [of c] by (simp add: fpu_ok_def fcr31_ok_def)

lemma c_fcr31_set [simp]: "c_fcr31 (set_fcr31 v c) = v"
  by (simp add: set_fcr31_def)

lemma fpu_ok_finish: "fpu_ok b c \<Longrightarrow> fpu_ok b (snd (finish_fpu_operation flags c))"
  unfolding finish_fpu_operation_def Let_def
  by (intro pred_if [where P = "\<lambda>z. fpu_ok b (snd z)"]; unfold snd_conv c_fcr31_set;
      intro fpu_ok_raise_plain fpu_ok_set_fcr31 fcr31_updates fpu_ok_fcr31; assumption)

lemma fpu_ok_finish_then:
  assumes "fpu_ok b c" "\<And>c1. fpu_ok b c1 \<Longrightarrow> fpu_ok b (f c1)"
  shows "fpu_ok b (finish_then flags f c)"
proof -
  obtain ok c1 where r: "finish_fpu_operation flags c = (ok, c1)" by fastforce
  then have "fpu_ok b c1" using fpu_ok_finish [OF assms(1), of flags] by simp
  then show ?thesis using assms(2) by (simp add: finish_then_def r)
qed

lemma fpu_ok_unimplemented: "fpu_ok b c \<Longrightarrow> fpu_ok b (raise_fpu_unimplemented c)"
  by (simp add: raise_fpu_unimplemented_def fpu_ok_raise_plain fpu_ok_set_fcr31 fcr31_updates fpu_ok_fcr31)

lemmas fpu_intros = fpu_ok_finish_then fpu_ok_unimplemented fpu_ok_raise fpu_ok_raise_plain fpu_ok_write_gpr

lemma pred_option:
  "(x = None \<Longrightarrow> P a) \<Longrightarrow> (\<And>v. x = Some v \<Longrightarrow> P (f v)) \<Longrightarrow> P (case x of None \<Rightarrow> a | Some v \<Rightarrow> f v)"
  by (cases x) simp_all

lemma pred_pair: "(\<And>v w. x = (v, w) \<Longrightarrow> P (f v w)) \<Longrightarrow> P (case x of (v, w) \<Rightarrow> f v w)"
  by (cases x) simp_all

lemma fpu_ok_results:
  assumes "fpu_ok b c"
  shows "fpu_ok b (handle_single_result fd rm res c)" "fpu_ok b (handle_double_result fd rm res c)"
proof -
  have fin: "fpu_ok b (finish_double fd flags raw c)" for flags raw
    unfolding finish_double_def
    by (intro pred_if [where P = "fpu_ok b"] fpu_ok_unimplemented fpu_ok_finish_then assms)
      (simp only: fpu_ok_put_double)
  show "fpu_ok b (handle_single_result fd rm res c)"
    unfolding handle_single_result_def Let_def
    by (intro pred_if [where P = "fpu_ok b"] fpu_ok_unimplemented fpu_ok_finish_then assms)
      (simp_all only: fpu_ok_frame)
  show "fpu_ok b (handle_double_result fd rm res c)"
    unfolding handle_double_result_def Let_def
    by (intro pred_if [where P = "fpu_ok b"] fpu_ok_unimplemented fin assms)
qed

lemma fpu_ok_format:
  assumes "fpu_ok b c"
  shows "fpu_ok b (fpu_arith_single insn c)" "fpu_ok b (fpu_arith_double insn c)"
    "fpu_ok b (fpu_compare insn c)" "fpu_ok b (fpu_to_integer insn c)"
    "fpu_ok b (fpu_to_single insn c)" "fpu_ok b (fpu_to_double insn c)"
proof -
  note u = fpu_ok_unimplemented [OF assms] and r = fpu_ok_results [OF assms]
  note steps = pred_if [where P = "fpu_ok b"] pred_option [where P = "fpu_ok b"] u r
  have put: "fpu_ok b c1" if "write_fpr_double i v c = Some c1" for i v c1
    using that assms by (simp add: write_fpr_double_keeps)
  show "fpu_ok b (fpu_arith_single insn c)"
    unfolding fpu_arith_single_def Let_def
    by (intro steps fpu_ok_finish_then assms) (simp_all only: fpu_ok_frame assms)
  show "fpu_ok b (fpu_arith_double insn c)"
    unfolding fpu_arith_double_def Let_def prod.case by (intro steps) (erule put)
  have cmp: "fpu_ok b (finish_compare cc k c)" for cc k
    unfolding finish_compare_def
    by (intro fpu_ok_finish_then assms pred_if [where P = "fpu_ok b"] fpu_ok_set_fcr31 fcr31_updates
        fpu_ok_fcr31)
  show "fpu_ok b (fpu_compare insn c)"
    unfolding fpu_compare_def Let_def prod.case by (intro steps cmp)
  have conv: "fpu_ok b (case z of (v, flags) \<Rightarrow> finish_then flags (write_fpr_word fd (of_int v)) c)"
    "fpu_ok b (case z of (v, flags) \<Rightarrow> finish_then flags (put_double fd (of_int v)) c)" for z fd
    using assms by (auto intro!: fpu_ok_finish_then split: prod.split)
  show "fpu_ok b (fpu_to_integer insn c)"
    unfolding fpu_to_integer_def Let_def by (intro steps pred_pair [where P = "fpu_ok b"] conv)
  show "fpu_ok b (fpu_to_single insn c)" "fpu_ok b (fpu_to_double insn c)"
    unfolding fpu_to_single_def fpu_to_double_def Let_def by (intro steps)+
qed

lemma fpu_ok_ctc1: "fpu_ok b c \<Longrightarrow> fpu_ok b (fpu_ctc1 v c)"
  unfolding fpu_ctc1_def Let_def
  by (intro pred_if [where P = "fpu_ok b"] fpu_ok_raise_plain fpu_ok_set_fcr31)
    (simp_all add: and.assoc)

lemma exec_cop1_keeps:
  assumes "cpu_wf c"
  shows "fpu_ok (ip2 c) (exec_cop1 insn c)"
proof -
  have ok: "fpu_ok (ip2 c) c" using assms by (simp add: fpu_ok_def)
  have put: "fpu_ok (ip2 c) c1" if "write_fpr_double i v c = Some c1" for i v c1
    using that ok by (simp add: write_fpr_double_keeps)
  have "fpu_ok (ip2 c) (exec_cop1_format insn c)"
    unfolding exec_cop1_format_def Let_def
    by (intro pred_if [where P = "fpu_ok (ip2 c)"] fpu_ok_format fpu_ok_unimplemented ok)
  then show ?thesis
    unfolding exec_cop1_def Let_def
    by (intro pred_if [where P = "fpu_ok (ip2 c)"] pred_option [where P = "fpu_ok (ip2 c)"]
        fpu_ok_raise fpu_ok_unimplemented fpu_ok_write_gpr fpu_ok_ctc1 ok)
      (simp_all only: fpu_ok_frame ok put)
qed

text \<open>C39: every floating-point instruction, whatever its operands, keeps the processor's invariant
  and the interrupt line, and never sets a bit of the control register that a program cannot write.\<close>

theorem cop1_keeps:
  assumes "cpu_wf c"
  shows "cpu_wf (exec_cop1 insn c) \<and> fcr31_ok (exec_cop1 insn c) \<and> ip2 (exec_cop1 insn c) = ip2 c"
  using exec_cop1_keeps [OF assms, of insn] by (simp add: fpu_ok_def cpu_wf_fcr31)

theorem cop1_keeps_witness:
  "cpu_wf (exec_cop1 0x46000000 (cpu_reset cpu_new)) \<and> fcr31_ok (exec_cop1 0x46000000 (cpu_reset cpu_new))"
  using cop1_keeps [OF cpu_wf_reset] by simp

text \<open>A double written to a register, or to an even-odd pair in the 32-bit mode, reads back, and
  its low word is the single of the same index; in the 32-bit mode the next single is the high word,
  in the 64-bit mode the next single is untouched. Only an odd index of the 32-bit mode is refused.\<close>

theorem fpr_double_roundtrip:
  "(case write_fpr_double idx v c of
      Some c' \<Rightarrow> read_fpr_double idx c' = Some v
        \<and> read_fpr_word idx c' = ucast v
        \<and> read_fpr_word (idx + 1) c' = (if fpu_fr_mode c then read_fpr_word (idx + 1) c else ucast (drop_bit 32 v))
    | None \<Rightarrow> \<not> fpu_fr_mode c \<and> idx AND 1 \<noteq> 0)"
proof (cases "fpu_fr_mode c")
  case True
  have "(idx + 1) AND 31 \<noteq> idx AND 31"
  proof
    assume "(idx + 1) AND 31 = idx AND 31"
    then have "bit ((idx + 1) AND 31) 0 = bit (idx AND 31) 0" by simp
    then have "bit (idx + 1) 0 = bit idx 0" by (simp add: bit_simps)
    then show False by (auto simp only: bit_0 even_plus_one_iff)
  qed
  then show ?thesis using True
    by (simp add: write_fpr_double_def read_fpr_double_def read_fpr_word_def Let_def fpu_fr_mode_def)
next
  case False
  let ?i = "idx AND 31"
  have odd_eq: "?i AND 1 = idx AND 1" by (simp add: and.assoc)
  show ?thesis
  proof (cases "idx AND 1 = 0")
    case True
    have plus: "w + 1 = w OR 1" if "w AND 1 = 0" for w :: u32
      using that by (rule disjunctive_add_eq_or)
    have i: "?i + 1 = ?i OR 1" "idx + 1 = idx OR 1" using True odd_eq by (auto intro!: plus)
    have next_i: "(?i + 1) AND 31 = ?i OR 1" "(idx + 1) AND 31 = ?i OR 1" "?i AND 31 = ?i"
      unfolding i by (simp_all add: bit.conj_disj_distrib2 and.assoc)
    have ne: "?i OR 1 \<noteq> ?i" using True odd_eq by (metis word_bw_lcs(1) or.commute word_ao_absorbs(1) zero_neq_one and.commute)
    have lo: "(ucast ((w AND 0xFFFFFFFF00000000) OR ucast (x :: u32) :: u64) :: u32) = x" for w x
    proof -
      have m: "(0xFFFFFFFF00000000 :: u64) = NOT (mask 32)" by (simp add: mask_eq_exp_minus_1)
      show ?thesis unfolding m by (rule bit_word_eqI) (auto simp: bit_simps)
    qed
    have v: "(ucast (ucast v :: u32) :: u64) OR push_bit 32 (ucast (ucast (drop_bit 32 v) :: u32)) = v"
      by (rule bit_word_eqI) (auto simp: bit_simps)
    show ?thesis
      using False True ne
      by (simp add: write_fpr_double_def read_fpr_double_def Let_def fpu_fr_mode_def write_fpr_word_def
          read_fpr_word_def odd_eq next_i lo v)
  qed (use False odd_eq in \<open>simp add: write_fpr_double_def Let_def\<close>)
qed


end
