(* ===== verification/Cpu_Exec.thy ===== *)
theory Cpu_Exec
  imports Cop1 Bus_Write
begin

text \<open>
  The processor on the bus (\<open>cpu/cpu.cpp\<close>): instruction fetch, loads and stores with their
  translation and alignment checks, the unaligned and the linked accesses, the dispatch, the step
  with its delay slot and exceptions, and the two ways to run: one instruction at a time, or a
  cached basic block at a time. The trace callback is a parameter, called when one is installed.
\<close>

section \<open>Memory\<close>

definition upd_cpu :: "(cpu \<Rightarrow> cpu) \<Rightarrow> machine \<Rightarrow> machine" where
  "upd_cpu f m = m\<lparr>m_cpu := f (m_cpu m)\<rparr>"

text \<open>An access whose address did not translate leaves the exception in the processor.\<close>

definition with_address :: "u32 option \<times> cpu \<Rightarrow> machine \<Rightarrow> u32 option \<times> machine" where
  "with_address r m = (fst r, m\<lparr>m_cpu := snd r\<rparr>)"

definition cpu_fetch :: "u64 \<Rightarrow> machine \<Rightarrow> u32 \<times> machine" where
  "cpu_fetch vaddr m =
    (if vaddr AND 3 \<noteq> 0 then (0, upd_cpu (raise_exception Exc_AdEL vaddr 0 False) m)
     else (case with_address (translate_or_raise vaddr vaddr False (m_cpu m)) m of
             (None, m1) \<Rightarrow> (0, m1)
           | (Some paddr, m1) \<Rightarrow> bus_read32 paddr m1))"

definition read_at :: "u64 \<Rightarrow> u64 \<Rightarrow> machine \<Rightarrow> u32 option \<times> machine" where
  "read_at vaddr sz m = with_address (probe_read vaddr sz (m_cpu m)) m"

definition write_at :: "u64 \<Rightarrow> u64 \<Rightarrow> machine \<Rightarrow> u32 option \<times> machine" where
  "write_at vaddr sz m = with_address (probe_write vaddr sz (m_cpu m)) m"

text \<open>A load: the address, the bus read, and what is done with the value.\<close>

definition load_with :: "u64 \<Rightarrow> u64 \<Rightarrow> (u32 \<Rightarrow> machine \<Rightarrow> 'v \<times> machine) \<Rightarrow> ('v \<Rightarrow> cpu \<Rightarrow> cpu) \<Rightarrow> machine \<Rightarrow> machine" where
  "load_with vaddr sz rd f m =
    (case read_at vaddr sz m of
       (None, m1) \<Rightarrow> m1
     | (Some p, m1) \<Rightarrow> (case rd p m1 of (v, m2) \<Rightarrow> upd_cpu (f v) m2))"

definition clear_ll :: "cpu \<Rightarrow> cpu" where "clear_ll c = c\<lparr>c_ll_bit := False\<rparr>"

definition store_with :: "u64 \<Rightarrow> u64 \<Rightarrow> (u32 \<Rightarrow> machine \<Rightarrow> machine) \<Rightarrow> machine \<Rightarrow> machine" where
  "store_with vaddr sz wr m =
    (case write_at vaddr sz m of
       (None, m1) \<Rightarrow> m1
     | (Some p, m1) \<Rightarrow> upd_cpu clear_ll (wr p m1))"

definition load_byte :: "u64 \<Rightarrow> bool \<Rightarrow> (u64 \<Rightarrow> cpu \<Rightarrow> cpu) \<Rightarrow> machine \<Rightarrow> machine" where
  "load_byte vaddr sign_extend f =
     load_with vaddr 1 bus_read8 (\<lambda>v. f (if sign_extend then sext8 v else ucast v))"

definition load_half :: "u64 \<Rightarrow> bool \<Rightarrow> (u64 \<Rightarrow> cpu \<Rightarrow> cpu) \<Rightarrow> machine \<Rightarrow> machine" where
  "load_half vaddr sign_extend f =
     load_with vaddr 2 bus_read16 (\<lambda>v. f (if sign_extend then sext16 v else ucast v))"

definition load_word :: "u64 \<Rightarrow> bool \<Rightarrow> (u64 \<Rightarrow> cpu \<Rightarrow> cpu) \<Rightarrow> machine \<Rightarrow> machine" where
  "load_word vaddr sign_extend f =
     load_with vaddr 4 bus_read32 (\<lambda>v. f (if sign_extend then sext32 v else ucast v))"

definition load_double :: "u64 \<Rightarrow> (u64 \<Rightarrow> cpu \<Rightarrow> cpu) \<Rightarrow> machine \<Rightarrow> machine" where
  "load_double vaddr = load_with vaddr 8 bus_read64"

definition store_byte :: "u64 \<Rightarrow> u8 \<Rightarrow> machine \<Rightarrow> machine" where
  "store_byte vaddr v = store_with vaddr 1 (\<lambda>p. bus_write8 p v)"

definition store_half :: "u64 \<Rightarrow> u16 \<Rightarrow> machine \<Rightarrow> machine" where
  "store_half vaddr v = store_with vaddr 2 (\<lambda>p. bus_write16 p v)"

definition store_word :: "u64 \<Rightarrow> u32 \<Rightarrow> machine \<Rightarrow> machine" where
  "store_word vaddr v = store_with vaddr 4 (\<lambda>p. bus_write32 p v)"

definition store_double :: "u64 \<Rightarrow> u64 \<Rightarrow> machine \<Rightarrow> machine" where
  "store_double vaddr v = store_with vaddr 8 (\<lambda>p. bus_write64 p v)"

section \<open>Unaligned accesses\<close>

definition ea :: "u32 \<Rightarrow> machine \<Rightarrow> u64" where
  "ea insn m = rs64 insn (m_cpu m) + scast (i_simm insn)"

definition shift_left4 :: "u64 \<Rightarrow> nat" where "shift_left4 addr = unat ((3 - (addr AND 3)) * 8)"
definition shift_right4 :: "u64 \<Rightarrow> nat" where "shift_right4 addr = unat ((addr AND 3) * 8)"
definition shift_left8 :: "u64 \<Rightarrow> nat" where "shift_left8 addr = unat ((7 - (addr AND 7)) * 8)"
definition shift_right8 :: "u64 \<Rightarrow> nat" where "shift_right8 addr = unat ((addr AND 7) * 8)"

definition merge :: "'a::len word \<Rightarrow> 'a word \<Rightarrow> 'a word \<Rightarrow> 'a word" where
  "merge msk old new = (old AND NOT msk) OR (new AND msk)"

definition load_aligned ::
    "u64 \<Rightarrow> u64 \<Rightarrow> (u32 \<Rightarrow> machine \<Rightarrow> 'v \<times> machine) \<Rightarrow> ('v \<Rightarrow> cpu \<Rightarrow> cpu) \<Rightarrow> machine \<Rightarrow> machine" where
  "load_aligned aligned addr rd f m =
    (case with_address (translate_or_raise aligned addr False (m_cpu m)) m of
       (None, m1) \<Rightarrow> m1
     | (Some p, m1) \<Rightarrow> (case rd p m1 of (v, m2) \<Rightarrow> upd_cpu (f v) m2))"

text \<open>A partial store reads the word, merges and writes it back.\<close>

definition store_aligned ::
    "u64 \<Rightarrow> u64 \<Rightarrow> (u32 \<Rightarrow> machine \<Rightarrow> 'v \<times> machine) \<Rightarrow> (u32 \<Rightarrow> 'v \<Rightarrow> machine \<Rightarrow> machine) \<Rightarrow>
      ('v \<Rightarrow> 'v) \<Rightarrow> machine \<Rightarrow> machine" where
  "store_aligned aligned addr rd wr f m =
    (case with_address (translate_or_raise aligned addr True (m_cpu m)) m of
       (None, m1) \<Rightarrow> m1
     | (Some p, m1) \<Rightarrow> (case rd p m1 of (v, m2) \<Rightarrow> upd_cpu clear_ll (wr p (f v) m2)))"

definition exec_lwl :: "u32 \<Rightarrow> machine \<Rightarrow> machine" where
  "exec_lwl insn m =
    (let addr = ea insn m; k = shift_left4 addr in
     load_aligned (addr AND NOT 3) addr bus_read32
       (\<lambda>mem c. write_gpr (i_rt insn) (sext32 (merge (push_bit k 0xFFFFFFFF) (rt32 insn c) (push_bit k mem))) c) m)"

definition exec_lwr :: "u32 \<Rightarrow> machine \<Rightarrow> machine" where
  "exec_lwr insn m =
    (let addr = ea insn m; k = shift_right4 addr in
     load_aligned (addr AND NOT 3) addr bus_read32
       (\<lambda>mem c. write_gpr (i_rt insn) (sext32 (merge (drop_bit k 0xFFFFFFFF) (rt32 insn c) (drop_bit k mem))) c) m)"

definition exec_swl :: "u32 \<Rightarrow> machine \<Rightarrow> machine" where
  "exec_swl insn m =
    (let addr = ea insn m; k = shift_left4 addr; reg = rt32 insn (m_cpu m) in
     store_aligned (addr AND NOT 3) addr bus_read32 bus_write32
       (\<lambda>mem. merge (push_bit k 0xFFFFFFFF) mem (drop_bit k reg)) m)"

definition exec_swr :: "u32 \<Rightarrow> machine \<Rightarrow> machine" where
  "exec_swr insn m =
    (let addr = ea insn m; k = shift_right4 addr; reg = rt32 insn (m_cpu m) in
     store_aligned (addr AND NOT 3) addr bus_read32 bus_write32
       (\<lambda>mem. merge (drop_bit k 0xFFFFFFFF) mem (push_bit k reg)) m)"

definition exec_ldl :: "u32 \<Rightarrow> machine \<Rightarrow> machine" where
  "exec_ldl insn m =
    (let addr = ea insn m; k = shift_left8 addr in
     load_aligned (addr AND NOT 7) addr bus_read64
       (\<lambda>mem c. write_gpr (i_rt insn) (merge (push_bit k (NOT 0)) (rt64 insn c) (push_bit k mem)) c) m)"

definition exec_ldr :: "u32 \<Rightarrow> machine \<Rightarrow> machine" where
  "exec_ldr insn m =
    (let addr = ea insn m; k = shift_right8 addr in
     load_aligned (addr AND NOT 7) addr bus_read64
       (\<lambda>mem c. write_gpr (i_rt insn) (merge (drop_bit k (NOT 0)) (rt64 insn c) (drop_bit k mem)) c) m)"

definition exec_sdl :: "u32 \<Rightarrow> machine \<Rightarrow> machine" where
  "exec_sdl insn m =
    (let addr = ea insn m; k = shift_left8 addr; reg = rt64 insn (m_cpu m) in
     store_aligned (addr AND NOT 7) addr bus_read64 bus_write64
       (\<lambda>mem. merge (push_bit k (NOT 0)) mem (drop_bit k reg)) m)"

definition exec_sdr :: "u32 \<Rightarrow> machine \<Rightarrow> machine" where
  "exec_sdr insn m =
    (let addr = ea insn m; k = shift_right8 addr; reg = rt64 insn (m_cpu m) in
     store_aligned (addr AND NOT 7) addr bus_read64 bus_write64
       (\<lambda>mem. merge (drop_bit k (NOT 0)) mem (push_bit k reg)) m)"

section \<open>Linked accesses\<close>

definition set_link :: "u32 \<Rightarrow> cpu \<Rightarrow> cpu" where
  "set_link paddr c = c\<lparr>c_ll_bit := True, c_ll_addr := ucast paddr\<rparr>"

definition exec_ll :: "u32 \<Rightarrow> machine \<Rightarrow> machine" where
  "exec_ll insn m =
    (case read_at (ea insn m) 4 m of
       (None, m1) \<Rightarrow> m1
     | (Some p, m1) \<Rightarrow> (case bus_read32 p m1 of
          (v, m2) \<Rightarrow> upd_cpu (\<lambda>c. set_link p (write_gpr (i_rt insn) (sext32 v) c)) m2))"

definition exec_lld :: "u32 \<Rightarrow> machine \<Rightarrow> machine" where
  "exec_lld insn m =
    (case read_at (ea insn m) 8 m of
       (None, m1) \<Rightarrow> m1
     | (Some p, m1) \<Rightarrow> (case bus_read64 p m1 of
          (v, m2) \<Rightarrow> upd_cpu (\<lambda>c. set_link p (write_gpr (i_rt insn) v c)) m2))"

definition store_conditional :: "u64 \<Rightarrow> (u32 \<Rightarrow> machine \<Rightarrow> machine) \<Rightarrow> u32 \<Rightarrow> machine \<Rightarrow> machine" where
  "store_conditional sz wr insn m =
    (let addr = ea insn m; had_reservation = c_ll_bit (m_cpu m); reserved_addr = c_ll_addr (m_cpu m) in
     case write_at addr sz (upd_cpu clear_ll m) of
       (None, m1) \<Rightarrow> m1
     | (Some p, m1) \<Rightarrow>
         (if had_reservation \<and> ucast p = reserved_addr
          then upd_cpu (write_gpr (i_rt insn) 1) (wr p m1)
          else upd_cpu (write_gpr (i_rt insn) 0) m1))"

definition exec_sc :: "u32 \<Rightarrow> machine \<Rightarrow> machine" where
  "exec_sc insn m = store_conditional 4 (\<lambda>p m1. bus_write32 p (rt32 insn (m_cpu m1)) m1) insn m"

definition exec_scd :: "u32 \<Rightarrow> machine \<Rightarrow> machine" where
  "exec_scd insn m = store_conditional 8 (\<lambda>p m1. bus_write64 p (rt64 insn (m_cpu m1)) m1) insn m"

section \<open>Floating-point loads and stores\<close>

definition cop1_unusable :: "cpu \<Rightarrow> cpu" where
  "cop1_unusable c = raise_exception Exc_CpU 0 1 False c"

definition exec_lwc1 :: "u32 \<Rightarrow> machine \<Rightarrow> machine" where
  "exec_lwc1 insn m =
    (if \<not> coprocessor_usable 1 (m_cpu m) then upd_cpu cop1_unusable m
     else load_word (ea insn m) False (\<lambda>v. write_fpr_word (i_rt insn) (ucast v)) m)"

definition exec_ldc1 :: "u32 \<Rightarrow> machine \<Rightarrow> machine" where
  "exec_ldc1 insn m =
    (if \<not> coprocessor_usable 1 (m_cpu m) then upd_cpu cop1_unusable m
     else if \<not> fpu_fr_mode (m_cpu m) \<and> i_rt insn AND 1 \<noteq> 0 then upd_cpu raise_fpu_unimplemented m
     else load_double (ea insn m) (put_double (i_rt insn)) m)"

definition exec_swc1 :: "u32 \<Rightarrow> machine \<Rightarrow> machine" where
  "exec_swc1 insn m =
    (if \<not> coprocessor_usable 1 (m_cpu m) then upd_cpu cop1_unusable m
     else store_word (ea insn m) (read_fpr_word (i_rt insn) (m_cpu m)) m)"

definition exec_sdc1 :: "u32 \<Rightarrow> machine \<Rightarrow> machine" where
  "exec_sdc1 insn m =
    (if \<not> coprocessor_usable 1 (m_cpu m) then upd_cpu cop1_unusable m
     else (case read_fpr_double (i_rt insn) (m_cpu m) of
             None \<Rightarrow> upd_cpu raise_fpu_unimplemented m
           | Some v \<Rightarrow> store_double (ea insn m) v m))"

section \<open>Dispatch\<close>

text \<open>The instructions that change the processor only.\<close>

definition execute_local :: "u32 \<Rightarrow> cpu \<Rightarrow> cpu" where
  "execute_local insn c =
    (let k = i_op insn; s = rs64 insn c; t = rt64 insn c; d = i_rt insn; imm = i_simm insn;
         simm = scast imm :: u64;
         jump = (c_pc c AND 0xFFFFFFFFF0000000) OR push_bit 2 (ucast (i_target insn)) in
     if k = 0x00 then exec_special insn c
     else if k = 0x01 then exec_regimm insn c
     else if k = 0x02 then branch_abs jump c
     else if k = 0x03 then branch_abs jump (link_reg 31 c)
     else if k = 0x04 then branch_if (s = t) imm c
     else if k = 0x05 then branch_if (s \<noteq> t) imm c
     else if k = 0x06 then branch_if (s \<le>s 0) imm c
     else if k = 0x07 then branch_if (0 <s s) imm c
     else if k = 0x08 then write_or_overflow d (apsnd sext32 (add_overflow_s32 (rs32 insn c) (scast imm))) c
     else if k = 0x09 then write_gpr d (sext32 (rs32 insn c + scast imm)) c
     else if k = 0x0A then write_gpr d (bool64 (s <s simm)) c
     else if k = 0x0B then write_gpr d (bool64 (s < simm)) c
     else if k = 0x0C then write_gpr d (s AND ucast (i_imm insn)) c
     else if k = 0x0D then write_gpr d (s OR ucast (i_imm insn)) c
     else if k = 0x0E then write_gpr d (s XOR ucast (i_imm insn)) c
     else if k = 0x0F then write_gpr d (sext32 (push_bit 16 (i_imm insn))) c
     else if k = 0x11 then exec_cop1 insn c
     else if k = 0x12 then exec_cop2 insn c
     else if k = 0x14 then branch_likely_if (s = t) imm c
     else if k = 0x15 then branch_likely_if (s \<noteq> t) imm c
     else if k = 0x16 then branch_likely_if (s \<le>s 0) imm c
     else if k = 0x17 then branch_likely_if (0 <s s) imm c
     else if k = 0x18 then write_or_overflow d (add_overflow_s64 s simm) c
     else if k = 0x19 then write_gpr d (s + simm) c
     else if k = 0x2F then c
     else reserved_instruction c)"

text \<open>\<open>exec_cop0\<close> with its side effect on the block cache.\<close>

definition exec_cop0_m :: "u32 \<Rightarrow> machine \<Rightarrow> machine" where
  "exec_cop0_m insn m =
    (case exec_cop0 insn (m_cpu m) of
       (c, cleared) \<Rightarrow> (let m1 = m\<lparr>m_cpu := c\<rparr> in if cleared then m1\<lparr>m_cache := bc_clear (m_cache m1)\<rparr> else m1))"

definition execute_load :: "u32 \<Rightarrow> machine \<Rightarrow> machine" where
  "execute_load insn m =
    (let k = i_op insn; addr = ea insn m; put = (\<lambda>v. write_gpr (i_rt insn) v) in
     if k = 0x1A then exec_ldl insn m
     else if k = 0x1B then exec_ldr insn m
     else if k = 0x20 then load_byte addr True put m
     else if k = 0x21 then load_half addr True put m
     else if k = 0x22 then exec_lwl insn m
     else if k = 0x23 then load_word addr True put m
     else if k = 0x24 then load_byte addr False put m
     else if k = 0x25 then load_half addr False put m
     else if k = 0x26 then exec_lwr insn m
     else if k = 0x27 then load_word addr False put m
     else if k = 0x30 then exec_ll insn m
     else if k = 0x31 then exec_lwc1 insn m
     else if k = 0x34 then exec_lld insn m
     else if k = 0x35 then exec_ldc1 insn m
     else load_double addr put m)"

definition execute_store :: "u32 \<Rightarrow> machine \<Rightarrow> machine" where
  "execute_store insn m =
    (let k = i_op insn; addr = ea insn m; c = m_cpu m in
     if k = 0x28 then store_byte addr (ucast (rt64 insn c)) m
     else if k = 0x29 then store_half addr (ucast (rt64 insn c)) m
     else if k = 0x2A then exec_swl insn m
     else if k = 0x2B then store_word addr (rt32 insn c) m
     else if k = 0x2C then exec_sdl insn m
     else if k = 0x2D then exec_sdr insn m
     else if k = 0x2E then exec_swr insn m
     else if k = 0x38 then exec_sc insn m
     else if k = 0x39 then exec_swc1 insn m
     else if k = 0x3C then exec_scd insn m
     else if k = 0x3D then exec_sdc1 insn m
     else store_double addr (rt64 insn c) m)"

definition execute :: "u32 \<Rightarrow> machine \<Rightarrow> machine" where
  "execute insn m =
    (let k = i_op insn in
     if k = 0x10 then exec_cop0_m insn m
     else if k \<in> {0x1A, 0x1B, 0x20, 0x21, 0x22, 0x23, 0x24, 0x25, 0x26, 0x27, 0x30, 0x31, 0x34, 0x35, 0x37}
       then execute_load insn m
     else if k \<in> {0x28, 0x29, 0x2A, 0x2B, 0x2C, 0x2D, 0x2E, 0x38, 0x39, 0x3C, 0x3D, 0x3F}
       then execute_store insn m
     else upd_cpu (execute_local insn) m)"

section \<open>The step\<close>

text \<open>Every way out of a step counts the cycle and the timer.\<close>

definition retire :: "cpu \<Rightarrow> cpu" where
  "retire c =
    (let c1 = advance_count (c\<lparr>c_gpr := (c_gpr c)(0 := 0)\<rparr>)
     in c1\<lparr>c_cycles := c_cycles c1 + 1, c_in_delay_slot := False\<rparr>)"

text \<open>An interrupt taken before the instruction, if one is.\<close>

definition service_interrupt :: "machine \<Rightarrow> machine option" where
  "service_interrupt m =
    (if c_branch_pending (m_cpu m) then None
     else (let c = check_interrupts (m_cpu m)
           in if c_exception_count c \<noteq> c_exception_count (m_cpu m) then Some (m\<lparr>m_cpu := retire c\<rparr>) else None))"

definition enter_insn :: "bool \<Rightarrow> u64 \<Rightarrow> cpu \<Rightarrow> cpu" where
  "enter_insn delay_slot insn_pc c =
    (if \<not> delay_slot then c\<lparr>c_next_pc := insn_pc + 4, c_branch_pending := False\<rparr> else c)"

definition advance_pc :: "bool \<Rightarrow> u64 \<Rightarrow> cpu \<Rightarrow> cpu" where
  "advance_pc delay_slot insn_pc c =
    (if delay_slot then c\<lparr>c_pc := c_next_pc c, c_next_pc := c_next_pc c + 4, c_branch_pending := False\<rparr>
     else if c_branch_pending c then c\<lparr>c_pc := insn_pc + 4\<rparr>
     else c\<lparr>c_pc := c_next_pc c, c_next_pc := c_next_pc c + 4\<rparr>)"

text \<open>From the fetched instruction to the end of the step; the flag says whether an exception was
  taken.\<close>

definition finish_insn ::
    "(u64 \<Rightarrow> u32 \<Rightarrow> machine \<Rightarrow> machine) \<Rightarrow> bool \<Rightarrow> u64 \<Rightarrow> u64 \<Rightarrow> u32 \<Rightarrow> machine \<Rightarrow> bool \<times> machine" where
  "finish_insn trace delay_slot insn_pc exc_before insn m =
    (let m1 = upd_cpu (enter_insn delay_slot insn_pc) m;
         m2 = (if c_tracing (m_cpu m1) then trace insn_pc insn m1 else m1);
         m3 = execute insn m2
     in if c_exception_count (m_cpu m3) \<noteq> exc_before
        then (True, upd_cpu (\<lambda>c. (retire c)\<lparr>c_branch_pending := False\<rparr>) m3)
        else (False, upd_cpu (\<lambda>c. retire (advance_pc delay_slot insn_pc c)) m3))"

definition set_delay :: "bool \<Rightarrow> cpu \<Rightarrow> cpu" where
  "set_delay b c = c\<lparr>c_in_delay_slot := b\<rparr>"

definition cpu_step :: "(u64 \<Rightarrow> u32 \<Rightarrow> machine \<Rightarrow> machine) \<Rightarrow> machine \<Rightarrow> machine" where
  "cpu_step trace m =
    (if c_halted (m_cpu m) then upd_cpu (\<lambda>c. c\<lparr>c_cycles := c_cycles c + 1\<rparr>) m
     else case service_interrupt m of
       Some m1 \<Rightarrow> m1
     | None \<Rightarrow>
        (let insn_pc = c_pc (m_cpu m); delay_slot = c_branch_pending (m_cpu m);
             exc_before = c_exception_count (m_cpu m)
         in case cpu_fetch insn_pc (upd_cpu (set_delay delay_slot) m) of
              (insn, m2) \<Rightarrow>
                (if c_exception_count (m_cpu m2) \<noteq> exc_before then upd_cpu retire m2
                 else snd (finish_insn trace delay_slot insn_pc exc_before insn m2))))"

section \<open>Running\<close>

text \<open>The block loop looks at the status register itself before it asks for an interrupt.\<close>

definition block_interrupt :: "machine \<Rightarrow> machine option" where
  "block_interrupt m =
    (let sr = c_cop0 (m_cpu m) Cop0_Status; cause = c_cop0 (m_cpu m) Cop0_Cause in
     if \<not> c_branch_pending (m_cpu m) \<and> sr AND SR_IE \<noteq> 0 \<and> sr AND (SR_EXL OR SR_ERL) = 0
        \<and> cause AND sr AND 0xFF00 \<noteq> 0
     then (let c = check_interrupts (m_cpu m)
           in if c_exception_count c \<noteq> c_exception_count (m_cpu m) then Some (m\<lparr>m_cpu := retire c\<rparr>) else None)
     else None)"

text \<open>\<open>execute_block\<close>, at the instruction expected at \<open>pc\<close>: how many were executed, and the machine.\<close>

fun block_loop ::
    "(u64 \<Rightarrow> u32 \<Rightarrow> machine \<Rightarrow> machine) \<Rightarrow> u64 \<Rightarrow> u32 list \<Rightarrow> machine \<Rightarrow> nat \<times> machine" where
  "block_loop trace pc [] m = (0, m)"
| "block_loop trace pc (insn # rest) m =
    (if c_pc (m_cpu m) \<noteq> pc then (0, m)
     else case block_interrupt m of
       Some m1 \<Rightarrow> (1, m1)
     | None \<Rightarrow>
        (let delay_slot = c_branch_pending (m_cpu m) in
         case finish_insn trace delay_slot pc (c_exception_count (m_cpu m)) insn (upd_cpu (set_delay delay_slot) m) of
           (True, m2) \<Rightarrow> (1, m2)
         | (False, m2) \<Rightarrow>
            (if c_halted (m_cpu m2) then (1, m2)
             else (case block_loop trace (pc + 4) rest m2 of (k, m3) \<Rightarrow> (Suc k, m3)))))"

definition execute_block ::
    "(u64 \<Rightarrow> u32 \<Rightarrow> machine \<Rightarrow> machine) \<Rightarrow> basic_block \<Rightarrow> machine \<Rightarrow> nat \<times> machine" where
  "execute_block trace blk m = block_loop trace (bb_start_pc blk) (bb_insns blk) m"

text \<open>The block to run next: the cached one, or a newly compiled one.\<close>

definition next_block :: "machine \<Rightarrow> basic_block option \<times> machine" where
  "next_block m =
    (if c_block_cache_enabled (m_cpu m) \<and> \<not> c_branch_pending (m_cpu m) \<and> \<not> c_tracing (m_cpu m) then
       (case bc_lookup (c_pc (m_cpu m)) (m_cache m) of
          (Some blk, bc) \<Rightarrow> (Some blk, m\<lparr>m_cache := bc\<rparr>)
        | (None, bc) \<Rightarrow>
           (case bc_compile (\<lambda>va. translate va False (m_cpu m)) (read32_const m) (c_pc (m_cpu m)) bc of
              (b, bc1) \<Rightarrow> (b, m\<lparr>m_cache := bc1\<rparr>)))
     else (None, m))"

function cpu_run :: "(u64 \<Rightarrow> u32 \<Rightarrow> machine \<Rightarrow> machine) \<Rightarrow> nat \<Rightarrow> machine \<Rightarrow> nat \<times> machine" where
  "cpu_run trace n m =
    (if n = 0 \<or> c_halted (m_cpu m) then (0, m)
     else case next_block m of
       (b, m1) \<Rightarrow>
        (case b of
           Some blk \<Rightarrow>
            (if bb_insns blk \<noteq> [] \<and> length (bb_insns blk) \<le> n then
               (case execute_block trace blk m1 of
                  (did, m2) \<Rightarrow>
                    (if did = 0 then (case cpu_run trace (n - 1) (cpu_step trace m2) of (k, m3) \<Rightarrow> (1 + k, m3))
                     else (case cpu_run trace (n - did) m2 of (k, m3) \<Rightarrow> (did + k, m3))))
             else (case cpu_run trace (n - 1) (cpu_step trace m1) of (k, m3) \<Rightarrow> (1 + k, m3)))
         | None \<Rightarrow> (case cpu_run trace (n - 1) (cpu_step trace m1) of (k, m3) \<Rightarrow> (1 + k, m3))))"
  by pat_completeness auto

termination by (relation "measure (\<lambda>(trace, n, m). n)") auto

declare cpu_run.simps [simp del]

section \<open>The invariant through a step\<close>

lemma machine_ok_cpu:
  assumes "machine_ok m" "cpu_wf c" "ip2 c = ip2 (m_cpu m)"
  shows "machine_ok (m\<lparr>m_cpu := c\<rparr>)"
  using assms by (simp add: machine_ok_def machine_wf_cpu)

text \<open>What a change of the processor has to keep.\<close>

definition cpu_keeps :: "(cpu \<Rightarrow> cpu) \<Rightarrow> bool" where
  "cpu_keeps f \<longleftrightarrow> (\<forall>c. cpu_wf c \<longrightarrow> cpu_wf (f c) \<and> ip2 (f c) = ip2 c)"

lemma cpu_keepsI: "(\<And>c. cpu_wf c \<Longrightarrow> cpu_wf (f c)) \<Longrightarrow> (\<And>c. cpu_wf c \<Longrightarrow> ip2 (f c) = ip2 c) \<Longrightarrow> cpu_keeps f"
  by (simp add: cpu_keeps_def)

lemma machine_ok_upd_cpu [wf_intros]: "machine_ok m \<Longrightarrow> cpu_keeps f \<Longrightarrow> machine_ok (upd_cpu f m)"
  unfolding upd_cpu_def
  by (rule machine_ok_cpu) (simp_all add: cpu_keeps_def machine_ok_def machine_wf_def)

lemma fpu_ok_keeps: "(\<And>b c. fpu_ok b c \<Longrightarrow> fpu_ok b (f c)) \<Longrightarrow> cpu_keeps f"
  by (simp add: cpu_keeps_def fpu_ok_def)

lemma keeps_basic:
  "cpu_keeps (raise_exception x b e t)" "cpu_keeps (raise_plain x)" "cpu_keeps (write_gpr r v)"
  "cpu_keeps (write_fpr_word i w)" "cpu_keeps (put_double i v)"
  "cpu_keeps raise_fpu_unimplemented" "cpu_keeps cop1_unusable"
  by (rule fpu_ok_keeps, simp add: fpu_ok_raise fpu_ok_raise_plain fpu_ok_write_gpr
      fpu_ok_unimplemented cop1_unusable_def)+

lemma keeps_fields:
  "cpu_keeps clear_ll" "cpu_keeps (set_link p)" "cpu_keeps (set_delay d)" "cpu_keeps (enter_insn d pc)"
  "cpu_keeps (advance_pc d pc)" "cpu_keeps (\<lambda>c. c\<lparr>c_cycles := c_cycles c + 1\<rparr>)" "cpu_keeps (\<lambda>c. c)"
  "cpu_keeps (\<lambda>c. c\<lparr>c_branch_pending := d\<rparr>)"
  by (simp_all add: cpu_keeps_def cpu_wf_def ip2_def clear_ll_def set_link_def set_delay_def
      enter_insn_def advance_pc_def)

lemma keeps_comp: "cpu_keeps f \<Longrightarrow> cpu_keeps g \<Longrightarrow> cpu_keeps (\<lambda>c. f (g c))"
  by (simp add: cpu_keeps_def)

lemma keeps_retire: "cpu_keeps retire"
proof (rule cpu_keepsI)
  fix c assume c: "cpu_wf c"
  have z: "cpu_wf (c\<lparr>c_gpr := (c_gpr c)(0 := 0)\<rparr>)" using c by (simp add: cpu_wf_def)
  have u: "cpu_wf (d\<lparr>c_cycles := n, c_in_delay_slot := b\<rparr>) = cpu_wf d"
    "ip2 (d\<lparr>c_cycles := n, c_in_delay_slot := b\<rparr>) = ip2 d" "ip2 (d\<lparr>c_gpr := g\<rparr>) = ip2 d" for d n b g
    by (simp_all add: cpu_wf_def ip2_def)
  show "cpu_wf (retire c)" "ip2 (retire c) = ip2 c"
    unfolding retire_def Let_def u by (rule cpu_wf_advance_count [OF z], simp only: ip2_advance_count u)
qed

lemma machine_ok_with_address:
  assumes "machine_ok m" "cpu_wf (m_cpu m) \<Longrightarrow> cpu_wf (snd r)" "ip2 (snd r) = ip2 (m_cpu m)"
  shows "machine_ok (snd (with_address r m))"
  using assms machine_ok_cpu [of m "snd r"]
  by (simp add: with_address_def machine_ok_def machine_wf_def)

lemma machine_ok_address [wf_intros]:
  assumes "machine_ok m"
  shows "machine_ok (snd (with_address (translate_or_raise v b st (m_cpu m)) m))"
    "machine_ok (snd (read_at v sz m))" "machine_ok (snd (write_at v sz m))"
  unfolding read_at_def write_at_def
  by (intro machine_ok_with_address assms cpu_wf_translate ip2_translate; simp)+

lemma bus_reads_ok [simp]:
  "machine_ok (snd (bus_read8 a m)) = machine_ok m" "machine_ok (snd (bus_read16 a m)) = machine_ok m"
  "machine_ok (snd (bus_read64 a m)) = machine_ok m"
  using sp_coherent_cong [of "snd (bus_read8 a m)" m] sp_coherent_cong [of "snd (bus_read16 a m)" m]
    sp_coherent_cong [of "snd (bus_read64 a m)" m]
  by (simp_all add: machine_ok_def)

lemma load_with_ok:
  assumes "machine_ok m" "\<And>p n. machine_ok n \<Longrightarrow> machine_ok (snd (rd p n))" "\<And>v. cpu_keeps (f v)"
  shows "machine_ok (load_with va sz rd f m)"
  using machine_ok_address(2) [OF assms(1), of va sz] assms(2,3)
  by (auto simp: load_with_def split: prod.split option.split intro!: machine_ok_upd_cpu)
    (metis snd_conv)

lemma store_with_ok:
  assumes "machine_ok m" "\<And>p n. machine_ok n \<Longrightarrow> machine_ok (wr p n)"
  shows "machine_ok (store_with va sz wr m)"
  using machine_ok_address(3) [OF assms(1), of va sz] assms(2)
  by (auto simp: store_with_def split: prod.split option.split intro!: machine_ok_upd_cpu keeps_fields)

lemma load_aligned_ok:
  assumes "machine_ok m" "\<And>p n. machine_ok n \<Longrightarrow> machine_ok (snd (rd p n))" "\<And>v. cpu_keeps (f v)"
  shows "machine_ok (load_aligned al va rd f m)"
  using machine_ok_address(1) [OF assms(1), of al va False] assms(2,3)
  by (auto simp: load_aligned_def split: prod.split option.split intro!: machine_ok_upd_cpu)
    (metis snd_conv)

lemma store_aligned_ok:
  assumes "machine_ok m" "\<And>p n. machine_ok n \<Longrightarrow> machine_ok (snd (rd p n))"
    "\<And>p v n. machine_ok n \<Longrightarrow> machine_ok (wr p v n)"
  shows "machine_ok (store_aligned al va rd wr f m)"
  using machine_ok_address(1) [OF assms(1), of al va True] assms(2,3)
  by (auto simp: store_aligned_def split: prod.split option.split intro!: machine_ok_upd_cpu keeps_fields)
    (metis snd_conv)

lemma keeps_put: "cpu_keeps (\<lambda>c. write_gpr r (g c) c)"
  by (simp add: cpu_keeps_def wf_intros irq_simps)

lemma loads_ok:
  assumes "machine_ok m"
  shows "(\<And>v. cpu_keeps (f v)) \<Longrightarrow> machine_ok (load_byte va se f m)"
    "(\<And>v. cpu_keeps (f v)) \<Longrightarrow> machine_ok (load_half va se f m)"
    "(\<And>v. cpu_keeps (f v)) \<Longrightarrow> machine_ok (load_word va se f m)"
    "(\<And>v. cpu_keeps (f v)) \<Longrightarrow> machine_ok (load_double va f m)"
  unfolding load_byte_def load_half_def load_word_def load_double_def
  by (rule load_with_ok [OF assms]; simp)+

lemma stores_ok:
  assumes "machine_ok m"
  shows "machine_ok (store_byte va v8 m)" "machine_ok (store_half va v16 m)"
    "machine_ok (store_word va v32 m)" "machine_ok (store_double va v64 m)"
  unfolding store_byte_def store_half_def store_word_def store_double_def
  by (rule store_with_ok [OF assms]; rule wf_intros; assumption)+

lemma unaligned_ok:
  assumes "machine_ok m"
  shows "machine_ok (exec_lwl i m)" "machine_ok (exec_lwr i m)" "machine_ok (exec_ldl i m)" "machine_ok (exec_ldr i m)"
    "machine_ok (exec_swl i m)" "machine_ok (exec_swr i m)" "machine_ok (exec_sdl i m)" "machine_ok (exec_sdr i m)"
proof -
  show "machine_ok (exec_lwl i m)" "machine_ok (exec_lwr i m)" "machine_ok (exec_ldl i m)" "machine_ok (exec_ldr i m)"
    unfolding exec_lwl_def exec_lwr_def exec_ldl_def exec_ldr_def Let_def
    by (rule load_aligned_ok [OF assms]; simp add: keeps_put)+
  show "machine_ok (exec_swl i m)" "machine_ok (exec_swr i m)" "machine_ok (exec_sdl i m)" "machine_ok (exec_sdr i m)"
    unfolding exec_swl_def exec_swr_def exec_sdl_def exec_sdr_def Let_def
    by (rule store_aligned_ok [OF assms]; simp add: wf_intros)+
qed

lemma linked_ok:
  assumes "machine_ok m"
  shows "machine_ok (exec_ll i m)" "machine_ok (exec_lld i m)" "machine_ok (exec_sc i m)" "machine_ok (exec_scd i m)"
proof -
  have k: "cpu_keeps (\<lambda>c. set_link p (write_gpr r v c))" for p r v
    by (rule keeps_comp [OF keeps_fields(2) keeps_basic(3)])
  show "machine_ok (exec_ll i m)" "machine_ok (exec_lld i m)"
    using machine_ok_address(2) [OF assms, of "ea i m"] k
    by (auto simp: exec_ll_def exec_lld_def split: prod.split option.split intro!: machine_ok_upd_cpu)
      (metis machine_ok_read(1) bus_reads_ok(3) snd_conv)+
  have "machine_ok (upd_cpu clear_ll m)" by (rule machine_ok_upd_cpu [OF assms keeps_fields(1)])
  note w = machine_ok_address(3) [OF this]
  have "machine_ok (store_conditional sz wr i m)" if "\<And>p n. machine_ok n \<Longrightarrow> machine_ok (wr p n)" for sz wr
    using w [of "ea i m" sz] that
    by (auto simp: store_conditional_def Let_def split: prod.split option.split
        intro!: machine_ok_upd_cpu keeps_basic)
  then show "machine_ok (exec_sc i m)" "machine_ok (exec_scd i m)"
    unfolding exec_sc_def exec_scd_def by (simp_all add: wf_intros)
qed

lemma fpu_memory_ok:
  assumes "machine_ok m"
  shows "machine_ok (exec_lwc1 i m)" "machine_ok (exec_ldc1 i m)" "machine_ok (exec_swc1 i m)" "machine_ok (exec_sdc1 i m)"
  unfolding exec_lwc1_def exec_ldc1_def exec_swc1_def exec_sdc1_def
  by (intro pred_if [where P = machine_ok] pred_option [where P = machine_ok] loads_ok stores_ok
      machine_ok_upd_cpu keeps_basic assms)+

lemma keeps_local: "cpu_keeps (execute_local insn)"
proof (rule cpu_keepsI)
  fix c assume c: "cpu_wf c"
  have f: "cpu_wf (exec_cop1 insn c)" "ip2 (exec_cop1 insn c) = ip2 c"
    using exec_cop1_keeps [OF c, of insn] by (simp_all add: fpu_ok_def)
  have two: "cpu_wf (exec_cop2 insn c)" "ip2 (exec_cop2 insn c) = ip2 c"
    using c by (simp_all add: exec_cop2_def wf_intros irq_simps)
  show "cpu_wf (execute_local insn c)"
    unfolding execute_local_def Let_def
    by (intro pred_if [where P = cpu_wf]) (simp_all only: f two wf_intros c)
  show "ip2 (execute_local insn c) = ip2 c"
    unfolding execute_local_def Let_def
    by (intro pred_if [where P = "\<lambda>z. ip2 z = ip2 c"]) (simp_all only: f two irq_simps)
qed

lemma cop0_m_ok:
  assumes "machine_ok m"
  shows "machine_ok (exec_cop0_m insn m)"
proof -
  have c: "cpu_wf (m_cpu m)" using assms by (simp add: machine_ok_def machine_wf_def)
  have "machine_ok (m\<lparr>m_cpu := fst (exec_cop0 insn (m_cpu m))\<rparr>)"
    by (rule machine_ok_cpu [OF assms cpu_wf_exec_cop0 [OF c] ip2_exec_cop0])
  then show ?thesis
    by (auto simp: exec_cop0_m_def Let_def machine_ok_def bc_wf_clear intro!: machine_wf_cache split: prod.split)
qed

lemma execute_ok:
  assumes "machine_ok m"
  shows "machine_ok (execute insn m)"
proof -
  have put: "cpu_keeps (\<lambda>c. write_gpr r v c)" for r v by (rule keeps_basic(3))
  show ?thesis
    unfolding execute_def execute_load_def execute_store_def Let_def
    by (intro pred_if [where P = machine_ok] cop0_m_ok unaligned_ok linked_ok fpu_memory_ok loads_ok
        stores_ok machine_ok_upd_cpu keeps_local keeps_basic assms)
qed


lemma block_interrupt_eq: "block_interrupt m = service_interrupt m"
  by (auto simp: block_interrupt_def service_interrupt_def check_interrupts_def Let_def)

lemma keeps_service: "cpu_keeps (\<lambda>c. retire (check_interrupts c))"
  by (rule keeps_comp [OF keeps_retire]) (simp add: cpu_keeps_def wf_intros irq_simps)

lemma service_interrupt_ok: "machine_ok m \<Longrightarrow> service_interrupt m = Some m1 \<Longrightarrow> machine_ok m1"
  using machine_ok_upd_cpu [OF _ keeps_service, of m]
  by (auto simp: service_interrupt_def Let_def upd_cpu_def split: if_splits)

lemma cpu_fetch_ok: "machine_ok m \<Longrightarrow> machine_ok (snd (cpu_fetch a m))"
  using machine_ok_address(1) [of m a a False]
  by (auto simp: cpu_fetch_def split: prod.split option.split intro!: machine_ok_upd_cpu keeps_basic)

text \<open>The trace callback is only told of the instruction: it may do what it likes to the machine as
  long as it keeps the invariant.\<close>

definition trace_keeps :: "(u64 \<Rightarrow> u32 \<Rightarrow> machine \<Rightarrow> machine) \<Rightarrow> bool" where
  "trace_keeps trace \<longleftrightarrow> (\<forall>pc insn m. machine_ok m \<longrightarrow> machine_ok (trace pc insn m))"

lemma finish_insn_ok:
  assumes "trace_keeps trace" "machine_ok m"
  shows "machine_ok (snd (finish_insn trace d pc n insn m))"
proof -
  have 1: "machine_ok (upd_cpu (enter_insn d pc) m)" by (rule machine_ok_upd_cpu [OF assms(2) keeps_fields(4)])
  have 2: "machine_ok (execute insn (if b then trace pc insn (upd_cpu (enter_insn d pc) m) else upd_cpu (enter_insn d pc) m))" for b
    using assms(1) 1 by (auto simp: trace_keeps_def intro!: execute_ok)
  have k: "cpu_keeps (\<lambda>c. (retire c)\<lparr>c_branch_pending := False\<rparr>)" "cpu_keeps (\<lambda>c. retire (advance_pc d pc c))"
    by (rule keeps_comp [OF keeps_fields(8) keeps_retire], rule keeps_comp [OF keeps_retire keeps_fields(5)])
  show ?thesis
    unfolding finish_insn_def Let_def by (simp add: machine_ok_upd_cpu [OF 2] k)
qed

lemma cpu_step_ok:
  assumes "trace_keeps trace" "machine_ok m"
  shows "machine_ok (cpu_step trace m)"
proof -
  obtain insn m2 where f: "cpu_fetch (c_pc (m_cpu m)) (upd_cpu (set_delay (c_branch_pending (m_cpu m))) m) = (insn, m2)"
    by fastforce
  have "machine_ok (snd (insn, m2))"
    unfolding f [symmetric] by (rule cpu_fetch_ok [OF machine_ok_upd_cpu [OF assms(2) keeps_fields(3)]])
  then have m2: "machine_ok m2" by simp
  have h: "machine_ok (upd_cpu (\<lambda>c. c\<lparr>c_cycles := c_cycles c + 1\<rparr>) m)"
    by (rule machine_ok_upd_cpu [OF assms(2) keeps_fields(6)])
  show ?thesis
    using h finish_insn_ok [OF assms(1) m2] machine_ok_upd_cpu [OF m2 keeps_retire]
    by (simp add: cpu_step_def Let_def f service_interrupt_ok [OF assms(2)] split: option.split)
qed

lemma block_loop_ok:
  assumes "trace_keeps trace" "machine_ok m"
  shows "machine_ok (snd (block_loop trace pc insns m)) \<and> fst (block_loop trace pc insns m) \<le> length insns"
  using assms(2)
proof (induction insns arbitrary: pc m)
  case (Cons insn rest)
  let ?d = "c_branch_pending (m_cpu m)"
  obtain b m2 where f: "finish_insn trace ?d pc (c_exception_count (m_cpu m)) insn (upd_cpu (set_delay ?d) m) = (b, m2)"
    by fastforce
  have "machine_ok (snd (b, m2))"
    unfolding f [symmetric]
    by (rule finish_insn_ok [OF assms(1) machine_ok_upd_cpu [OF Cons.prems keeps_fields(3)]])
  then have m2: "machine_ok m2" by simp
  show ?case
    using Cons.IH [OF m2, of "pc + 4"] Cons.prems m2
    by (auto simp: f block_interrupt_eq service_interrupt_ok split: option.split prod.split bool.split)
qed simp


lemma next_block_ok: "machine_ok m \<Longrightarrow> machine_ok (snd (next_block m))"
  using bc_wf_lookup [of "m_cache m" "c_pc (m_cpu m)"]
    bc_wf_compile [of "snd (bc_lookup (c_pc (m_cpu m)) (m_cache m))" "\<lambda>va. translate va False (m_cpu m)"
      "read32_const m" "c_pc (m_cpu m)"]
  by (auto simp: next_block_def machine_ok_def machine_wf_def split: prod.split option.split)

lemma cpu_run_ok:
  assumes "trace_keeps trace" "machine_ok m"
  shows "machine_ok (snd (cpu_run trace n m)) \<and> fst (cpu_run trace n m) \<le> n
    \<and> (fst (cpu_run trace n m) < n \<longrightarrow> c_halted (m_cpu (snd (cpu_run trace n m))))"
  using assms(2)
proof (induction n arbitrary: m rule: less_induct)
  case (less n)
  show ?case
  proof (cases "n = 0 \<or> c_halted (m_cpu m)")
    case False
    obtain b m1 where nb: "next_block m = (b, m1)" by fastforce
    have m1: "machine_ok m1" using next_block_ok [OF less.prems] by (simp add: nb)
    have step: ?thesis if "cpu_run trace n m = (case cpu_run trace (n - 1) (cpu_step trace s) of (k, m3) \<Rightarrow> (1 + k, m3))"
      "machine_ok s" for s
      using less.IH [of "n - 1", OF _ cpu_step_ok [OF assms(1) that(2)]] False
      by (auto simp: that(1) split: prod.split)
    show ?thesis
    proof (cases "\<exists>blk. b = Some blk \<and> bb_insns blk \<noteq> [] \<and> length (bb_insns blk) \<le> n")
      case True
      then obtain blk where blk: "b = Some blk" "bb_insns blk \<noteq> []" "length (bb_insns blk) \<le> n" by blast
      obtain did m2 where e: "execute_block trace blk m1 = (did, m2)" by fastforce
      have l: "machine_ok m2" "did \<le> length (bb_insns blk)"
        using block_loop_ok [OF assms(1) m1, of "bb_start_pc blk" "bb_insns blk"] e
        by (simp_all add: execute_block_def)
      note run = cpu_run.simps [of trace n m] nb blk e
      show ?thesis
      proof (cases "did = 0")
        case True
        show ?thesis by (rule step [OF _ l(1)]) (use run True False in simp)
      next
        case did: False
        have "cpu_run trace n m = (case cpu_run trace (n - did) m2 of (k, m3) \<Rightarrow> (did + k, m3))"
          using run did False by simp
        then show ?thesis
          using less.IH [of "n - did", OF _ l(1)] did False l(2) blk(3) by (auto split: prod.split)
      qed
    next
      case no: False
      show ?thesis
        by (rule step [OF _ m1]) (use cpu_run.simps [of trace n m] nb no False in \<open>auto split: option.split\<close>)
    qed
  qed (use less.prems in \<open>auto simp: cpu_run.simps [of trace n m]\<close>)
qed

text \<open>C6: A run of the processor, from the block cache or step by step, ends: it takes at most the
  instructions it was given, and fewer only when the processor has halted. Whatever instructions it
  executed, the machine's invariant holds after it: the register file, the TLB and the block cache
  are well formed, the interrupt line is the MIPS interface's, and the RSP is in step with the bus.\<close>

theorem cpu_run_keeps:
  assumes "trace_keeps trace" "machine_ok m"
  shows "machine_ok (snd (cpu_run trace n m)) \<and> fst (cpu_run trace n m) \<le> n
    \<and> (fst (cpu_run trace n m) < n \<longrightarrow> c_halted (m_cpu (snd (cpu_run trace n m))))"
  using cpu_run_ok [OF assms] .

theorem cpu_run_keeps_witness: "machine_ok (snd (cpu_run (\<lambda>_ _ m. m) 1000 (machine_new [1, 2, 3, 4])))"
  using cpu_run_keeps [of "\<lambda>_ _ m. m" "machine_new [1, 2, 3, 4]" 1000] machine_ok_new
  by (simp add: trace_keeps_def)

end
