(* ===== verification/Block_Exec.thy ===== *)
theory Block_Exec
  imports Cpu_Exec
begin

text \<open>
  Properties of the processor on the bus (\<open>cpu/cpu.cpp\<close>, \<open>cpu/block_cache.cpp\<close>): running from the
  block cache is running instruction by instruction (\<open>execute_block\<close> against \<open>step\<close>), the cache
  stays coherent with memory across stores and compilations, what it does not check, and the
  linked and the unaligned accesses.
\<close>

section \<open>Cached blocks and single steps\<close>

text \<open>The memory holds at the program counter the instruction the block cached, and fetching it has
  no side effect.\<close>

definition fetch_is :: "u32 \<Rightarrow> machine \<Rightarrow> bool" where
  "fetch_is insn m \<longleftrightarrow>
    (let m1 = upd_cpu (set_delay (c_branch_pending (m_cpu m))) m
     in cpu_fetch (c_pc (m_cpu m)) m1 = (insn, m1))"

lemma finish_insn_as_step:
  assumes "\<not> c_halted (m_cpu m)" "service_interrupt m = None" "fetch_is insn m"
  shows "cpu_step trace m = snd (finish_insn trace (c_branch_pending (m_cpu m)) (c_pc (m_cpu m))
    (c_exception_count (m_cpu m)) insn (upd_cpu (set_delay (c_branch_pending (m_cpu m))) m))"
  using assms by (simp add: cpu_step_def fetch_is_def Let_def upd_cpu_def set_delay_def)

lemma block_loop_steps:
  assumes "\<not> c_halted (m_cpu m)" "block_loop trace pc insns m = (n, m')"
    and "\<And>k. k < n \<Longrightarrow> k < length insns \<Longrightarrow> service_interrupt ((cpu_step trace ^^ k) m) = None \<Longrightarrow>
      c_pc (m_cpu ((cpu_step trace ^^ k) m)) = pc + 4 * of_nat k \<Longrightarrow> fetch_is (insns ! k) ((cpu_step trace ^^ k) m)"
  shows "m' = (cpu_step trace ^^ n) m"
  using assms
proof (induction insns arbitrary: pc m n m')
  case (Cons insn rest)
  let ?d = "c_branch_pending (m_cpu m)"
  show ?case
  proof (cases "c_pc (m_cpu m) = pc")
    case pc: True
    show ?thesis
    proof (cases "service_interrupt m")
      case None
      obtain b m2 where f: "finish_insn trace ?d pc (c_exception_count (m_cpu m)) insn (upd_cpu (set_delay ?d) m) = (b, m2)"
        by fastforce
      obtain k m3 where r: "block_loop trace (pc + 4) rest m2 = (k, m3)" by fastforce
      have out: "(n, m') = (if b \<or> c_halted (m_cpu m2) then (1, m2) else (Suc k, m3))"
        using Cons.prems(2) by (cases b) (auto simp: pc None block_interrupt_eq f r split: if_splits)
      then have "0 < n" by (auto split: if_splits)
      then have "fetch_is insn m" using Cons.prems(3) [of 0] None pc by simp
      from finish_insn_as_step [OF Cons.prems(1) None this, of trace]
      have step: "cpu_step trace m = m2" using f pc by simp
      have shift: "(cpu_step trace ^^ Suc i) m = (cpu_step trace ^^ i) m2" for i
        using step by (simp add: funpow_Suc_right del: funpow.simps(2))
      show ?thesis
      proof (cases "b \<or> c_halted (m_cpu m2)")
        case False
        then have n: "n = Suc k" "m' = m3" using out by simp_all
        have "m3 = (cpu_step trace ^^ k) m2"
        proof (rule Cons.IH [OF _ r])
          show "\<not> c_halted (m_cpu m2)" using False by simp
          show "fetch_is (rest ! i) ((cpu_step trace ^^ i) m2)"
            if "i < k" "i < length rest" "service_interrupt ((cpu_step trace ^^ i) m2) = None"
              "c_pc (m_cpu ((cpu_step trace ^^ i) m2)) = pc + 4 + 4 * of_nat i" for i
            using Cons.prems(3) [of "Suc i", unfolded shift] that n by (simp add: algebra_simps)
        qed
        then show ?thesis unfolding n shift .
      qed (use out step in simp)
    next
      case (Some m1)
      then have "n = 1" "m' = m1" using Cons.prems(2) pc by (simp_all add: block_interrupt_eq)
      then show ?thesis using Some Cons.prems(1) by (simp add: cpu_step_def)
    qed
  qed (use Cons.prems(2) in simp)
qed simp


lemma translate_set_delay: "translate_address v st (c\<lparr>c_in_delay_slot := b\<rparr>) = translate_address v st c"
proof -
  have f: "cpu_mode (c\<lparr>c_in_delay_slot := b\<rparr>) = cpu_mode c" "c_cop0 (c\<lparr>c_in_delay_slot := b\<rparr>) = c_cop0 c"
    "c_tlb (c\<lparr>c_in_delay_slot := b\<rparr>) = c_tlb c"
    by (simp_all add: cpu_mode_def)
  show ?thesis by (simp only: translate_address_def f)
qed

lemma read32_const_cong:
  assumes "m_rdram m' = m_rdram m" "m_dmem m' = m_dmem m" "m_imem m' = m_imem m" "m_cart m' = m_cart m"
    "m_pif_rom m' = m_pif_rom m" "m_pif m' = m_pif m"
  shows "read32_const m' a = read32_const m a"
  by (simp only: read32_const_def read8_const_def rdram_index_def assms)

lemma read32_const_cpu: "read32_const (upd_cpu f m) a = read32_const m a"
  by (rule read32_const_cong) (simp_all add: upd_cpu_def)

lemma fetch_is_memory:
  assumes "c_pc (m_cpu m) AND 3 = 0" "translate_address (c_pc (m_cpu m)) False (m_cpu m) = Translated p"
    "\<not> is_mmio_region (physical p)" "\<not> dbg_enabled (m_dbg m)"
  shows "fetch_is (read32_const m (physical p)) m"
proof -
  let ?m = "upd_cpu (set_delay (c_branch_pending (m_cpu m))) m"
  have "translate_address (c_pc (m_cpu m)) False (m_cpu ?m) = Translated p"
    using assms(2) by (simp add: upd_cpu_def set_delay_def translate_set_delay)
  then have t: "with_address (translate_or_raise (c_pc (m_cpu m)) (c_pc (m_cpu m)) False (m_cpu ?m)) ?m = (Some p, ?m)"
    by (simp add: translate_or_raise_def with_address_def)
  have "dbg_read (physical p) 4 ?m = ?m"
    using assms(4) by (simp add: dbg_read_def on_bus_read_def on_bus_access_def upd_cpu_def)
  then show ?thesis
    using assms(1,3) by (simp add: fetch_is_def cpu_fetch_def Let_def t bus_read32_def read32_const_cpu)
qed

section \<open>Coherence of the block cache with memory\<close>

text \<open>A block of RDRAM: it starts at a word boundary and lies inside the memory, below its mirrors.\<close>

definition ram_block :: "machine \<Rightarrow> basic_block \<Rightarrow> bool" where
  "ram_block m blk \<longleftrightarrow> unat (bb_paddr blk) mod 4 = 0
    \<and> unat (bb_paddr blk) + 4 * length (bb_insns blk) \<le> length (m_rdram m)"

definition ram_word :: "machine \<Rightarrow> nat \<Rightarrow> u32" where
  "ram_word m i = bswap32 (le32 (nth (m_rdram m)) i)"

definition cached_words :: "machine \<Rightarrow> basic_block \<Rightarrow> bool" where
  "cached_words m blk \<longleftrightarrow>
    (\<forall>k<length (bb_insns blk). bb_insns blk ! k = ram_word m (unat (bb_paddr blk) + 4 * k))"

definition ram_coherent :: "machine \<Rightarrow> bool" where
  "ram_coherent m \<longleftrightarrow>
    (\<forall>i. sl_valid (bc_table (m_cache m) i) \<and> ram_block m (sl_block (bc_table (m_cache m) i))
      \<longrightarrow> cached_words m (sl_block (bc_table (m_cache m) i)))"

lemma ram_word_cong: "(\<And>j. i \<le> j \<Longrightarrow> j < i + 4 \<Longrightarrow> m_rdram m' ! j = m_rdram m ! j) \<Longrightarrow> ram_word m' i = ram_word m i"
  by (simp add: ram_word_def le32_def)

text \<open>A change of memory whose bytes no surviving block has.\<close>

lemma coherent_write:
  assumes co: "ram_coherent m"
    and old: "\<And>i. sl_valid (bc_table (m_cache m') i) \<Longrightarrow> sl_valid (bc_table (m_cache m) i)
      \<and> sl_block (bc_table (m_cache m') i) = sl_block (bc_table (m_cache m) i)"
    and fresh: "\<And>i. sl_valid (bc_table (m_cache m') i) \<Longrightarrow> \<not> overlaps p (p + n) (sl_block (bc_table (m_cache m') i))"
    and len: "length (m_rdram m') = length (m_rdram m)"
    and bytes: "\<And>j. j < p \<or> p + n \<le> j \<Longrightarrow> m_rdram m' ! j = m_rdram m ! j"
  shows "ram_coherent m'"
  unfolding ram_coherent_def
proof (intro allI impI)
  fix i
  let ?b = "sl_block (bc_table (m_cache m') i)"
  assume v: "sl_valid (bc_table (m_cache m') i) \<and> ram_block m' ?b"
  then have c: "cached_words m ?b"
    using co old [of i] len by (auto simp: ram_coherent_def ram_block_def)
  have out: "unat (bb_paddr ?b) + 4 * length (bb_insns ?b) \<le> p \<or> p + n \<le> unat (bb_paddr ?b)"
    using fresh [of i] v by (auto simp: overlaps_def Let_def)
  have "ram_word m' (unat (bb_paddr ?b) + 4 * k) = ram_word m (unat (bb_paddr ?b) + 4 * k)"
    if "k < length (bb_insns ?b)" for k
    by (rule ram_word_cong, rule bytes) (use out that in auto)
  then show "cached_words m' ?b" using c by (simp add: cached_words_def)
qed

lemma notify_old:
  assumes "bc_wf (m_cache m)" "sl_valid (bc_table (m_cache (notify_memory_write p s m)) i)"
  shows "sl_valid (bc_table (m_cache m) i)
    \<and> sl_block (bc_table (m_cache (notify_memory_write p s m)) i) = sl_block (bc_table (m_cache m) i)"
  using invalidate_correct [OF assms(1), of "physical p" s] assms(2)
  by (auto simp: notify_memory_write_def split: if_splits option.splits)

lemma store_bytes_outside:
  "j < i \<or> i + 2 \<le> j \<Longrightarrow> store_le16 vec_wr i v16 xs ! j = xs ! j"
  "j < i \<or> i + 4 \<le> j \<Longrightarrow> store_le32 vec_wr i v32 xs ! j = xs ! j"
  "j < i \<or> i + 8 \<le> j \<Longrightarrow> store_le64 vec_wr i v64 xs ! j = xs ! j"
  by (auto simp: store_le16_def store_le32_def store_le64_def vec_wr_def)

lemma store_bytes_length:
  "length (store_le16 vec_wr i v16 xs) = length xs" "length (store_le32 vec_wr i v32 xs) = length xs"
  "length (store_le64 vec_wr i v64 xs) = length xs"
  by (simp_all add: store_le16_def store_le32_def store_le64_def vec_wr_def)

lemma coherent_announce:
  assumes "ram_coherent m" "bc_wf (m_cache m)" "bc_aligned (m_cache m)" "sz \<noteq> 0"
    and "length xs = length (m_rdram m)"
    and "\<And>j. j < unat (physical a) \<or> unat (physical a) + unat sz \<le> j \<Longrightarrow> xs ! j = m_rdram m ! j"
  shows "ram_coherent ((announce_write (physical a) sz m)\<lparr>m_rdram := xs\<rparr>)"
proof (rule coherent_write [where m = m and p = "unat (physical a)" and n = "unat sz"])
  have c: "m_cache (announce_write p s n) = m_cache (notify_memory_write p s n)" for p s n
    by (simp add: announce_write_def dbg_write_def)
  show "sl_valid (bc_table (m_cache m) i) \<and>
      sl_block (bc_table (m_cache ((announce_write (physical a) sz m)\<lparr>m_rdram := xs\<rparr>)) i) = sl_block (bc_table (m_cache m) i)"
    if "sl_valid (bc_table (m_cache ((announce_write (physical a) sz m)\<lparr>m_rdram := xs\<rparr>)) i)" for i
    using notify_old [OF assms(2), of "physical a" sz i] that by (simp add: c)
  show "\<not> overlaps (unat (physical a)) (unat (physical a) + unat sz)
      (sl_block (bc_table (m_cache ((announce_write (physical a) sz m)\<lparr>m_rdram := xs\<rparr>)) i))"
    if "sl_valid (bc_table (m_cache ((announce_write (physical a) sz m)\<lparr>m_rdram := xs\<rparr>)) i)" for i
    using announce_fresh [OF assms(2-4), of a i] that by simp
qed (use assms in simp_all)



section \<open>Coherent blocks\<close>

text \<open>The directly mapped segments: an address there is translated to its low 29 bits in kernel mode
  and refused in the other modes.\<close>

lemma direct_translate:
  assumes "0x80000000 \<le> (ucast v :: u32)" "(ucast v :: u32) \<le> 0xBFFFFFFF"
  shows "translate_address v st c = (if cpu_mode c = 0 then Translated (ucast v AND 0x1FFFFFFF) else AddressError)"
  using assms
  by (simp add: translate_address_def Let_def) (auto simp: word_le_nat_alt word_less_nat_alt)

lemma compile_loop_words:
  "compile_loop tr rd n pc = (insns, b) \<Longrightarrow> k < length insns \<Longrightarrow>
    \<exists>q. tr (pc + 4 * of_nat k) = Some q \<and> insns ! k = rd q"
proof (induction n arbitrary: pc insns b k)
  case (Suc n)
  obtain p where p: "tr pc = Some p" using Suc.prems by (auto split: option.splits)
  obtain rest b' where r: "compile_loop tr rd n (pc + 4) = (rest, b')" by fastforce
  have out: "insns = [rd p] \<or> (\<exists>q. tr (pc + 4) = Some q \<and> insns = [rd p, rd q]) \<or> insns = rd p # rest"
    using Suc.prems(1) by (auto simp: p r Let_def split: if_splits option.splits)
  show ?case
  proof (cases k)
    case 0
    then show ?thesis using out p by auto
  next
    case (Suc j)
    then show ?thesis using out Suc.prems(2) Suc.IH [OF r, of j] by (auto simp: algebra_simps)
  qed
qed simp

lemma direct_offset:
  assumes "direct_mapped v p" "unat p + 4 * k < 2 ^ 29"
  shows "0x80000000 \<le> (ucast (v + 4 * of_nat k) :: u32)" "(ucast (v + 4 * of_nat k) :: u32) \<le> 0xBFFFFFFF"
    "(ucast (v + 4 * of_nat k) :: u32) AND 0x1FFFFFFF = p + 4 * of_nat k" "unat (p + 4 * of_nat k) = unat p + 4 * k"
proof -
  define w where "w = (ucast v :: u32)"
  have w: "0x80000000 \<le> w" "w \<le> 0xBFFFFFFF" and p: "p = w AND 0x1FFFFFFF"
    using assms(1) by (simp_all add: direct_mapped_def w_def Let_def)
  have m: "(0x1FFFFFFF :: u32) = mask 29" by (simp add: mask_eq_exp_minus_1)
  have up: "unat p = unat w mod 2 ^ 29" unfolding p m by (simp add: unat_and_mask)
  define h where "h = unat w div 2 ^ 29"
  have uw: "unat w = h * 2 ^ 29 + unat p" using div_mult_mod_eq [of "unat w" "2 ^ 29"] by (simp add: h_def up)
  have h: "4 \<le> h" "h \<le> 5" using w by (simp_all add: h_def word_le_nat_alt)
  have e: "(ucast (v + 4 * of_nat k) :: u32) = w + 4 * of_nat k"
  proof -
    have d: "(ucast (word_of_int n :: u64) :: u32) = word_of_int n" for n
      by (rule ucast_down_wi) (simp add: is_down)
    have "v + 4 * of_nat k = word_of_int (uint v + 4 * int k)" by simp
    then have "(ucast (v + 4 * of_nat k) :: u32) = word_of_int (uint v + 4 * int k)" using d by metis
    moreover have "w = word_of_int (uint v)" unfolding w_def using d [of "uint v"] by simp
    ultimately show ?thesis by simp
  qed
  have "unat (of_nat (4 * k) :: u32) = 4 * k"
    using assms(2) by (simp add: unsigned_of_nat take_bit_nat_eq_self del: of_nat_mult)
  then have uk: "unat (4 * of_nat k :: u32) = 4 * k" by simp
  have uwk: "unat (w + 4 * of_nat k) = unat w + 4 * k"
    using unat_add_lem [THEN iffD1, of w "4 * of_nat k"] uk uw h assms(2) by simp
  show off: "unat (p + 4 * of_nat k) = unat p + 4 * k"
    using unat_add_lem [THEN iffD1, of p "4 * of_nat k"] uk assms(2) by simp
  show "0x80000000 \<le> (ucast (v + 4 * of_nat k) :: u32)" "(ucast (v + 4 * of_nat k) :: u32) \<le> 0xBFFFFFFF"
    using uwk uw h assms(2) by (simp_all add: e word_le_nat_alt)
  show "(ucast (v + 4 * of_nat k) :: u32) AND 0x1FFFFFFF = p + 4 * of_nat k"
  proof (rule unsigned_word_eqI [where 'a = nat])
    have "unat (w + 4 * of_nat k) mod 2 ^ 29 = (unat p + 4 * k) mod 2 ^ 29"
      by (simp only: uwk uw add.assoc mod_mult_self3)
    then have "unat ((w + 4 * of_nat k) AND mask 29) = unat p + 4 * k"
      using assms(2) by (simp add: unat_and_mask)
    then show "unat ((ucast (v + 4 * of_nat k) :: u32) AND 0x1FFFFFFF) = unat (p + 4 * of_nat k)"
      using off by (simp add: e m)
  qed
qed


lemma ram_read:
  assumes "length (m_rdram m) \<le> 0x03F00000" "unat q + 4 \<le> length (m_rdram m)"
  shows "read32_const m q = ram_word m (unat q)" "physical q = q" "\<not> is_mmio_region q"
proof -
  have mk: "(0x1FFFFFFF :: u32) = mask 29" by (simp add: mask_eq_exp_minus_1)
  show ph: "physical q = q"
    unfolding physical_def mk by (rule word_mask_self) (use assms in simp)
  have q: "q < 0x03F00000" using assms by (simp add: word_less_nat_alt)
  show "\<not> is_mmio_region q" by (rule no_mmio_in_rdram [OF q])
  have "m_rdram m \<noteq> []" "rdram_index m q = unat q" using assms(2) by (auto simp: rdram_index_def)
  then show "read32_const m q = ram_word m (unat q)"
    using assms(2) q by (simp add: read32_const_def ph ram_word_def)
qed

text \<open>A block compiled from a direct segment holds the words of memory.\<close>

lemma compile_words:
  assumes "bc_compile (\<lambda>va. translate va False c) (read32_const m) pc bc = (Some blk, bc')"
    and "0x80000000 \<le> (ucast pc :: u32)" "(ucast pc :: u32) \<le> 0xBFFFFFFF"
  shows "direct_mapped pc (bb_paddr blk)" "bb_start_pc blk = pc"
    "length (m_rdram m) \<le> 0x03F00000 \<Longrightarrow> ram_block m blk \<Longrightarrow> cached_words m blk"
proof -
  obtain p insns branch where p: "translate pc False c = Some p"
    and l: "compile_loop (\<lambda>va. translate va False c) (read32_const m) kMaxBlockInsns pc = (insns, branch)"
    and b: "blk = \<lparr>bb_start_pc = pc, bb_paddr = p, bb_insns = insns, bb_ends_with_branch = branch\<rparr>"
    using assms(1) by (rule bc_compile_table) blast
  have t: "translate va False c = (if cpu_mode c = 0 then Some (ucast va AND 0x1FFFFFFF) else None)"
    if "0x80000000 \<le> (ucast va :: u32)" "(ucast va :: u32) \<le> 0xBFFFFFFF" for va
    using direct_translate [OF that] by (simp add: translate_def)
  show d: "direct_mapped pc (bb_paddr blk)"
    using p t [OF assms(2,3)] assms(2,3) by (auto simp: b direct_mapped_def Let_def split: if_splits)
  show "bb_start_pc blk = pc" by (simp add: b)
  assume len: "length (m_rdram m) \<le> 0x03F00000" and ram: "ram_block m blk"
  show "cached_words m blk"
    unfolding cached_words_def
  proof (intro allI impI)
    fix k assume k: "k < length (bb_insns blk)"
    then obtain q where q: "translate (pc + 4 * of_nat k) False c = Some q" "bb_insns blk ! k = read32_const m q"
      using compile_loop_words [OF l, of k] by (auto simp: b)
    have in_ram: "unat (bb_paddr blk) + 4 * k + 4 \<le> length (m_rdram m)" using ram k by (simp add: ram_block_def)
    note o = direct_offset [OF d, of k]
    have "q = bb_paddr blk + 4 * of_nat k" "unat q = unat (bb_paddr blk) + 4 * k"
      using q(1) t [OF o(1,2)] o(3,4) in_ram len by (auto split: if_splits)
    then show "bb_insns blk ! k = ram_word m (unat (bb_paddr blk) + 4 * k)"
      using ram_read(1) [OF len, of q] q(2) in_ram by simp
  qed
qed

lemma coherent_cache:
  assumes "ram_coherent m" "bc_table c = bc_table (m_cache m)"
  shows "ram_coherent (m\<lparr>m_cache := c\<rparr>)"
  using assms by (simp add: ram_coherent_def ram_block_def cached_words_def ram_word_def)

lemma bc_lookup_table: "bc_table (snd (bc_lookup v bc)) = bc_table bc"
  by (simp add: bc_lookup_def Let_def)

lemma coherent_compile:
  assumes "ram_coherent m" "bc_compile (\<lambda>va. translate va False c) (read32_const m) pc (m_cache m) = (b, bc')"
    and "0x80000000 \<le> (ucast pc :: u32)" "(ucast pc :: u32) \<le> 0xBFFFFFFF" "length (m_rdram m) \<le> 0x03F00000"
  shows "ram_coherent (m\<lparr>m_cache := bc'\<rparr>)"
proof (cases b)
  case None
  then have "bc' = m_cache m"
    using assms(2) by (auto simp: bc_compile_def Let_def split: option.splits prod.splits if_splits)
  then show ?thesis using assms(1) by (simp add: coherent_cache)
next
  case (Some blk)
  note c = assms(2) [unfolded Some]
  have s: "sl_block (bc_table bc' (slot_of_pc pc)) = blk"
    "\<And>j. j \<noteq> slot_of_pc pc \<Longrightarrow> sl_valid (bc_table bc' j) = sl_valid (bc_table (m_cache m) j)
      \<and> sl_block (bc_table bc' j) = sl_block (bc_table (m_cache m) j)"
    using c by (auto elim: bc_compile_table)
  have "cached_words m (sl_block (bc_table bc' i))"
    if "sl_valid (bc_table bc' i)" "ram_block m (sl_block (bc_table bc' i))" for i
    using that s compile_words(3) [OF c assms(3-5)] assms(1) by (cases "i = slot_of_pc pc") (auto simp: ram_coherent_def)
  then show ?thesis
    by (simp add: ram_coherent_def ram_block_def cached_words_def ram_word_def)
qed



lemma aligned_add: "(a + 4 * of_nat k) AND 3 = a AND (3 :: u64)"
proof -
  have m: "(3 :: u64) = mask 2" by (simp add: mask_eq_exp_minus_1)
  have d: "a + 4 * of_nat k = word_of_int (uint a + 4 * int k)" by simp
  have "take_bit 2 (4 * int k) = 0" by (simp add: take_bit_eq_mod)
  then have "take_bit 2 (uint a + 4 * int k) = take_bit 2 (uint a)"
    using take_bit_add [of 2 "uint a" "4 * int k"] by simp
  then have "uint (take_bit 2 (a + 4 * of_nat k)) = uint (take_bit 2 a)"
    unfolding d unsigned_take_bit_eq uint_word_of_int_eq by (simp only: take_bit_take_bit) simp
  then show ?thesis unfolding m by (simp only: take_bit_eq_mask [symmetric] word_uint_eq_iff)
qed

text \<open>C3: A coherent block runs as the instructions in memory. If a block of RDRAM reached through a
  direct segment holds the words of memory, and goes on holding them at each of its instructions
  (no store of its own hits it), running it from the cache is, to the last bit of the machine, the
  same as fetching and executing that many instructions one by one.\<close>

theorem cached_block_runs_as_steps:
  assumes "\<not> c_halted (m_cpu m)" "execute_block trace blk m = (n, m')"
    and "direct_mapped (bb_start_pc blk) (bb_paddr blk)" "bb_start_pc blk AND 3 = 0"
    and "\<forall>k<n. let s = (cpu_step trace ^^ k) m in
      ram_block s blk \<and> length (m_rdram s) \<le> 0x03F00000 \<and> cached_words s blk
      \<and> cpu_mode (m_cpu s) = 0 \<and> \<not> dbg_enabled (m_dbg s)"
  shows "m' = (cpu_step trace ^^ n) m"
proof (rule block_loop_steps [OF assms(1) assms(2) [unfolded execute_block_def]])
  fix k
  let ?s = "(cpu_step trace ^^ k) m" and ?pc = "bb_start_pc blk + 4 * of_nat k"
  assume k: "k < n" "k < length (bb_insns blk)" and pc: "c_pc (m_cpu ?s) = ?pc"
  have s: "ram_block ?s blk" "length (m_rdram ?s) \<le> 0x03F00000" "cached_words ?s blk"
    "cpu_mode (m_cpu ?s) = 0" "\<not> dbg_enabled (m_dbg ?s)"
    using assms(5) k(1) by (simp_all add: Let_def)
  let ?q = "bb_paddr blk + 4 * of_nat k"
  have in_ram: "unat (bb_paddr blk) + 4 * k + 4 \<le> length (m_rdram ?s)" using s(1) k(2) by (simp add: ram_block_def)
  note o = direct_offset [OF assms(3), of k]
  have uq: "unat ?q = unat (bb_paddr blk) + 4 * k" by (rule o(4)) (use in_ram s(2) in simp)
  have t: "translate_address (c_pc (m_cpu ?s)) False (m_cpu ?s) = Translated ?q"
    unfolding pc using direct_translate [OF o(1,2)] o(3) in_ram s(2,4) by simp
  note r = ram_read [OF s(2), of ?q]
  have al: "c_pc (m_cpu ?s) AND 3 = 0"
  proof -
    have "?pc AND 3 = bb_start_pc blk AND 3" by (rule aligned_add)
    then show ?thesis using assms(4) by (simp add: pc)
  qed
  have "fetch_is (read32_const ?s (physical ?q)) ?s"
    by (rule fetch_is_memory [OF al t _ s(5)]) (use r uq in_ram in simp)
  moreover have "read32_const ?s (physical ?q) = bb_insns blk ! k"
    using r uq in_ram s(3) k(2) by (simp add: cached_words_def)
  ultimately show "fetch_is (bb_insns blk ! k) ?s" by simp
qed


section \<open>Witnesses\<close>

lemma ram_coherent_new: "ram_coherent (machine_new xs)"
  by (simp add: ram_coherent_def machine_new_def bc_new_def empty_slot_def)


text \<open>A machine with one instruction in RDRAM, and the block of it.\<close>

definition one_block :: basic_block where
  "one_block = \<lparr>bb_start_pc = 0xFFFFFFFF80000000, bb_paddr = 0, bb_insns = [0x24010005], bb_ends_with_branch = False\<rparr>"

definition one_machine :: machine where
  "one_machine = (machine_new [0x24, 0x01, 0x00, 0x05])\<lparr>m_cpu := cpu_new\<lparr>c_pc := 0xFFFFFFFF80000000\<rparr>\<rparr>"

lemma one_machine_fields [simp]:
  "m_rdram one_machine = [0x24, 0x01, 0x00, 0x05]" "c_pc (m_cpu one_machine) = 0xFFFFFFFF80000000"
  "\<not> c_halted (m_cpu one_machine)" "cpu_mode (m_cpu one_machine) = 0" "\<not> dbg_enabled (m_dbg one_machine)"
  by (simp_all add: one_machine_def machine_new_def cpu_new_def debugger_new_def cpu_mode_def)

lemma one_machine_ok: "ram_coherent one_machine" "machine_wf one_machine"
proof -
  show "ram_coherent one_machine"
    using ram_coherent_new [of "[0x24, 0x01, 0x00, 0x05]"]
    by (simp add: one_machine_def ram_coherent_def ram_block_def cached_words_def ram_word_def)
  show "machine_wf one_machine"
    unfolding one_machine_def
    by (rule machine_wf_cpu [OF machine_wf_new])
      (use machine_wf_new [of "[]"] in \<open>simp_all add: machine_wf_def machine_new_def cpu_wf_def ip2_def\<close>)
qed

lemma one_block_words: "cached_words one_machine one_block"
proof -
  have "bswap32 (le32 (nth [0x24, 0x01, 0x00, 0x05]) 0) = 0x24010005" by code_simp
  then show ?thesis by (simp add: cached_words_def one_block_def ram_word_def)
qed


theorem cached_block_runs_as_steps_witness:
  "fst (execute_block (\<lambda>_ _ m. m) one_block one_machine) = 1
    \<and> snd (execute_block (\<lambda>_ _ m. m) one_block one_machine) = cpu_step (\<lambda>_ _ m. m) one_machine"
proof -
  have n: "fst (execute_block (\<lambda>_ _ m. m) one_block one_machine) = 1"
    by (simp add: execute_block_def one_block_def Let_def split: option.split prod.split bool.split)
  have d: "direct_mapped (bb_start_pc one_block) (bb_paddr one_block)" "bb_start_pc one_block AND 3 = 0"
    by (simp_all add: one_block_def direct_mapped_def)
  have "ram_block one_machine one_block" by (simp add: ram_block_def one_block_def)
  then have "snd (execute_block (\<lambda>_ _ m. m) one_block one_machine)
      = (cpu_step (\<lambda>_ _ m. m) ^^ fst (execute_block (\<lambda>_ _ m. m) one_block one_machine)) one_machine"
    using cached_block_runs_as_steps [OF _ prod.collapse [symmetric] d, of one_machine "\<lambda>_ _ m. m"] one_block_words
    by (simp add: n)
  then show ?thesis using n by simp
qed

section \<open>What the cache does not check\<close>

text \<open>A block compiled in kernel mode stays in the cache when \<open>ERET\<close> returns to user mode, and the
  lookup does not look at the mode: user code that jumps to a cached kernel address runs it, where
  the single step takes an address error.\<close>

lemma cached_kernel_block_in_user_mode:
  assumes "bc_lookup (c_pc (m_cpu m)) (m_cache m) = (Some blk, bc)" "c_block_cache_enabled (m_cpu m)"
    and "\<not> c_branch_pending (m_cpu m)" "\<not> c_tracing (m_cpu m)" "c_pc (m_cpu m) AND 3 = 0"
    and "0x80000000 \<le> (ucast (c_pc (m_cpu m)) :: u32)" "(ucast (c_pc (m_cpu m)) :: u32) \<le> 0xBFFFFFFF"
    and "cpu_mode (m_cpu m) \<noteq> 0"
  shows "fst (next_block m) = Some blk \<and> fst (cpu_fetch (c_pc (m_cpu m)) m) = 0
    \<and> c_exception_count (m_cpu (snd (cpu_fetch (c_pc (m_cpu m)) m))) = c_exception_count (m_cpu m) + 1"
  using assms direct_translate [OF assms(6,7)]
  by (simp add: next_block_def cpu_fetch_def with_address_def translate_or_raise_def)

text \<open>Nor does it look at the alignment of the program counter.\<close>

lemma cached_block_at_misaligned_pc:
  assumes "bc_lookup (c_pc (m_cpu m)) (m_cache m) = (Some blk, bc)" "c_block_cache_enabled (m_cpu m)"
    and "\<not> c_branch_pending (m_cpu m)" "\<not> c_tracing (m_cpu m)" "c_pc (m_cpu m) AND 3 \<noteq> 0"
  shows "fst (next_block m) = Some blk
    \<and> c_exception_count (m_cpu (snd (cpu_fetch (c_pc (m_cpu m)) m))) = c_exception_count (m_cpu m) + 1"
  using assms by (simp add: next_block_def cpu_fetch_def upd_cpu_def)

section \<open>Unaligned loads and conditional stores\<close>

text \<open>The unaligned loads shift as on a little-endian machine: at an aligned address \<open>LWL\<close> puts the
  lowest byte of the word on top of the register, where the big-endian instruction loads the whole
  word.\<close>

lemma lwl_aligned_takes_one_byte:
  assumes "ea insn m AND 3 = 0"
    and "with_address (translate_or_raise (ea insn m AND NOT 3) (ea insn m) False (m_cpu m)) m = (Some p, m1)"
    and "bus_read32 p m1 = (w, m2)"
  shows "exec_lwl insn m = upd_cpu (\<lambda>c. write_gpr (i_rt insn)
    (sext32 ((rt32 insn c AND 0x00FFFFFF) OR push_bit 24 w)) c) m2"
proof -
  have k: "shift_left4 (ea insn m) = 24" using assms(1) by (simp add: shift_left4_def)
  have c: "(0xFFFFFFFF :: u32) = mask 32" "(0x00FFFFFF :: u32) = mask 24" by (simp_all add: mask_eq_exp_minus_1)
  have g: "merge (push_bit 24 0xFFFFFFFF) old (push_bit 24 w) = (old AND 0x00FFFFFF) OR push_bit 24 w" for old
    unfolding merge_def c by (rule bit_word_eqI) (auto simp: bit_simps)
  show ?thesis
    unfolding exec_lwl_def Let_def load_aligned_def k assms(2)
    by (simp only: prod.case option.case assms(3) g)
qed



end
