(* ===== verification/Boot.thy ===== *)
theory Boot
  imports Cpu_Exec Rsp_Exec
begin

text \<open>
  The boot (\<open>pif/boot.cpp\<close>): the high-level replacement of the boot ROMs, which programs the
  cartridge timing, copies the program to RDRAM by a PI transfer and seeds the processor and the PIF
  RAM, and the start of a user-supplied PIF ROM. Reading a file is a parameter: the bytes of the
  file, none when it cannot be read or is empty.
\<close>

section \<open>Configuration and result\<close>

datatype boot_mode = Hle | LlePif

record boot_config =
  cfg_mode :: boot_mode
  cfg_load_size :: nat
  cfg_skip_rom_copy :: bool
  cfg_force_cic :: cic_type
  cfg_force_tv_set :: bool
  cfg_force_tv :: tv_type
  cfg_pif_rom_path :: string
  cfg_ipl3_path :: string
  cfg_reset_type :: u32

definition boot_config_default :: boot_config where
  "boot_config_default = \<lparr>cfg_mode = Hle, cfg_load_size = 0, cfg_skip_rom_copy = False,
     cfg_force_cic = Cic_Unknown, cfg_force_tv_set = False, cfg_force_tv = NTSC,
     cfg_pif_rom_path = [], cfg_ipl3_path = [], cfg_reset_type = 0\<rparr>"

record boot_result =
  br_ok :: bool
  br_header :: cart_header
  br_entrypoint :: u32
  br_bytes_copied :: nat
  br_pif_rom_loaded :: bool
  br_ipl3_loaded :: bool
  br_mode :: boot_mode
  br_error :: "string option"

definition boot_result_new :: "boot_mode \<Rightarrow> boot_result" where
  "boot_result_new md = \<lparr>br_ok = False, br_header = cart_header_default, br_entrypoint = 0,
     br_bytes_copied = 0, br_pif_rom_loaded = False, br_ipl3_loaded = False, br_mode = md,
     br_error = None\<rparr>"

section \<open>The steps of a boot\<close>

definition load_phys_from_entry :: "u32 \<Rightarrow> u32" where
  "load_phys_from_entry entry = entry AND 0x1FFFFFFF"

definition apply_pi_dom1_from_header :: "u32 \<Rightarrow> machine \<Rightarrow> machine" where
  "apply_pi_dom1_from_header pi_word m =
     bus_write32 (0x04600000 + 0x20) (drop_bit 20 pi_word AND 0x0F)
    (bus_write32 (0x04600000 + 0x1C) (drop_bit 16 pi_word AND 0x0F)
    (bus_write32 (0x04600000 + 0x18) (drop_bit 8 pi_word AND 0xFF)
    (bus_write32 (0x04600000 + 0x14) (pi_word AND 0xFF) m)))"

text \<open>\<open>set_cop0\<close> with its side effect on the block cache.\<close>

definition set_cop0_m :: "u32 \<Rightarrow> u32 \<Rightarrow> machine \<Rightarrow> machine" where
  "set_cop0_m i v m =
    (case set_cop0 i v (m_cpu m) of
       (c, cleared) \<Rightarrow> (let m1 = m\<lparr>m_cpu := c\<rparr> in if cleared then m1\<lparr>m_cache := bc_clear (m_cache m1)\<rparr> else m1))"

definition set_gpr_m :: "u32 \<Rightarrow> u64 \<Rightarrow> machine \<Rightarrow> machine" where
  "set_gpr_m i v = upd_cpu (set_gpr i v)"

definition clear_gprs :: "machine \<Rightarrow> machine" where
  "clear_gprs m = fold (\<lambda>i. set_gpr_m (of_nat i) 0) [0..<32] m"

definition start_cpu :: "u64 \<Rightarrow> machine \<Rightarrow> machine" where
  "start_cpu pc = upd_cpu (\<lambda>c. (set_pc pc c)\<lparr>c_halted := False\<rparr>)"

fun tv_number :: "tv_type \<Rightarrow> u64" where
  "tv_number PAL = 0"
| "tv_number NTSC = 1"
| "tv_number MPAL = 2"

definition seed_gprs :: "cart_header \<Rightarrow> u32 \<Rightarrow> u32 \<Rightarrow> (u32 \<times> u64) list" where
  "seed_gprs hdr sp_top reset_type =
    [(6, 0xFFFFFFFF), (11, 0xFFFFFFFF), (19, 0), (20, tv_number (h_tv hdr)),
     (21, ucast (reset_type AND 1)), (22, ucast (h_cic_seed hdr)), (23, 0), (24, 3), (25, 0xFFFFFFFF),
     (29, ucast sp_top), (31, 0xA4001550)]"

definition seed_cop0 :: "(u32 \<times> u32) list" where
  "seed_cop0 =
    [(Cop0_Status, 0x34000000), (Cop0_Config, 0x7006E463), (Cop0_Count, 0), (Cop0_Compare, 0xFFFFFFFF),
     (Cop0_Cause, 0), (Cop0_EPC, 0), (Cop0_PRId, 0x00000B22), (Cop0_Context, 0), (Cop0_Wired, 0),
     (Cop0_BadVAddr, 0), (Cop0_Random, 31)]"

definition seed_cpu_after_ipl3 :: "cart_header \<Rightarrow> u32 \<Rightarrow> u32 \<Rightarrow> machine \<Rightarrow> machine" where
  "seed_cpu_after_ipl3 hdr sp_top reset_type m =
    (let m1 = fold (\<lambda>(i, v). set_gpr_m i v) (seed_gprs hdr sp_top reset_type) (clear_gprs m);
         m2 = fold (\<lambda>(i, v). set_cop0_m i v) seed_cop0 m1
     in start_cpu (ucast (h_entrypoint hdr)) m2)"

text \<open>The PIF RAM of the device, and its copy on the bus.\<close>

definition seed_pif_ram :: "cart_header \<Rightarrow> u32 \<Rightarrow> machine \<Rightarrow> machine" where
  "seed_pif_ram hdr reset_type m =
    (let ram = replicate (length (pif_bytes (m_pif m))) 0
     in m\<lparr>m_pif := (m_pif m)\<lparr>pif_bytes := ram[0x26 := h_cic_seed hdr, 0x27 := h_cic_seed hdr,
          0x3C := ucast (reset_type AND 0xFF), 0x3F := 0]\<rparr>\<rparr>)"

definition copy_rom_to_rdram :: "u32 \<Rightarrow> nat \<Rightarrow> machine \<Rightarrow> nat \<times> machine" where
  "copy_rom_to_rdram dest_phys nbytes m =
    (if length (m_cart m) \<le> 0x1000 then (0, m)
     else
       (let n = min nbytes (length (m_cart m) - 0x1000) in
        if n = 0 \<or> m_rdram m = [] then (0, m)
        else (n, bus_write32 (0x04600000 + 0x10) 2
                (bus_write32 (0x04600000 + 0x08) (of_nat (n - 1))
                (bus_write32 (0x04600000 + 0x04) (0x10000000 + 0x1000)
                (bus_write32 (0x04600000 + 0x00) dest_phys m))))))"

definition install_pif_rom :: "u8 list \<Rightarrow> machine \<Rightarrow> bool \<times> machine" where
  "install_pif_rom data m = (if data = [] then (False, m) else load_pif_rom data m)"

definition install_ipl3_to_dmem :: "u8 list \<Rightarrow> machine \<Rightarrow> bool \<times> machine" where
  "install_ipl3_to_dmem ipl3 m =
    (if length ipl3 < 16 then (False, m)
     else (True, fold (\<lambda>i. if 0x40 + i < 4096 then put_dmem (arr_wr (0x40 + i) (ipl3 ! i)) else id)
                   [0..<min (length ipl3) (0x1000 - 0x40)] m))"

section \<open>The boot\<close>

definition boot_header :: "boot_config \<Rightarrow> machine \<Rightarrow> cart_header" where
  "boot_header cfg m =
    (let h0 = (if m_cart m \<noteq> [] then parse_cart_header (m_cart m) else cart_header_default);
         h1 = (if cfg_force_cic cfg \<noteq> Cic_Unknown then
                 (let e = fixup_entrypoint (cfg_force_cic cfg) (h_pc h0)
                  in h0\<lparr>h_cic := cfg_force_cic cfg, h_cic_seed := cic_seed (cfg_force_cic cfg),
                       h_entrypoint := (if e = 0 then 0x80000400 else e)\<rparr>)
               else h0)
     in if cfg_force_tv_set cfg then h1\<lparr>h_tv := cfg_force_tv cfg\<rparr> else h1)"

text \<open>The user's PIF ROM, when one is configured: whether one was loaded, or what went wrong.\<close>

definition user_pif_rom :: "(string \<Rightarrow> u8 list) \<Rightarrow> boot_config \<Rightarrow> machine \<Rightarrow> string + (bool \<times> machine)" where
  "user_pif_rom load_binary_file cfg m =
    (if cfg_pif_rom_path cfg = [] then Inr (False, m)
     else
       (let blob = load_binary_file (cfg_pif_rom_path cfg) in
        if blob = [] then Inl ''failed to load PIF ROM''
        else (case install_pif_rom blob m of
                (False, _) \<Rightarrow> Inl ''bus rejected PIF ROM''
              | (True, m1) \<Rightarrow> Inr (True, m1))))"

definition user_ipl3 :: "(string \<Rightarrow> u8 list) \<Rightarrow> boot_config \<Rightarrow> machine \<Rightarrow> string + u8 list" where
  "user_ipl3 load_binary_file cfg m =
    (if cfg_ipl3_path cfg \<noteq> [] then
       (let blob = load_binary_file (cfg_ipl3_path cfg)
        in if blob = [] then Inl ''failed to load IPL3 file'' else Inr blob)
     else if length (m_cart m) \<ge> 0x1000 then Inr (take (0x1000 - 0x40) (drop 0x40 (m_cart m)))
     else Inr [])"

definition reset_rsp :: "machine \<Rightarrow> machine" where
  "reset_rsp = upd_rsp rsp_reset"

definition place_ipl3 :: "u8 list \<Rightarrow> machine \<Rightarrow> bool \<times> machine" where
  "place_ipl3 blob m = (if blob \<noteq> [] then install_ipl3_to_dmem blob m else (False, m))"

definition boot_lle :: "boot_config \<Rightarrow> cart_header \<Rightarrow> u8 list \<Rightarrow> boot_result \<Rightarrow> machine \<Rightarrow> boot_result \<times> machine" where
  "boot_lle cfg hdr blob r m =
    (if \<not> br_pif_rom_loaded r then
       (r\<lparr>br_error := Some ''LLE PIF boot requires --pif-rom PATH (user-owned dump)''\<rparr>, m)
     else
       (let m1 = (if m_cart m \<noteq> [] then apply_pi_dom1_from_header (h_pi_bsd_dom1 hdr) m else m);
            m2 = mirror_pif (seed_pif_ram hdr (cfg_reset_type cfg) m1);
            m3 = set_cop0_m Cop0_Config 0x7006E463 (set_cop0_m Cop0_Status 0x34400000 (clear_gprs m2))
        in case place_ipl3 blob (reset_rsp (start_cpu 0xBFC00000 m3)) of
             (placed, m4) \<Rightarrow>
               (r\<lparr>br_ipl3_loaded := placed, br_entrypoint := 0xBFC00000,
                  br_header := hdr\<lparr>h_entrypoint := 0xBFC00000\<rparr>, br_ok := True\<rparr>, m4)))"

definition hle_load_size :: "boot_config \<Rightarrow> machine \<Rightarrow> nat" where
  "hle_load_size cfg m =
    (if cfg_load_size cfg = 0 \<and> m_cart m \<noteq> [] then
       min (if length (m_cart m) > 0x1000 then length (m_cart m) - 0x1000 else 0) (1 * 1024 * 1024)
     else cfg_load_size cfg)"

definition boot_hle :: "boot_config \<Rightarrow> cart_header \<Rightarrow> u8 list \<Rightarrow> boot_result \<Rightarrow> machine \<Rightarrow> boot_result \<times> machine" where
  "boot_hle cfg hdr blob r m =
    (let m1 = (if m_cart m \<noteq> [] then apply_pi_dom1_from_header (h_pi_bsd_dom1 hdr) m else m);
         m2 = bus_write32 (0x04040000 + 0x10) (0x2 OR 0x8) (reset_rsp m1)
     in case place_ipl3 blob m2 of
          (placed, m3) \<Rightarrow>
            (case (if \<not> cfg_skip_rom_copy cfg \<and> m_cart m3 \<noteq> []
                   then copy_rom_to_rdram (load_phys_from_entry (h_entrypoint hdr)) (hle_load_size cfg m3) m3
                   else (0, m3)) of
               (copied, m4) \<Rightarrow>
                 (let m5 = mirror_pif (seed_pif_ram hdr (cfg_reset_type cfg) m4);
                      sp_top = (of_nat (length (m_rdram m5)) - 0x10) OR 0xA0000000
                  in (r\<lparr>br_ipl3_loaded := placed, br_bytes_copied := copied, br_ok := True\<rparr>,
                      seed_cpu_after_ipl3 hdr sp_top (cfg_reset_type cfg) m5))))"

definition hle_boot_loaded ::
    "(string \<Rightarrow> u8 list) \<Rightarrow> boot_config \<Rightarrow> machine \<Rightarrow> boot_result \<times> machine" where
  "hle_boot_loaded load_binary_file cfg m =
    (let r0 = boot_result_new (cfg_mode cfg) in
     if m_cart m = [] \<and> cfg_mode cfg = Hle then (r0\<lparr>br_error := Some ''no cartridge loaded''\<rparr>, m)
     else
       (let hdr = boot_header cfg m;
            r1 = r0\<lparr>br_header := hdr, br_entrypoint := h_entrypoint hdr\<rparr>
        in case user_pif_rom load_binary_file cfg m of
             Inl e \<Rightarrow> (r1\<lparr>br_error := Some e\<rparr>, m)
           | Inr (loaded, m1) \<Rightarrow>
               (let r2 = r1\<lparr>br_pif_rom_loaded := loaded\<rparr> in
                case user_ipl3 load_binary_file cfg m1 of
                  Inl e \<Rightarrow> (r2\<lparr>br_error := Some e\<rparr>, m1)
                | Inr blob \<Rightarrow>
                    (if cfg_mode cfg = LlePif then boot_lle cfg hdr blob r2 m1
                     else boot_hle cfg hdr blob r2 m1))))"

section \<open>What a boot keeps\<close>

lemma machine_ok_clear [wf_intros]: "machine_ok m \<Longrightarrow> machine_ok (m\<lparr>m_cache := bc_clear (m_cache m)\<rparr>)"
  by (simp add: machine_ok_def machine_wf_cache bc_wf_clear machine_wf_def)

lemma set_cop0_m_ok [wf_intros]:
  assumes "machine_ok m"
  shows "machine_ok (set_cop0_m i v m)"
proof -
  have "cpu_wf (m_cpu m)" using assms by (simp add: machine_ok_def machine_wf_def)
  then have "machine_ok (m\<lparr>m_cpu := fst (set_cop0 i v (m_cpu m))\<rparr>)"
    by (intro machine_ok_cpu [OF assms] cpu_wf_set_cop0 ip2_set_cop0)
  then show ?thesis
    using machine_ok_clear by (auto simp: set_cop0_m_def Let_def split: prod.split) fastforce
qed

lemma keeps_seed: "cpu_keeps (set_gpr i v)" "cpu_keeps (\<lambda>c. (set_pc pc c)\<lparr>c_halted := h\<rparr>)"
  by (auto simp: cpu_keeps_def cpu_wf_def ip2_def set_gpr_def set_pc_def)

lemma seed_cpu_ok [wf_intros]:
  assumes "machine_ok m"
  shows "machine_ok (clear_gprs m)" "machine_ok (start_cpu pc m)" "machine_ok (seed_cpu_after_ipl3 h s t m)"
proof -
  have g: "machine_ok n \<Longrightarrow> machine_ok (set_gpr_m i v n)" for i v n
    unfolding set_gpr_m_def by (rule machine_ok_upd_cpu [OF _ keeps_seed(1)])
  have p: "machine_ok n \<Longrightarrow> machine_ok (start_cpu pc n)" for pc n
    unfolding start_cpu_def by (rule machine_ok_upd_cpu [OF _ keeps_seed(2)])
  have c: "machine_ok n \<Longrightarrow> machine_ok (clear_gprs n)" for n
    unfolding clear_gprs_def by (rule fold_ok [where P = machine_ok, OF g])
  show "machine_ok (clear_gprs m)" "machine_ok (start_cpu pc m)" by (rule c [OF assms], rule p [OF assms])
  show "machine_ok (seed_cpu_after_ipl3 h s t m)"
    unfolding seed_cpu_after_ipl3_def Let_def
    by (intro p fold_ok [where P = machine_ok] c assms) (auto intro: g set_cop0_m_ok)
qed

lemma seed_pif_ok [wf_intros]: "machine_ok m \<Longrightarrow> machine_ok (seed_pif_ram h t m)"
  by (simp add: seed_pif_ram_def Let_def machine_ok_pif machine_ok_pif_wf [unfolded pif_wf_def] pif_wf_def)

lemma place_ipl3_ok [wf_intros]: "machine_ok m \<Longrightarrow> machine_ok (snd (place_ipl3 b m))"
  by (simp add: place_ipl3_def install_ipl3_to_dmem_def)
    (auto intro!: fold_ok [where P = machine_ok] put_mem_ok)

lemma boot_dma_ok [wf_intros]:
  assumes "machine_ok m"
  shows "machine_ok (apply_pi_dom1_from_header w m)" "machine_ok (snd (copy_rom_to_rdram d n m))"
proof -
  show "machine_ok (apply_pi_dom1_from_header w m)"
    unfolding apply_pi_dom1_from_header_def by (intro bus_write32_ok assms)
  show "machine_ok (snd (copy_rom_to_rdram d n m))"
    unfolding copy_rom_to_rdram_def Let_def
    by (intro pred_if [where P = "\<lambda>r. machine_ok (snd r)"]; unfold snd_conv; intro bus_write32_ok assms)
qed

text \<open>The boot resets the RSP without resetting the SP registers and memories, so it counts on both
  being in their reset state.\<close>

definition sp_fresh :: "machine \<Rightarrow> bool" where
  "sp_fresh m \<longleftrightarrow> m_dmem m = (\<lambda>_. 0) \<and> m_imem m = (\<lambda>_. 0) \<and> sp_status (m_sp m) = StHalt"

lemma reset_rsp_ok:
  assumes "machine_ok m" "sp_fresh m"
  shows "machine_ok (reset_rsp m)"
  using assms status_bits(1) [of 0] status_bits(1) [of 1] status_bits(1) [of 6]
  by (simp add: machine_ok_def reset_rsp_def upd_rsp_def sp_coherent_def sp_fresh_def rsp_reset_def rsp_new_def)

lemma bus_write_pi:
  assumes "off \<in> {0, 4, 8, 16, 20, 24, 28, 32}"
  shows "bus_write32 (0x04600000 + off) v m = pi_write off v (announce_write (0x04600000 + off) 4 m)"
proof -
  have p: "physical (0x04600000 + off) = 0x04600000 + off"
    using assms by (elim insertE emptyE) (simp_all add: physical_def)
  have r: "is_mmio_region (0x04600000 + off)"
    using assms by (elim insertE emptyE) (simp_all add: is_mmio_region_def in_region_def)
  have a: "(0x04600000 + off) AND NOT 3 = 0x04600000 + off"
    using assms by (elim insertE emptyE) simp_all
  have w: "write_mmio32 (0x04600000 + off) v n = pi_write off v n" for n
    using assms by (elim insertE emptyE) (simp_all add: write_mmio32_def in_region_def)
  show ?thesis unfolding bus_write32_def Let_def p a by (simp only: r w if_True)
qed

section \<open>The program in memory\<close>

text \<open>What the steps before the transfer leave alone.\<close>

definition same_memory :: "machine \<Rightarrow> machine \<Rightarrow> bool" where
  "same_memory m m' \<longleftrightarrow> m_rdram m' = m_rdram m \<and> m_cart m' = m_cart m
    \<and> (bc_wf (m_cache m) \<and> bc_aligned (m_cache m) \<longrightarrow> bc_wf (m_cache m') \<and> bc_aligned (m_cache m'))"

lemma same_memory_refl: "same_memory m m"
  by (simp add: same_memory_def)

lemma same_memory_trans: "same_memory a b \<Longrightarrow> same_memory b c \<Longrightarrow> same_memory a c"
  by (simp add: same_memory_def)

lemma same_memory_fold: "(\<And>x n. same_memory n (f x n)) \<Longrightarrow> same_memory m (fold f xs m)"
  by (induction xs arbitrary: m) (auto simp: same_memory_refl intro: same_memory_trans)

lemma same_memory_announce: "same_memory m (announce_write p s m)"
proof -
  have "bc_wf (m_cache (announce_write p s m)) \<and> bc_aligned (m_cache (announce_write p s m))"
    if "bc_wf (m_cache m)" "bc_aligned (m_cache m)"
    by (rule notify_total [OF that(1), of p s]) (use that in \<open>simp add: announce_write_def dbg_write_def\<close>)
  then show ?thesis by (simp add: same_memory_def)
qed

lemma same_memory_pi:
  assumes "off \<in> {0, 4, 16, 20, 24, 28, 32}"
  shows "same_memory m (bus_write32 (0x04600000 + off) v m)"
proof -
  have "same_memory n (pi_write off v n)" for n
    using assms by (elim insertE emptyE) (simp_all add: pi_write_def same_memory_def upd_pi_def pi_write_status_def Let_def)
  moreover have "off \<in> {0, 4, 8, 16, 20, 24, 28, 32}" using assms by blast
  ultimately show ?thesis
    by (simp only: bus_write_pi) (rule same_memory_trans [OF same_memory_announce])
qed

lemma same_memory_dom1: "same_memory m (apply_pi_dom1_from_header w m)"
  unfolding apply_pi_dom1_from_header_def
  by (intro same_memory_trans [OF _ same_memory_pi] same_memory_refl) simp_all

lemma same_memory_status: "same_memory m (bus_write32 0x04040010 v m)"
proof -
  have f: "m_rdram (upd_sp g n) = m_rdram n" "m_cart (upd_sp g n) = m_cart n" "m_cache (upd_sp g n) = m_cache n"
    "m_rdram (upd_rsp h n) = m_rdram n" "m_cart (upd_rsp h n) = m_cart n" "m_cache (upd_rsp h n) = m_cache n"
    "m_rdram (pull_mem_from_bus n) = m_rdram n" "m_cart (pull_mem_from_bus n) = m_cart n"
    "m_cache (pull_mem_from_bus n) = m_cache n" for g h n
    by (simp_all add: upd_sp_def upd_rsp_def pull_mem_from_bus_def)
  have st: "same_memory n (status_step v b k n)" if "same_memory n (k n)" for b k n
    using that by (simp add: status_step_def same_memory_refl)
  have "same_memory n (sp_signal_step v i n)" for i n
    unfolding sp_signal_step_def
    by (rule same_memory_trans [OF st st]) (simp_all add: same_memory_def f)
  then have sig: "same_memory n (fold (sp_signal_step v) xs n)" for n xs
    by (rule same_memory_fold)
  have "same_memory n (apply_status_write v n)" for n
    unfolding apply_status_write_def
    by (intro same_memory_trans [OF _ sig] same_memory_trans [OF _ st] same_memory_refl) (simp_all add: same_memory_def f)
  moreover have "bus_write32 0x04040010 v m = apply_status_write v (announce_write 0x04040010 4 m)"
    by (simp add: bus_write32_def Let_def physical_def is_mmio_region_def in_region_def write_mmio32_def sp_write_def)
  ultimately show ?thesis by (simp only:) (rule same_memory_trans [OF same_memory_announce])
qed

lemma same_memory_rsp: "same_memory m (reset_rsp m)" "same_memory m (snd (place_ipl3 b m))"
proof -
  show "same_memory m (reset_rsp m)" by (simp add: reset_rsp_def upd_rsp_def same_memory_def)
  have "same_memory n (put_dmem f n)" for f n by (simp add: put_dmem_def same_memory_def)
  then show "same_memory m (snd (place_ipl3 b m))"
    unfolding place_ipl3_def install_ipl3_to_dmem_def
    by (auto intro!: same_memory_fold simp: same_memory_refl)
qed

lemma copy_length:
  assumes "0 < n" "n \<le> 2 ^ 24"
  shows "unat (((of_nat (n - 1) :: u32) AND 0x00FFFFFF) + 1) = n"
proof -
  obtain k where k: "n = Suc k" using assms(1) by (cases n) simp_all
  have m: "(0x00FFFFFF :: u32) = mask 24" by (simp add: mask_eq_exp_minus_1)
  have "unat ((of_nat k :: u32) AND mask 24) = k"
    using assms k by (simp add: unat_and_mask unat_of_nat)
  then show ?thesis using assms k unfolding m by (simp add: unat_word_ariths)
qed

lemma cart_program_byte:
  assumes "0x1000 + k < length (m_cart m)" "k < 2 ^ 24"
  shows "cart_read_byte m (0x10001000 + of_nat k) = m_cart m ! (0x1000 + k)"
proof -
  have u: "unat (0x10001000 + of_nat k :: u32) = 0x10001000 + k"
    using assms(2) by (simp add: unat_word_ariths unat_of_nat)
  have "unat (0x10001000 + of_nat k - 0x10000000 :: u32) = 0x1000 + k"
    by (subst unat_sub) (simp_all add: word_le_nat_alt u)
  then show ?thesis
    using assms(1) by (simp add: cart_read_byte_def cart_offset_def word_le_nat_alt u)
qed

lemma copy_rom_places:
  assumes copy: "copy_rom_to_rdram dest nbytes m = (n, m')"
    and wf: "machine_ok m" "bc_aligned (m_cache m)"
    and even: "dest AND 1 = 0" and fits: "unat dest + n \<le> length (m_rdram m)" "length (m_rdram m) \<le> 2 ^ 24"
  shows "length (m_rdram m') = length (m_rdram m)
    \<and> (\<forall>k<n. m_rdram m' ! (unat dest + k) = m_cart m ! (0x1000 + k))
    \<and> (\<forall>j. j < unat dest \<or> unat dest + n \<le> j \<longrightarrow> m_rdram m' ! j = m_rdram m ! j)"
proof (cases "n = 0")
  case True
  then show ?thesis using copy by (auto simp: copy_rom_to_rdram_def Let_def split: if_splits)
next
  case False
  define m2 where "m2 = announce_write 0x04600008 4 (bus_write32 (0x04600000 + 0x04) (0x10000000 + 0x1000)
                (bus_write32 (0x04600000 + 0x00) dest m))"
  define m3 where "m3 = pi_write 8 (of_nat (n - 1)) m2"
  have n: "n \<le> length (m_cart m) - 0x1000" "0x1000 < length (m_cart m)"
    and m': "m' = bus_write32 (0x04600000 + 0x10) 2 m3"
    using copy False bus_write_pi [of 8 "of_nat (n - 1)"]
    by (auto simp: copy_rom_to_rdram_def Let_def m3_def m2_def split: if_splits)
  have s2: "same_memory m m2"
    unfolding m2_def by (intro same_memory_trans [OF _ same_memory_announce] same_memory_trans [OF _ same_memory_pi]
        same_memory_refl) simp_all
  have ok: "machine_ok m2" unfolding m2_def by (intro wf_intros wf)
  have d: "unat dest < 2 ^ 24" using fits False by linarith
  have dram: "pi_dram_addr (m_pi m2) AND NOT 1 = dest" and cart: "pi_cart_addr (m_pi m2) AND NOT 1 = 0x10001000"
  proof -
    have "dest AND mask 24 = dest" using d by (simp add: word_mask_self)
    moreover have "dest AND NOT 1 = dest"
    proof -
      have "dest = (dest AND NOT 1) OR (dest AND 1)" by (rule bit_word_eqI) (auto simp: bit_simps)
      then show ?thesis using even by simp
    qed
    moreover note bus_write_pi [of 0 dest, simplified] bus_write_pi [of 4 "0x10001000", simplified]
    ultimately show "pi_dram_addr (m_pi m2) AND NOT 1 = dest" "pi_cart_addr (m_pi m2) AND NOT 1 = 0x10001000"
      unfolding m2_def by (simp_all add: pi_write_def upd_pi_def announce_write_def dbg_write_def
          mask_literals)
  qed
  have w: "machine_wf m2" "bc_aligned (m_cache m2)"
    using ok s2 wf by (auto simp: machine_ok_def machine_wf_def same_memory_def)
  have r: "m_rdram m2 = m_rdram m" "m_cart m2 = m_cart m" using s2 by (simp_all add: same_memory_def)
  have len: "n = unat (((of_nat (n - 1) :: u32) AND 0x00FFFFFF) + 1)"
    using copy_length [of n] False fits by simp
  note dma = pi_dma_correct [OF w len dram [symmetric] cart [symmetric] _ _ m3_def [folded One_nat_def], unfolded r]
  have "m_rdram m' = m_rdram m3" using same_memory_pi [of 16 m3 2] m' by (simp add: same_memory_def)
  then show ?thesis
    using dma fits n cart_program_byte [of _ m2] by (simp add: r)
qed

section \<open>The processor after a boot\<close>

lemma clear_gprs_frame: "m_rdram (clear_gprs m) = m_rdram m" "m_cache (clear_gprs m) = m_cache m"
  by (simp_all add: clear_gprs_def set_gpr_m_def upd_cpu_def fold_keeps)

lemma set_cop0_m_frame:
  "m_rdram (set_cop0_m i v m) = m_rdram m" "m_pif (set_cop0_m i v m) = m_pif m"
  "m_pif_ram (set_cop0_m i v m) = m_pif_ram m" "m_cart (set_cop0_m i v m) = m_cart m"
  "c_gpr (m_cpu (set_cop0_m i v m)) = c_gpr (m_cpu m)"
  by (simp_all add: set_cop0_m_def Let_def set_cop0_def split: prod.split)

lemma set_gpr_m_frame:
  "m_rdram (set_gpr_m i v m) = m_rdram m" "m_cache (set_gpr_m i v m) = m_cache m"
  "m_cart (set_gpr_m i v m) = m_cart m"
  "c_gpr (m_cpu (set_gpr_m i v m)) = (if i AND 31 \<noteq> 0 then (c_gpr (m_cpu m))(i AND 31 := v) else c_gpr (m_cpu m))"
  "c_cop0 (m_cpu (set_gpr_m i v m)) = c_cop0 (m_cpu m)"
  by (simp_all add: set_gpr_m_def upd_cpu_def set_gpr_def)

lemma seed_cop0_status:
  "c_cop0 (m_cpu (fold (\<lambda>(i, v). set_cop0_m i v) seed_cop0 m)) Cop0_Status = 0x34000000"
  "bc_count (m_cache (fold (\<lambda>(i, v). set_cop0_m i v) seed_cop0 m)) = 0"
  by (simp_all add: seed_cop0_def set_cop0_m_def set_cop0_def bc_clear_def)

lemma seed_frame:
  "m_rdram (seed_cpu_after_ipl3 h s t m) = m_rdram m"
  "c_gpr (m_cpu (seed_cpu_after_ipl3 h s t m)) =
    c_gpr (m_cpu (fold (\<lambda>(i, v). set_gpr_m i v) (seed_gprs h s t) (clear_gprs m)))"
  by (simp_all add: seed_cpu_after_ipl3_def Let_def start_cpu_def upd_cpu_def set_pc_def fold_keeps
      fold_keeps [where g = "\<lambda>m. c_gpr (m_cpu m)"] clear_gprs_frame set_cop0_m_frame set_gpr_m_frame split_def)

lemma seed_cpu_state:
  fixes m h s t
  defines "m' \<equiv> seed_cpu_after_ipl3 h s t m"
  shows "c_pc (m_cpu m') = ucast (h_entrypoint h)" "c_next_pc (m_cpu m') = ucast (h_entrypoint h) + 4"
    "\<not> c_halted (m_cpu m')" "\<not> c_branch_pending (m_cpu m')" "c_cop0 (m_cpu m') Cop0_Status = 0x34000000"
    "bc_count (m_cache m') = 0" "c_gpr (m_cpu m') 29 = ucast s" "c_gpr (m_cpu m') 20 = tv_number (h_tv h)"
    "c_gpr (m_cpu m') 22 = ucast (h_cic_seed h)"
proof -
  show "c_pc (m_cpu m') = ucast (h_entrypoint h)" "c_next_pc (m_cpu m') = ucast (h_entrypoint h) + 4"
    "\<not> c_halted (m_cpu m')" "\<not> c_branch_pending (m_cpu m')" "c_cop0 (m_cpu m') Cop0_Status = 0x34000000"
    "bc_count (m_cache m') = 0"
    by (simp_all add: m'_def seed_cpu_after_ipl3_def Let_def start_cpu_def upd_cpu_def set_pc_def seed_cop0_status)
  show "c_gpr (m_cpu m') 29 = ucast s" "c_gpr (m_cpu m') 20 = tv_number (h_tv h)"
    "c_gpr (m_cpu m') 22 = ucast (h_cic_seed h)"
    unfolding m'_def seed_frame seed_gprs_def by (simp_all add: set_gpr_m_frame)
qed

section \<open>The whole boot\<close>

lemma sp_fresh_pi:
  assumes "off \<in> {0, 4, 16, 20, 24, 28, 32}"
  shows "sp_fresh (bus_write32 (0x04600000 + off) v m) = sp_fresh m"
proof -
  have "off \<in> {0, 4, 8, 16, 20, 24, 28, 32}" using assms by blast
  moreover have "sp_fresh (announce_write p s n) = sp_fresh n" for p s n
    by (simp add: sp_fresh_def announce_write_def dbg_write_def)
  moreover have "sp_fresh (pi_write off v n) = sp_fresh n" for n
    using assms by (elim insertE emptyE) (simp_all add: pi_write_def sp_fresh_def upd_pi_def pi_write_status_def Let_def)
  ultimately show ?thesis by (simp only: bus_write_pi)
qed

lemma sp_fresh_dom1: "sp_fresh (apply_pi_dom1_from_header w m) = sp_fresh m"
  using sp_fresh_pi [of 20] sp_fresh_pi [of 24] sp_fresh_pi [of 28] sp_fresh_pi [of 32]
  unfolding apply_pi_dom1_from_header_def by simp

lemma boot_hle_stages:
  assumes "boot_hle cfg hdr blob r m = (r', m')" "machine_ok m" "sp_fresh m"
  obtains m3 copied m4 where "same_memory m m3" "machine_ok m3" "machine_ok m4"
    "(if \<not> cfg_skip_rom_copy cfg \<and> m_cart m \<noteq> []
      then copy_rom_to_rdram (load_phys_from_entry (h_entrypoint hdr)) (hle_load_size cfg m) m3 else (0, m3)) = (copied, m4)"
    "m' = seed_cpu_after_ipl3 hdr ((of_nat (length (m_rdram m4)) - 0x10) OR 0xA0000000) (cfg_reset_type cfg)
       (mirror_pif (seed_pif_ram hdr (cfg_reset_type cfg) m4))"
    "r' = r\<lparr>br_ipl3_loaded := br_ipl3_loaded r', br_bytes_copied := copied, br_ok := True\<rparr>"
proof -
  define m1 where "m1 = (if m_cart m \<noteq> [] then apply_pi_dom1_from_header (h_pi_bsd_dom1 hdr) m else m)"
  have m1: "same_memory m m1" "machine_ok m1" "sp_fresh m1"
    using assms(2,3) by (simp_all add: m1_def same_memory_dom1 same_memory_refl boot_dma_ok sp_fresh_dom1)
  define m2 where "m2 = bus_write32 (0x04040000 + 0x10) (0x2 OR 0x8) (reset_rsp m1)"
  have "same_memory (reset_rsp m1) m2" unfolding m2_def using same_memory_status by simp
  then have s2: "same_memory m m2" using m1(1) same_memory_rsp(1) same_memory_trans by blast
  have ok2: "machine_ok m2" unfolding m2_def by (intro bus_write32_ok reset_rsp_ok m1)
  obtain placed m3 where p: "place_ipl3 blob m2 = (placed, m3)" by fastforce
  have m3: "same_memory m m3" "machine_ok m3"
    using same_memory_trans [OF s2 same_memory_rsp(2) [of m2 blob]] place_ipl3_ok [OF ok2, of blob]
    by (simp_all add: p)
  have c: "m_cart m3 = m_cart m" using m3(1) by (simp add: same_memory_def)
  obtain copied m4 where q: "(if \<not> cfg_skip_rom_copy cfg \<and> m_cart m \<noteq> []
      then copy_rom_to_rdram (load_phys_from_entry (h_entrypoint hdr)) (hle_load_size cfg m) m3 else (0, m3)) = (copied, m4)"
    by fastforce
  have m4: "machine_ok m4"
    using q boot_dma_ok(2) [OF m3(2), of "load_phys_from_entry (h_entrypoint hdr)" "hle_load_size cfg m"] m3(2)
    by (auto split: if_splits)
  have l: "hle_load_size cfg m3 = hle_load_size cfg m" by (simp add: hle_load_size_def c)
  have rd: "m_rdram (mirror_pif (seed_pif_ram h t n)) = m_rdram n" for h t n
    by (simp add: mirror_pif_def seed_pif_ram_def Let_def)
  have out: "r' = r\<lparr>br_ipl3_loaded := placed, br_bytes_copied := copied, br_ok := True\<rparr>"
    "m' = seed_cpu_after_ipl3 hdr ((of_nat (length (m_rdram m4)) - 0x10) OR 0xA0000000) (cfg_reset_type cfg)
       (mirror_pif (seed_pif_ram hdr (cfg_reset_type cfg) m4))"
    using assms(1) unfolding boot_hle_def Let_def m1_def [symmetric] m2_def [symmetric] p prod.case c l q rd by simp_all
  show thesis by (rule that [OF m3 m4 q out(2)]) (simp add: out(1))
qed

lemma boot_lle_ok:
  assumes "machine_ok m" "sp_fresh m"
  shows "machine_ok (snd (boot_lle cfg hdr blob r m))"
proof -
  define m1 where "m1 = (if m_cart m \<noteq> [] then apply_pi_dom1_from_header (h_pi_bsd_dom1 hdr) m else m)"
  define m3 where "m3 = set_cop0_m Cop0_Config 0x7006E463 (set_cop0_m Cop0_Status 0x34400000
    (clear_gprs (mirror_pif (seed_pif_ram hdr (cfg_reset_type cfg) m1))))"
  have m1: "machine_ok m1" "sp_fresh m1"
    using assms by (simp_all add: m1_def boot_dma_ok sp_fresh_dom1)
  have "sp_fresh (set_cop0_m i v n) = sp_fresh n" "sp_fresh (clear_gprs n) = sp_fresh n"
    "sp_fresh (mirror_pif (seed_pif_ram hdr t n)) = sp_fresh n" "sp_fresh (start_cpu pc n) = sp_fresh n" for i v n t pc
    by (simp_all add: sp_fresh_def set_cop0_m_def clear_gprs_def set_gpr_m_def upd_cpu_def mirror_pif_def
        seed_pif_ram_def start_cpu_def Let_def fold_keeps split: prod.split)
  moreover have "machine_ok m3"
    unfolding m3_def using m1(1) by (intro set_cop0_m_ok seed_cpu_ok) (simp add: seed_pif_ok)
  ultimately have "machine_ok (reset_rsp (start_cpu 0xBFC00000 m3))"
    using m1(2) by (intro reset_rsp_ok seed_cpu_ok) (simp_all add: m3_def)
  from place_ipl3_ok [OF this, of blob] show ?thesis
    using assms(1) unfolding boot_lle_def Let_def m1_def [symmetric] m3_def [symmetric]
    by (auto split: prod.split)
qed

lemma user_pif_rom_frame:
  "user_pif_rom load cfg m = Inr (l, m1) \<Longrightarrow> m1 = m\<lparr>m_pif_rom := m_pif_rom m1\<rparr>"
  by (auto simp: user_pif_rom_def install_pif_rom_def load_pif_rom_def Let_def split: if_splits bool.splits)

lemma pif_rom_frame [simp]:
  "sp_fresh (m\<lparr>m_pif_rom := x\<rparr>) = sp_fresh m" "boot_header cfg (m\<lparr>m_pif_rom := x\<rparr>) = boot_header cfg m"
  "hle_load_size cfg (m\<lparr>m_pif_rom := x\<rparr>) = hle_load_size cfg m"
  by (simp_all add: sp_fresh_def boot_header_def hle_load_size_def)

text \<open>A boot from a fresh machine, whichever way it goes.\<close>

lemma boot_keeps:
  assumes "machine_ok m" "sp_fresh m"
  shows "machine_ok (snd (hle_boot_loaded load cfg m))"
proof -
  have "machine_ok (snd (boot_lle cfg h b r n))" "machine_ok (snd (boot_hle cfg h b r n))"
    if "n = m\<lparr>m_pif_rom := m_pif_rom n\<rparr>" for h b r n
  proof -
    have n: "machine_ok n" "sp_fresh n" using assms by (subst that; simp)+
    show "machine_ok (snd (boot_lle cfg h b r n))" by (rule boot_lle_ok [OF n])
    obtain r' m' where out: "boot_hle cfg h b r n = (r', m')" by fastforce
    show "machine_ok (snd (boot_hle cfg h b r n))"
      by (rule boot_hle_stages [OF out n]) (simp add: out seed_cpu_ok seed_pif_ok)
  qed
  then show ?thesis
    using assms user_pif_rom_frame [of load cfg m]
    by (auto simp: hle_boot_loaded_def Let_def split: sum.split prod.split)
      (metis machine_ok_frame(13))+
qed

text \<open>C18: A boot that fails says why and changes nothing but, when one was loaded before the failure,
  the PIF ROM; a boot that succeeds reports no error.\<close>

theorem boot_fails_cleanly:
  assumes "hle_boot_loaded load cfg m = (r, m')"
  shows "if br_ok r then br_error r = None
    else br_error r \<noteq> None \<and> m' = m\<lparr>m_pif_rom := m_pif_rom m'\<rparr>"
  using assms user_pif_rom_frame [of load cfg m]
  by (auto simp: hle_boot_loaded_def boot_lle_def boot_hle_def boot_result_new_def Let_def
      split: sum.splits prod.splits if_splits)

theorem boot_fails_cleanly_witness:
  "br_error (fst (hle_boot_loaded (\<lambda>_. []) boot_config_default (machine_new [1, 2]))) \<noteq> None
    \<and> m_rdram (snd (hle_boot_loaded (\<lambda>_. []) boot_config_default (machine_new [1, 2]))) = [1, 2]"
proof -
  obtain r m' where b: "hle_boot_loaded (\<lambda>_. []) boot_config_default (machine_new [1, 2]) = (r, m')" by fastforce
  have "\<not> br_ok r"
    using b by (auto simp: hle_boot_loaded_def boot_config_default_def boot_result_new_def Let_def)
  then have "br_error r \<noteq> None" "m' = (machine_new [1, 2])\<lparr>m_pif_rom := m_pif_rom m'\<rparr>"
    using boot_fails_cleanly [OF b] by simp_all
  moreover from this(2) have "m_rdram m' = [1, 2]"
    by (metis machine.ext_inject machine.surjective machine.update_convs(18) machine_new_sel(1))
  ultimately show ?thesis by (simp add: b)
qed

lemma boot_hle_places:
  assumes "hle_boot_loaded load cfg m = (r, m')" "cfg_mode cfg = Hle" "br_ok r"
    and "machine_ok m" "sp_fresh m" "bc_aligned (m_cache m)"
  obtains m3 m4 where "m_rdram m3 = m_rdram m" "m_cart m3 = m_cart m" "machine_ok m3" "bc_aligned (m_cache m3)"
    "(if \<not> cfg_skip_rom_copy cfg \<and> m_cart m \<noteq> []
      then copy_rom_to_rdram (load_phys_from_entry (br_entrypoint r)) (hle_load_size cfg m) m3
      else (0, m3)) = (br_bytes_copied r, m4)"
    "br_entrypoint r = h_entrypoint (br_header r)"
    "m' = seed_cpu_after_ipl3 (br_header r) ((of_nat (length (m_rdram m4)) - 0x10) OR 0xA0000000)
       (cfg_reset_type cfg) (mirror_pif (seed_pif_ram (br_header r) (cfg_reset_type cfg) m4))"
proof -
  let ?h = "boot_header cfg m" 
  obtain n blob r0 where hle: "boot_hle cfg ?h blob r0 n = (r, m')" and n: "n = m\<lparr>m_pif_rom := m_pif_rom n\<rparr>"
    and r0: "br_header r0 = ?h" "br_entrypoint r0 = h_entrypoint ?h"
    using assms(1-3) user_pif_rom_frame [of load cfg m]
    by (auto simp: hle_boot_loaded_def boot_result_new_def Let_def split: sum.splits prod.splits if_splits)
  have ok: "machine_ok n" "sp_fresh n" using assms(4,5) by (subst n; simp)+
  have same: "m_rdram n = m_rdram m" "m_cart n = m_cart m" "m_cache n = m_cache m"
    "hle_load_size cfg n = hle_load_size cfg m"
    by (subst n; simp)+
  obtain m3 copied m4 where st: "same_memory n m3" "machine_ok m3" "machine_ok m4"
    and copy: "(if \<not> cfg_skip_rom_copy cfg \<and> m_cart n \<noteq> []
      then copy_rom_to_rdram (load_phys_from_entry (h_entrypoint ?h)) (hle_load_size cfg n) m3 else (0, m3)) = (copied, m4)"
    and m': "m' = seed_cpu_after_ipl3 ?h ((of_nat (length (m_rdram m4)) - 0x10) OR 0xA0000000) (cfg_reset_type cfg)
       (mirror_pif (seed_pif_ram ?h (cfg_reset_type cfg) m4))"
    and r: "r = r0\<lparr>br_ipl3_loaded := br_ipl3_loaded r, br_bytes_copied := copied, br_ok := True\<rparr>"
    by (rule boot_hle_stages [OF hle ok])
  have entry: "br_header r = ?h" "br_entrypoint r = h_entrypoint ?h" "br_bytes_copied r = copied"
    using r0 by (subst r; simp)+
  have m3: "m_rdram m3 = m_rdram m" "m_cart m3 = m_cart m" "bc_aligned (m_cache m3)"
    using st(1) assms(4,6) by (simp_all add: same_memory_def same machine_ok_def machine_wf_def)
  show thesis
    by (rule that [OF m3(1,2) st(2) m3(3)], unfold entry, rule copy [unfolded same], rule refl, rule m')
qed

lemma boot_bytes:
  assumes "hle_boot_loaded load cfg m = (r, m')" "cfg_mode cfg = Hle" "br_ok r"
    and "machine_ok m" "sp_fresh m" "bc_aligned (m_cache m)"
  shows "br_bytes_copied r = (if cfg_skip_rom_copy cfg \<or> m_rdram m = [] then 0
        else min (hle_load_size cfg m) (length (m_cart m) - 0x1000))"
  by (rule boot_hle_places [OF assms])
    (auto simp: copy_rom_to_rdram_def Let_def hle_load_size_def split: if_splits)

lemma boot_program_placed:
  assumes "hle_boot_loaded load cfg m = (r, m')" "cfg_mode cfg = Hle" "br_ok r"
    and "machine_ok m" "sp_fresh m" "bc_aligned (m_cache m)" "length (m_rdram m) \<le> 2 ^ 24"
    and "dest = load_phys_from_entry (br_entrypoint r)" "dest AND 1 = 0"
    and "unat dest + br_bytes_copied r \<le> length (m_rdram m)"
  shows "br_bytes_copied r = (if cfg_skip_rom_copy cfg \<or> m_rdram m = [] then 0
        else min (hle_load_size cfg m) (length (m_cart m) - 0x1000))
    \<and> length (m_rdram m') = length (m_rdram m)
    \<and> (\<forall>k<br_bytes_copied r. m_rdram m' ! (unat dest + k) = m_cart m ! (0x1000 + k))
    \<and> (\<forall>j. j < unat dest \<or> unat dest + br_bytes_copied r \<le> j \<longrightarrow> m_rdram m' ! j = m_rdram m ! j)
    \<and> c_pc (m_cpu m') = ucast (br_entrypoint r) \<and> \<not> c_halted (m_cpu m')
    \<and> \<not> c_branch_pending (m_cpu m') \<and> c_cop0 (m_cpu m') Cop0_Status = 0x34000000
    \<and> c_gpr (m_cpu m') 29 = ucast ((of_nat (length (m_rdram m)) - 0x10 :: u32) OR 0xA0000000)
    \<and> c_gpr (m_cpu m') 20 = tv_number (h_tv (br_header r))
    \<and> c_gpr (m_cpu m') 22 = ucast (h_cic_seed (br_header r)) \<and> bc_count (m_cache m') = 0"
proof -
  let ?n = "br_bytes_copied r" and ?t = "cfg_reset_type cfg"
  obtain m3 m4 where m3: "m_rdram m3 = m_rdram m" "m_cart m3 = m_cart m" "machine_ok m3" "bc_aligned (m_cache m3)"
    and copy: "(if \<not> cfg_skip_rom_copy cfg \<and> m_cart m \<noteq> []
      then copy_rom_to_rdram (load_phys_from_entry (br_entrypoint r)) (hle_load_size cfg m) m3 else (0, m3)) = (?n, m4)"
    and entry: "br_entrypoint r = h_entrypoint (br_header r)"
    and m': "m' = seed_cpu_after_ipl3 (br_header r) ((of_nat (length (m_rdram m4)) - 0x10) OR 0xA0000000) ?t
       (mirror_pif (seed_pif_ram (br_header r) ?t m4))"
    by (rule boot_hle_places [OF assms(1-6)])
  have ram: "m_rdram m' = m_rdram m4"
    unfolding m' seed_frame by (simp add: mirror_pif_def seed_pif_ram_def Let_def)
  have placed: "length (m_rdram m4) = length (m_rdram m)
    \<and> (\<forall>k<?n. m_rdram m4 ! (unat dest + k) = m_cart m ! (0x1000 + k))
    \<and> (\<forall>j. j < unat dest \<or> unat dest + ?n \<le> j \<longrightarrow> m_rdram m4 ! j = m_rdram m ! j)"
  proof (cases "\<not> cfg_skip_rom_copy cfg \<and> m_cart m \<noteq> []")
    case True
    then have "copy_rom_to_rdram dest (hle_load_size cfg m) m3 = (?n, m4)" using copy by (simp add: assms(8))
    from copy_rom_places [OF this m3(3,4) assms(9)] show ?thesis
      using assms(7,10) by (simp add: m3)
  qed (use copy m3 in auto)
  note seed = seed_cpu_state [where h = "br_header r" and m = "mirror_pif (seed_pif_ram (br_header r) ?t m4)"
      and t = ?t and s = "(of_nat (length (m_rdram m4)) - 0x10) OR 0xA0000000", folded m']
  show ?thesis
    unfolding ram using placed boot_bytes [OF assms(1-6)] seed by (simp add: entry)
qed

text \<open>A high-level boot that succeeds, from a freshly reset machine, has placed the program: it
  copied what the configuration and the image allow, byte for byte, from offset 0x1000 of the image
  to the physical address of the entry point and nothing anywhere else in RDRAM. The processor is about to
  execute the entry point, in kernel mode with interrupts off, its stack at the top of memory and the
  CIC seed and the television standard in their registers, and no block is cached.\<close>

theorem boot_places_program:
  assumes "hle_boot_loaded load cfg m = (r, m')" "cfg_mode cfg = Hle" "br_ok r"
    and "machine_ok m" "sp_fresh m" "bc_aligned (m_cache m)" "length (m_rdram m) \<le> 2 ^ 24"
    and "dest = load_phys_from_entry (br_entrypoint r)" "dest AND 1 = 0"
    and "unat dest + br_bytes_copied r \<le> length (m_rdram m)"
  shows "br_bytes_copied r = (if cfg_skip_rom_copy cfg \<or> m_rdram m = [] then 0
        else min (hle_load_size cfg m) (length (m_cart m) - 0x1000))
    \<and> length (m_rdram m') = length (m_rdram m)
    \<and> (\<forall>k<br_bytes_copied r. m_rdram m' ! (unat dest + k) = m_cart m ! (0x1000 + k))
    \<and> (\<forall>j. j < unat dest \<or> unat dest + br_bytes_copied r \<le> j \<longrightarrow> m_rdram m' ! j = m_rdram m ! j)
    \<and> c_pc (m_cpu m') = ucast (br_entrypoint r) \<and> \<not> c_halted (m_cpu m')
    \<and> \<not> c_branch_pending (m_cpu m') \<and> c_cop0 (m_cpu m') Cop0_Status = 0x34000000
    \<and> c_gpr (m_cpu m') 29 = ucast ((of_nat (length (m_rdram m)) - 0x10 :: u32) OR 0xA0000000)
    \<and> c_gpr (m_cpu m') 20 = tv_number (h_tv (br_header r))
    \<and> c_gpr (m_cpu m') 22 = ucast (h_cic_seed (br_header r)) \<and> bc_count (m_cache m') = 0"
  using boot_program_placed [OF assms] .

definition boot_example :: machine where
  "boot_example = (machine_new (replicate 0x402 0))\<lparr>m_cart := replicate 0x1000 0 @ [7, 9]\<rparr>"

definition boot_example_config :: boot_config where
  "boot_example_config = boot_config_default\<lparr>cfg_force_cic := Cic6102\<rparr>"

lemma boot_example_entry: "h_entrypoint (boot_header boot_example_config boot_example) = 0x80000400"
proof -
  have "be_u32 (replicate 0x1000 0 @ [7, 9]) 8 = 0"
    by (simp add: be_u32_def be32_def nth_append)
  then have "h_pc (parse_cart_header (replicate 0x1000 0 @ [7, 9])) = 0"
    by (simp add: parse_cart_header_def Let_def)
  then show ?thesis
    by (simp add: boot_header_def boot_example_config_def boot_config_default_def boot_example_def Let_def)
qed

theorem boot_places_program_witness:
  "m_rdram (snd (hle_boot_loaded (\<lambda>_. []) boot_example_config boot_example)) ! 0x401 = 9
    \<and> c_pc (m_cpu (snd (hle_boot_loaded (\<lambda>_. []) boot_example_config boot_example))) = 0x80000400"
proof -
  let ?cfg = boot_example_config and ?m = boot_example
  obtain r m' where b: "hle_boot_loaded (\<lambda>_. []) ?cfg ?m = (r, m')" by fastforce
  have cfg: "cfg_mode ?cfg = Hle" "\<not> cfg_skip_rom_copy ?cfg" "cfg_load_size ?cfg = 0"
    "cfg_pif_rom_path ?cfg = []" "cfg_ipl3_path ?cfg = []"
    by (simp_all add: boot_example_config_def boot_config_default_def)
  have m: "m_rdram ?m = replicate 0x402 0" "m_cart ?m = replicate 0x1000 0 @ [7, 9]" "bc_aligned (m_cache ?m)"
    "machine_ok ?m" "sp_fresh ?m"
    by (simp_all add: boot_example_def bc_aligned_new machine_ok_new)
      (simp add: sp_fresh_def machine_new_def StHalt_def)
  have r: "br_ok r" "br_entrypoint r = 0x80000400"
    using b boot_example_entry
    by (auto simp: hle_boot_loaded_def user_pif_rom_def user_ipl3_def cfg boot_hle_def m(2)
        boot_result_new_def Let_def split: prod.splits)
  have n: "hle_load_size ?cfg ?m = 2" by (simp add: hle_load_size_def cfg m)
  have d: "load_phys_from_entry 0x80000400 = 0x400" by (simp add: load_phys_from_entry_def)
  have bytes: "br_bytes_copied r = 2"
    using boot_bytes [OF b cfg(1) r(1) m(4,5,3)] by (simp add: cfg m n)
  have "(\<forall>k<2. m_rdram m' ! (0x400 + k) = m_cart ?m ! (0x1000 + k)) \<and> c_pc (m_cpu m') = 0x80000400"
    using boot_places_program [OF b cfg(1) r(1) m(4,5,3) _ refl] unfolding r(2) d by (simp add: m bytes)
  then have "m_rdram m' ! (0x400 + 1) = m_cart ?m ! (0x1000 + 1)" "c_pc (m_cpu m') = 0x80000400"
    using one_less_numeral_iff semiring_norm(76) by blast+
  then show ?thesis by (simp add: b r m nth_append)
qed

end
