(* ===== verification/Emulator.thy ===== *)
theory Emulator
  imports Boot Block_Exec
begin

text \<open>
  The emulator (\<open>core/emulator.cpp\<close>, \<open>core/timing.hpp\<close>): reset, boot and loading of an image, the
  step of processor and RSP, the batched time of the other devices, and the three ways to run: a
  number of cycles, a frame, or until a limit. The trace callback is the debugger's, with the
  disassembler of \<open>cpu/cpu.cpp\<close>. The whole machine is one value, so connecting the parts
  (\<open>wire\<close>) is nothing; the stop request can only come between calls.
\<close>

section \<open>The trace\<close>

definition hex_digit :: "nat \<Rightarrow> char" where
  "hex_digit d = char_of (if d < 10 then 48 + d else 55 + d)"

text \<open>\<open>%0nX\<close> of a number of at most \<open>n\<close> hexadecimal digits, and \<open>%u\<close>, \<open>%d\<close>.\<close>

fun hex_pad :: "nat \<Rightarrow> nat \<Rightarrow> string" where
  "hex_pad 0 k = []"
| "hex_pad (Suc n) k = hex_pad n (k div 16) @ [hex_digit (k mod 16)]"

fun show_dec :: "nat \<Rightarrow> string" where
  "show_dec k = (if k < 10 then [hex_digit k] else show_dec (k div 10) @ [hex_digit (k mod 10)])"

declare show_dec.simps [simp del]

definition show_int :: "int \<Rightarrow> string" where
  "show_int i = (if i < 0 then ''-'' @ show_dec (nat (- i)) else show_dec (nat i))"

definition disassemble :: "u32 \<Rightarrow> string" where
  "disassemble insn =
    (let k = i_op insn in
     if k = 0x00 then
       ''SPECIAL fn='' @ hex_pad 2 (unat (i_fn insn)) @ '' rd='' @ show_dec (unat (i_rd insn))
         @ '' rs='' @ show_dec (unat (i_rs insn)) @ '' rt='' @ show_dec (unat (i_rt insn))
         @ '' sa='' @ show_dec (unat (i_sa insn))
     else if k = 0x01 then
       ''REGIMM rt='' @ hex_pad 2 (unat (i_rt insn)) @ '' rs='' @ show_dec (unat (i_rs insn))
         @ '' imm='' @ show_int (sint (i_simm insn))
     else if k = 0x02 \<or> k = 0x03 then
       (if k = 0x02 then ''J'' else ''JAL'') @ '' 0x'' @ hex_pad 8 (unat (push_bit 2 (i_target insn)))
     else if k = 0x10 then
       ''COP0 rs='' @ hex_pad 2 (unat (i_rs insn)) @ '' rt='' @ show_dec (unat (i_rt insn))
         @ '' rd='' @ show_dec (unat (i_rd insn))
     else
       ''op='' @ hex_pad 2 (unat k) @ '' rs='' @ show_dec (unat (i_rs insn))
         @ '' rt='' @ show_dec (unat (i_rt insn)) @ '' imm=0x'' @ hex_pad 4 (unat (i_imm insn)))"

definition trace_callback :: "u64 \<Rightarrow> u32 \<Rightarrow> machine \<Rightarrow> machine" where
  "trace_callback pc insn m =
    m\<lparr>m_dbg := on_trace (c_cycles (m_cpu m)) pc insn (disassemble insn) (m_dbg m)\<rparr>"

definition attach_cpu_trace :: "machine \<Rightarrow> machine" where
  "attach_cpu_trace m = upd_cpu (\<lambda>c. c\<lparr>c_tracing := dbg_enabled (m_dbg m)\<rparr>) m"

section \<open>State\<close>

record timing_config =
  tc_cycles_per_frame :: u64
  tc_max_cycles_per_frame :: u64
  tc_rsp_steps_per_cpu :: u32
  tc_sync_to_vi :: bool

definition kCpuClockHz :: u64 where "kCpuClockHz = 93750000"

definition ntsc :: timing_config where
  "ntsc = \<lparr>tc_cycles_per_frame = kCpuClockHz div 60, tc_max_cycles_per_frame = kCpuClockHz div 60 * 2,
     tc_rsp_steps_per_cpu = 4, tc_sync_to_vi = True\<rparr>"

definition pal :: timing_config where
  "pal = \<lparr>tc_cycles_per_frame = kCpuClockHz div 50, tc_max_cycles_per_frame = kCpuClockHz div 50 * 2,
     tc_rsp_steps_per_cpu = 4, tc_sync_to_vi = True\<rparr>"

record frame_result =
  fr_cycles_ran :: u64
  fr_vi_frame :: bool
  fr_vi_frame_index :: u64
  fr_hit_limit :: bool
  fr_stopped :: bool

record emulator =
  e_m :: machine
  e_rom_loaded :: bool
  e_booted :: bool
  e_stop_requested :: bool
  e_cycles_executed :: u64
  e_rom_path :: string
  e_header :: cart_header
  e_boot_cfg :: boot_config
  e_timing :: timing_config

definition kDeviceBatch :: u64 where "kDeviceBatch = 32"

definition upd_m :: "(machine \<Rightarrow> machine) \<Rightarrow> emulator \<Rightarrow> emulator" where
  "upd_m f e = e\<lparr>e_m := f (e_m e)\<rparr>"

section \<open>Reset, boot, load\<close>

text \<open>The objects of the implementation, reset in the order of the code.\<close>

definition reset_hardware :: "machine \<Rightarrow> machine" where
  "reset_hardware m0 =
    (let m1 = bus_reset (m0\<lparr>m_device_debt := 0\<rparr>);
         m2 = upd_cpu cpu_reset m1;
         m3 = m2\<lparr>m_vi := vi_reset (m_vi m2)\<rparr>;
         m4 = m3\<lparr>m_ai := ai_reset (m_ai m3)\<rparr>;
         m5 = m4\<lparr>m_pif := pif_reset (m_pif m4)\<rparr>;
         m6 = reset_rsp m5;
         m7 = upd_rdp rdp_reset m6;
         m8 = m7\<lparr>m_sched := sc_reset (m_sched m7)\<rparr>
     in m8\<lparr>m_cache := bc_clear (m_cache m8)\<rparr>)"

definition fix_timing :: "timing_config \<Rightarrow> timing_config" where
  "fix_timing t =
    (let t1 = (if tc_cycles_per_frame t = 0 then t\<lparr>tc_cycles_per_frame := kCpuClockHz div 60\<rparr> else t)
     in if tc_max_cycles_per_frame t1 = 0
        then t1\<lparr>tc_max_cycles_per_frame := tc_cycles_per_frame t1 * 2\<rparr> else t1)"

definition emu_boot :: "(string \<Rightarrow> u8 list) \<Rightarrow> boot_config \<Rightarrow> emulator \<Rightarrow> bool \<times> emulator" where
  "emu_boot load_file cfg e0 =
    (let e = upd_m (\<lambda>m. m\<lparr>m_cache := bc_clear (m_cache m)\<rparr>) (e0\<lparr>e_boot_cfg := cfg\<rparr>) in
     case hle_boot_loaded load_file cfg (e_m e) of
       (r, m) \<Rightarrow>
        (if \<not> br_ok r then (False, e\<lparr>e_m := m, e_booted := False, e_header := cart_header_default\<rparr>)
         else
           (let m1 = m\<lparr>m_device_debt := 0\<rparr>;
                m2 = (if dbg_enabled (m_dbg m1) then attach_cpu_trace m1 else m1)
            in (True, e\<lparr>e_m := m2, e_header := br_header r, e_booted := True, e_cycles_executed := 0,
                 e_stop_requested := False,
                 e_timing := fix_timing (if h_tv (br_header r) = PAL then pal else ntsc)\<rparr>))))"

definition emu_reset :: "(string \<Rightarrow> u8 list) \<Rightarrow> emulator \<Rightarrow> emulator" where
  "emu_reset load_file e0 =
    (let e = upd_m (\<lambda>m. (reset_hardware m)\<lparr>m_dbg := dbg_reset (m_dbg (reset_hardware m))\<rparr>)
               (e0\<lparr>e_stop_requested := False, e_cycles_executed := 0, e_booted := False\<rparr>);
         cfg = e_boot_cfg e;
         can_boot = (m_cart (e_m e) \<noteq> []
           \<or> (cfg_mode cfg = LlePif \<and> (cfg_pif_rom_path cfg \<noteq> [] \<or> m_pif_rom (e_m e) \<noteq> [])))
     in if can_boot then snd (emu_boot load_file (cfg\<lparr>cfg_reset_type := 1\<rparr>) e) else e)"

text \<open>The common beginning of the two ways to load an image.\<close>

definition fresh_hardware :: "emulator \<Rightarrow> emulator" where
  "fresh_hardware e =
     upd_m reset_hardware (e\<lparr>e_stop_requested := False, e_cycles_executed := 0, e_booted := False\<rparr>)"

definition load_rom :: "(string \<Rightarrow> u8 list) \<Rightarrow> string \<Rightarrow> emulator \<Rightarrow> bool \<times> emulator" where
  "load_rom load_file path e0 =
    (let e = fresh_hardware e0 in
     case load_cartridge (load_file path) (e_m e) of
       (False, m) \<Rightarrow> (False, e\<lparr>e_m := m, e_rom_loaded := False, e_rom_path := [], e_header := cart_header_default\<rparr>)
     | (True, m) \<Rightarrow>
         emu_boot load_file ((e_boot_cfg e)\<lparr>cfg_reset_type := 0\<rparr>)
           (e\<lparr>e_m := m, e_rom_loaded := True, e_rom_path := path\<rparr>))"

definition customized :: "boot_config \<Rightarrow> bool" where
  "customized c \<longleftrightarrow> cfg_skip_rom_copy c \<or> cfg_force_cic c \<noteq> Cic_Unknown \<or> cfg_pif_rom_path c \<noteq> []
    \<or> cfg_ipl3_path c \<noteq> [] \<or> cfg_force_tv_set c \<or> cfg_load_size c \<noteq> 0 \<or> cfg_mode c \<noteq> Hle
    \<or> cfg_reset_type c \<noteq> 0"

definition load_rom_bytes ::
    "(string \<Rightarrow> u8 list) \<Rightarrow> u8 list \<Rightarrow> boot_config \<Rightarrow> emulator \<Rightarrow> bool \<times> emulator" where
  "load_rom_bytes load_file data boot_arg e0 =
    (let e = fresh_hardware e0 in
     case load_cartridge data (e_m e) of
       (False, m) \<Rightarrow> (False, e\<lparr>e_m := m, e_rom_loaded := False, e_rom_path := [], e_header := cart_header_default\<rparr>)
     | (True, m) \<Rightarrow>
         emu_boot load_file (if customized boot_arg then boot_arg else e_boot_cfg e)
           (e\<lparr>e_m := m, e_rom_loaded := True, e_rom_path := []\<rparr>))"

text \<open>The members' initial values, and the constructor.\<close>

definition emulator_init :: "machine \<Rightarrow> emulator" where
  "emulator_init m = \<lparr>e_m = m, e_rom_loaded = False, e_booted = False, e_stop_requested = False,
     e_cycles_executed = 0, e_rom_path = [], e_header = cart_header_default,
     e_boot_cfg = boot_config_default, e_timing = ntsc\<rparr>"

definition emulator_new :: "(string \<Rightarrow> u8 list) \<Rightarrow> u8 list \<Rightarrow> emulator" where
  "emulator_new load_file rdram = emu_reset load_file (emulator_init (machine_new rdram))"

definition enable_debugger :: "bool \<Rightarrow> emulator \<Rightarrow> emulator" where
  "enable_debugger on e =
    (let e1 = upd_m (\<lambda>m. m\<lparr>m_dbg := (m_dbg m)\<lparr>dbg_enabled := on\<rparr>\<rparr>) e in
     if on then upd_m attach_cpu_trace e1
     else upd_m (\<lambda>m. (upd_cpu (\<lambda>c. c\<lparr>c_tracing := False\<rparr>) m)\<lparr>m_dbg := dbg_resume (m_dbg m)\<rparr>) e1)"

section \<open>Time\<close>

definition flush_devices :: "machine \<Rightarrow> machine" where
  "flush_devices m0 =
    (if m_device_debt m0 = 0 then m0
     else
       (let d = m_device_debt m0; m = m0\<lparr>m_device_debt := 0\<rparr> in
        case vi_tick (raise_irq MiIntr_VI) d (m_vi m, m) of
          (vi, m1) \<Rightarrow>
            (let m2 = m1\<lparr>m_vi := vi\<rparr> in
             case ai_tick (raise_irq MiIntr_AI) (m_rdram m2) d (m_ai m2, m2) of
               (ai, m3) \<Rightarrow>
                 (let m4 = m3\<lparr>m_ai := ai\<rparr>
                  in m4\<lparr>m_sched := fst (dispatch_due (\<lambda>_ h. h) (sc_advance d (m_sched m4)) ())\<rparr>))))"

definition step_cpu_rsp :: "u64 \<Rightarrow> emulator \<Rightarrow> u64 \<times> emulator" where
  "step_cpu_rsp max_cpu_steps e =
    (if max_cpu_steps = 0 then (0, e)
     else
       (let m0 = e_m e;
            (cpu_steps, m1) =
             (if dbg_enabled (m_dbg m0) then
               (case on_before_step (c_pc (m_cpu m0)) (m_dbg m0) of
                  (False, d) \<Rightarrow> (0, m0\<lparr>m_dbg := d\<rparr>)
                | (True, d) \<Rightarrow>
                   (let m = cpu_step trace_callback (m0\<lparr>m_dbg := d\<rparr>)
                    in (1, m\<lparr>m_dbg := on_after_step (m_dbg m)\<rparr>)))
              else
               (case cpu_run trace_callback (unat max_cpu_steps) m0 of
                  (n, m) \<Rightarrow> if n = 0 then (1, cpu_step trace_callback m) else (of_nat n, m)))
        in if cpu_steps = 0 then (0, e\<lparr>e_m := m1\<rparr>)
           else
             (let steps = ucast (cpu_steps * ucast (tc_rsp_steps_per_cpu (e_timing e)) :: u64) :: u32;
                  m2 = (if \<not> r_halted (m_rsp m1) then snd (rsp_run (unat steps) m1) else m1)
              in (cpu_steps, e\<lparr>e_m := m2\<lparr>m_device_debt := m_device_debt m2 + cpu_steps\<rparr>,
                    e_cycles_executed := e_cycles_executed e + cpu_steps\<rparr>))))"

text \<open>The steps taken never exceed the steps allowed.\<close>

lemma block_loop_le: "fst (block_loop trace pc insns m) \<le> length insns"
proof (induction insns arbitrary: pc m)
  case (Cons insn rest)
  show ?case
    using Cons.IH
    by (auto simp: Let_def split: option.split prod.split bool.split) (metis fst_conv)+
qed simp

lemma cpu_run_le: "fst (cpu_run trace n m) \<le> n"
proof (induction n arbitrary: m rule: less_induct)
  case (less n)
  show ?case
  proof (cases "n = 0 \<or> c_halted (m_cpu m)")
    case False
    have one: "fst (case cpu_run trace (n - 1) s of (k, m3) \<Rightarrow> (1 + k, m3)) \<le> n" for s
      using less [of "n - 1" s] False by (simp add: split_beta) linarith
    have did: "fst (case cpu_run trace (n - d) s of (k, m3) \<Rightarrow> (d + k, m3)) \<le> n" if "d \<noteq> 0" "d \<le> n" for d s
      using less [of "n - d" s] that False by (simp add: split_beta)
    have block: "fst (execute_block trace blk s) \<le> n" if "length (bb_insns blk) \<le> n" for blk s
      using block_loop_le [of trace "bb_start_pc blk" "bb_insns blk" s] that by (simp add: execute_block_def)
    obtain b m1 where nb: "next_block m = (b, m1)" by fastforce
    show ?thesis
    proof (cases b)
      case (Some blk)
      obtain d m2 where e: "execute_block trace blk m1 = (d, m2)" by fastforce
      show ?thesis
        using False one did [of d] block [of blk m1]
        by (cases "d = 0") (auto simp: cpu_run.simps [of trace n m] nb Some e)
    qed (use False one in \<open>simp add: cpu_run.simps [of trace n m] nb\<close>)
  qed (simp add: cpu_run.simps [of trace n m])
qed

lemma step_cpu_rsp_le: "fst (step_cpu_rsp n e) \<le> n"
proof -
  have r: "of_nat (fst (cpu_run trace_callback (unat n) m)) \<le> n" for m
  proof -
    have "fst (cpu_run trace_callback (unat n) m) \<le> unat n" by (rule cpu_run_le)
    moreover from this have "fst (cpu_run trace_callback (unat n) m) < 2 ^ 64"
      using unsigned_less [of n, where ?'a = nat] by simp
    ultimately show ?thesis by (simp add: word_le_nat_alt unat_of_nat)
  qed
  have "1 \<le> n" if "n \<noteq> 0" using that by (simp add: word_le_nat_alt unat_gt_0 Suc_le_eq)
  then show ?thesis
    using r [of "e_m e"]
    by (auto simp: step_cpu_rsp_def Let_def split: prod.splits bool.splits if_splits)
qed

definition advance_devices :: "u64 \<Rightarrow> emulator \<Rightarrow> emulator" where
  "advance_devices delta e =
    (if delta = 0 then e
     else upd_m (\<lambda>m. flush_devices (m\<lparr>m_device_debt := m_device_debt m + delta\<rparr>)) e)"

definition master_cycles :: "emulator \<Rightarrow> u64" where
  "master_cycles e = sc_now (m_sched (e_m e)) + m_device_debt (e_m e)"

lemma word_sub_less: "n \<le> l \<Longrightarrow> n \<noteq> 0 \<Longrightarrow> l - n < (l :: 'a::len word)"
  using unat_gt_0 [of n] by (simp add: word_less_nat_alt word_le_nat_alt unat_sub)

lemma step_decreases:
  assumes "step_cpu_rsp (min left k) e = (did, e1)" "did \<noteq> 0"
  shows "did \<le> left" "unat (left - did) < unat left"
proof -
  have "did \<le> min left k" using step_cpu_rsp_le [of "min left k" e] by (simp add: assms(1))
  then show l: "did \<le> left" by (rule order_trans) simp
  then show "unat (left - did) < unat left" using word_sub_less [OF _ assms(2)] by (simp add: word_less_nat_alt)
qed

text \<open>The loop of \<open>run_cycles\<close>.\<close>

function cycles_loop :: "u64 \<Rightarrow> emulator \<Rightarrow> emulator" where
  "cycles_loop left e =
    (if left = 0 \<or> e_stop_requested e then e
     else (case step_cpu_rsp (min left kDeviceBatch) e of
        (did, e1) \<Rightarrow>
          (if did = 0 then e1
           else cycles_loop (left - did)
             (if m_device_debt (e_m e1) \<ge> kDeviceBatch then upd_m flush_devices e1 else e1))))"
  by pat_completeness auto
termination
  by (relation "measure (\<lambda>(left, e). unat left)") (auto intro!: step_decreases(2) [OF sym])

declare cycles_loop.simps [simp del]

definition push_if_running :: "machine \<Rightarrow> machine" where
  "push_if_running m = (if \<not> r_halted (m_rsp m) \<or> r_broke (m_rsp m) then push_mem_to_bus m else m)"

definition run_cycles :: "u64 \<Rightarrow> emulator \<Rightarrow> emulator" where
  "run_cycles cycles e =
    (if cycles = 0 \<or> e_stop_requested e then e
     else upd_m push_if_running (upd_m flush_devices (cycles_loop cycles e)))"

text \<open>The loop of \<open>run_frame\<close>: the cycles taken, whether the video interface ended a frame, and whether
  the debugger paused.\<close>

function frame_loop :: "u64 \<Rightarrow> u64 \<Rightarrow> u64 \<Rightarrow> emulator \<Rightarrow> u64 \<times> bool \<times> bool \<times> emulator" where
  "frame_loop limit frames_before taken e =
    (if e_stop_requested e \<or> \<not> taken < limit then (taken, False, False, e)
     else (case step_cpu_rsp (min (limit - taken) kDeviceBatch) e of
        (did, e1) \<Rightarrow>
          (if did = 0 then (taken, False, dbg_paused (m_dbg (e_m e1)), e1)
           else
             (let e2 = upd_m flush_devices e1; sync = tc_sync_to_vi (e_timing e2); vi = m_vi (e_m e2) in
              if sync \<and> vi_frame_ready vi then (taken + did, True, False, e2)
              else if sync \<and> vi_frame_count vi > frames_before then (taken + did, True, False, e2)
              else frame_loop limit frames_before (taken + did) e2))))"
  by pat_completeness auto
termination
  by (relation "measure (\<lambda>(limit, before, taken, e). unat (limit - taken))")
    (auto simp: diff_diff_eq [symmetric] intro!: step_decreases(2) [OF sym])

declare frame_loop.simps [simp del]

definition run_frame :: "emulator \<Rightarrow> frame_result \<times> emulator" where
  "run_frame e =
    (if e_stop_requested e then
       (\<lparr>fr_cycles_ran = 0, fr_vi_frame = False, fr_vi_frame_index = 0, fr_hit_limit = False,
          fr_stopped = True\<rparr>, e)
     else
       (let frames_before = vi_frame_count (m_vi (e_m e));
            e1 = upd_m (\<lambda>m. m\<lparr>m_vi := (m_vi m)\<lparr>vi_frame_ready := False\<rparr>\<rparr>) e;
            t = e_timing e1;
            budget = (if tc_cycles_per_frame t = 0 then kCpuClockHz div 60 else tc_cycles_per_frame t);
            limit = (if tc_max_cycles_per_frame t = 0 then budget * 2 else tc_max_cycles_per_frame t)
        in case frame_loop limit frames_before 0 e1 of
             (taken, vi_frame, stopped, e2) \<Rightarrow>
               (let e3 = upd_m push_if_running e2; d = m_dbg (e_m e3) in
                (\<lparr>fr_cycles_ran = taken, fr_vi_frame = (vi_frame \<or> taken \<ge> budget),
                   fr_vi_frame_index = vi_frame_count (m_vi (e_m e3)),
                   fr_hit_limit = (\<not> vi_frame \<and> taken \<ge> limit),
                   fr_stopped = (stopped \<or> e_stop_requested e3 \<or> (dbg_enabled d \<and> dbg_paused d))\<rparr>, e3))))"

text \<open>\<open>run\<close>: without a limit it may go on for ever.\<close>

definition run_chunk :: "u64 \<Rightarrow> emulator \<Rightarrow> u64" where
  "run_chunk max_cycles e =
     min (max_cycles - e_cycles_executed e)
       (if tc_cycles_per_frame (e_timing e) \<noteq> 0 then tc_cycles_per_frame (e_timing e) else 1024)"

partial_function (option) emu_run_loop :: "u64 \<Rightarrow> emulator \<Rightarrow> emulator option" where
  "emu_run_loop max_cycles e =
    (if e_stop_requested e then Some e
     else if max_cycles \<noteq> 0 \<and> e_cycles_executed e \<ge> max_cycles then Some e
     else if max_cycles = 0 then
       (let r = run_frame e
        in if fr_stopped (fst r) \<or> fr_cycles_ran (fst r) = 0 then Some (snd r)
           else emu_run_loop max_cycles (snd r))
     else
       (let e1 = run_cycles (run_chunk max_cycles e) e
        in if e_cycles_executed e1 = e_cycles_executed e then Some e1 else emu_run_loop max_cycles e1))"

definition emu_run :: "u64 \<Rightarrow> emulator \<Rightarrow> emulator option" where
  "emu_run max_cycles e = emu_run_loop max_cycles (e\<lparr>e_stop_requested := False\<rparr>)"

section \<open>The invariant of the machine\<close>

lemma trace_callback_keeps: "trace_keeps trace_callback"
  by (simp add: trace_keeps_def trace_callback_def)

text \<open>What raising the interrupt keeps, a tick of the video or the audio interface keeps.\<close>

lemma vi_lines_keeps:
  "(\<And>m. P m \<Longrightarrow> P (r m)) \<Longrightarrow> P (snd s) \<Longrightarrow> P (snd (vi_lines r s))"
proof (induction r s rule: vi_lines.induct)
  case (1 r v m)
  have line: "P (snd t) \<Longrightarrow> P (snd (vi_line r t))" for t
    using 1(2) by (cases t) (simp add: vi_line_def Let_def vi_raise_interrupt_def)
  show ?case
    by (subst vi_lines.simps) (use 1 line in auto)
qed

lemma vi_tick_keeps: "(\<And>m. P m \<Longrightarrow> P (r m)) \<Longrightarrow> P (snd s) \<Longrightarrow> P (snd (vi_tick r n s))"
  by (cases s) (simp add: vi_tick_def vi_lines_keeps)

lemma ai_tick_keeps:
  assumes "\<And>m. P m \<Longrightarrow> P (r m)" "P (snd s)"
  shows "P (snd (ai_tick r rdram n s))"
  using assms by (cases s) (simp add: ai_tick_def finish_current_dma_def Let_def)

lemma flush_ok:
  assumes "machine_ok m"
  shows "machine_ok (flush_devices m)"
proof -
  have "machine_ok (snd (vi_tick (raise_irq MiIntr_VI) d (v, n)))" if "machine_ok n" for d v n
    by (rule vi_tick_keeps) (use that in \<open>simp_all add: machine_ok_irq\<close>)
  moreover have "machine_ok (snd (ai_tick (raise_irq MiIntr_AI) ram d (a, n)))" if "machine_ok n" for d a n ram
    by (rule ai_tick_keeps) (use that in \<open>simp_all add: machine_ok_irq\<close>)
  ultimately show ?thesis
    using assms by (simp add: flush_devices_def Let_def split_beta)
qed

lemma push_if_running_id: "machine_ok m \<Longrightarrow> push_if_running m = m"
  by (simp add: push_if_running_def push_mem_to_bus_def machine_ok_def sp_coherent_def)

text \<open>The step: the fields it leaves, the count, and what a step of nothing means.\<close>

lemma step_cpu_rsp_keeps:
  assumes "machine_ok (e_m e)" "step_cpu_rsp n e = (did, e')"
  shows "machine_ok (e_m e')" "e_stop_requested e' = e_stop_requested e" "e_timing e' = e_timing e"
    "e_cycles_executed e' = e_cycles_executed e + did"
    "n \<noteq> 0 \<Longrightarrow> did = 0 \<Longrightarrow> dbg_enabled (m_dbg (e_m e')) \<and> dbg_paused (m_dbg (e_m e'))"
proof -
  note tr = trace_callback_keeps
  let ?m = "e_m e"
  have d: "machine_ok (m\<lparr>m_dbg := x\<rparr>) = machine_ok m" for m x by simp
  obtain k d where b: "on_before_step (c_pc (m_cpu ?m)) (m_dbg ?m) = (k, d)" by fastforce
  define s where "s = cpu_step trace_callback (?m\<lparr>m_dbg := d\<rparr>)"
  have s: "machine_ok s" unfolding s_def by (rule cpu_step_ok [OF tr]) (simp add: assms(1))
  obtain c m where r: "cpu_run trace_callback (unat n) ?m = (c, m)" by fastforce
  have m: "machine_ok m" using cpu_run_ok [OF tr assms(1), of "unat n"] by (simp add: r)
  have h: "machine_ok (cpu_step trace_callback m)" by (rule cpu_step_ok [OF tr m])
  have rsp: "machine_ok x \<Longrightarrow> machine_ok (snd (rsp_run j x))" for x j using rsp_run_ok by blast
  note defs = step_cpu_rsp_def Let_def b r s_def [symmetric]
  show "machine_ok (e_m e')"
    using assms(2) s m h rsp assms(1) by (auto simp: defs split: if_splits prod.splits bool.splits)
  show "e_stop_requested e' = e_stop_requested e" "e_timing e' = e_timing e"
    "e_cycles_executed e' = e_cycles_executed e + did"
    using assms(2) by (auto simp: defs split: if_splits prod.splits bool.splits)
  have "dbg_enabled d \<and> dbg_paused d" if "\<not> k" 
    using b that by (auto simp: on_before_step_def Let_def dbg_pause_def split: if_splits)
  moreover have "(of_nat c :: u64) \<noteq> 0" if "c \<noteq> 0"
  proof -
    have "c < 2 ^ 64" using cpu_run_le [of trace_callback "unat n" ?m] unsigned_less [of n, where ?'a = nat] by (simp add: r)
    then have "unat (of_nat c :: u64) = c" by (simp add: unsigned_of_nat take_bit_nat_eq_self)
    then show ?thesis using that by auto
  qed
  ultimately show "n \<noteq> 0 \<Longrightarrow> did = 0 \<Longrightarrow> dbg_enabled (m_dbg (e_m e')) \<and> dbg_paused (m_dbg (e_m e'))"
    using assms(2) by (auto simp: defs split: if_splits prod.splits bool.splits)
qed

text \<open>What a run of either loop keeps of the emulator: the machine's invariant, and the count of the
  cycles it took.\<close>

definition ran_for :: "u64 \<Rightarrow> emulator \<Rightarrow> emulator \<Rightarrow> bool" where
  "ran_for n e e' \<longleftrightarrow> (machine_ok (e_m e) \<longrightarrow> machine_ok (e_m e')) \<and> e_stop_requested e' = e_stop_requested e
    \<and> e_timing e' = e_timing e \<and> e_cycles_executed e' = e_cycles_executed e + n"

definition at_pause :: "emulator \<Rightarrow> bool" where
  "at_pause e \<longleftrightarrow> dbg_enabled (m_dbg (e_m e)) \<and> dbg_paused (m_dbg (e_m e))"

lemma ran_for_trans: "ran_for n a b \<Longrightarrow> ran_for k b c \<Longrightarrow> ran_for (n + k) a c"
  by (simp add: ran_for_def)

lemma ran_for_upd: "(\<And>m. machine_ok m \<Longrightarrow> machine_ok (f m)) \<Longrightarrow> ran_for 0 e (upd_m f e)"
  by (simp add: ran_for_def upd_m_def)

lemma ran_for_flush: "ran_for n e e1 \<Longrightarrow> ran_for n e (upd_m flush_devices e1)"
  using ran_for_trans [OF _ ran_for_upd [OF flush_ok], of n e e1] by simp

lemma word_add_within:
  fixes d n l :: "'a::len word"
  assumes "d \<le> l" "n \<le> l - d"
  shows "d + n \<le> l" "d \<le> d + n"
proof -
  have "unat d + unat n \<le> unat l" using assms by (simp add: word_le_nat_alt unat_sub)
  moreover from this have "unat (d + n) = unat d + unat n"
    using unsigned_less [of l, where ?'a = nat] by (intro unat_add_lem [THEN iffD1]) linarith
  ultimately show "d + n \<le> l" "d \<le> d + n" by (simp_all add: word_le_nat_alt)
qed

lemma cycles_loop_runs:
  assumes "machine_ok (e_m e)"
  shows "\<exists>n. n \<le> left \<and> ran_for n e (cycles_loop left e)
    \<and> (n = left \<or> e_stop_requested e \<or> at_pause (cycles_loop left e))"
  using assms
proof (induction left e rule: cycles_loop.induct)
  case (1 left e)
  show ?case
  proof (cases "left = 0 \<or> e_stop_requested e")
    case False
    obtain did e1 where st: "step_cpu_rsp (min left kDeviceBatch) e = (did, e1)" by fastforce
    note k = step_cpu_rsp_keeps [OF 1(2) st]
    show ?thesis
    proof (cases "did = 0")
      case True
      have "min left kDeviceBatch \<noteq> 0" using False by (simp add: kDeviceBatch_def min_def)
      then have "at_pause e1" using k(5) True by (simp add: at_pause_def)
      then show ?thesis
        using k True False by (intro exI [of _ 0]) (simp add: cycles_loop.simps [of left e] st ran_for_def)
    next
      case did: False
      define e2 where "e2 = (if m_device_debt (e_m e1) \<ge> kDeviceBatch then upd_m flush_devices e1 else e1)"
      have r1: "ran_for did e e1" using k by (simp add: ran_for_def)
      then have r2: "ran_for did e e2" using ran_for_flush by (simp add: e2_def)
      have loop: "cycles_loop left e = cycles_loop (left - did) e2"
        using False did by (simp add: cycles_loop.simps [of left e] st e2_def)
      have "machine_ok (e_m e2)" using r2 1(2) by (simp add: ran_for_def)
      with 1(1) [OF False st [symmetric] did] obtain n where
        n: "n \<le> left - did" "ran_for n e2 (cycles_loop (left - did) e2)"
          "n = left - did \<or> e_stop_requested e2 \<or> at_pause (cycles_loop (left - did) e2)"
        unfolding e2_def by blast
      have "did + n \<le> left"
        by (rule word_add_within(1) [OF step_decreases(1) [OF st did] n(1)])
      moreover have "e_stop_requested e2 = e_stop_requested e" using r2 by (simp add: ran_for_def)
      ultimately show ?thesis
        using n(3) ran_for_trans [OF r2 n(2)] loop
        by (intro exI [of _ "did + n"]) auto
    qed
  qed (auto simp: cycles_loop.simps [of left e] ran_for_def)
qed

lemma frame_loop_runs:
  assumes "machine_ok (e_m e)" "taken \<le> limit" "frame_loop limit before taken e = (t, vi, stopped, e')"
  shows "taken \<le> t \<and> t \<le> limit \<and> ran_for (t - taken) e e'
    \<and> (t = limit \<or> vi \<or> e_stop_requested e \<or> stopped \<and> at_pause e')"
  using assms
proof (induction limit before taken e rule: frame_loop.induct)
  case (1 limit before taken e)
  show ?case
  proof (cases "e_stop_requested e \<or> \<not> taken < limit")
    case False
    obtain did e1 where st: "step_cpu_rsp (min (limit - taken) kDeviceBatch) e = (did, e1)" by fastforce
    note k = step_cpu_rsp_keeps [OF 1(2) st]
    note loop = 1(4) [unfolded frame_loop.simps [of limit before taken e] st]
    show ?thesis
    proof (cases "did = 0")
      case True
      have "min (limit - taken) kDeviceBatch \<noteq> 0" using False by (auto simp: kDeviceBatch_def min_def)
      then have "at_pause e1" using k(5) True by (simp add: at_pause_def)
      then show ?thesis using k True False loop by (auto simp: ran_for_def at_pause_def)
    next
      case did: False
      define e2 where "e2 = upd_m flush_devices e1"
      have "ran_for did e e1" using k by (simp add: ran_for_def)
      then have r2: "ran_for did e e2" unfolding e2_def by (rule ran_for_flush)
      have d: "did \<le> limit - taken" by (rule step_decreases(1) [OF st did])
      have le: "taken \<le> taken + did" "taken + did \<le> limit"
        using word_add_within [OF 1(3) d] by simp_all
      show ?thesis
      proof (cases "tc_sync_to_vi (e_timing e2) \<and> (vi_frame_ready (m_vi (e_m e2)) \<or> vi_frame_count (m_vi (e_m e2)) > before)")
        case True
        then have "t = taken + did" "vi" "e' = e2"
          using loop False did by (auto simp: Let_def e2_def split: if_splits)
        then show ?thesis using le r2 by simp
      next
        case no: False
        have "frame_loop limit before (taken + did) e2 = (t, vi, stopped, e')"
          using loop False did no by (auto simp: Let_def e2_def split: if_splits)
        with 1(1) [OF False st [symmetric] did e2_def refl refl]
        have "taken + did \<le> t \<and> t \<le> limit \<and> ran_for (t - (taken + did)) e2 e'
            \<and> (t = limit \<or> vi \<or> e_stop_requested e2 \<or> stopped \<and> at_pause e')"
          using no le r2 1(2) by (auto simp: ran_for_def)
        moreover have "e_stop_requested e2 = e_stop_requested e" using r2 by (simp add: ran_for_def)
        ultimately show ?thesis
          using ran_for_trans [OF r2, of "t - (taken + did)" e'] le by (auto simp: algebra_simps)
      qed
    qed
  qed (use 1 in \<open>auto simp: frame_loop.simps [of limit before taken e] ran_for_def\<close>)
qed

section \<open>Running\<close>

lemma push_ok: "machine_ok m \<Longrightarrow> machine_ok (push_if_running m)"
  by (simp add: push_if_running_id)

lemma push_dbg: "m_dbg (push_if_running m) = m_dbg m"
  by (simp add: push_if_running_def push_mem_to_bus_def)

lemma flush_dbg: "m_dbg (flush_devices m) = m_dbg m"
proof -
  have r: "m_dbg (raise_irq b n) = m_dbg n" for b n by (simp add: raise_irq_def with_mi_cpu_def split: prod.split)
  have "m_dbg (snd (vi_tick (raise_irq MiIntr_VI) d (v, n))) = m_dbg n" for d v n
    by (rule vi_tick_keeps [where P = "\<lambda>z. m_dbg z = m_dbg n"]) (simp_all add: r)
  moreover have "m_dbg (snd (ai_tick (raise_irq MiIntr_AI) ram d (a, n))) = m_dbg n" for ram d a n
    by (rule ai_tick_keeps [where P = "\<lambda>z. m_dbg z = m_dbg n"]) (simp_all add: r)
  ultimately show ?thesis by (simp add: flush_devices_def Let_def split_beta)
qed

lemma run_cycles_runs:
  assumes "machine_ok (e_m e)"
  shows "\<exists>n. n \<le> cycles \<and> ran_for n e (run_cycles cycles e)
    \<and> (n = cycles \<or> e_stop_requested e \<or> at_pause (run_cycles cycles e))"
proof (cases "cycles = 0 \<or> e_stop_requested e")
  case False
  obtain n where n: "n \<le> cycles" "ran_for n e (cycles_loop cycles e)" "n = cycles \<or> at_pause (cycles_loop cycles e)"
    using cycles_loop_runs [OF assms, of cycles] False by blast
  note f = flush_dbg push_dbg
  have "ran_for n e (run_cycles cycles e)"
    using ran_for_trans [OF ran_for_flush [OF n(2)] ran_for_upd [OF push_ok]] False by (simp add: run_cycles_def)
  then show ?thesis using n False f by (auto simp: run_cycles_def at_pause_def upd_m_def)
qed (auto simp: run_cycles_def ran_for_def)

text \<open>Running a number of cycles ends, keeps the invariant of the machine, whatever the program
  does, and executes exactly that many cycles, or fewer when the debugger has paused the machine.\<close>

theorem run_cycles_complete:
  assumes "machine_ok (e_m e)" "\<not> e_stop_requested e" "e' = run_cycles cycles e"
  shows "machine_ok (e_m e') \<and> (\<exists>n. n \<le> cycles \<and> e_cycles_executed e' = e_cycles_executed e + n
    \<and> (n = cycles \<or> dbg_enabled (m_dbg (e_m e')) \<and> dbg_paused (m_dbg (e_m e'))))"
  using run_cycles_runs [OF assms(1), of cycles] assms by (auto simp: ran_for_def at_pause_def)


lemma emu_run_loop_returns:
  assumes "machine_ok (e_m e)" "\<not> e_stop_requested e" "max_cycles \<noteq> 0" "e_cycles_executed e \<le> max_cycles"
  shows "\<exists>e'. emu_run_loop max_cycles e = Some e' \<and> machine_ok (e_m e')
    \<and> (e_cycles_executed e' = max_cycles \<or> at_pause e')"
  using assms
proof (induction "unat (max_cycles - e_cycles_executed e)" arbitrary: e rule: less_induct)
  case less
  show ?case
  proof (cases "e_cycles_executed e \<ge> max_cycles")
    case True
    then show ?thesis using less(2-5) unfolding emu_run_loop.simps [of max_cycles e] by simp
  next
    case False
    let ?c = "run_chunk max_cycles e"
    have rest: "max_cycles - e_cycles_executed e \<noteq> 0" using False by auto
    then have c: "?c \<noteq> 0" "?c \<le> max_cycles - e_cycles_executed e" by (auto simp: run_chunk_def min_def)
    obtain n where n: "n \<le> ?c" "ran_for n e (run_cycles ?c e)" "n = ?c \<or> at_pause (run_cycles ?c e)"
      using run_cycles_runs [OF less(2), of ?c] less(3) by blast
    note step = emu_run_loop.simps [of max_cycles e]
    show ?thesis
    proof (cases "n = 0")
      case True
      then show ?thesis using n c less(2-4) False step by (auto simp: ran_for_def Let_def)
    next
      case n0: False
      let ?e = "run_cycles ?c e"
      have e: "e_cycles_executed ?e = e_cycles_executed e + n" "machine_ok (e_m ?e)" "\<not> e_stop_requested ?e"
        using n(2) less(2,3) by (simp_all add: ran_for_def)
      have "n \<le> max_cycles - e_cycles_executed e" using n(1) c(2) by (rule order_trans)
      then have le: "e_cycles_executed ?e \<le> max_cycles"
        "max_cycles - e_cycles_executed ?e < max_cycles - e_cycles_executed e"
        using word_add_within(1) [OF less(5)] word_sub_less [OF _ n0] by (simp_all add: e(1) diff_diff_eq [symmetric])
      have "emu_run_loop max_cycles e = emu_run_loop max_cycles ?e"
        using step less(3,4) False n0 e(1) by (simp add: Let_def)
      then show ?thesis using less(1) [OF _ e(2,3) less(4) le(1)] le(2) by (simp add: word_less_nat_alt)
    qed
  qed
qed

text \<open>C15: Running to a limit returns. It keeps the invariant of the machine and stops with exactly
  the cycles asked for, unless the debugger paused it before or more had been executed already.\<close>

theorem emu_run_returns:
  assumes "machine_ok (e_m e)" "max_cycles \<noteq> 0"
  shows "\<exists>e'. emu_run max_cycles e = Some e' \<and> machine_ok (e_m e')
    \<and> (e_cycles_executed e' = max_cycles \<or> dbg_enabled (m_dbg (e_m e')) \<and> dbg_paused (m_dbg (e_m e'))
      \<or> e' = e\<lparr>e_stop_requested := False\<rparr> \<and> e_cycles_executed e > max_cycles)"
proof (cases "e_cycles_executed e \<le> max_cycles")
  case True
  then show ?thesis
    using emu_run_loop_returns [of "e\<lparr>e_stop_requested := False\<rparr>" max_cycles] assms
    by (auto simp: emu_run_def at_pause_def)
qed (use assms in \<open>auto simp: emu_run_def emu_run_loop.simps\<close>)

text \<open>A paused machine stands still: while the debugger is enabled and paused and no single step
  is asked for, running cycles, however many, changes nothing at all once the devices have had the
  time of the cycles executed before.\<close>

theorem paused_stands_still:
  assumes "machine_ok (e_m e)" "m_device_debt (e_m e) = 0"
    and "dbg_enabled (m_dbg (e_m e))" "dbg_paused (m_dbg (e_m e))" "dbg_steps_left (m_dbg (e_m e)) = 0"
  shows "run_cycles cycles e = e"
proof -
  have "step_cpu_rsp n e = (0, e)" for n
    using assms(3-5) by (simp add: step_cpu_rsp_def on_before_step_def)
  then have "cycles_loop cycles e = e" by (simp add: cycles_loop.simps [of cycles e])
  then show ?thesis
    using assms(1,2) by (simp add: run_cycles_def upd_m_def flush_devices_def push_if_running_id)
qed

section \<open>Reset and loading\<close>

text \<open>A reset brings the hardware to a good state from any state.\<close>

lemma reset_hardware_ok: "machine_ok (reset_hardware m)" "sp_fresh (reset_hardware m)" "bc_aligned (m_cache (reset_hardware m))"
  "m_cart (reset_hardware m) = m_cart m" "length (m_rdram (reset_hardware m)) = length (m_rdram m)"
proof -
  note defs = reset_hardware_def Let_def bus_reset_def upd_cpu_def reset_rsp_def upd_defs sp_reset_def
  have "ip2 (cpu_reset c) = False" for c by (simp add: ip2_def cpu_reset_def)
  then show "machine_ok (reset_hardware m)"
    using status_bits(1) [of 0] status_bits(1) [of 1] status_bits(1) [of 6]
    by (simp add: defs machine_ok_def machine_wf_def sp_coherent_def cpu_wf_reset bc_wf_clear pif_wf_reset
        mi_reset_def cpu_irq_level_def rsp_reset_def rsp_new_def)
  show "sp_fresh (reset_hardware m)" by (simp add: defs sp_fresh_def)
  show "bc_aligned (m_cache (reset_hardware m))" by (simp add: defs bc_aligned_clear)
  show "m_cart (reset_hardware m) = m_cart m" "length (m_rdram (reset_hardware m)) = length (m_rdram m)"
    by (simp_all add: defs)
qed

definition program_size :: "boot_config \<Rightarrow> nat \<Rightarrow> nat" where
  "program_size cfg len =
    (if cfg_skip_rom_copy cfg then 0
     else min (if cfg_load_size cfg = 0 then 1024 * 1024 else cfg_load_size cfg) (len - 0x1000))"

lemma attach_ok: "machine_ok m \<Longrightarrow> machine_ok (attach_cpu_trace m)"
  unfolding attach_cpu_trace_def
  by (rule machine_ok_upd_cpu) (simp_all add: cpu_keeps_def cpu_wf_def ip2_def)

lemma attach_frame:
  "m_rdram (attach_cpu_trace m) = m_rdram m" "c_pc (m_cpu (attach_cpu_trace m)) = c_pc (m_cpu m)"
  "c_halted (m_cpu (attach_cpu_trace m)) = c_halted (m_cpu m)"
  by (simp_all add: attach_cpu_trace_def upd_cpu_def)

text \<open>C14: Loading an image into any emulator, whatever ran before, and booting it the high-level way
  leaves a good machine about to run the program: booted, with no cycle counted, the processor at the
  entry point of the header, the program of the normalised image at its physical address and the
  rest of RDRAM clear.\<close>

theorem load_boots_program:
  assumes "load_rom_bytes load_file data arg e = (True, e')" "cfg = (if customized arg then arg else e_boot_cfg e)"
    and "cfg_mode cfg = Hle" "length (m_rdram (e_m e)) \<le> 2 ^ 24" "m_rdram (e_m e) \<noteq> []"
    and "dest = load_phys_from_entry (h_entrypoint (e_header e'))" "dest AND 1 = 0"
    and "n = program_size cfg (length data)" "unat dest + n \<le> length (m_rdram (e_m e))"
  shows "machine_ok (e_m e') \<and> e_booted e' \<and> e_rom_loaded e' \<and> e_cycles_executed e' = 0
    \<and> \<not> e_stop_requested e' \<and> c_pc (m_cpu (e_m e')) = ucast (h_entrypoint (e_header e'))
    \<and> \<not> c_halted (m_cpu (e_m e')) \<and> length (m_rdram (e_m e')) = length (m_rdram (e_m e))
    \<and> (\<forall>k<n. m_rdram (e_m e') ! (unat dest + k) = normalize_cart_endian data ! (0x1000 + k))
    \<and> (\<forall>j<length (m_rdram (e_m e)). j < unat dest \<or> unat dest + n \<le> j \<longrightarrow> m_rdram (e_m e') ! j = 0)"
proof -
  let ?h = "reset_hardware (e_m e)"
  define m where "m = ?h\<lparr>m_cart := normalize_cart_endian data, m_cache := bc_clear (m_cache ?h)\<rparr>"
  note h = reset_hardware_ok [of "e_m e"]
  have m: "machine_ok m" "sp_fresh m" "bc_aligned (m_cache m)" "length (m_rdram m) \<le> 2 ^ 24"
    "m_cart m = normalize_cart_endian data" "m_rdram m = replicate (length (m_rdram (e_m e))) 0"
    using machine_ok_clear [of "?h\<lparr>m_cart := normalize_cart_endian data\<rparr>"] h assms(4)
    by (simp_all add: m_def sp_fresh_def bc_aligned_clear)
      (simp add: reset_hardware_def Let_def bus_reset_def upd_cpu_def reset_rsp_def upd_defs sp_reset_def)
  obtain r m' where b: "hle_boot_loaded load_file cfg m = (r, m')" by fastforce
  have ne: "data \<noteq> []"
    using assms(1) by (auto simp: load_rom_bytes_def load_cartridge_def Let_def)
  have image: "normalize_cart_endian data \<noteq> []" using ne length_normalize [of data] by (metis length_0_conv)
  have boot: "emu_boot load_file cfg ((fresh_hardware e)\<lparr>e_m := ?h\<lparr>m_cart := normalize_cart_endian data\<rparr>,
      e_rom_loaded := True, e_rom_path := []\<rparr>) = (True, e')"
    using assms(1,2) ne
    by (cases "customized arg") (simp_all add: load_rom_bytes_def load_cartridge_def Let_def fresh_hardware_def upd_m_def)
  have ok: "br_ok r" "e_header e' = br_header r"
    "e_m e' = (if dbg_enabled (m_dbg m') then attach_cpu_trace (m'\<lparr>m_device_debt := 0\<rparr>) else m'\<lparr>m_device_debt := 0\<rparr>)"
    and f: "e_booted e'" "e_rom_loaded e'" "e_cycles_executed e' = 0" "\<not> e_stop_requested e'"
    using boot b by (auto simp: emu_boot_def upd_m_def m_def fresh_hardware_def Let_def split: if_splits)
  have entry: "br_entrypoint r = h_entrypoint (br_header r)"
    by (rule boot_hle_places [OF b assms(3) ok(1) m(1-3)])
  have size: "br_bytes_copied r = n"
    using boot_bytes [OF b assms(3) ok(1) m(1-3)] assms(5,8) image m(5,6)
    by (auto simp: program_size_def hle_load_size_def)
  have "machine_ok m'" using boot_keeps [OF m(1,2), of load_file cfg] by (simp add: b)
  then have "machine_ok (e_m e')" using attach_ok by (simp add: ok(3))
  moreover note boot_program_placed [OF b assms(3) ok(1) m(1-4) assms(6) [unfolded ok(2) entry [symmetric]] assms(7)]
  ultimately show ?thesis
    using f assms(9) unfolding size ok(2)
    by (auto simp: ok(3) attach_frame m(5,6) entry)
qed

text \<open>A reset in the low-level mode tries to boot when the bus holds a PIF ROM, even without a
  configured path; but the boot only accepts a ROM it has just loaded from a path, so it fails.\<close>

lemma reset_lle_needs_path:
  assumes "cfg_mode (e_boot_cfg e) = LlePif" "cfg_pif_rom_path (e_boot_cfg e) = []"
  shows "\<not> e_booted (emu_reset load_file e)"
  using assms
  by (auto simp: emu_reset_def emu_boot_def upd_m_def hle_boot_loaded_def user_pif_rom_def boot_lle_def
      boot_result_new_def Let_def split: sum.split prod.split)

section \<open>Witnesses\<close>

lemma emulator_init_sel [simp]:
  "e_m (emulator_init m) = m" "\<not> e_stop_requested (emulator_init m)" "e_cycles_executed (emulator_init m) = 0"
  "e_timing (emulator_init m) = ntsc" "e_boot_cfg (emulator_init m) = boot_config_default"
  by (simp_all add: emulator_init_def)

theorem run_cycles_complete_witness:
  "machine_ok (e_m (run_cycles 100 (emulator_init (machine_new [1, 2, 3, 4]))))"
  using run_cycles_complete [of "emulator_init (machine_new [1, 2, 3, 4])" _ 100] machine_ok_new by simp


theorem emu_run_returns_witness:
  "\<exists>e'. emu_run 1000 (emulator_init (machine_new [1, 2, 3, 4])) = Some e'"
  using emu_run_returns [of "emulator_init (machine_new [1, 2, 3, 4])" 1000] machine_ok_new by auto

theorem paused_stands_still_witness:
  "run_cycles 1000000 (emulator_init ((machine_new [1])\<lparr>m_dbg := debugger_new\<lparr>dbg_enabled := True, dbg_paused := True\<rparr>\<rparr>))
    = emulator_init ((machine_new [1])\<lparr>m_dbg := debugger_new\<lparr>dbg_enabled := True, dbg_paused := True\<rparr>\<rparr>)"
  by (rule paused_stands_still) (simp_all add: machine_ok_new debugger_new_def)

definition load_example :: "u8 list" where
  "load_example = [0x80, 0x37, 0x12, 0x40] @ replicate 0xFFC 0 @ [7, 9]"

theorem load_boots_program_witness:
  "m_rdram (e_m (snd (load_rom_bytes (\<lambda>_. []) load_example boot_example_config
      (emulator_init (machine_new (replicate 0x402 1)))))) ! 0x401 = 9"
proof -
  let ?e = "emulator_init (machine_new (replicate 0x402 1))" and ?cfg = boot_example_config
  obtain ok e' where l: "load_rom_bytes (\<lambda>_. []) load_example ?cfg ?e = (ok, e')" by fastforce
  have img: "normalize_cart_endian load_example = load_example"
    by (simp add: load_example_def normalize_cart_endian_def cart_magic_Cons be32_def)
  have cfg: "customized ?cfg" "cfg_mode ?cfg = Hle" "\<not> cfg_skip_rom_copy ?cfg" "cfg_load_size ?cfg = 0"
    "cfg_pif_rom_path ?cfg = []" "cfg_ipl3_path ?cfg = []" "cfg_force_cic ?cfg = Cic6102"
    by (simp_all add: boot_example_config_def boot_config_default_def customized_def)
  have "be_u32 load_example 8 = 0"
    by (simp add: be_u32_def be32_def nth_append load_example_def)
  then have "h_pc (parse_cart_header load_example) = 0"
    by (simp add: parse_cart_header_def Let_def load_example_def)
  then have entry: "h_entrypoint (boot_header ?cfg m) = 0x80000400" if "m_cart m = load_example" for m
    using that by (simp add: boot_header_def boot_example_config_def boot_config_default_def Let_def load_example_def)
  have ne: "load_example \<noteq> []" by (simp add: load_example_def)
  have "br_ok (fst (hle_boot_loaded (\<lambda>_. []) ?cfg m))
      \<and> br_header (fst (hle_boot_loaded (\<lambda>_. []) ?cfg m)) = boot_header ?cfg m" if "m_cart m \<noteq> []" for m
    using that by (simp add: hle_boot_loaded_def user_pif_rom_def user_ipl3_def cfg boot_hle_def
        boot_result_new_def Let_def split: prod.split)
  then have ok: "ok" "h_entrypoint (e_header e') = 0x80000400"
    using l entry ne
    by (auto simp: load_rom_bytes_def load_cartridge_def cfg(1) img emu_boot_def upd_m_def split_beta
        fresh_hardware_def Let_def)
  have d: "load_phys_from_entry 0x80000400 = 0x400" by (simp add: load_phys_from_entry_def)
  have n: "program_size ?cfg (length load_example) = 2" by (simp add: program_size_def cfg load_example_def)
  have "\<forall>k<2. m_rdram (e_m e') ! (0x400 + k) = load_example ! (0x1000 + k)"
    using load_boots_program [OF l [unfolded ok(1) [THEN eqTrueI]], of ?cfg "0x400" 2] unfolding ok(2) d n
    by (simp add: cfg img)
  then have "m_rdram (e_m e') ! (0x400 + 1) = load_example ! (0x1000 + 1)"
    using one_less_numeral_iff semiring_norm(76) by blast
  moreover have "load_example ! (0x1000 + 1) = 9" by (simp add: load_example_def nth_append)
  ultimately show ?thesis by (simp add: l)
qed

end
