(* ===== verification/Framebuffer.thy ===== *)
theory Framebuffer
  imports Emulator
begin

unbundle bit_operations_syntax

text \<open>
  The scan-out of the video interface (\<open>src/vi/vi.cpp\<close>: \<open>sample_pixel\<close> and
  \<open>copy_framebuffer_rgba\<close>) and \<open>Emulator::present_framebuffer\<close>. The output references of
  \<open>sample_pixel\<close> are an option, the output vector of the copy is a list that the loops write in
  place. The property is the equivalence of the direct copy with the per-pixel reference.
\<close>

section \<open>One pixel\<close>

definition fb_base :: "video_interface \<Rightarrow> u32" where
  "fb_base v = vi_origin v AND NOT 0x3"

definition sample_pixel :: "machine \<Rightarrow> int \<Rightarrow> int \<Rightarrow> (u8 \<times> u8 \<times> u8 \<times> u8) option" where
  "sample_pixel m x y =
    (let v = m_vi m; w = fb_width v; h = fb_height v; bpp = bytes_per_pixel v in
     if bpp = 0 \<or> w = 0 \<or> h = 0 then None
     else if x < 0 \<or> y < 0 \<or> x \<ge> int w \<or> y \<ge> int h then None
     else
       (let org = fb_base v;
            addr = org + of_int y * line_pitch_bytes v + of_int x * of_nat bpp in
        if unat (addr + of_nat bpp) > length (m_rdram m) \<and> unat org \<ge> length (m_rdram m) then None
        else if bpp = 2 then Some (decode_5551 (read16_const m addr))
        else Some (decode_8888 (read32_const m addr))))"

section \<open>The whole frame\<close>

definition resize_bytes :: "nat \<Rightarrow> u8 list \<Rightarrow> u8 list" where
  "resize_bytes n xs = take n xs @ replicate (n - length xs) 0"

definition put_pixel :: "nat \<Rightarrow> u8 \<times> u8 \<times> u8 \<times> u8 \<Rightarrow> u8 list \<Rightarrow> u8 list" where
  "put_pixel di p out =
    (case p of (r, g, b, a) \<Rightarrow> out[di := r, di + 1 := g, di + 2 := b, di + 3 := a])"

text \<open>The bodies of the three double loops: 16-bit pixels through the table, 32-bit pixels as
  bytes, and the path through the bus.\<close>

definition fast_pixel_16 :: "u8 list \<Rightarrow> u32 \<Rightarrow> u8 \<times> u8 \<times> u8 \<times> u8" where
  "fast_pixel_16 rdram addr =
    (let rgba = (if unat (addr + 1) < length rdram
           then lut_5551 (ucast (push_bit 8 (ucast (rdram ! unat addr)) OR ucast (rdram ! unat (addr + 1)) :: u16))
           else 0xFF000000)
     in (ucast (rgba AND 0xFF), ucast (drop_bit 8 rgba AND 0xFF), ucast (drop_bit 16 rgba AND 0xFF),
         ucast (drop_bit 24 rgba AND 0xFF)))"

definition fast_pixel_32 :: "u8 list \<Rightarrow> u32 \<Rightarrow> u8 \<times> u8 \<times> u8 \<times> u8" where
  "fast_pixel_32 rdram addr =
    (if unat (addr + 3) < length rdram
     then (rdram ! unat addr, rdram ! unat (addr + 1), rdram ! unat (addr + 2), rdram ! unat (addr + 3))
     else (0, 0, 0, 255))"

definition slow_pixel :: "machine \<Rightarrow> nat \<Rightarrow> nat \<Rightarrow> u8 \<times> u8 \<times> u8 \<times> u8" where
  "slow_pixel m x y = (case sample_pixel m (int x) (int y) of Some p \<Rightarrow> p | None \<Rightarrow> (0, 0, 0, 255))"

definition copy_pixels ::
    "(nat \<Rightarrow> nat \<Rightarrow> u8 \<times> u8 \<times> u8 \<times> u8) \<Rightarrow> nat \<Rightarrow> nat \<Rightarrow> u8 list \<Rightarrow> u8 list" where
  "copy_pixels pix w h out =
    fold (\<lambda>y. fold (\<lambda>x. put_pixel ((y * w + x) * 4) (pix x y)) [0..<w]) [0..<h] out"

definition copy_framebuffer_rgba :: "machine \<Rightarrow> u8 list \<Rightarrow> bool \<times> u8 list" where
  "copy_framebuffer_rgba m out0 =
    (let v = m_vi m; w = fb_width v; h = fb_height v; bpp = bytes_per_pixel v in
     if bpp = 0 \<or> w = 0 \<or> h = 0 then (False, [])
     else
       (let org = fb_base v; pitch = line_pitch_bytes v; rdram = m_rdram m;
            out = resize_bytes (w * h * 4) out0 in
        if rdram \<noteq> [] \<and> unat org < length rdram \<and> bpp = 2 then
          (True, copy_pixels (\<lambda>x y. fast_pixel_16 rdram (org + of_nat y * pitch + of_nat x * 2)) w h out)
        else if rdram \<noteq> [] \<and> unat org < length rdram \<and> bpp = 4 then
          (True, copy_pixels (\<lambda>x y. fast_pixel_32 rdram (org + of_nat y * pitch + of_nat x * 4)) w h out)
        else (True, copy_pixels (slow_pixel m) w h out)))"

text \<open>The frame, and the width and height that come with it.\<close>

definition present_framebuffer :: "u8 list \<Rightarrow> machine \<Rightarrow> bool \<times> u8 list \<times> nat \<times> nat" where
  "present_framebuffer rgba m =
    (let (shown, out) = copy_framebuffer_rgba m rgba
     in (shown, out, fb_width (m_vi m), fb_height (m_vi m)))"

section \<open>The loops\<close>

definition channel :: "nat \<Rightarrow> u8 \<times> u8 \<times> u8 \<times> u8 \<Rightarrow> u8" where
  "channel k p = (case p of (r, g, b, a) \<Rightarrow> [r, g, b, a] ! k)"

lemma length_put_pixel [simp]: "length (put_pixel di p out) = length out"
  by (simp add: put_pixel_def split_beta)

lemma put_pixel_nth:
  assumes "4 * k + 4 \<le> length out"
  shows "put_pixel (4 * k) p out ! i = (if i \<in> {4 * k..<4 * k + 4} then channel (i mod 4) p else out ! i)"
proof -
  have "i = 4 * k \<or> i = 4 * k + 1 \<or> i = 4 * k + 2 \<or> i = 4 * k + 3 \<or> i \<notin> {4 * k..<4 * k + 4}"
    by auto
  moreover have "(4 * k + 1) mod 4 = 1" "(4 * k + 2) mod 4 = 2" "(4 * k + 3) mod 4 = 3"
    by presburger+
  ultimately show ?thesis
    using assms by (auto simp: put_pixel_def channel_def split_beta nth_list_update)
qed

lemma index_parts: "k < 4 \<Longrightarrow> (n * 4 + k) div 4 = n \<and> (n * 4 + k) mod 4 = (k :: nat)"
  by auto

text \<open>Every pixel of the output is written once, from its own coordinates.\<close>

lemma copy_pixels_exact:
  assumes "length out = w * h * 4"
  shows "length (copy_pixels pix w h out) = w * h * 4"
    "x < w \<Longrightarrow> y < h \<Longrightarrow> k < 4 \<Longrightarrow>
      copy_pixels pix w h out ! ((y * w + x) * 4 + k) = channel k (pix x y)"
proof -
  let ?N = "w * h * 4"
  let ?ok = "\<lambda>m :: u8 list. length m = ?N"
  let ?S = "\<lambda>y x. {4 * (y * w + x)..<4 * (y * w + x) + 4}"
  let ?pat = "\<lambda>i. channel (i mod 4) (pix (i div 4 mod w) (i div 4 div w))"
  let ?f = "\<lambda>y x. if x < w \<and> y < h then put_pixel ((y * w + x) * 4) (pix x y) else id"
  let ?T = "\<lambda>y x. if x < w \<and> y < h then ?S y x else {}"
  have px: "?ok (?f y x m) \<and> (\<forall>i. ?f y x m ! i = (if i \<in> ?T y x then ?pat i else m ! i))"
    if "?ok m" for m y x
  proof (cases "x < w \<and> y < h")
    case True
    then have "(y * w + x) + 1 \<le> h * w"
      by (metis Suc_eq_plus1 Suc_leI add.commute add_less_cancel_left less_le_trans mult.commute
          mult_Suc_right mult_le_mono2 nat_add_left_cancel_less)
    then have le: "4 * (y * w + x) + 4 \<le> length m" using that by (simp add: mult.commute)
    have "?pat i = channel (i mod 4) (pix x y)" if "i \<in> ?S y x" for i
    proof -
      have "i div 4 = y * w + x" using that by auto
      then show ?thesis using True by simp
    qed
    then show ?thesis
      using True that put_pixel_nth [OF le, of "pix x y"] by (simp add: mult.commute [of _ 4])
  next
    case False
    then show ?thesis using that by auto
  qed
  have row: "?ok (fold (?f y) [0..<w] m) \<and>
      (\<forall>i. fold (?f y) [0..<w] m ! i = (if \<exists>x\<in>set [0..<w]. i \<in> ?T y x then ?pat i else m ! i))"
    if "?ok m" for y m
    using paint_fold [where ok = ?ok and f = "?f y" and img = nth and S = "?T y" and pat = ?pat, OF px that] .
  have all: "?ok (fold (\<lambda>y. fold (?f y) [0..<w]) [0..<h] out) \<and>
      (\<forall>i. fold (\<lambda>y. fold (?f y) [0..<w]) [0..<h] out ! i
        = (if \<exists>y\<in>set [0..<h]. i \<in> {i. \<exists>x\<in>set [0..<w]. i \<in> ?T y x} then ?pat i else out ! i))"
    by (rule paint_fold) (use row assms in auto)
  have e: "copy_pixels pix w h out = fold (\<lambda>y. fold (?f y) [0..<w]) [0..<h] out"
    unfolding copy_pixels_def by (intro fold_cong ext) (auto intro!: fold_cong)
  show "length (copy_pixels pix w h out) = ?N" using all by (simp add: e)
  show "copy_pixels pix w h out ! ((y * w + x) * 4 + k) = channel k (pix x y)"
    if "x < w" "y < h" "k < 4"
  proof -
    let ?i = "(y * w + x) * 4 + k"
    have "?i \<in> ?T y x" using that by (simp add: mult.commute)
    then have "\<exists>y\<in>set [0..<h]. ?i \<in> {i. \<exists>x\<in>set [0..<w]. i \<in> ?T y x}"
      by (intro bexI [of _ y] CollectI bexI [of _ x]) (use that in auto)
    then have "fold (\<lambda>y. fold (?f y) [0..<w]) [0..<h] out ! ?i = ?pat ?i"
      using all [THEN conjunct2, THEN spec, of ?i] by (simp only: if_True)
    moreover have "?i div 4 = y * w + x" "?i mod 4 = k"
      using that(3) index_parts [of k "y * w + x"] by simp_all
    ultimately show ?thesis using that(1) by (simp only: e) simp
  qed
qed


section \<open>Geometry\<close>

lemma fb_geometry:
  "fb_width v \<le> 640" "0 < fb_height v" "fb_height v \<le> 480" "unat (fb_base v) < 2 ^ 24"
proof -
  show "fb_width v \<le> 640" by (auto simp: fb_width_def Let_def word_less_nat_alt not_less)
  have z: "(if h = 0 then 240 else h) \<noteq> (0 :: u32)" for h by simp
  then show "0 < fb_height v" unfolding fb_height_def Let_def
    by (simp add: unat_gt_0)
  show "fb_height v \<le> 480" unfolding fb_height_def Let_def
    by (intro pred_if [where P = "\<lambda>n. n \<le> 480"]) (auto simp: word_less_nat_alt not_less split del: if_split)
  have "fb_base v \<le> vi_origin v" unfolding fb_base_def by (rule word_and_le2)
  moreover have "unat (vi_origin v) < 2 ^ 24"
    unfolding vi_origin_def mask_literals by (rule unat_mask_less)
  ultimately show "unat (fb_base v) < 2 ^ 24" by (simp add: word_le_nat_alt)
qed

definition pixel_at :: "video_interface \<Rightarrow> nat \<Rightarrow> nat \<Rightarrow> nat" where
  "pixel_at v x y = unat (fb_base v) + (y * fb_width v + x) * bytes_per_pixel v"

lemma bpp_values: "bytes_per_pixel v \<in> {0, 2, 4}"
  by (simp add: bytes_per_pixel_def split: vi_pixel_format.splits)

lemma pixel_index:
  assumes "x < fb_width v" "y < fb_height v"
  shows "y * fb_width v + x < 307200"
proof -
  have "y * fb_width v \<le> 479 * fb_width v" using assms fb_geometry(3) [of v] by (intro mult_le_mono1) simp
  then show ?thesis using assms(1) fb_geometry(1) [of v] by linarith
qed

lemma pixel_address:
  assumes "bytes_per_pixel v \<noteq> 0" "x < fb_width v" "y < fb_height v"
    and "a = fb_base v + of_nat y * line_pitch_bytes v + of_nat x * of_nat (bytes_per_pixel v)" "k \<le> 4"
  shows "unat (a + of_nat k) = pixel_at v x y + k"
proof -
  let ?n = "pixel_at v x y + k"
  have "(y * fb_width v + x) * bytes_per_pixel v \<le> 307200 * 4"
    using pixel_index [OF assms(2,3)] bpp_values [of v] by (intro mult_le_mono) auto
  then have "?n < 2 ^ 32" using fb_geometry(4) [of v] assms(5) by (simp add: pixel_at_def)
  moreover have e: "a + of_nat k = of_nat ?n"
    by (simp add: assms(4) pixel_at_def line_pitch_bytes_def assms(1) Let_def algebra_simps)
  ultimately show ?thesis by (simp only: e unat_of_nat) simp
qed

section \<open>The pixels of memory\<close>

definition ram16 :: "u8 list \<Rightarrow> nat \<Rightarrow> u16" where
  "ram16 r a = be16 (r ! a) (r ! (a + 1))"

definition ram32 :: "u8 list \<Rightarrow> nat \<Rightarrow> u32" where
  "ram32 r a = be32 (r ! a) (r ! (a + 1)) (r ! (a + 2)) (r ! (a + 3))"

lemma ram_reads:
  assumes "length (m_rdram m) \<le> 0x03F00000"
  shows "unat q + 2 \<le> length (m_rdram m) \<Longrightarrow> read16_const m q = ram16 (m_rdram m) (unat q)"
    "unat q + 4 \<le> length (m_rdram m) \<Longrightarrow> read32_const m q = ram32 (m_rdram m) (unat q)"
proof -
  have mk: "(0x1FFFFFFF :: u32) = mask 29" by (simp add: mask_eq_exp_minus_1)
  assume l: "unat q + 2 \<le> length (m_rdram m)"
  have ph: "physical q = q"
    unfolding physical_def mk by (rule word_mask_self) (use assms l in simp)
  have "q < 0x03F00000" using assms l by (simp add: word_less_nat_alt)
  moreover have "m_rdram m \<noteq> []" "rdram_index m q = unat q" using l by (auto simp: rdram_index_def)
  ultimately show "read16_const m q = ram16 (m_rdram m) (unat q)"
    using l by (simp add: read16_const_def ph ram16_def bswap16_le16)
next
  assume "unat q + 4 \<le> length (m_rdram m)"
  then show "read32_const m q = ram32 (m_rdram m) (unat q)"
    using ram_read(1) [OF assms] by (simp add: ram_word_def ram32_def bswap32_le32)
qed

lemma byte_of_shift:
  "byte_of 0 (drop_bit 8 w) = byte_of 1 w" "byte_of 0 (drop_bit 16 w) = byte_of 2 w"
  "byte_of 0 (drop_bit 24 w) = byte_of 3 w"
  by (simp_all add: byte_of_def)

lemma channels_5551:
  "(ucast (lut_5551 (ucast p) AND 0xFF), ucast (drop_bit 8 (lut_5551 (ucast p)) AND 0xFF),
    ucast (drop_bit 16 (lut_5551 (ucast p)) AND 0xFF), ucast (drop_bit 24 (lut_5551 (ucast p)) AND 0xFF))
    = decode_5551 p"
  by (simp add: lut_is_decode_5551 byte_fields byte_of_shift)

lemma channels_8888: "decode_8888 (be32 a b c d) = (a, b, c, d)"
  by (simp add: decode_8888_def byte_fields byte_of_shift byte_of_be32 del: One_nat_def)


section \<open>The copy against the reference\<close>

definition rgba_list :: "u8 \<times> u8 \<times> u8 \<times> u8 \<Rightarrow> u8 list" where
  "rgba_list p = (case p of (r, g, b, a) \<Rightarrow> [r, g, b, a])"

text \<open>The four bytes the copy leaves for a pixel, and whether the pixel lies in RDRAM.\<close>

definition shown_pixel :: "machine \<Rightarrow> u8 list \<Rightarrow> nat \<Rightarrow> nat \<Rightarrow> u8 list" where
  "shown_pixel m out x y = take 4 (drop ((y * fb_width (m_vi m) + x) * 4) out)"

definition pixel_in_ram :: "machine \<Rightarrow> nat \<Rightarrow> nat \<Rightarrow> bool" where
  "pixel_in_ram m x y \<longleftrightarrow> pixel_at (m_vi m) x y + bytes_per_pixel (m_vi m) \<le> length (m_rdram m)"

definition expected_pixel :: "machine \<Rightarrow> nat \<Rightarrow> nat \<Rightarrow> u8 list" where
  "expected_pixel m x y =
    (if pixel_in_ram m x y then
       (case sample_pixel m (int x) (int y) of Some p \<Rightarrow> rgba_list p | None \<Rightarrow> [])
     else [0, 0, 0, 0xFF])"

lemma take_4_channels:
  assumes "n + 4 \<le> length xs" "\<And>k. k < 4 \<Longrightarrow> xs ! (n + k) = channel k p"
  shows "take 4 (drop n xs) = rgba_list p"
proof (rule nth_equalityI)
  show "length (take 4 (drop n xs)) = length (rgba_list p)"
    using assms(1) by (simp add: rgba_list_def split_beta)
  show "take 4 (drop n xs) ! k = rgba_list p ! k" if "k < length (take 4 (drop n xs))" for k
    using that assms(1) assms(2) [of k] by (simp add: rgba_list_def channel_def split_beta)
qed

lemma sample_pixel_at:
  assumes "bytes_per_pixel (m_vi m) \<noteq> 0" "x < fb_width (m_vi m)" "y < fb_height (m_vi m)"
    and "a = fb_base (m_vi m) + of_nat y * line_pitch_bytes (m_vi m)
        + of_nat x * of_nat (bytes_per_pixel (m_vi m))"
  shows "sample_pixel m (int x) (int y) =
    (if length (m_rdram m) < unat (a + of_nat (bytes_per_pixel (m_vi m)))
        \<and> length (m_rdram m) \<le> unat (fb_base (m_vi m)) then None
     else if bytes_per_pixel (m_vi m) = 2 then Some (decode_5551 (read16_const m a))
     else Some (decode_8888 (read32_const m a)))"
  using assms(1-3) unfolding assms(4) by (simp add: sample_pixel_def Let_def split del: if_split)

lemma sample_in_ram:
  assumes "bytes_per_pixel (m_vi m) \<noteq> 0" "x < fb_width (m_vi m)" "y < fb_height (m_vi m)"
    and "length (m_rdram m) \<le> 0x03F00000" "pixel_in_ram m x y"
  shows "sample_pixel m (int x) (int y) = Some
      (if bytes_per_pixel (m_vi m) = 2 then decode_5551 (ram16 (m_rdram m) (pixel_at (m_vi m) x y))
       else decode_8888 (ram32 (m_rdram m) (pixel_at (m_vi m) x y)))"
proof -
  let ?v = "m_vi m"
  define a where "a = fb_base ?v + of_nat y * line_pitch_bytes ?v + of_nat x * of_nat (bytes_per_pixel ?v)"
  note ad = pixel_address [OF assms(1-3) a_def]
  have bpp: "bytes_per_pixel ?v \<in> {2, 4}" using bpp_values [of ?v] assms(1) by auto
  have u: "unat a = pixel_at ?v x y" using ad [of 0] by simp
  have e: "unat (a + of_nat (bytes_per_pixel ?v)) \<le> length (m_rdram m)"
    using ad [of "bytes_per_pixel ?v"] bpp assms(5) by (auto simp: pixel_in_ram_def)
  have "unat a + bytes_per_pixel ?v \<le> length (m_rdram m)" using assms(5) u by (simp add: pixel_in_ram_def)
  then show ?thesis
    using sample_pixel_at [OF assms(1-3) a_def] bpp e ram_reads [OF assms(4), of a] u by auto
qed

lemma fast_pixels:
  assumes "bytes_per_pixel (m_vi m) \<noteq> 0" "x < fb_width (m_vi m)" "y < fb_height (m_vi m)"
    and "length (m_rdram m) \<le> 0x03F00000"
    and "a = fb_base (m_vi m) + of_nat y * line_pitch_bytes (m_vi m)
        + of_nat x * of_nat (bytes_per_pixel (m_vi m))"
  shows "bytes_per_pixel (m_vi m) = 2 \<Longrightarrow> rgba_list (fast_pixel_16 (m_rdram m) a) = expected_pixel m x y"
    "bytes_per_pixel (m_vi m) = 4 \<Longrightarrow> rgba_list (fast_pixel_32 (m_rdram m) a) = expected_pixel m x y"
proof -
  let ?p = "pixel_at (m_vi m) x y"
  note ad = pixel_address [OF assms(1-3,5)]
  have u: "unat a = ?p" "unat (a + 1) = ?p + 1" "unat (a + 2) = ?p + 2" "unat (a + 3) = ?p + 3"
    using ad [of 0] ad [of 1] ad [of 2] ad [of 3] by simp_all
  note s = sample_in_ram [OF assms(1-4)]
  show "rgba_list (fast_pixel_16 (m_rdram m) a) = expected_pixel m x y" if "bytes_per_pixel (m_vi m) = 2"
  proof (cases "pixel_in_ram m x y")
    case True
    then have "?p + 1 < length (m_rdram m)" using that by (simp add: pixel_in_ram_def)
    then show ?thesis
      using True s that
      by (simp add: fast_pixel_16_def u Let_def expected_pixel_def channels_5551 be16_def [symmetric]
          ram16_def)
  next
    case False
    then have "\<not> ?p + 1 < length (m_rdram m)" using that by (simp add: pixel_in_ram_def)
    then show ?thesis using False by (simp add: fast_pixel_16_def u Let_def expected_pixel_def rgba_list_def)
  qed
  show "rgba_list (fast_pixel_32 (m_rdram m) a) = expected_pixel m x y" if "bytes_per_pixel (m_vi m) = 4"
  proof (cases "pixel_in_ram m x y")
    case True
    then have "?p + 3 < length (m_rdram m)" using that by (simp add: pixel_in_ram_def)
    then show ?thesis
      using True s that by (simp add: fast_pixel_32_def u expected_pixel_def channels_8888 ram32_def)
  next
    case False
    then have "\<not> ?p + 3 < length (m_rdram m)" using that by (simp add: pixel_in_ram_def)
    then show ?thesis using False by (simp add: fast_pixel_32_def u expected_pixel_def rgba_list_def)
  qed
qed

lemma slow_pixels:
  assumes "bytes_per_pixel (m_vi m) \<noteq> 0" "x < fb_width (m_vi m)" "y < fb_height (m_vi m)"
    and "length (m_rdram m) \<le> unat (fb_base (m_vi m))"
  shows "rgba_list (slow_pixel m x y) = expected_pixel m x y"
proof -
  let ?v = "m_vi m"
  define a where "a = fb_base ?v + of_nat y * line_pitch_bytes ?v + of_nat x * of_nat (bytes_per_pixel ?v)"
  have "unat (a + of_nat (bytes_per_pixel ?v)) = pixel_at ?v x y + bytes_per_pixel ?v"
    using pixel_address [OF assms(1-3) a_def, of "bytes_per_pixel ?v"] bpp_values [of ?v] by auto
  then have far: "length (m_rdram m) < unat (a + of_nat (bytes_per_pixel ?v))"
    using assms(1,4) by (simp add: pixel_at_def)
  then have "sample_pixel m (int x) (int y) = None"
    using sample_pixel_at [OF assms(1-3) a_def] assms(4) by simp
  moreover have "\<not> pixel_in_ram m x y"
    using assms(1,4) by (simp add: pixel_in_ram_def pixel_at_def)
  ultimately show ?thesis by (simp add: slow_pixel_def expected_pixel_def rgba_list_def)
qed

lemma length_resize_bytes [simp]: "length (resize_bytes n xs) = n"
  by (simp add: resize_bytes_def)

lemma copy_pixels_expected:
  assumes "\<And>x y. x < fb_width (m_vi m) \<Longrightarrow> y < fb_height (m_vi m) \<Longrightarrow>
      rgba_list (pix x y) = expected_pixel m x y"
    and "length out = fb_width (m_vi m) * fb_height (m_vi m) * 4"
    and "x < fb_width (m_vi m)" "y < fb_height (m_vi m)"
  shows "shown_pixel m (copy_pixels pix (fb_width (m_vi m)) (fb_height (m_vi m)) out) x y
      = expected_pixel m x y"
proof -
  let ?w = "fb_width (m_vi m)" and ?h = "fb_height (m_vi m)"
  note c = copy_pixels_exact [OF assms(2), where pix = pix]
  have "y * ?w + ?w \<le> ?w * ?h" using assms(4)
    by (metis Suc_leI add.commute mult.commute mult_Suc mult_le_mono1)
  then have "y * ?w + x + 1 \<le> ?w * ?h" using assms(3) by linarith
  then have "(y * ?w + x) * 4 + 4 \<le> length (copy_pixels pix ?w ?h out)" using c(1) by simp
  from take_4_channels [OF this, of "pix x y"] c(2) [OF assms(3,4)] show ?thesis
    using assms(1) [OF assms(3,4)] by (simp add: shown_pixel_def)
qed

text \<open>C10: The displayed frame is the picture in memory. For every setting of the video registers
  that shows anything, \<open>present_framebuffer\<close> returns exactly width times height pixels of four
  bytes, and each of them is what \<open>sample_pixel\<close> reads through the bus for that coordinate when
  the pixel lies in RDRAM, opaque black when it does not: the table-driven 16-bit copy and the
  byte-wise 32-bit copy agree with the per-pixel reference, never index outside the memory, and
  leave nothing of the previous contents of the vector.\<close>

theorem framebuffer_exact:
  assumes "bytes_per_pixel (m_vi m) \<noteq> 0" "fb_width (m_vi m) \<noteq> 0" "length (m_rdram m) \<le> 0x03F00000"
    and "present_framebuffer old m = (shown, out, w, h)"
  shows "shown \<and> length out = w * h * 4 \<and> w \<le> 640 \<and> h \<le> 480
    \<and> (\<forall>x<w. \<forall>y<h. shown_pixel m out x y = expected_pixel m x y)"
proof -
  let ?v = "m_vi m" and ?o = "resize_bytes (fb_width (m_vi m) * fb_height (m_vi m) * 4) old"
  obtain pix where e: "copy_framebuffer_rgba m old = (True, copy_pixels pix (fb_width ?v) (fb_height ?v) ?o)"
    and p: "\<And>x y. x < fb_width ?v \<Longrightarrow> y < fb_height ?v \<Longrightarrow> rgba_list (pix x y) = expected_pixel m x y"
  proof (cases "m_rdram m \<noteq> [] \<and> unat (fb_base ?v) < length (m_rdram m)")
    case True
    have "bytes_per_pixel ?v = 2 \<or> bytes_per_pixel ?v = 4" using bpp_values [of ?v] assms(1) by auto
    then show thesis
    proof
      assume b: "bytes_per_pixel ?v = 2"
      show thesis
        by (rule that [of "\<lambda>x y. fast_pixel_16 (m_rdram m)
              (fb_base ?v + of_nat y * line_pitch_bytes ?v + of_nat x * 2)"])
          (use True assms(2) fb_geometry(2) [of ?v] fast_pixels(1) [OF assms(1) _ _ assms(3) _ b] b
            in \<open>simp_all add: copy_framebuffer_rgba_def Let_def\<close>)
    next
      assume b: "bytes_per_pixel ?v = 4"
      show thesis
        by (rule that [of "\<lambda>x y. fast_pixel_32 (m_rdram m)
              (fb_base ?v + of_nat y * line_pitch_bytes ?v + of_nat x * 4)"])
          (use True assms(2) fb_geometry(2) [of ?v] fast_pixels(2) [OF assms(1) _ _ assms(3) _ b] b
            in \<open>simp_all add: copy_framebuffer_rgba_def Let_def\<close>)
    qed
  next
    case False
    then have "length (m_rdram m) \<le> unat (fb_base ?v)" by auto
    then show thesis
      by (intro that [of "slow_pixel m"])
        (use False assms(1,2) fb_geometry(2) [of ?v] slow_pixels [OF assms(1)]
          in \<open>auto simp: copy_framebuffer_rgba_def Let_def\<close>)
  qed
  have "present_framebuffer old m
      = (True, copy_pixels pix (fb_width ?v) (fb_height ?v) ?o, fb_width ?v, fb_height ?v)"
    by (simp add: present_framebuffer_def e)
  from this [unfolded assms(4)]
  have out: "shown" "out = copy_pixels pix (fb_width ?v) (fb_height ?v) ?o" "w = fb_width ?v" "h = fb_height ?v"
    by (metis prod.inject)+
  have "length out = w * h * 4" using copy_pixels_exact(1) [of ?o] by (simp add: out)
  moreover have "w \<le> 640 \<and> h \<le> 480" using fb_geometry by (simp add: out)
  moreover have "\<forall>x<w. \<forall>y<h. shown_pixel m out x y = expected_pixel m x y"
    using copy_pixels_expected [OF p, of ?o] by (simp add: out)
  ultimately show ?thesis using out(1) by simp
qed


text \<open>A picture of two pixels, two bytes each, that ends with the memory.\<close>

definition frame_example :: machine where
  "frame_example = (machine_new [0, 0, 0, 0, 0xF8, 0x01, 0x00, 0x3F])\<lparr>m_vi := vi_new\<lparr>
     vi_regs := (\<lambda>_. 0)(0 := 2, 1 := 4, 2 := 2, 10 := 2)\<rparr>\<rparr>"

theorem framebuffer_exact_witness:
  "fst (present_framebuffer [9] frame_example)
    \<and> shown_pixel frame_example (fst (snd (present_framebuffer [9] frame_example))) 0 0 = [0xFF, 0, 0, 0xFF]"
proof -
  obtain shown out w h where e: "present_framebuffer [9] frame_example = (shown, out, w, h)"
    by (metis prod_cases4)
  have v: "bytes_per_pixel (m_vi frame_example) = 2" "fb_width (m_vi frame_example) = 2"
    "fb_height (m_vi frame_example) = 1" "fb_base (m_vi frame_example) = 4"
    by (simp_all add: frame_example_def bytes_per_pixel_def vi_pixel_format_def fb_width_def
        vi_width_reg_def fb_height_def fb_base_def vi_origin_def Let_def)
  have l: "m_rdram frame_example = [0, 0, 0, 0, 0xF8, 0x01, 0x00, 0x3F]" by (simp add: frame_example_def)
  have wh: "w = 2" "h = 1"
    using e v by (auto simp: present_framebuffer_def split_beta)
  have p: "sample_pixel frame_example 0 0 = Some (0xFF, 0, 0, 0xFF)"
    using sample_pixel_at [of frame_example 0 0 4]
    by (simp add: v l read16_const_def physical_def rdram_index_def le16_def bswap16_def decode_5551_def
        Let_def expand5_def)
  have "expected_pixel frame_example 0 0 = [0xFF, 0, 0, 0xFF]"
    by (simp add: expected_pixel_def pixel_in_ram_def pixel_at_def v l p rgba_list_def)
  then show ?thesis
    using framebuffer_exact [OF _ _ _ e] by (simp add: v l wh e)
qed

end
