(* ===== verification/Rdp_Commands.thy ===== *)
theory Rdp_Commands
  imports Framebuffer
begin

unbundle bit_operations_syntax

text \<open>
  The command encoders (\<open>rcp/rdp/commands.hpp\<close>), against the decoder of \<open>Rdp\<close>: what each
  encoded command does when the display processor executes it, and what a small program of them
  paints. The functions of \<open>rdp_cmd\<close> have the prefix \<open>rc_\<close> here.
\<close>

section \<open>The encoders\<close>

definition rc_pack :: "u32 \<Rightarrow> u64 \<Rightarrow> u64" where
  "rc_pack opc payload = push_bit 56 (ucast (opc AND 0x3F)) OR (payload AND 0x00FFFFFFFFFFFFFF)"

definition rc_px :: "int \<Rightarrow> u32" where "rc_px v = push_bit 2 (word_of_int v)"
definition rc_tex :: "int \<Rightarrow> u16" where "rc_tex v = ucast (push_bit 5 (word_of_int v :: u32))"
definition rc_slope :: "int \<Rightarrow> u16" where "rc_slope v = ucast (push_bit 10 (word_of_int v :: u32))"

text \<open>The payload both image commands build.\<close>

definition rc_image :: "u32 \<Rightarrow> u32 \<Rightarrow> u8 \<Rightarrow> u8 \<Rightarrow> u64" where
  "rc_image dram_addr width_px sz fmt =
    (let w = ucast (if width_px > 0 then width_px - 1 else 0) :: u64
     in push_bit 53 (ucast (fmt AND 7)) OR push_bit 51 (ucast (sz AND 3))
        OR push_bit 32 (w AND 0x3FF) OR (ucast dram_addr AND 0x03FFFFFF))"

definition rc_set_color_image :: "u32 \<Rightarrow> u32 \<Rightarrow> u8 \<Rightarrow> u8 \<Rightarrow> u64" where
  "rc_set_color_image dram_addr width_px sz fmt = rc_pack 0x3F (rc_image dram_addr width_px sz fmt)"

definition rc_set_texture_image :: "u32 \<Rightarrow> u32 \<Rightarrow> u8 \<Rightarrow> u8 \<Rightarrow> u64" where
  "rc_set_texture_image dram_addr width_px sz fmt = rc_pack 0x3D (rc_image dram_addr width_px sz fmt)"

text \<open>Four corner fields and a tile number, as the rectangle and tile commands place them.\<close>

definition rc_corners :: "u32 \<Rightarrow> u32 \<Rightarrow> u64 \<Rightarrow> u32 \<Rightarrow> u32 \<Rightarrow> u64" where
  "rc_corners a b tile c d =
    push_bit 44 (ucast (a AND 0xFFF)) OR push_bit 32 (ucast (b AND 0xFFF))
    OR push_bit 24 (tile AND 7) OR push_bit 12 (ucast (c AND 0xFFF)) OR ucast (d AND 0xFFF)"

definition rc_set_scissor :: "int \<Rightarrow> int \<Rightarrow> int \<Rightarrow> int \<Rightarrow> u64" where
  "rc_set_scissor xh yh xl yl = rc_pack 0x2D (rc_corners (rc_px xh) (rc_px yh) 0 (rc_px xl) (rc_px yl))"

definition rc_set_fill_color :: "u32 \<Rightarrow> u64" where
  "rc_set_fill_color color = rc_pack 0x37 (ucast color)"

definition rc_set_blend_color :: "u32 \<Rightarrow> u64" where
  "rc_set_blend_color color = rc_pack 0x39 (ucast color)"

definition rc_fill_color_16 :: "u16 \<Rightarrow> u32" where
  "rc_fill_color_16 pix = push_bit 16 (ucast pix) OR ucast pix"

definition rc_fill_rectangle :: "int \<Rightarrow> int \<Rightarrow> int \<Rightarrow> int \<Rightarrow> u64" where
  "rc_fill_rectangle xh yh xl yl = rc_pack 0x36 (rc_corners (rc_px xl) (rc_px yl) 0 (rc_px xh) (rc_px yh))"

definition rc_set_other_modes_fill :: u64 where "rc_set_other_modes_fill = rc_pack 0x2F (push_bit 52 3)"
definition rc_set_other_modes_copy :: u64 where "rc_set_other_modes_copy = rc_pack 0x2F (push_bit 52 2)"

definition rc_set_tile :: "u8 \<Rightarrow> u8 \<Rightarrow> u16 \<Rightarrow> u16 \<Rightarrow> u8 \<Rightarrow> u64" where
  "rc_set_tile tile sz line_words tmem_word fmt = rc_pack 0x35
    (push_bit 53 (ucast (fmt AND 7)) OR push_bit 51 (ucast (sz AND 3))
     OR push_bit 41 (ucast line_words AND 0x1FF) OR push_bit 32 (ucast tmem_word AND 0x1FF)
     OR push_bit 24 (ucast tile AND 7))"

definition rc_set_tile_size :: "u8 \<Rightarrow> int \<Rightarrow> int \<Rightarrow> int \<Rightarrow> int \<Rightarrow> u64" where
  "rc_set_tile_size tile sl tl0 sh th =
    rc_pack 0x32 (rc_corners (rc_px sl) (rc_px tl0) (ucast tile) (rc_px sh) (rc_px th))"

definition rc_load_block :: "u8 \<Rightarrow> int \<Rightarrow> int \<Rightarrow> int \<Rightarrow> u16 \<Rightarrow> u64" where
  "rc_load_block tile sl tl0 sh dxt =
    rc_pack 0x33 (rc_corners (rc_px sl) (rc_px tl0) (ucast tile) (rc_px sh) (ucast dxt))"

definition rc_load_tile :: "u8 \<Rightarrow> int \<Rightarrow> int \<Rightarrow> int \<Rightarrow> int \<Rightarrow> u64" where
  "rc_load_tile tile sl tl0 sh th =
    rc_pack 0x34 (rc_corners (rc_px sl) (rc_px tl0) (ucast tile) (rc_px sh) (rc_px th))"

definition rc_texture_rectangle ::
    "int \<Rightarrow> int \<Rightarrow> int \<Rightarrow> int \<Rightarrow> u8 \<Rightarrow> int \<Rightarrow> int \<Rightarrow> int \<Rightarrow> int \<Rightarrow> u64 \<times> u64" where
  "rc_texture_rectangle xh yh xl yl tile s0 t0 dsdx_texels dtdy_texels =
    (rc_pack 0x24 (rc_corners (rc_px xl) (rc_px yl) (ucast tile) (rc_px xh) (rc_px yh)),
     push_bit 48 (ucast (rc_tex s0)) OR push_bit 32 (ucast (rc_tex t0))
     OR push_bit 16 (ucast (rc_slope dsdx_texels)) OR ucast (rc_slope dtdy_texels))"

definition rc_sync_full :: u64 where "rc_sync_full = rc_pack 0x29 0"
definition rc_sync_pipe :: u64 where "rc_sync_pipe = rc_pack 0x27 0"
definition rc_sync_load :: u64 where "rc_sync_load = rc_pack 0x26 0"
definition rc_noop :: u64 where "rc_noop = rc_pack 0x00 0"

definition rc_byte :: "u64 \<Rightarrow> nat \<Rightarrow> u8" where
  "rc_byte cmd i = ucast (drop_bit (56 - 8 * i) cmd AND 0xFF)"

definition rc_store_be64 :: "u32 \<Rightarrow> u64 \<Rightarrow> u8 list \<Rightarrow> u8 list" where
  "rc_store_be64 offset cmd mem =
    (let mem1 = (if unat (offset + 8) > length mem
                 then mem @ replicate (unat (offset + 8) - length mem) 0 else mem)
     in fold (\<lambda>i. vec_wr (unat (offset + of_nat i)) (rc_byte cmd i)) [0..<8] mem1)"

definition rc_store_be64_rdram :: "u32 \<Rightarrow> u64 \<Rightarrow> u8 list \<Rightarrow> u8 list" where
  "rc_store_be64_rdram offset cmd rdram =
    fold (\<lambda>i mem. if unat (offset + of_nat i) < length mem
                  then vec_wr (unat (offset + of_nat i)) (rc_byte cmd i) mem else mem) [0..<8] rdram"

section \<open>Fields\<close>

lemma rc_masks:
  "(0x3F :: u64) = mask 6" "(0x00FFFFFFFFFFFFFF :: u64) = mask 56" "(0xFFF :: u64) = mask 12"
  "(0x03FFFFFF :: u64) = mask 26" "(0x3FF :: u64) = mask 10" "(0x1FF :: u64) = mask 9"
  "(7 :: u64) = mask 3" "(3 :: u64) = mask 2" "(0xFFFFFFFF :: u64) = mask 32" "(0x3F :: u32) = mask 6"
  "(0xFFF :: u32) = mask 12" "(7 :: u8) = mask 3" "(3 :: u8) = mask 2" "(0xFFFF :: u64) = mask 16"
  "(0xFF :: u64) = mask 8"
  by (simp_all add: mask_eq_exp_minus_1)

lemma opcode_pack: "rdp_opcode (rc_pack opc payload) = opc AND 0x3F"
  unfolding rdp_opcode_def fld_def rc_pack_def rc_masks
  by (rule bit_word_eqI) (auto simp: bit_simps)

lemma corner_fields:
  "fld (rc_pack opc (rc_corners a b t c d)) 44 0xFFF = a AND 0xFFF"
  "fld (rc_pack opc (rc_corners a b t c d)) 32 0xFFF = b AND 0xFFF"
  "fld (rc_pack opc (rc_corners a b t c d)) 24 7 = ucast (t AND 7)"
  "fld (rc_pack opc (rc_corners a b t c d)) 12 0xFFF = c AND 0xFFF"
  "fld (rc_pack opc (rc_corners a b t c d)) 0 0xFFF = d AND 0xFFF"
  unfolding fld_def rc_pack_def rc_corners_def rc_masks
  by (rule bit_word_eqI; auto simp: bit_simps)+


lemma image_fields:
  "fld (rc_pack opc (rc_image a w sz fmt)) 0 0x03FFFFFF = a AND 0x03FFFFFF"
  "ucast (drop_bit 51 (rc_pack opc (rc_image a w sz fmt)) AND 3) = sz AND 3"
  "ucast (drop_bit 53 (rc_pack opc (rc_image a w sz fmt)) AND 7) = fmt AND 7"
  "ucast ((drop_bit 32 (rc_pack opc (rc_image a w sz fmt)) AND 0x3FF) :: u64)
    = (if w > 0 then w - 1 else 0) AND (0x3FF :: u32)"
proof -
  have m: "(0x03FFFFFF :: u32) = mask 26" "(0x3FF :: u32) = mask 10" by (simp_all add: mask_eq_exp_minus_1)
  define v where "v = (if w > 0 then w - 1 else 0)"
  show "fld (rc_pack opc (rc_image a w sz fmt)) 0 0x03FFFFFF = a AND 0x03FFFFFF"
    "ucast (drop_bit 51 (rc_pack opc (rc_image a w sz fmt)) AND 3) = sz AND 3"
    "ucast (drop_bit 53 (rc_pack opc (rc_image a w sz fmt)) AND 7) = fmt AND 7"
    "ucast ((drop_bit 32 (rc_pack opc (rc_image a w sz fmt)) AND 0x3FF) :: u64)
      = (if w > 0 then w - 1 else 0) AND (0x3FF :: u32)"
    unfolding fld_def rc_pack_def rc_image_def Let_def v_def [symmetric] rc_masks m
    by (rule bit_word_eqI; auto simp: bit_simps)+
qed

lemma colour_fields:
  "fld (rc_pack opc (ucast color)) 0 0xFFFFFFFF = (color :: u32)"
  unfolding fld_def rc_pack_def rc_masks by (rule bit_word_eqI; auto simp: bit_simps)

definition tile_payload :: "u8 \<Rightarrow> u8 \<Rightarrow> u16 \<Rightarrow> u16 \<Rightarrow> u8 \<Rightarrow> u64" where
  "tile_payload fmt sz line tmem tile =
    push_bit 53 (ucast (fmt AND 7)) OR push_bit 51 (ucast (sz AND 3))
     OR push_bit 41 (ucast line AND 0x1FF) OR push_bit 32 (ucast tmem AND 0x1FF)
     OR push_bit 24 (ucast tile AND 7)"

lemma tile_fields:
  "fld (rc_pack opc (tile_payload fmt sz line tmem tile)) 24 7 = ucast (tile AND 7)"
  "ucast (drop_bit 53 (rc_pack opc (tile_payload fmt sz line tmem tile)) AND 7) = fmt AND 7"
  "ucast (drop_bit 51 (rc_pack opc (tile_payload fmt sz line tmem tile)) AND 3) = sz AND 3"
  "ucast (drop_bit 41 (rc_pack opc (tile_payload fmt sz line tmem tile)) AND 0x1FF) = line AND 0x1FF"
  "ucast (drop_bit 32 (rc_pack opc (tile_payload fmt sz line tmem tile)) AND 0x1FF) = tmem AND 0x1FF"
  "\<And>k. k < 20 \<Longrightarrow> \<not> bit (rc_pack opc (tile_payload fmt sz line tmem tile)) k"
  "drop_bit 20 (rc_pack opc (tile_payload fmt sz line tmem tile)) AND 0xF = 0"
proof -
  have m: "(0x1FF :: u16) = mask 9" "(0xF :: u64) = mask 4" by (simp_all add: mask_eq_exp_minus_1)
  show "fld (rc_pack opc (tile_payload fmt sz line tmem tile)) 24 7 = ucast (tile AND 7)"
    "ucast (drop_bit 53 (rc_pack opc (tile_payload fmt sz line tmem tile)) AND 7) = fmt AND 7"
    "ucast (drop_bit 51 (rc_pack opc (tile_payload fmt sz line tmem tile)) AND 3) = sz AND 3"
    "ucast (drop_bit 41 (rc_pack opc (tile_payload fmt sz line tmem tile)) AND 0x1FF) = line AND 0x1FF"
    "ucast (drop_bit 32 (rc_pack opc (tile_payload fmt sz line tmem tile)) AND 0x1FF) = tmem AND 0x1FF"
    "drop_bit 20 (rc_pack opc (tile_payload fmt sz line tmem tile)) AND 0xF = 0"
    unfolding fld_def rc_pack_def tile_payload_def rc_masks m
    by (rule bit_word_eqI; auto simp: bit_simps)+
  show "\<And>k. k < 20 \<Longrightarrow> \<not> bit (rc_pack opc (tile_payload fmt sz line tmem tile)) k"
    unfolding rc_pack_def tile_payload_def rc_masks by (auto simp: bit_simps)
qed

text \<open>Whole pixels survive the 10.2 format.\<close>

lemma px_field:
  assumes "0 \<le> v" "v < 1024"
  shows "rc_px v AND 0xFFF = rc_px v" "fx10_2_floor (rc_px v) = v" "rc_px v AND 3 = 0"
    "unat (rc_px v) = 4 * nat v" "drop_bit 2 (rc_px v) = word_of_int v"
proof -
  have u: "unat (word_of_int v :: u32) = nat v" using assms by (simp add: unsigned_of_int take_bit_int_eq_self)
  have p: "unat (rc_px v) = nat v * 4"
    unfolding rc_px_def push_bit_eq_mult using assms u by (simp add: unat_word_ariths)
  then show "unat (rc_px v) = 4 * nat v" by simp
  show "rc_px v AND 0xFFF = rc_px v"
    unfolding rc_masks by (rule word_mask_self) (use p assms in simp)
  have "unat (drop_bit 2 (rc_px v)) = nat v" by (simp add: drop_bit_eq_div unat_div_distrib p)
  then show "fx10_2_floor (rc_px v) = v" "drop_bit 2 (rc_px v) = word_of_int v"
    using assms u by (simp_all add: fx10_2_floor_def word_unat_eq_iff)
  have three: "(3 :: u32) = mask 2" by (simp add: mask_eq_exp_minus_1)
  show "rc_px v AND 3 = 0"
    unfolding rc_px_def three take_bit_eq_mask [symmetric] by (simp add: take_bit_push_bit)
qed

section \<open>What the encoded commands do\<close>

definition pixel_range :: "int \<Rightarrow> bool" where "pixel_range v \<longleftrightarrow> 0 \<le> v \<and> v < 1024"

lemmas px_range = px_field [OF conjunct1 conjunct2, OF pixel_range_def [THEN iffD1] pixel_range_def [THEN iffD1]]

lemma rectangle_bounds:
  assumes "pixel_range xh" "pixel_range yh" "pixel_range xl" "pixel_range yl" "xh \<le> xl" "yh \<le> yl"
  shows "rect_bounds (rc_pack opc (rc_corners (rc_px xl) (rc_px yl) t (rc_px xh) (rc_px yh))) = (xh, yh, xl, yl)"
  using assms by (simp add: rect_bounds_def Let_def corner_fields px_range)

lemma ucast_succ: "ucast (x + 1 :: u64) = (ucast x + 1 :: u32)"
proof -
  have "(uint x + 1) mod 2 ^ 64 mod 2 ^ 32 = (uint x mod 2 ^ 32 + 1) mod 2 ^ 32"
    by (simp add: mod_mod_cancel mod_simps)
  then show ?thesis
    by (simp add: word_uint_eq_iff uint_word_ariths unsigned_ucast_eq take_bit_eq_mod)
qed

lemma image_command:
  assumes "0 < w" "w \<le> 1024"
  shows "image_of_cmd (rc_pack opc (rc_image a w sz fmt)) =
    \<lparr>im_address = a AND 0x03FFFFF8, im_width = w, im_size = sz AND 3, im_format = fmt AND 7, im_valid = True\<rparr>"
proof -
  have m: "(0x3FF :: u32) = mask 10" by (simp add: mask_eq_exp_minus_1)
  have lt: "unat (w - 1) < 2 ^ 10" using assms by (simp add: word_less_nat_alt word_le_nat_alt unat_sub_if')
  have e: "ucast ((drop_bit 32 (rc_pack opc (rc_image a w sz fmt)) AND 0x3FF) :: u64) = w - 1"
    using assms word_mask_self [OF lt] by (simp add: image_fields m)
  have "ucast ((drop_bit 32 (rc_pack opc (rc_image a w sz fmt)) AND 0x3FF) + 1 :: u64) = (w :: u32)"
    unfolding ucast_succ e by simp
  then show ?thesis
    using assms by (simp add: image_of_cmd_def image_fields Let_def and.assoc)
qed


text \<open>The commands by their effect on the processor.\<close>

lemma encoded_state_commands:
  "0 < w \<Longrightarrow> w \<le> 1024 \<Longrightarrow> rdp_execute_command (rc_set_color_image a w sz fmt) m =
    upd_rdp (\<lambda>d. d\<lparr>d_color_image := \<lparr>im_address = a AND 0x03FFFFF8, im_width = w, im_size = sz AND 3,
      im_format = fmt AND 7, im_valid = True\<rparr>\<rparr>) (count_cmd m)"
  "0 < w \<Longrightarrow> w \<le> 1024 \<Longrightarrow> rdp_execute_command (rc_set_texture_image a w sz fmt) m =
    upd_rdp (\<lambda>d. d\<lparr>d_texture_image := \<lparr>im_address = a AND 0x03FFFFF8, im_width = w, im_size = sz AND 3,
      im_format = fmt AND 7, im_valid = True\<rparr>\<rparr>) (count_cmd m)"
  "pixel_range xh \<Longrightarrow> pixel_range yh \<Longrightarrow> pixel_range xl \<Longrightarrow> pixel_range yl \<Longrightarrow>
    rdp_execute_command (rc_set_scissor xh yh xl yl) m =
    upd_rdp (\<lambda>d. d\<lparr>d_scissor := \<lparr>sc_xh = xh, sc_yh = yh, sc_xl = xl, sc_yl = yl, sc_set = True\<rparr>\<rparr>) (count_cmd m)"
  "rdp_execute_command (rc_set_fill_color color) m = upd_rdp (\<lambda>d. d\<lparr>d_fill_color := color\<rparr>) (count_cmd m)"
  "rdp_execute_command (rc_set_blend_color color) m = upd_rdp (\<lambda>d. d\<lparr>d_blend_color := color\<rparr>) (count_cmd m)"
  "rdp_execute_command rc_sync_full m = cmd_sync_full (count_cmd m)"
  "rdp_execute_command rc_sync_pipe m = count_cmd m"
  "rdp_execute_command rc_sync_load m = count_cmd m"
  "rdp_execute_command rc_noop m = count_cmd m"
  by (simp_all add: rdp_execute_command_def Let_def opcode_pack upd_rdp_def rc_set_color_image_def
      cmd_set_color_image_def image_command rc_set_texture_image_def cmd_set_texture_image_def
      rc_set_scissor_def cmd_set_scissor_def corner_fields px_range rc_set_fill_color_def
      cmd_set_fill_color_def colour_fields rc_set_blend_color_def cmd_set_blend_color_def
      rc_sync_full_def rc_sync_pipe_def rc_sync_load_def rc_noop_def)

lemma encoded_fill_rectangle:
  "rdp_execute_command (rc_fill_rectangle xh yh xl yl) m = cmd_fill_rectangle (rc_fill_rectangle xh yh xl yl) (count_cmd m)"
  by (simp add: rdp_execute_command_def Let_def opcode_pack rc_fill_rectangle_def)


section \<open>A program of commands\<close>

text \<open>The list the test programs build: a 16-bit colour image of the given size, the scissor
  around it, fill mode, a colour, one rectangle, and the synchronisation that raises the
  interrupt.\<close>

definition rectangle_program :: "u32 \<Rightarrow> nat \<Rightarrow> nat \<Rightarrow> u16 \<Rightarrow> int \<times> int \<times> int \<times> int \<Rightarrow> u64 list" where
  "rectangle_program addr w h pix r =
    (case r of (xh, yh, xl, yl) \<Rightarrow>
      [rc_set_color_image addr (of_nat w) 2 0, rc_set_scissor 0 0 (int w) (int h), rc_set_other_modes_fill,
       rc_set_fill_color (rc_fill_color_16 pix), rc_fill_rectangle xh yh xl yl, rc_sync_full])"

lemma fill_colour_bytes:
  "fill_byte (rc_fill_color_16 pix) i = (if even i then byte_of 1 pix else byte_of 0 pix)"
proof -
  have "byte_of 0 (rc_fill_color_16 pix) = byte_of 0 pix" "byte_of 1 (rc_fill_color_16 pix) = byte_of 1 pix"
    "byte_of 2 (rc_fill_color_16 pix) = byte_of 0 pix" "byte_of 3 (rc_fill_color_16 pix) = byte_of 1 pix"
    unfolding byte_of_def rc_fill_color_16_def by (rule bit_word_eqI; auto simp: bit_simps)+
  moreover have "i mod 4 = 0 \<or> i mod 4 = 1 \<or> i mod 4 = 2 \<or> i mod 4 = 3" by presburger
  moreover have "even i \<longleftrightarrow> even (i mod 4)" by presburger
  ultimately show ?thesis unfolding fill_byte_def by auto
qed

text \<open>The registers the program leaves for the rectangle.\<close>

definition fill_setup :: "u32 \<Rightarrow> nat \<Rightarrow> nat \<Rightarrow> u16 \<Rightarrow> rdp \<Rightarrow> bool" where
  "fill_setup addr w h pix d \<longleftrightarrow>
    d_color_image d = \<lparr>im_address = addr, im_width = of_nat w, im_size = 2, im_format = 0, im_valid = True\<rparr>
    \<and> d_scissor d = \<lparr>sc_xh = 0, sc_yh = 0, sc_xl = int w, sc_yl = int h, sc_set = True\<rparr>
    \<and> d_fill_color d = rc_fill_color_16 pix"

lemma setup_pixel_bytes:
  assumes "fill_setup addr w h pix d" "w < 1024" "h < 1024" "len < 2 ^ 32"
    and "unat addr + 2 * w * h \<le> len"
  shows "pixel_bytes d len x y =
    (if 0 \<le> x \<and> x < int w \<and> 0 \<le> y \<and> y < int h
     then {unat addr + 2 * nat (y * int w + x)..<unat addr + 2 * nat (y * int w + x) + 2} else {})"
proof (cases "0 \<le> x \<and> x < int w \<and> 0 \<le> y \<and> y < int h")
  case True
  then obtain i j where ij: "x = int i" "y = int j" "i < w" "j < h"
    by (metis nonneg_int_cases of_nat_less_iff)
  define n where "n = j * w + i"
  have "(j + 1) * w \<le> h * w" using ij(4) by (intro mult_le_mono1) simp
  then have n: "n + 1 \<le> h * w" using ij(3) by (simp add: n_def)
  then have le: "unat addr + 2 * n + 2 \<le> len" using assms(5) by (simp add: mult.commute)
  have e: "pixel_addr (d_color_image d) 2 x y = of_nat (unat addr + 2 * n)"
    using assms(1) by (simp add: fill_setup_def pixel_addr_def ij n_def algebra_simps)
  have a: "unat (pixel_addr (d_color_image d) 2 x y) = unat addr + 2 * n"
    unfolding e unat_of_nat using le assms(4) by simp
  have nx: "nat (y * int w + x) = n" by (simp add: ij n_def nat_int_add [symmetric] del: of_nat_add)
  have "\<not> (of_nat w :: u32) \<le> of_nat i"
    using ij(3) assms(2) by (simp add: word_le_nat_alt unat_of_nat)
  then have "clip_point x y d"
    using assms(1) ij(3,4) by (simp add: clip_point_def fill_setup_def ij(1,2))
  then show ?thesis
    using assms(1) True le by (simp add: pixel_bytes_def Let_def fill_bpp_def a nx) (simp add: fill_setup_def)
next
  case False
  then have "\<not> clip_point x y d" using assms(1) by (auto simp: clip_point_def fill_setup_def)
  then show ?thesis using False by (auto simp: pixel_bytes_def Let_def)
qed


lemma aligned_image_address:
  fixes addr :: u32
  assumes "addr AND 7 = 0" "unat addr < 2 ^ 26"
  shows "addr AND 0x03FFFFF8 = addr"
proof -
  have m: "(7 :: u32) = mask 3" "(0x03FFFFF8 :: u32) = push_bit 3 (mask 23)" by (simp_all add: mask_eq_exp_minus_1)
  have lo: "\<not> bit addr n" if "n < 3" for n
  proof -
    have "addr AND mask 3 = 0" unfolding m(1) [symmetric] by (rule assms(1))
    then have "bit (addr AND mask 3) n = bit (0 :: u32) n" by (simp only:)
    then show ?thesis using that by (simp add: bit_simps)
  qed
  have "addr AND mask 26 = addr" using assms(2) by (rule word_mask_self)
  then have hi: "\<not> bit addr n" if "26 \<le> n" for n
    using that by (metis bit_and_iff bit_mask_iff leD)
  have rng: "3 \<le> n \<and> n < 26" if "bit addr n" for n using that lo hi by (metis not_less)
  show ?thesis
    unfolding m by (rule bit_word_eqI) (auto simp: bit_simps dest: rng)
qed

lemma rectangle_program_setup:
  assumes "0 < w" "w < 1024" "0 < h" "h < 1024" "addr AND 7 = 0" "unat addr < 2 ^ 26"
    and "pixel_range xh" "pixel_range yh" "pixel_range xl" "pixel_range yl"
  obtains m1 where "fill_setup addr w h pix (m_rdp m1)" "m_rdram m1 = m_rdram m"
    "fold rdp_execute_command (rectangle_program addr w h pix (xh, yh, xl, yl)) m
      = cmd_sync_full (count_cmd (cmd_fill_rectangle (rc_fill_rectangle xh yh xl yl) m1))"
proof -
  define m1 where "m1 = count_cmd (fold rdp_execute_command
    [rc_set_color_image addr (of_nat w) 2 0, rc_set_scissor 0 0 (int w) (int h), rc_set_other_modes_fill,
     rc_set_fill_color (rc_fill_color_16 pix)] m)"
  have w: "0 < (of_nat w :: u32)" "(of_nat w :: u32) \<le> 1024"
    using assms(1,2) by (simp_all add: word_less_nat_alt word_le_nat_alt unat_of_nat)
  have p: "pixel_range 0" "pixel_range (int w)" "pixel_range (int h)" using assms by (simp_all add: pixel_range_def)
  have modes: "rdp_execute_command rc_set_other_modes_fill n
      = upd_rdp (\<lambda>d. d\<lparr>d_other_modes := rc_set_other_modes_fill\<rparr>) (count_cmd n)" for n
    by (simp add: rdp_execute_command_def Let_def opcode_pack rc_set_other_modes_fill_def cmd_set_other_modes_def upd_rdp_def)
  note st = encoded_state_commands(1) [OF w] encoded_state_commands(3) [OF p(1) p(1) p(2) p(3)]
    encoded_state_commands(4,6) modes
  have "fill_setup addr w h pix (m_rdp m1)" "m_rdram m1 = m_rdram m"
    by (simp_all add: m1_def st fill_setup_def upd_rdp_def count_cmd_def aligned_image_address [OF assms(5,6)])
  moreover have "fold rdp_execute_command (rectangle_program addr w h pix (xh, yh, xl, yl)) m
      = cmd_sync_full (count_cmd (cmd_fill_rectangle (rc_fill_rectangle xh yh xl yl) m1))"
    by (simp add: rectangle_program_def m1_def encoded_fill_rectangle encoded_state_commands(6))
  ultimately show thesis by (rule that)
qed

text \<open>The byte of the picture a rectangle leaves at an address.\<close>

definition in_rectangle :: "u32 \<Rightarrow> nat \<Rightarrow> nat \<Rightarrow> int \<times> int \<times> int \<times> int \<Rightarrow> nat \<Rightarrow> bool" where
  "in_rectangle addr w h r i \<longleftrightarrow>
    (case r of (xh, yh, xl, yl) \<Rightarrow>
      \<exists>x\<in>{xh..<xl}. \<exists>y\<in>{yh..<yl}. x < int w \<and> y < int h
        \<and> i \<in> {unat addr + 2 * nat (y * int w + x)..<unat addr + 2 * nat (y * int w + x) + 2})"





section \<open>Storing and fetching a command\<close>

lemma rc_byte_bytes: "k < 8 \<Longrightarrow> rc_byte cmd k = byte_of (7 - k) cmd"
proof -
  assume "k < 8"
  moreover have "56 - 8 * k = 8 * (7 - k)" by simp
  ultimately show "rc_byte cmd k = byte_of (7 - k) cmd"
    unfolding rc_byte_def byte_of_def rc_masks by (intro bit_word_eqI) (simp add: bit_simps)
qed

lemma stored_bytes:
  assumes "unat a + 8 \<le> length mem" "unat a + 8 < 2 ^ 32" "k < 8"
  shows "length (rc_store_be64_rdram a cmd mem) = length mem"
    "rc_store_be64_rdram a cmd mem ! (unat a + k) = byte_of (7 - k) cmd"
proof -
  have u: "unat (a + of_nat i) = unat a + i" if "i < 8" for i
    using that assms(2) by (simp add: unat_word_ariths unat_of_nat)
  let ?f = "\<lambda>i m. if i < 8 \<and> unat (a + of_nat i) < length m
    then vec_wr (unat (a + of_nat i)) (rc_byte cmd i) m else m"
  have e: "rc_store_be64_rdram a cmd mem = fold ?f [0..<8] mem"
    unfolding rc_store_be64_rdram_def by (intro fold_cong) auto
  have "length (fold ?f [0..<8] mem) = length mem \<and> (\<forall>j. fold ?f [0..<8] mem ! j =
      (if \<exists>i\<in>set [0..<8]. j \<in> (if i < 8 then {unat a + i} else {}) then rc_byte cmd (j - unat a) else mem ! j))"
    by (rule paint_fold) (use assms(1) u in \<open>auto simp: vec_wr_def nth_list_update\<close>)
  then show "length (rc_store_be64_rdram a cmd mem) = length mem"
    "rc_store_be64_rdram a cmd mem ! (unat a + k) = byte_of (7 - k) cmd"
    unfolding e using assms(3) by (auto simp: rc_byte_bytes)
qed

text \<open>A command stored in memory at an address the command registers can hold is the command the
  display processor fetches there.\<close>

theorem stored_command_reads_back:
  assumes "a AND 7 = 0" "unat a + 8 \<le> length (m_rdram m)" "length (m_rdram m) \<le> 0x01000000"
  shows "fst (read_cmd64 a False (m\<lparr>m_rdram := rc_store_be64_rdram a cmd (m_rdram m)\<rparr>)) = cmd"
proof -
  let ?m = "m\<lparr>m_rdram := rc_store_be64_rdram a cmd (m_rdram m)\<rparr>"
  have lt: "unat a + 8 < 2 ^ 32" using assms by simp
  note st = stored_bytes [OF assms(2) lt, of _ cmd]
  have len: "length (m_rdram ?m) = length (m_rdram m)" using st(1) [of 0] by simp
  have mk: "(0x00FFFFFF :: u32) = mask 24" by (simp add: mask_eq_exp_minus_1)
  have rd: "fst (read_cmd_word q False n) = ram32 (m_rdram n) (unat q)"
    "m_rdram (snd (read_cmd_word q False n)) = m_rdram n"
    if "unat q + 4 \<le> length (m_rdram n)" "length (m_rdram n) \<le> 0x01000000" for q n
  proof -
    have q: "q AND 0x00FFFFFF = q" unfolding mk by (rule word_mask_self) (use that in simp)
    have "length (m_rdram n) \<le> 0x03F00000" using that(2) by simp
    note r = ram_read(2,3) [OF this that(1)] ram_reads(2) [of "dbg_read q 4 n", simplified, OF this that(1)]
    show "fst (read_cmd_word q False n) = ram32 (m_rdram n) (unat q)"
      using r by (simp add: read_cmd_word_def q bus_read32_def Let_def)
    show "m_rdram (snd (read_cmd_word q False n)) = m_rdram n"
      by (simp add: read_cmd_word_def)
  qed
  have a4: "unat (a + 4) = unat a + 4" using lt by (simp add: unat_word_ariths)
  have ix: "unat a + 4 + 1 = unat a + 5" "unat a + 4 + 2 = unat a + 6" "unat a + 4 + 3 = unat a + 7" by simp_all
  have sx: "(7 :: nat) - 6 = 1" "(7 :: nat) - 5 = 2" by simp_all
  have "fst (read_cmd64 a False ?m) = push_bit 32 (ucast (ram32 (m_rdram ?m) (unat a)))
      OR ucast (ram32 (m_rdram ?m) (unat a + 4))"
    using rd [of a ?m] rd(1) [of "a + 4" "snd (read_cmd_word a False ?m)"] len assms(2,3)
    by (simp add: read_cmd64_def split_beta a4)
  also have "\<dots> = cmd"
    using st(2) [of 0] st(2) [of 1] st(2) [of 2] st(2) [of 3] st(2) [of 4] st(2) [of 5] st(2) [of 6, unfolded sx] st(2) [of 7]
      be64_bytes [of cmd]
    by (simp add: ram32_def be64_def ix del: One_nat_def add_2_eq_Suc')
  finally show ?thesis .
qed

theorem stored_command_reads_back_witness:
  "fst (read_cmd64 8 False ((machine_new (replicate 16 0))\<lparr>m_rdram := rc_store_be64_rdram 8 rc_sync_full (replicate 16 0)\<rparr>))
    = rc_sync_full"
  using stored_command_reads_back [of 8 "machine_new (replicate 16 0)" rc_sync_full] by simp

end
