(* ===== verification/Cpu_Insn.thy ===== *)
theory Cpu_Insn
  imports Cpu_Exec
begin

unbundle bit_operations_syntax

text \<open>
  The instruction encoders (\<open>cpu/insn.hpp\<close>), against the executor of \<open>Cpu_Exec\<close>: the functions of
  the namespace \<open>insn\<close> have the prefix \<open>insn_\<close> here, its opcode constants the prefix \<open>OP_\<close> unless
  they have one already. The property is stated over an assembly language whose meaning is
  written in terms of the operands, not of the instruction word.
\<close>

section \<open>Opcodes and encoders\<close>

abbreviation (input) OP_SPECIAL :: u32 where "OP_SPECIAL \<equiv> 0x00"
abbreviation (input) OP_REGIMM :: u32 where "OP_REGIMM \<equiv> 0x01"
abbreviation (input) OP_J :: u32 where "OP_J \<equiv> 0x02"
abbreviation (input) OP_JAL :: u32 where "OP_JAL \<equiv> 0x03"
abbreviation (input) OP_BEQ :: u32 where "OP_BEQ \<equiv> 0x04"
abbreviation (input) OP_BNE :: u32 where "OP_BNE \<equiv> 0x05"
abbreviation (input) OP_BLEZ :: u32 where "OP_BLEZ \<equiv> 0x06"
abbreviation (input) OP_BGTZ :: u32 where "OP_BGTZ \<equiv> 0x07"
abbreviation (input) OP_ADDI :: u32 where "OP_ADDI \<equiv> 0x08"
abbreviation (input) OP_ADDIU :: u32 where "OP_ADDIU \<equiv> 0x09"
abbreviation (input) OP_SLTI :: u32 where "OP_SLTI \<equiv> 0x0A"
abbreviation (input) OP_SLTIU :: u32 where "OP_SLTIU \<equiv> 0x0B"
abbreviation (input) OP_ANDI :: u32 where "OP_ANDI \<equiv> 0x0C"
abbreviation (input) OP_ORI :: u32 where "OP_ORI \<equiv> 0x0D"
abbreviation (input) OP_XORI :: u32 where "OP_XORI \<equiv> 0x0E"
abbreviation (input) OP_LUI :: u32 where "OP_LUI \<equiv> 0x0F"
abbreviation (input) OP_COP0 :: u32 where "OP_COP0 \<equiv> 0x10"
abbreviation (input) OP_COP1 :: u32 where "OP_COP1 \<equiv> 0x11"
abbreviation (input) OP_BEQL :: u32 where "OP_BEQL \<equiv> 0x14"
abbreviation (input) OP_BNEL :: u32 where "OP_BNEL \<equiv> 0x15"
abbreviation (input) OP_DADDIU :: u32 where "OP_DADDIU \<equiv> 0x19"
abbreviation (input) OP_LB :: u32 where "OP_LB \<equiv> 0x20"
abbreviation (input) OP_LH :: u32 where "OP_LH \<equiv> 0x21"
abbreviation (input) OP_LW :: u32 where "OP_LW \<equiv> 0x23"
abbreviation (input) OP_LBU :: u32 where "OP_LBU \<equiv> 0x24"
abbreviation (input) OP_LHU :: u32 where "OP_LHU \<equiv> 0x25"
abbreviation (input) OP_LWU :: u32 where "OP_LWU \<equiv> 0x27"
abbreviation (input) OP_SB :: u32 where "OP_SB \<equiv> 0x28"
abbreviation (input) OP_SH :: u32 where "OP_SH \<equiv> 0x29"
abbreviation (input) OP_SW :: u32 where "OP_SW \<equiv> 0x2B"
abbreviation (input) OP_LL :: u32 where "OP_LL \<equiv> 0x30"
abbreviation (input) OP_LWC1 :: u32 where "OP_LWC1 \<equiv> 0x31"
abbreviation (input) OP_LLD :: u32 where "OP_LLD \<equiv> 0x34"
abbreviation (input) OP_LDC1 :: u32 where "OP_LDC1 \<equiv> 0x35"
abbreviation (input) OP_LD :: u32 where "OP_LD \<equiv> 0x37"
abbreviation (input) OP_SC :: u32 where "OP_SC \<equiv> 0x38"
abbreviation (input) OP_SWC1 :: u32 where "OP_SWC1 \<equiv> 0x39"
abbreviation (input) OP_SCD :: u32 where "OP_SCD \<equiv> 0x3C"
abbreviation (input) OP_SDC1 :: u32 where "OP_SDC1 \<equiv> 0x3D"
abbreviation (input) OP_SD :: u32 where "OP_SD \<equiv> 0x3F"
abbreviation (input) FN_SLL :: u32 where "FN_SLL \<equiv> 0x00"
abbreviation (input) FN_SRL :: u32 where "FN_SRL \<equiv> 0x02"
abbreviation (input) FN_SRA :: u32 where "FN_SRA \<equiv> 0x03"
abbreviation (input) FN_SLLV :: u32 where "FN_SLLV \<equiv> 0x04"
abbreviation (input) FN_SRLV :: u32 where "FN_SRLV \<equiv> 0x06"
abbreviation (input) FN_SRAV :: u32 where "FN_SRAV \<equiv> 0x07"
abbreviation (input) FN_JR :: u32 where "FN_JR \<equiv> 0x08"
abbreviation (input) FN_JALR :: u32 where "FN_JALR \<equiv> 0x09"
abbreviation (input) FN_SYSCALL :: u32 where "FN_SYSCALL \<equiv> 0x0C"
abbreviation (input) FN_BREAK :: u32 where "FN_BREAK \<equiv> 0x0D"
abbreviation (input) FN_MFHI :: u32 where "FN_MFHI \<equiv> 0x10"
abbreviation (input) FN_MTHI :: u32 where "FN_MTHI \<equiv> 0x11"
abbreviation (input) FN_MFLO :: u32 where "FN_MFLO \<equiv> 0x12"
abbreviation (input) FN_MTLO :: u32 where "FN_MTLO \<equiv> 0x13"
abbreviation (input) FN_MULT :: u32 where "FN_MULT \<equiv> 0x18"
abbreviation (input) FN_MULTU :: u32 where "FN_MULTU \<equiv> 0x19"
abbreviation (input) FN_DIV :: u32 where "FN_DIV \<equiv> 0x1A"
abbreviation (input) FN_DIVU :: u32 where "FN_DIVU \<equiv> 0x1B"
abbreviation (input) FN_DMULT :: u32 where "FN_DMULT \<equiv> 0x1C"
abbreviation (input) FN_ADD :: u32 where "FN_ADD \<equiv> 0x20"
abbreviation (input) FN_ADDU :: u32 where "FN_ADDU \<equiv> 0x21"
abbreviation (input) FN_SUB :: u32 where "FN_SUB \<equiv> 0x22"
abbreviation (input) FN_SUBU :: u32 where "FN_SUBU \<equiv> 0x23"
abbreviation (input) FN_AND :: u32 where "FN_AND \<equiv> 0x24"
abbreviation (input) FN_OR :: u32 where "FN_OR \<equiv> 0x25"
abbreviation (input) FN_XOR :: u32 where "FN_XOR \<equiv> 0x26"
abbreviation (input) FN_NOR :: u32 where "FN_NOR \<equiv> 0x27"
abbreviation (input) FN_SLT :: u32 where "FN_SLT \<equiv> 0x2A"
abbreviation (input) FN_SLTU :: u32 where "FN_SLTU \<equiv> 0x2B"
abbreviation (input) FN_DADD :: u32 where "FN_DADD \<equiv> 0x2C"
abbreviation (input) FN_DSUB :: u32 where "FN_DSUB \<equiv> 0x2E"
abbreviation (input) FN_DSLL :: u32 where "FN_DSLL \<equiv> 0x38"
abbreviation (input) FN_DSLL32 :: u32 where "FN_DSLL32 \<equiv> 0x3C"
abbreviation (input) RT_BLTZ :: u32 where "RT_BLTZ \<equiv> 0x00"
abbreviation (input) RT_BGEZ :: u32 where "RT_BGEZ \<equiv> 0x01"
abbreviation (input) RT_BLTZAL :: u32 where "RT_BLTZAL \<equiv> 0x10"
abbreviation (input) RT_BGEZAL :: u32 where "RT_BGEZAL \<equiv> 0x11"
abbreviation (input) FMT_S :: u32 where "FMT_S \<equiv> 0x10"
abbreviation (input) FMT_D :: u32 where "FMT_D \<equiv> 0x11"
abbreviation (input) FMT_W :: u32 where "FMT_W \<equiv> 0x14"
abbreviation (input) FMT_L :: u32 where "FMT_L \<equiv> 0x15"

definition insn_rtype :: "u32 \<Rightarrow> u32 \<Rightarrow> u32 \<Rightarrow> u32 \<Rightarrow> u32 \<Rightarrow> u32" where
  "insn_rtype fn rd rs rt sa =
    push_bit 26 OP_SPECIAL OR push_bit 21 rs OR push_bit 16 rt OR push_bit 11 rd OR push_bit 6 sa OR fn"

definition insn_itype :: "u32 \<Rightarrow> u32 \<Rightarrow> u32 \<Rightarrow> u16 \<Rightarrow> u32" where
  "insn_itype opc rt rs imm = push_bit 26 opc OR push_bit 21 rs OR push_bit 16 rt OR ucast imm"

definition insn_itype_s :: "u32 \<Rightarrow> u32 \<Rightarrow> u32 \<Rightarrow> u16 \<Rightarrow> u32" where
  "insn_itype_s opc rt rs imm = insn_itype opc rt rs imm"

definition insn_jtype :: "u32 \<Rightarrow> u32 \<Rightarrow> u32" where
  "insn_jtype opc target = push_bit 26 opc OR (target AND 0x03FFFFFF)"

definition insn_regimm :: "u32 \<Rightarrow> u32 \<Rightarrow> u16 \<Rightarrow> u32" where
  "insn_regimm rt_code rs imm =
    push_bit 26 OP_REGIMM OR push_bit 21 rs OR push_bit 16 rt_code OR ucast imm"

definition insn_nop :: u32 where "insn_nop = 0"

definition insn_sll :: "u32 \<Rightarrow> u32 \<Rightarrow> u32 \<Rightarrow> u32" where
  "insn_sll rd rt sa = insn_rtype FN_SLL rd 0 rt sa"

definition insn_srl :: "u32 \<Rightarrow> u32 \<Rightarrow> u32 \<Rightarrow> u32" where
  "insn_srl rd rt sa = insn_rtype FN_SRL rd 0 rt sa"

definition insn_sra :: "u32 \<Rightarrow> u32 \<Rightarrow> u32 \<Rightarrow> u32" where
  "insn_sra rd rt sa = insn_rtype FN_SRA rd 0 rt sa"

definition insn_sllv :: "u32 \<Rightarrow> u32 \<Rightarrow> u32 \<Rightarrow> u32" where
  "insn_sllv rd rt rs = insn_rtype FN_SLLV rd rs rt 0"

definition insn_jr :: "u32 \<Rightarrow> u32" where "insn_jr rs = insn_rtype FN_JR 0 rs 0 0"

definition insn_jalr :: "u32 \<Rightarrow> u32 \<Rightarrow> u32" where
  "insn_jalr rd rs = insn_rtype FN_JALR rd rs 0 0"

definition insn_syscall :: u32 where "insn_syscall = insn_rtype FN_SYSCALL 0 0 0 0"

definition insn_brk :: "u32 \<Rightarrow> u32" where
  "insn_brk code = insn_rtype FN_BREAK 0 0 0 0 OR push_bit 6 (code AND 0xFFFFF)"

definition insn_mfhi :: "u32 \<Rightarrow> u32" where "insn_mfhi rd = insn_rtype FN_MFHI rd 0 0 0"

definition insn_mflo :: "u32 \<Rightarrow> u32" where "insn_mflo rd = insn_rtype FN_MFLO rd 0 0 0"

definition insn_mult :: "u32 \<Rightarrow> u32 \<Rightarrow> u32" where
  "insn_mult rs rt = insn_rtype FN_MULT 0 rs rt 0"

definition insn_multu :: "u32 \<Rightarrow> u32 \<Rightarrow> u32" where
  "insn_multu rs rt = insn_rtype FN_MULTU 0 rs rt 0"

definition insn_div :: "u32 \<Rightarrow> u32 \<Rightarrow> u32" where
  "insn_div rs rt = insn_rtype FN_DIV 0 rs rt 0"

definition insn_divu :: "u32 \<Rightarrow> u32 \<Rightarrow> u32" where
  "insn_divu rs rt = insn_rtype FN_DIVU 0 rs rt 0"

definition insn_dmult :: "u32 \<Rightarrow> u32 \<Rightarrow> u32" where
  "insn_dmult rs rt = insn_rtype FN_DMULT 0 rs rt 0"

definition insn_add :: "u32 \<Rightarrow> u32 \<Rightarrow> u32 \<Rightarrow> u32" where
  "insn_add rd rs rt = insn_rtype FN_ADD rd rs rt 0"

definition insn_addu :: "u32 \<Rightarrow> u32 \<Rightarrow> u32 \<Rightarrow> u32" where
  "insn_addu rd rs rt = insn_rtype FN_ADDU rd rs rt 0"

definition insn_sub :: "u32 \<Rightarrow> u32 \<Rightarrow> u32 \<Rightarrow> u32" where
  "insn_sub rd rs rt = insn_rtype FN_SUB rd rs rt 0"

definition insn_subu :: "u32 \<Rightarrow> u32 \<Rightarrow> u32 \<Rightarrow> u32" where
  "insn_subu rd rs rt = insn_rtype FN_SUBU rd rs rt 0"

definition insn_dadd :: "u32 \<Rightarrow> u32 \<Rightarrow> u32 \<Rightarrow> u32" where
  "insn_dadd rd rs rt = insn_rtype FN_DADD rd rs rt 0"

definition insn_dsub :: "u32 \<Rightarrow> u32 \<Rightarrow> u32 \<Rightarrow> u32" where
  "insn_dsub rd rs rt = insn_rtype FN_DSUB rd rs rt 0"

definition insn_and :: "u32 \<Rightarrow> u32 \<Rightarrow> u32 \<Rightarrow> u32" where
  "insn_and rd rs rt = insn_rtype FN_AND rd rs rt 0"

definition insn_or :: "u32 \<Rightarrow> u32 \<Rightarrow> u32 \<Rightarrow> u32" where
  "insn_or rd rs rt = insn_rtype FN_OR rd rs rt 0"

definition insn_xor :: "u32 \<Rightarrow> u32 \<Rightarrow> u32 \<Rightarrow> u32" where
  "insn_xor rd rs rt = insn_rtype FN_XOR rd rs rt 0"

definition insn_nor :: "u32 \<Rightarrow> u32 \<Rightarrow> u32 \<Rightarrow> u32" where
  "insn_nor rd rs rt = insn_rtype FN_NOR rd rs rt 0"

definition insn_slt :: "u32 \<Rightarrow> u32 \<Rightarrow> u32 \<Rightarrow> u32" where
  "insn_slt rd rs rt = insn_rtype FN_SLT rd rs rt 0"

definition insn_sltu :: "u32 \<Rightarrow> u32 \<Rightarrow> u32 \<Rightarrow> u32" where
  "insn_sltu rd rs rt = insn_rtype FN_SLTU rd rs rt 0"

definition insn_addiu :: "u32 \<Rightarrow> u32 \<Rightarrow> u16 \<Rightarrow> u32" where
  "insn_addiu rt rs imm = insn_itype_s OP_ADDIU rt rs imm"

definition insn_addi :: "u32 \<Rightarrow> u32 \<Rightarrow> u16 \<Rightarrow> u32" where
  "insn_addi rt rs imm = insn_itype_s OP_ADDI rt rs imm"

definition insn_slti :: "u32 \<Rightarrow> u32 \<Rightarrow> u16 \<Rightarrow> u32" where
  "insn_slti rt rs imm = insn_itype_s OP_SLTI rt rs imm"

definition insn_sltiu :: "u32 \<Rightarrow> u32 \<Rightarrow> u16 \<Rightarrow> u32" where
  "insn_sltiu rt rs imm = insn_itype_s OP_SLTIU rt rs imm"

definition insn_andi :: "u32 \<Rightarrow> u32 \<Rightarrow> u16 \<Rightarrow> u32" where
  "insn_andi rt rs imm = insn_itype OP_ANDI rt rs imm"

definition insn_ori :: "u32 \<Rightarrow> u32 \<Rightarrow> u16 \<Rightarrow> u32" where
  "insn_ori rt rs imm = insn_itype OP_ORI rt rs imm"

definition insn_xori :: "u32 \<Rightarrow> u32 \<Rightarrow> u16 \<Rightarrow> u32" where
  "insn_xori rt rs imm = insn_itype OP_XORI rt rs imm"

definition insn_lui :: "u32 \<Rightarrow> u16 \<Rightarrow> u32" where
  "insn_lui rt imm = insn_itype OP_LUI rt 0 imm"

definition insn_lw :: "u32 \<Rightarrow> u32 \<Rightarrow> u16 \<Rightarrow> u32" where
  "insn_lw rt rs off = insn_itype_s OP_LW rt rs off"

definition insn_lh :: "u32 \<Rightarrow> u32 \<Rightarrow> u16 \<Rightarrow> u32" where
  "insn_lh rt rs off = insn_itype_s OP_LH rt rs off"

definition insn_lb :: "u32 \<Rightarrow> u32 \<Rightarrow> u16 \<Rightarrow> u32" where
  "insn_lb rt rs off = insn_itype_s OP_LB rt rs off"

definition insn_lbu :: "u32 \<Rightarrow> u32 \<Rightarrow> u16 \<Rightarrow> u32" where
  "insn_lbu rt rs off = insn_itype_s OP_LBU rt rs off"

definition insn_lhu :: "u32 \<Rightarrow> u32 \<Rightarrow> u16 \<Rightarrow> u32" where
  "insn_lhu rt rs off = insn_itype_s OP_LHU rt rs off"

definition insn_sw :: "u32 \<Rightarrow> u32 \<Rightarrow> u16 \<Rightarrow> u32" where
  "insn_sw rt rs off = insn_itype_s OP_SW rt rs off"

definition insn_sh :: "u32 \<Rightarrow> u32 \<Rightarrow> u16 \<Rightarrow> u32" where
  "insn_sh rt rs off = insn_itype_s OP_SH rt rs off"

definition insn_sb :: "u32 \<Rightarrow> u32 \<Rightarrow> u16 \<Rightarrow> u32" where
  "insn_sb rt rs off = insn_itype_s OP_SB rt rs off"

definition insn_ld :: "u32 \<Rightarrow> u32 \<Rightarrow> u16 \<Rightarrow> u32" where
  "insn_ld rt rs off = insn_itype_s OP_LD rt rs off"

definition insn_sd :: "u32 \<Rightarrow> u32 \<Rightarrow> u16 \<Rightarrow> u32" where
  "insn_sd rt rs off = insn_itype_s OP_SD rt rs off"

definition insn_ll :: "u32 \<Rightarrow> u32 \<Rightarrow> u16 \<Rightarrow> u32" where
  "insn_ll rt rs off = insn_itype_s OP_LL rt rs off"

definition insn_lld :: "u32 \<Rightarrow> u32 \<Rightarrow> u16 \<Rightarrow> u32" where
  "insn_lld rt rs off = insn_itype_s OP_LLD rt rs off"

definition insn_sc :: "u32 \<Rightarrow> u32 \<Rightarrow> u16 \<Rightarrow> u32" where
  "insn_sc rt rs off = insn_itype_s OP_SC rt rs off"

definition insn_scd :: "u32 \<Rightarrow> u32 \<Rightarrow> u16 \<Rightarrow> u32" where
  "insn_scd rt rs off = insn_itype_s OP_SCD rt rs off"

definition insn_beq :: "u32 \<Rightarrow> u32 \<Rightarrow> u16 \<Rightarrow> u32" where
  "insn_beq rs rt off = insn_itype_s OP_BEQ rt rs off"

definition insn_bne :: "u32 \<Rightarrow> u32 \<Rightarrow> u16 \<Rightarrow> u32" where
  "insn_bne rs rt off = insn_itype_s OP_BNE rt rs off"

definition insn_blez :: "u32 \<Rightarrow> u16 \<Rightarrow> u32" where
  "insn_blez rs off = insn_itype_s OP_BLEZ 0 rs off"

definition insn_bgtz :: "u32 \<Rightarrow> u16 \<Rightarrow> u32" where
  "insn_bgtz rs off = insn_itype_s OP_BGTZ 0 rs off"

definition insn_beql :: "u32 \<Rightarrow> u32 \<Rightarrow> u16 \<Rightarrow> u32" where
  "insn_beql rs rt off = insn_itype_s OP_BEQL rt rs off"

definition insn_bnel :: "u32 \<Rightarrow> u32 \<Rightarrow> u16 \<Rightarrow> u32" where
  "insn_bnel rs rt off = insn_itype_s OP_BNEL rt rs off"

definition insn_j :: "u32 \<Rightarrow> u32" where "insn_j addr = insn_jtype OP_J (drop_bit 2 addr)"

definition insn_jal :: "u32 \<Rightarrow> u32" where "insn_jal addr = insn_jtype OP_JAL (drop_bit 2 addr)"

definition insn_bltz :: "u32 \<Rightarrow> u16 \<Rightarrow> u32" where
  "insn_bltz rs off = insn_regimm RT_BLTZ rs off"

definition insn_bgez :: "u32 \<Rightarrow> u16 \<Rightarrow> u32" where
  "insn_bgez rs off = insn_regimm RT_BGEZ rs off"

definition insn_bgezal :: "u32 \<Rightarrow> u16 \<Rightarrow> u32" where
  "insn_bgezal rs off = insn_regimm RT_BGEZAL rs off"

definition insn_mfc0 :: "u32 \<Rightarrow> u32 \<Rightarrow> u32" where
  "insn_mfc0 rt rd = push_bit 26 OP_COP0 OR push_bit 21 0 OR push_bit 16 rt OR push_bit 11 rd"

definition insn_mtc0 :: "u32 \<Rightarrow> u32 \<Rightarrow> u32" where
  "insn_mtc0 rt rd = push_bit 26 OP_COP0 OR push_bit 21 4 OR push_bit 16 rt OR push_bit 11 rd"

definition insn_eret :: u32 where "insn_eret = push_bit 26 OP_COP0 OR push_bit 25 1 OR 0x18"

definition insn_tlbr :: u32 where "insn_tlbr = push_bit 26 OP_COP0 OR push_bit 21 0x10 OR 0x01"

definition insn_tlbwi :: u32 where "insn_tlbwi = push_bit 26 OP_COP0 OR push_bit 21 0x10 OR 0x02"

definition insn_tlbwr :: u32 where "insn_tlbwr = push_bit 26 OP_COP0 OR push_bit 21 0x10 OR 0x06"

definition insn_tlbp :: u32 where "insn_tlbp = push_bit 26 OP_COP0 OR push_bit 21 0x10 OR 0x08"

definition insn_cop1_transfer :: "u32 \<Rightarrow> u32 \<Rightarrow> u32 \<Rightarrow> u32" where
  "insn_cop1_transfer rs rt fs =
    push_bit 26 OP_COP1 OR push_bit 21 rs OR push_bit 16 rt OR push_bit 11 fs"

definition insn_mfc1 :: "u32 \<Rightarrow> u32 \<Rightarrow> u32" where
  "insn_mfc1 rt fs = insn_cop1_transfer 0x00 rt fs"

definition insn_dmfc1 :: "u32 \<Rightarrow> u32 \<Rightarrow> u32" where
  "insn_dmfc1 rt fs = insn_cop1_transfer 0x01 rt fs"

definition insn_cfc1 :: "u32 \<Rightarrow> u32 \<Rightarrow> u32" where
  "insn_cfc1 rt fcr = insn_cop1_transfer 0x02 rt fcr"

definition insn_mtc1 :: "u32 \<Rightarrow> u32 \<Rightarrow> u32" where
  "insn_mtc1 rt fs = insn_cop1_transfer 0x04 rt fs"

definition insn_dmtc1 :: "u32 \<Rightarrow> u32 \<Rightarrow> u32" where
  "insn_dmtc1 rt fs = insn_cop1_transfer 0x05 rt fs"

definition insn_ctc1 :: "u32 \<Rightarrow> u32 \<Rightarrow> u32" where
  "insn_ctc1 rt fcr = insn_cop1_transfer 0x06 rt fcr"

definition insn_bc1 :: "u32 \<Rightarrow> u16 \<Rightarrow> u32" where
  "insn_bc1 branch_code off =
    push_bit 26 OP_COP1 OR push_bit 21 0x08 OR push_bit 16 (branch_code AND 3) OR ucast off"

definition insn_bc1f :: "u16 \<Rightarrow> u32" where "insn_bc1f off = insn_bc1 0 off"

definition insn_bc1t :: "u16 \<Rightarrow> u32" where "insn_bc1t off = insn_bc1 1 off"

definition insn_bc1fl :: "u16 \<Rightarrow> u32" where "insn_bc1fl off = insn_bc1 2 off"

definition insn_bc1tl :: "u16 \<Rightarrow> u32" where "insn_bc1tl off = insn_bc1 3 off"

definition insn_cop1_fmt :: "u32 \<Rightarrow> u32 \<Rightarrow> u32 \<Rightarrow> u32 \<Rightarrow> u32 \<Rightarrow> u32" where
  "insn_cop1_fmt fmt fd fs ft fn =
    push_bit 26 OP_COP1 OR push_bit 21 fmt OR push_bit 16 ft OR push_bit 11 fs OR push_bit 6 fd OR fn"

definition insn_add_s :: "u32 \<Rightarrow> u32 \<Rightarrow> u32 \<Rightarrow> u32" where
  "insn_add_s fd fs ft = insn_cop1_fmt FMT_S fd fs ft 0x00"

definition insn_sub_s :: "u32 \<Rightarrow> u32 \<Rightarrow> u32 \<Rightarrow> u32" where
  "insn_sub_s fd fs ft = insn_cop1_fmt FMT_S fd fs ft 0x01"

definition insn_mul_s :: "u32 \<Rightarrow> u32 \<Rightarrow> u32 \<Rightarrow> u32" where
  "insn_mul_s fd fs ft = insn_cop1_fmt FMT_S fd fs ft 0x02"

definition insn_div_s :: "u32 \<Rightarrow> u32 \<Rightarrow> u32 \<Rightarrow> u32" where
  "insn_div_s fd fs ft = insn_cop1_fmt FMT_S fd fs ft 0x03"

definition insn_sqrt_s :: "u32 \<Rightarrow> u32 \<Rightarrow> u32" where
  "insn_sqrt_s fd fs = insn_cop1_fmt FMT_S fd fs 0 0x04"

definition insn_abs_s :: "u32 \<Rightarrow> u32 \<Rightarrow> u32" where
  "insn_abs_s fd fs = insn_cop1_fmt FMT_S fd fs 0 0x05"

definition insn_mov_s :: "u32 \<Rightarrow> u32 \<Rightarrow> u32" where
  "insn_mov_s fd fs = insn_cop1_fmt FMT_S fd fs 0 0x06"

definition insn_neg_s :: "u32 \<Rightarrow> u32 \<Rightarrow> u32" where
  "insn_neg_s fd fs = insn_cop1_fmt FMT_S fd fs 0 0x07"

definition insn_add_d :: "u32 \<Rightarrow> u32 \<Rightarrow> u32 \<Rightarrow> u32" where
  "insn_add_d fd fs ft = insn_cop1_fmt FMT_D fd fs ft 0x00"

definition insn_sub_d :: "u32 \<Rightarrow> u32 \<Rightarrow> u32 \<Rightarrow> u32" where
  "insn_sub_d fd fs ft = insn_cop1_fmt FMT_D fd fs ft 0x01"

definition insn_mul_d :: "u32 \<Rightarrow> u32 \<Rightarrow> u32 \<Rightarrow> u32" where
  "insn_mul_d fd fs ft = insn_cop1_fmt FMT_D fd fs ft 0x02"

definition insn_div_d :: "u32 \<Rightarrow> u32 \<Rightarrow> u32 \<Rightarrow> u32" where
  "insn_div_d fd fs ft = insn_cop1_fmt FMT_D fd fs ft 0x03"

definition insn_sqrt_d :: "u32 \<Rightarrow> u32 \<Rightarrow> u32" where
  "insn_sqrt_d fd fs = insn_cop1_fmt FMT_D fd fs 0 0x04"

definition insn_abs_d :: "u32 \<Rightarrow> u32 \<Rightarrow> u32" where
  "insn_abs_d fd fs = insn_cop1_fmt FMT_D fd fs 0 0x05"

definition insn_mov_d :: "u32 \<Rightarrow> u32 \<Rightarrow> u32" where
  "insn_mov_d fd fs = insn_cop1_fmt FMT_D fd fs 0 0x06"

definition insn_neg_d :: "u32 \<Rightarrow> u32 \<Rightarrow> u32" where
  "insn_neg_d fd fs = insn_cop1_fmt FMT_D fd fs 0 0x07"

definition insn_cvt_s :: "u32 \<Rightarrow> u32 \<Rightarrow> u32 \<Rightarrow> u32" where
  "insn_cvt_s source_fmt fd fs = insn_cop1_fmt source_fmt fd fs 0 0x20"

definition insn_cvt_d :: "u32 \<Rightarrow> u32 \<Rightarrow> u32 \<Rightarrow> u32" where
  "insn_cvt_d source_fmt fd fs = insn_cop1_fmt source_fmt fd fs 0 0x21"

definition insn_cvt_w :: "u32 \<Rightarrow> u32 \<Rightarrow> u32 \<Rightarrow> u32" where
  "insn_cvt_w source_fmt fd fs = insn_cop1_fmt source_fmt fd fs 0 0x24"

definition insn_cvt_l :: "u32 \<Rightarrow> u32 \<Rightarrow> u32 \<Rightarrow> u32" where
  "insn_cvt_l source_fmt fd fs = insn_cop1_fmt source_fmt fd fs 0 0x25"

definition insn_round_w :: "u32 \<Rightarrow> u32 \<Rightarrow> u32 \<Rightarrow> u32" where
  "insn_round_w source_fmt fd fs = insn_cop1_fmt source_fmt fd fs 0 0x0C"

definition insn_trunc_w :: "u32 \<Rightarrow> u32 \<Rightarrow> u32 \<Rightarrow> u32" where
  "insn_trunc_w source_fmt fd fs = insn_cop1_fmt source_fmt fd fs 0 0x0D"

definition insn_ceil_w :: "u32 \<Rightarrow> u32 \<Rightarrow> u32 \<Rightarrow> u32" where
  "insn_ceil_w source_fmt fd fs = insn_cop1_fmt source_fmt fd fs 0 0x0E"

definition insn_floor_w :: "u32 \<Rightarrow> u32 \<Rightarrow> u32 \<Rightarrow> u32" where
  "insn_floor_w source_fmt fd fs = insn_cop1_fmt source_fmt fd fs 0 0x0F"

definition insn_round_l :: "u32 \<Rightarrow> u32 \<Rightarrow> u32 \<Rightarrow> u32" where
  "insn_round_l source_fmt fd fs = insn_cop1_fmt source_fmt fd fs 0 0x08"

definition insn_trunc_l :: "u32 \<Rightarrow> u32 \<Rightarrow> u32 \<Rightarrow> u32" where
  "insn_trunc_l source_fmt fd fs = insn_cop1_fmt source_fmt fd fs 0 0x09"

definition insn_ceil_l :: "u32 \<Rightarrow> u32 \<Rightarrow> u32 \<Rightarrow> u32" where
  "insn_ceil_l source_fmt fd fs = insn_cop1_fmt source_fmt fd fs 0 0x0A"

definition insn_floor_l :: "u32 \<Rightarrow> u32 \<Rightarrow> u32 \<Rightarrow> u32" where
  "insn_floor_l source_fmt fd fs = insn_cop1_fmt source_fmt fd fs 0 0x0B"

definition insn_c_cond_s :: "u32 \<Rightarrow> u32 \<Rightarrow> u32 \<Rightarrow> u32" where
  "insn_c_cond_s fs ft condition = insn_cop1_fmt FMT_S 0 fs ft (0x30 OR (condition AND 0xF))"

definition insn_c_cond_d :: "u32 \<Rightarrow> u32 \<Rightarrow> u32 \<Rightarrow> u32" where
  "insn_c_cond_d fs ft condition = insn_cop1_fmt FMT_D 0 fs ft (0x30 OR (condition AND 0xF))"

definition insn_lwc1 :: "u32 \<Rightarrow> u32 \<Rightarrow> u16 \<Rightarrow> u32" where
  "insn_lwc1 ft base off = insn_itype_s OP_LWC1 ft base off"

definition insn_ldc1 :: "u32 \<Rightarrow> u32 \<Rightarrow> u16 \<Rightarrow> u32" where
  "insn_ldc1 ft base off = insn_itype_s OP_LDC1 ft base off"

definition insn_swc1 :: "u32 \<Rightarrow> u32 \<Rightarrow> u16 \<Rightarrow> u32" where
  "insn_swc1 ft base off = insn_itype_s OP_SWC1 ft base off"

definition insn_sdc1 :: "u32 \<Rightarrow> u32 \<Rightarrow> u16 \<Rightarrow> u32" where
  "insn_sdc1 ft base off = insn_itype_s OP_SDC1 ft base off"

definition insn_dsll :: "u32 \<Rightarrow> u32 \<Rightarrow> u32 \<Rightarrow> u32" where
  "insn_dsll rd rt sa = insn_rtype FN_DSLL rd 0 rt sa"

definition insn_dsll32 :: "u32 \<Rightarrow> u32 \<Rightarrow> u32 \<Rightarrow> u32" where
  "insn_dsll32 rd rt sa = insn_rtype FN_DSLL32 rd 0 rt sa"

section \<open>An assembly language\<close>

datatype alu = M_ADD | M_ADDU | M_SUB | M_SUBU | M_AND | M_OR | M_XOR | M_NOR | M_SLT | M_SLTU | M_DADD | M_DSUB

datatype shift = M_SLL | M_SRL | M_SRA | M_DSLL | M_DSLL32

datatype muldiv = M_MULT | M_MULTU | M_DIV | M_DIVU | M_DMULT

datatype imm_alu = M_ADDI | M_ADDIU | M_SLTI | M_SLTIU | M_ANDI | M_ORI | M_XORI

datatype mem = M_LW | M_LH | M_LB | M_LBU | M_LHU | M_LD | M_SW | M_SH | M_SB | M_SD
  | M_LL | M_LLD | M_SC | M_SCD | M_LWC1 | M_LDC1 | M_SWC1 | M_SDC1

datatype branch2 = M_BEQ | M_BNE | M_BEQL | M_BNEL

datatype branch1 = M_BLEZ | M_BGTZ | M_BLTZ | M_BGEZ | M_BGEZAL

datatype assembly = Alu alu u32 u32 u32 | Sllv u32 u32 u32 | Shift shift u32 u32 u32
  | MulDiv muldiv u32 u32 | Mfhi u32 | Mflo u32 | Imm imm_alu u32 u32 u16 | Lui u32 u16
  | Mem mem u32 u32 u16 | Branch2 branch2 u32 u32 u16 | Branch1 branch1 u32 u16
  | Jump u32 | Jal u32 | Jr u32 | Jalr u32 u32 | Syscall | Break u32 | Nop
  | Mfc0 u32 u32 | Mtc0 u32 u32 | Eret | Tlbr | Tlbwi | Tlbwr | Tlbp

text \<open>The words of the encoders, operand by operand.\<close>

fun encode_alu :: "alu \<Rightarrow> u32 \<Rightarrow> u32 \<Rightarrow> u32 \<Rightarrow> u32" where
  "encode_alu M_ADD = insn_add" | "encode_alu M_ADDU = insn_addu" | "encode_alu M_SUB = insn_sub"
| "encode_alu M_SUBU = insn_subu" | "encode_alu M_AND = insn_and" | "encode_alu M_OR = insn_or"
| "encode_alu M_XOR = insn_xor" | "encode_alu M_NOR = insn_nor" | "encode_alu M_SLT = insn_slt"
| "encode_alu M_SLTU = insn_sltu" | "encode_alu M_DADD = insn_dadd" | "encode_alu M_DSUB = insn_dsub"

fun encode_shift :: "shift \<Rightarrow> u32 \<Rightarrow> u32 \<Rightarrow> u32 \<Rightarrow> u32" where
  "encode_shift M_SLL = insn_sll" | "encode_shift M_SRL = insn_srl" | "encode_shift M_SRA = insn_sra"
| "encode_shift M_DSLL = insn_dsll" | "encode_shift M_DSLL32 = insn_dsll32"

fun encode_muldiv :: "muldiv \<Rightarrow> u32 \<Rightarrow> u32 \<Rightarrow> u32" where
  "encode_muldiv M_MULT = insn_mult" | "encode_muldiv M_MULTU = insn_multu" | "encode_muldiv M_DIV = insn_div"
| "encode_muldiv M_DIVU = insn_divu" | "encode_muldiv M_DMULT = insn_dmult"

fun encode_imm :: "imm_alu \<Rightarrow> u32 \<Rightarrow> u32 \<Rightarrow> u16 \<Rightarrow> u32" where
  "encode_imm M_ADDI = insn_addi" | "encode_imm M_ADDIU = insn_addiu" | "encode_imm M_SLTI = insn_slti"
| "encode_imm M_SLTIU = insn_sltiu" | "encode_imm M_ANDI = insn_andi" | "encode_imm M_ORI = insn_ori"
| "encode_imm M_XORI = insn_xori"

fun encode_mem :: "mem \<Rightarrow> u32 \<Rightarrow> u32 \<Rightarrow> u16 \<Rightarrow> u32" where
  "encode_mem M_LW = insn_lw" | "encode_mem M_LH = insn_lh" | "encode_mem M_LB = insn_lb"
| "encode_mem M_LBU = insn_lbu" | "encode_mem M_LHU = insn_lhu" | "encode_mem M_LD = insn_ld"
| "encode_mem M_SW = insn_sw" | "encode_mem M_SH = insn_sh" | "encode_mem M_SB = insn_sb"
| "encode_mem M_SD = insn_sd" | "encode_mem M_LL = insn_ll" | "encode_mem M_LLD = insn_lld"
| "encode_mem M_SC = insn_sc" | "encode_mem M_SCD = insn_scd" | "encode_mem M_LWC1 = insn_lwc1"
| "encode_mem M_LDC1 = insn_ldc1" | "encode_mem M_SWC1 = insn_swc1" | "encode_mem M_SDC1 = insn_sdc1"

fun encode_branch2 :: "branch2 \<Rightarrow> u32 \<Rightarrow> u32 \<Rightarrow> u16 \<Rightarrow> u32" where
  "encode_branch2 M_BEQ = insn_beq" | "encode_branch2 M_BNE = insn_bne"
| "encode_branch2 M_BEQL = insn_beql" | "encode_branch2 M_BNEL = insn_bnel"

fun encode_branch1 :: "branch1 \<Rightarrow> u32 \<Rightarrow> u16 \<Rightarrow> u32" where
  "encode_branch1 M_BLEZ = insn_blez" | "encode_branch1 M_BGTZ = insn_bgtz" | "encode_branch1 M_BLTZ = insn_bltz"
| "encode_branch1 M_BGEZ = insn_bgez" | "encode_branch1 M_BGEZAL = insn_bgezal"

fun encode :: "assembly \<Rightarrow> u32" where
  "encode (Alu a rd rs rt) = encode_alu a rd rs rt"
| "encode (Sllv rd rt rs) = insn_sllv rd rt rs"
| "encode (Shift s rd rt sa) = encode_shift s rd rt sa"
| "encode (MulDiv d rs rt) = encode_muldiv d rs rt"
| "encode (Mfhi rd) = insn_mfhi rd"
| "encode (Mflo rd) = insn_mflo rd"
| "encode (Imm a rt rs imm) = encode_imm a rt rs imm"
| "encode (Lui rt imm) = insn_lui rt imm"
| "encode (Mem k rt base off) = encode_mem k rt base off"
| "encode (Branch2 b rs rt off) = encode_branch2 b rs rt off"
| "encode (Branch1 b rs off) = encode_branch1 b rs off"
| "encode (Jump addr) = insn_j addr"
| "encode (Jal addr) = insn_jal addr"
| "encode (Jr rs) = insn_jr rs"
| "encode (Jalr rd rs) = insn_jalr rd rs"
| "encode Syscall = insn_syscall"
| "encode (Break code) = insn_brk code"
| "encode Nop = insn_nop"
| "encode (Mfc0 rt rd) = insn_mfc0 rt rd"
| "encode (Mtc0 rt rd) = insn_mtc0 rt rd"
| "encode Eret = insn_eret"
| "encode Tlbr = insn_tlbr"
| "encode Tlbwi = insn_tlbwi"
| "encode Tlbwr = insn_tlbwr"
| "encode Tlbp = insn_tlbp"

text \<open>Operands an assembler accepts: five-bit register numbers and shift amounts.\<close>

fun operands_ok :: "assembly \<Rightarrow> bool" where
  "operands_ok (Alu _ rd rs rt) = (rd < 32 \<and> rs < 32 \<and> rt < 32)"
| "operands_ok (Sllv rd rt rs) = (rd < 32 \<and> rs < 32 \<and> rt < 32)"
| "operands_ok (Shift _ rd rt sa) = (rd < 32 \<and> rt < 32 \<and> sa < 32)"
| "operands_ok (MulDiv _ rs rt) = (rs < 32 \<and> rt < 32)"
| "operands_ok (Mfhi rd) = (rd < 32)"
| "operands_ok (Mflo rd) = (rd < 32)"
| "operands_ok (Imm _ rt rs _) = (rt < 32 \<and> rs < 32)"
| "operands_ok (Lui rt _) = (rt < 32)"
| "operands_ok (Mem _ rt base _) = (rt < 32 \<and> base < 32)"
| "operands_ok (Branch2 _ rs rt _) = (rs < 32 \<and> rt < 32)"
| "operands_ok (Branch1 _ rs _) = (rs < 32)"
| "operands_ok (Jr rs) = (rs < 32)"
| "operands_ok (Jalr rd rs) = (rd < 32 \<and> rs < 32)"
| "operands_ok (Mfc0 rt rd) = (rt < 32 \<and> rd < 32)"
| "operands_ok (Mtc0 rt rd) = (rt < 32 \<and> rd < 32)"
| "operands_ok _ = True"

section \<open>What the instructions mean\<close>

text \<open>The result of a three-register instruction on the values of its sources; none for an
  overflow. The 32-bit forms work on the low words and extend the sign.\<close>

definition exactly :: "bool \<Rightarrow> u64 \<Rightarrow> u64 option" where
  "exactly ok v = (if ok then Some v else None)"

fun alu_result :: "alu \<Rightarrow> u64 \<Rightarrow> u64 \<Rightarrow> u64 option" where
  "alu_result M_ADD s t = (let a = ucast s :: u32; b = ucast t
     in exactly (sint (a + b) = sint a + sint b) (sext32 (a + b)))"
| "alu_result M_ADDU s t = Some (sext32 (ucast s + ucast t))"
| "alu_result M_SUB s t = (let a = ucast s :: u32; b = ucast t
     in exactly (sint (a - b) = sint a - sint b) (sext32 (a - b)))"
| "alu_result M_SUBU s t = Some (sext32 (ucast s - ucast t))"
| "alu_result M_AND s t = Some (s AND t)"
| "alu_result M_OR s t = Some (s OR t)"
| "alu_result M_XOR s t = Some (s XOR t)"
| "alu_result M_NOR s t = Some (NOT (s OR t))"
| "alu_result M_SLT s t = Some (if sint s < sint t then 1 else 0)"
| "alu_result M_SLTU s t = Some (if s < t then 1 else 0)"
| "alu_result M_DADD s t = exactly (sint (s + t) = sint s + sint t) (s + t)"
| "alu_result M_DSUB s t = exactly (sint (s - t) = sint s - sint t) (s - t)"

fun imm_result :: "imm_alu \<Rightarrow> u64 \<Rightarrow> u16 \<Rightarrow> u64 option" where
  "imm_result M_ADDI s i = alu_result M_ADD s (scast i)"
| "imm_result M_ADDIU s i = alu_result M_ADDU s (scast i)"
| "imm_result M_SLTI s i = Some (if sint s < sint i then 1 else 0)"
| "imm_result M_SLTIU s i = Some (if s < scast i then 1 else 0)"
| "imm_result M_ANDI s i = Some (s AND ucast i)"
| "imm_result M_ORI s i = Some (s OR ucast i)"
| "imm_result M_XORI s i = Some (s XOR ucast i)"

definition put_result :: "u32 \<Rightarrow> u64 option \<Rightarrow> cpu \<Rightarrow> cpu" where
  "put_result rd r c = (case r of None \<Rightarrow> raise_plain Exc_Ov c | Some v \<Rightarrow> write_gpr rd v c)"

fun shift_result :: "shift \<Rightarrow> u64 \<Rightarrow> nat \<Rightarrow> u64" where
  "shift_result M_SLL t n = sext32 (push_bit n (ucast t))"
| "shift_result M_SRL t n = sext32 (drop_bit n (ucast t))"
| "shift_result M_SRA t n = sext32 (signed_drop_bit n (ucast t))"
| "shift_result M_DSLL t n = push_bit n t"
| "shift_result M_DSLL32 t n = push_bit (n + 32) t"

fun muldiv_result :: "muldiv \<Rightarrow> u64 \<Rightarrow> u64 \<Rightarrow> u64 \<times> u64" where
  "muldiv_result M_MULT s t = mult_s32 (ucast s) (ucast t)"
| "muldiv_result M_MULTU s t = mult_u32 (ucast s) (ucast t)"
| "muldiv_result M_DIV s t = div_s32 (ucast s) (ucast t)"
| "muldiv_result M_DIVU s t = div_u32 (ucast s) (ucast t)"
| "muldiv_result M_DMULT s t = mult_s64 s t"

text \<open>An access at an address, with the register it fills or stores.\<close>

definition linked_load :: "u64 \<Rightarrow> (u32 \<Rightarrow> machine \<Rightarrow> u64 \<times> machine) \<Rightarrow> u32 \<Rightarrow> u64 \<Rightarrow> machine \<Rightarrow> machine" where
  "linked_load sz rd rt addr m =
    (case read_at addr sz m of
       (None, m1) \<Rightarrow> m1
     | (Some p, m1) \<Rightarrow> (case rd p m1 of (v, m2) \<Rightarrow> upd_cpu (\<lambda>c. set_link p (write_gpr rt v c)) m2))"

definition conditional_store :: "u64 \<Rightarrow> (u32 \<Rightarrow> u64 \<Rightarrow> machine \<Rightarrow> machine) \<Rightarrow> u32 \<Rightarrow> u64 \<Rightarrow> machine \<Rightarrow> machine" where
  "conditional_store sz wr rt addr m =
    (let had = c_ll_bit (m_cpu m); reserved = c_ll_addr (m_cpu m) in
     case write_at addr sz (upd_cpu clear_ll m) of
       (None, m1) \<Rightarrow> m1
     | (Some p, m1) \<Rightarrow>
         if had \<and> ucast p = reserved
         then upd_cpu (write_gpr rt 1) (wr p (c_gpr (m_cpu m1) rt) m1)
         else upd_cpu (write_gpr rt 0) m1)"

definition if_cop1 :: "(machine \<Rightarrow> machine) \<Rightarrow> machine \<Rightarrow> machine" where
  "if_cop1 f m = (if coprocessor_usable 1 (m_cpu m) then f m else upd_cpu cop1_unusable m)"

definition cop1_load_double :: "u32 \<Rightarrow> u64 \<Rightarrow> machine \<Rightarrow> machine" where
  "cop1_load_double rt a m =
    (if \<not> fpu_fr_mode (m_cpu m) \<and> odd (unat rt) then upd_cpu raise_fpu_unimplemented m
     else load_double a (put_double rt) m)"

definition cop1_store_double :: "u32 \<Rightarrow> u64 \<Rightarrow> machine \<Rightarrow> machine" where
  "cop1_store_double rt a m =
    (case read_fpr_double rt (m_cpu m) of
       None \<Rightarrow> upd_cpu raise_fpu_unimplemented m
     | Some v \<Rightarrow> store_double a v m)"

fun mem_effect :: "mem \<Rightarrow> u32 \<Rightarrow> u64 \<Rightarrow> machine \<Rightarrow> machine" where
  "mem_effect M_LW rt a m = load_word a True (write_gpr rt) m"
| "mem_effect M_LH rt a m = load_half a True (write_gpr rt) m"
| "mem_effect M_LB rt a m = load_byte a True (write_gpr rt) m"
| "mem_effect M_LBU rt a m = load_byte a False (write_gpr rt) m"
| "mem_effect M_LHU rt a m = load_half a False (write_gpr rt) m"
| "mem_effect M_LD rt a m = load_double a (write_gpr rt) m"
| "mem_effect M_SW rt a m = store_word a (ucast (c_gpr (m_cpu m) rt)) m"
| "mem_effect M_SH rt a m = store_half a (ucast (c_gpr (m_cpu m) rt)) m"
| "mem_effect M_SB rt a m = store_byte a (ucast (c_gpr (m_cpu m) rt)) m"
| "mem_effect M_SD rt a m = store_double a (c_gpr (m_cpu m) rt) m"
| "mem_effect M_LL rt a m = linked_load 4 (\<lambda>p m. apfst sext32 (bus_read32 p m)) rt a m"
| "mem_effect M_LLD rt a m = linked_load 8 bus_read64 rt a m"
| "mem_effect M_SC rt a m = conditional_store 4 (\<lambda>p v. bus_write32 p (ucast v)) rt a m"
| "mem_effect M_SCD rt a m = conditional_store 8 bus_write64 rt a m"
| "mem_effect M_LWC1 rt a m = if_cop1 (load_word a False (\<lambda>v. write_fpr_word rt (ucast v))) m"
| "mem_effect M_SWC1 rt a m = if_cop1 (store_word a (read_fpr_word rt (m_cpu m))) m"
| "mem_effect M_LDC1 rt a m = if_cop1 (cop1_load_double rt a) m"
| "mem_effect M_SDC1 rt a m = if_cop1 (cop1_store_double rt a) m"

text \<open>Branches: the target is relative to the delay slot; a likely branch not taken skips it.\<close>

fun branch2_effect :: "branch2 \<Rightarrow> bool \<Rightarrow> u16 \<Rightarrow> cpu \<Rightarrow> cpu" where
  "branch2_effect M_BEQ eq off c = (if eq then branch_rel off c else branch_abs (c_pc c + 8) c)"
| "branch2_effect M_BNE eq off c = (if eq then branch_abs (c_pc c + 8) c else branch_rel off c)"
| "branch2_effect M_BEQL eq off c = (if eq then branch_rel off c else nullify c)"
| "branch2_effect M_BNEL eq off c = (if eq then nullify c else branch_rel off c)"

fun branch1_taken :: "branch1 \<Rightarrow> int \<Rightarrow> bool" where
  "branch1_taken M_BLEZ v = (v \<le> 0)"
| "branch1_taken M_BGTZ v = (0 < v)"
| "branch1_taken M_BLTZ v = (v < 0)"
| "branch1_taken M_BGEZ v = (0 \<le> v)"
| "branch1_taken M_BGEZAL v = (0 \<le> v)"

definition jump_target :: "u32 \<Rightarrow> cpu \<Rightarrow> u64" where
  "jump_target addr c =
    (c_pc c AND 0xFFFFFFFFF0000000) OR push_bit 2 (ucast (drop_bit 2 addr AND 0x03FFFFFF))"

definition tlb_effect :: "(cpu \<Rightarrow> cpu) \<Rightarrow> bool \<Rightarrow> machine \<Rightarrow> machine" where
  "tlb_effect f clears m =
    (if \<not> coprocessor_usable 0 (m_cpu m) then upd_cpu (raise_exception Exc_CpU 0 0 False) m
     else (let m1 = upd_cpu f m in if clears then m1\<lparr>m_cache := bc_clear (m_cache m1)\<rparr> else m1))"

fun meaning :: "assembly \<Rightarrow> machine \<Rightarrow> machine" where
  "meaning (Alu a rd rs rt) m = upd_cpu (\<lambda>c. put_result rd (alu_result a (c_gpr c rs) (c_gpr c rt)) c) m"
| "meaning (Sllv rd rt rs) m = upd_cpu (\<lambda>c. write_gpr rd
     (shift_result M_SLL (c_gpr c rt) (unat (c_gpr c rs) mod 32)) c) m"
| "meaning (Shift s rd rt sa) m = upd_cpu (\<lambda>c. write_gpr rd (shift_result s (c_gpr c rt) (unat sa)) c) m"
| "meaning (MulDiv d rs rt) m = upd_cpu (\<lambda>c. case muldiv_result d (c_gpr c rs) (c_gpr c rt) of
     (h, l) \<Rightarrow> set_hi_lo h l c) m"
| "meaning (Mfhi rd) m = upd_cpu (\<lambda>c. write_gpr rd (c_hi c) c) m"
| "meaning (Mflo rd) m = upd_cpu (\<lambda>c. write_gpr rd (c_lo c) c) m"
| "meaning (Imm a rt rs imm) m = upd_cpu (\<lambda>c. put_result rt (imm_result a (c_gpr c rs) imm) c) m"
| "meaning (Lui rt imm) m = upd_cpu (write_gpr rt (sext32 (push_bit 16 (ucast imm)))) m"
| "meaning (Mem k rt base off) m = mem_effect k rt (c_gpr (m_cpu m) base + scast off) m"
| "meaning (Branch2 b rs rt off) m = upd_cpu (\<lambda>c. branch2_effect b (c_gpr c rs = c_gpr c rt) off c) m"
| "meaning (Branch1 b rs off) m = upd_cpu (\<lambda>c.
     let c1 = (if b = M_BGEZAL then link_reg 31 c else c)
     in if branch1_taken b (sint (c_gpr c rs)) then branch_rel off c1 else branch_abs (c_pc c1 + 8) c1) m"
| "meaning (Jump addr) m = upd_cpu (\<lambda>c. branch_abs (jump_target addr c) c) m"
| "meaning (Jal addr) m = upd_cpu (\<lambda>c. branch_abs (jump_target addr c) (link_reg 31 c)) m"
| "meaning (Jr rs) m = upd_cpu (\<lambda>c. branch_abs (c_gpr c rs) c) m"
| "meaning (Jalr rd rs) m = upd_cpu (\<lambda>c. branch_abs (c_gpr c rs) (link_reg (if rd = 0 then 31 else rd) c)) m"
| "meaning Syscall m = upd_cpu (raise_plain Exc_Sys) m"
| "meaning (Break _) m = upd_cpu (raise_plain Exc_Bp) m"
| "meaning Nop m = m"
| "meaning (Mfc0 rt rd) m = tlb_effect (\<lambda>c. write_gpr rt (sext32 (c_cop0 c rd)) c) False m"
| "meaning (Mtc0 rt rd) m =
    (if \<not> coprocessor_usable 0 (m_cpu m) then upd_cpu (raise_exception Exc_CpU 0 0 False) m
     else (case set_cop0 rd (ucast (c_gpr (m_cpu m) rt)) (m_cpu m) of
            (c, cleared) \<Rightarrow> (let m1 = m\<lparr>m_cpu := c\<rparr>
              in if cleared then m1\<lparr>m_cache := bc_clear (m_cache m1)\<rparr> else m1)))"
| "meaning Eret m = tlb_effect do_eret False m"
| "meaning Tlbr m = tlb_effect tlb_read_indexed True m"
| "meaning Tlbwi m = tlb_effect (\<lambda>c. tlb_write_indexed (c_cop0 c Cop0_Index) c) True m"
| "meaning Tlbwr m = tlb_effect (\<lambda>c. tlb_write_indexed (c_cop0 c Cop0_Random) c) True m"
| "meaning Tlbp m = tlb_effect tlb_probe False m"

section \<open>Fields\<close>

lemma insn_masks: "(31 :: u32) = mask 5" "(63 :: u32) = mask 6" "(0xFFFF :: u32) = mask 16"
  "(0x03FFFFFF :: u32) = mask 26" "(0xFFFFF :: u32) = mask 20"
  by (simp_all add: mask_eq_exp_minus_1)

lemma rtype_fields:
  assumes "fn < 64" "rd < 32" "rs < 32" "rt < 32" "sa < 32"
  shows "i_op (insn_rtype fn rd rs rt sa) = 0" "i_rs (insn_rtype fn rd rs rt sa) = rs"
    "i_rt (insn_rtype fn rd rs rt sa) = rt" "i_rd (insn_rtype fn rd rs rt sa) = rd"
    "i_sa (insn_rtype fn rd rs rt sa) = sa" "i_fn (insn_rtype fn rd rs rt sa) = fn"
  unfolding i_defs insn_rtype_def insn_masks
  by (rule bit_word_eqI; use assms in \<open>auto simp: bit_simps dest: small_bits\<close>)+

lemma itype_fields:
  assumes "opc < 64" "rt < 32" "rs < 32"
  shows "i_op (insn_itype opc rt rs imm) = opc" "i_rs (insn_itype opc rt rs imm) = rs"
    "i_rt (insn_itype opc rt rs imm) = rt" "i_imm (insn_itype opc rt rs imm) = ucast imm"
    "i_simm (insn_itype opc rt rs imm) = imm"
  unfolding i_defs insn_itype_def insn_masks
  by (rule bit_word_eqI; use assms in \<open>auto simp: bit_simps dest: small_bits\<close>)+

lemma jtype_fields:
  assumes "opc < 64"
  shows "i_op (insn_jtype opc target) = opc" "i_target (insn_jtype opc target) = target AND 0x03FFFFFF"
  unfolding i_defs insn_jtype_def insn_masks
  by (rule bit_word_eqI; use assms in \<open>auto simp: bit_simps dest: small_bits\<close>)+

lemma regimm_itype: "insn_regimm code rs imm = insn_itype 1 code rs imm"
  by (simp add: insn_regimm_def insn_itype_def ac_simps)

lemma code_fields:
  "i_op (w OR push_bit 6 (code AND 0xFFFFF)) = i_op w" "i_fn (w OR push_bit 6 (code AND 0xFFFFF)) = i_fn w"
  unfolding i_defs insn_masks by (rule bit_word_eqI; auto simp: bit_simps)+

lemma brk_fields: "i_op (insn_brk code) = 0" "i_fn (insn_brk code) = 0x0D"
  unfolding insn_brk_def code_fields by (simp_all add: rtype_fields)

lemma cop_fields:
  assumes "opc < 64" "co < 32" "rt < 32" "rd < 32"
    and "w = push_bit 26 opc OR push_bit 21 co OR push_bit 16 rt OR push_bit 11 rd"
  shows "i_op w = opc" "i_rs w = co" "i_rt w = rt" "i_rd w = rd"
  unfolding i_defs assms(5) insn_masks
  by (rule bit_word_eqI; use assms in \<open>auto simp: bit_simps dest: small_bits\<close>)+

lemmas mfc0_fields = cop_fields [of OP_COP0 0, OF _ _ _ _ insn_mfc0_def, simplified]
lemmas mtc0_fields = cop_fields [of OP_COP0 4, OF _ _ _ _ insn_mtc0_def, simplified]

lemma cop0_op_fields:
  "i_op insn_eret = 0x10" "i_rs insn_eret = 0x10" "i_fn insn_eret = 0x18"
  "i_op insn_tlbr = 0x10" "i_rs insn_tlbr = 0x10" "i_fn insn_tlbr = 0x01"
  "i_op insn_tlbwi = 0x10" "i_rs insn_tlbwi = 0x10" "i_fn insn_tlbwi = 0x02"
  "i_op insn_tlbwr = 0x10" "i_rs insn_tlbwr = 0x10" "i_fn insn_tlbwr = 0x06"
  "i_op insn_tlbp = 0x10" "i_rs insn_tlbp = 0x10" "i_fn insn_tlbp = 0x08"
  by (simp_all add: i_defs insn_eret_def insn_tlbr_def insn_tlbwi_def insn_tlbwr_def insn_tlbp_def)

section \<open>The executor runs the assembly\<close>

lemma signed_cmp: "(s :: u64) <s t \<longleftrightarrow> sint s < sint t" "(s :: u64) \<le>s t \<longleftrightarrow> sint s \<le> sint t"
  by (simp_all add: word_sless_alt word_sle_eq)

lemma overflow_result:
  "write_or_overflow rd (apsnd sext32 (add_overflow_s32 a b)) c
    = put_result rd (exactly (sint (a + b) = sint a + sint b) (sext32 (a + b))) c"
  "write_or_overflow rd (apsnd sext32 (sub_overflow_s32 a b)) c
    = put_result rd (exactly (sint (a - b) = sint a - sint b) (sext32 (a - b))) c"
  "write_or_overflow rd (add_overflow_s64 x y) c
    = put_result rd (exactly (sint (x + y) = sint x + sint y) (x + y)) c"
  "write_or_overflow rd (sub_overflow_s64 x y) c
    = put_result rd (exactly (sint (x - y) = sint x - sint y) (x - y)) c"
  using overflow_exact [of a b x y] by (auto simp: write_or_overflow_def put_result_def exactly_def)

lemma execute_special:
  "i_op w = 0 \<Longrightarrow> execute w m = upd_cpu (exec_special w) m"
  by (simp add: execute_def execute_local_def Let_def upd_cpu_def)

lemmas reg_defs = rs64_def rt64_def rs32_def rt32_def

lemma put_result_Some [simp]: "put_result rd (Some v) = write_gpr rd v"
  by (simp add: put_result_def fun_eq_iff)

lemma alu_executes:
  assumes "rd < 32" "rs < 32" "rt < 32"
  shows "exec_special (encode_alu a rd rs rt) c = put_result rd (alu_result a (c_gpr c rs) (c_gpr c rt)) c"
  by (cases a)
    (simp_all add: assms insn_add_def insn_addu_def insn_sub_def insn_subu_def insn_and_def insn_or_def
      insn_xor_def insn_nor_def insn_slt_def insn_sltu_def insn_dadd_def insn_dsub_def exec_special_def
      special_arith_def rtype_fields reg_defs overflow_result Let_def bool64_def signed_cmp)

lemma shift_executes:
  assumes "rd < 32" "rt < 32" "sa < 32"
  shows "exec_special (encode_shift s rd rt sa) c = write_gpr rd (shift_result s (c_gpr c rt) (unat sa)) c"
  by (cases s)
    (simp_all add: assms insn_sll_def insn_srl_def insn_sra_def insn_dsll_def insn_dsll32_def exec_special_def
      special_shift_jump_def special_arith_def rtype_fields reg_defs Let_def)

lemma muldiv_executes:
  assumes "rs < 32" "rt < 32"
  shows "exec_special (encode_muldiv d rs rt) c
    = (case muldiv_result d (c_gpr c rs) (c_gpr c rt) of (h, l) \<Rightarrow> set_hi_lo h l c)"
  by (cases d)
    (simp_all add: assms insn_mult_def insn_multu_def insn_div_def insn_divu_def insn_dmult_def
      exec_special_def special_mult_div_def rtype_fields reg_defs Let_def split_beta)

lemma sllv_amount: "unat ((ucast s :: u32) AND 31) = unat (s :: u64) mod 32"
proof -
  have "(31 :: u32) = mask 5" by (simp add: mask_eq_exp_minus_1)
  then have "unat ((ucast s :: u32) AND 31) = unat (ucast s :: u32) mod 2 ^ 5"
    by (simp only: unat_and_mask)
  also have "unat (ucast s :: u32) = unat s mod 2 ^ 32"
    by (simp add: unsigned_ucast_eq take_bit_eq_mod)
  finally show ?thesis by (simp add: mod_mod_cancel)
qed

lemma op_zero:
  "i_op (insn_rtype fn rd rs rt sa) = 0" if "fn < 64" "rd < 32" "rs < 32" "rt < 32" "sa < 32"
  using rtype_fields [OF that] by simp

lemma imm_executes:
  assumes "rt < 32" "rs < 32"
  shows "execute (encode_imm a rt rs imm) m = upd_cpu (\<lambda>c. put_result rt (imm_result a (c_gpr c rs) imm) c) m"
proof -
  have n: "(ucast (scast (imm :: u16) :: u64) :: u32) = scast imm"
    by (rule bit_word_eqI) (auto simp: bit_simps)
  have s: "sint (scast imm :: u64) = sint imm" by (rule sint_up_scast) (simp add: is_up)
  have u: "(ucast (ucast imm :: u32) :: u64) = ucast imm"
    by (rule bit_word_eqI) (auto simp: bit_simps dest: bit_imp_le_length)
  show ?thesis
    by (cases a)
      (simp_all add: assms insn_addi_def insn_addiu_def insn_slti_def insn_sltiu_def insn_andi_def insn_ori_def
        insn_xori_def insn_itype_s_def execute_def execute_local_def itype_fields reg_defs Let_def
        overflow_result bool64_def signed_cmp n s u upd_cpu_def)
qed

lemma case_apfst: "(case apfst f x of (a, b) \<Rightarrow> g a b) = (case x of (a, b) \<Rightarrow> g (f a) b)"
  by (cases x) simp

lemma linked_accesses:
  "exec_ll w m = linked_load 4 (\<lambda>p m. apfst sext32 (bus_read32 p m)) (i_rt w) (ea w m) m"
  "exec_lld w m = linked_load 8 bus_read64 (i_rt w) (ea w m) m"
  "exec_sc w m = conditional_store 4 (\<lambda>p v. bus_write32 p (ucast v)) (i_rt w) (ea w m) m"
  "exec_scd w m = conditional_store 8 bus_write64 (i_rt w) (ea w m) m"
  by (simp_all add: exec_ll_def exec_lld_def exec_sc_def exec_scd_def linked_load_def conditional_store_def
      store_conditional_def Let_def reg_defs case_apfst split: option.split prod.split)

lemma cop1_accesses:
  "exec_lwc1 w m = if_cop1 (load_word (ea w m) False (\<lambda>v. write_fpr_word (i_rt w) (ucast v))) m"
  "exec_swc1 w m = if_cop1 (store_word (ea w m) (read_fpr_word (i_rt w) (m_cpu m))) m"
  "exec_ldc1 w m = if_cop1 (cop1_load_double (i_rt w) (ea w m)) m"
  "exec_sdc1 w m = if_cop1 (cop1_store_double (i_rt w) (ea w m)) m"
proof -
  have o: "r AND 1 \<noteq> 0 \<longleftrightarrow> odd (unat r)" for r :: u32
    using bit_unsigned_iff [of r 0, where ?'a = nat] by (simp add: and_one_eq odd_iff_mod_2_eq_one bit_0)
  show "exec_lwc1 w m = if_cop1 (load_word (ea w m) False (\<lambda>v. write_fpr_word (i_rt w) (ucast v))) m"
    "exec_swc1 w m = if_cop1 (store_word (ea w m) (read_fpr_word (i_rt w) (m_cpu m))) m"
    "exec_ldc1 w m = if_cop1 (cop1_load_double (i_rt w) (ea w m)) m"
    "exec_sdc1 w m = if_cop1 (cop1_store_double (i_rt w) (ea w m)) m"
    by (simp_all add: exec_lwc1_def exec_swc1_def exec_ldc1_def exec_sdc1_def if_cop1_def o
        cop1_load_double_def cop1_store_double_def)
qed

lemma mem_executes:
  assumes "rt < 32" "base < 32"
  shows "execute (encode_mem k rt base off) m = mem_effect k rt (c_gpr (m_cpu m) base + scast off) m"
proof -
  note i = itype_fields [OF _ assms]
  have e: "ea (insn_itype opc rt base off) m = c_gpr (m_cpu m) base + scast off" if "opc < 64" for opc
    using i [OF that] by (simp add: ea_def reg_defs)
  show ?thesis
    by (cases k)
      (simp_all add: insn_lw_def insn_lh_def insn_lb_def insn_lbu_def insn_lhu_def insn_ld_def insn_sw_def
        insn_sh_def insn_sb_def insn_sd_def insn_ll_def insn_lld_def insn_sc_def insn_scd_def insn_lwc1_def
        insn_ldc1_def insn_swc1_def insn_sdc1_def insn_itype_s_def execute_def execute_load_def
        execute_store_def i e reg_defs Let_def linked_accesses cop1_accesses)
qed

lemma branch2_executes:
  assumes "rs < 32" "rt < 32"
  shows "execute (encode_branch2 b rs rt off) m
    = upd_cpu (\<lambda>c. branch2_effect b (c_gpr c rs = c_gpr c rt) off c) m"
  by (cases b)
    (simp_all add: assms insn_beq_def insn_bne_def insn_beql_def insn_bnel_def insn_itype_s_def execute_def
      execute_local_def itype_fields reg_defs Let_def branch_if_def branch_likely_if_def upd_cpu_def)

lemma branch1_executes:
  assumes "rs < 32"
  shows "execute (encode_branch1 b rs off) m = meaning (Branch1 b rs off) m"
  by (cases b)
    (simp_all add: assms insn_blez_def insn_bgtz_def insn_bltz_def insn_bgez_def insn_bgezal_def
      insn_itype_s_def regimm_itype execute_def execute_local_def exec_regimm_def itype_fields reg_defs
      Let_def branch_if_def upd_cpu_def signed_cmp not_less)

lemma system_executes:
  "execute insn_syscall m = upd_cpu (raise_plain Exc_Sys) m"
  "execute (insn_brk code) m = upd_cpu (raise_plain Exc_Bp) m"
  "execute insn_nop m = m"
  "execute insn_eret m = tlb_effect do_eret False m"
  "execute insn_tlbr m = tlb_effect tlb_read_indexed True m"
  "execute insn_tlbwi m = tlb_effect (\<lambda>c. tlb_write_indexed (c_cop0 c Cop0_Index) c) True m"
  "execute insn_tlbwr m = tlb_effect (\<lambda>c. tlb_write_indexed (c_cop0 c Cop0_Random) c) True m"
  "execute insn_tlbp m = tlb_effect tlb_probe False m"
proof -
  have z: "i_op insn_nop = 0" "i_fn insn_nop = 0" "i_rd insn_nop = 0" by (simp_all add: insn_nop_def i_defs)
  show "execute insn_syscall m = upd_cpu (raise_plain Exc_Sys) m"
    "execute (insn_brk code) m = upd_cpu (raise_plain Exc_Bp) m" "execute insn_nop m = m"
    by (simp_all add: execute_special insn_syscall_def rtype_fields brk_fields z exec_special_def
        special_shift_jump_def Let_def write_gpr_def upd_cpu_def)
  show "execute insn_eret m = tlb_effect do_eret False m"
    "execute insn_tlbr m = tlb_effect tlb_read_indexed True m"
    "execute insn_tlbwi m = tlb_effect (\<lambda>c. tlb_write_indexed (c_cop0 c Cop0_Index) c) True m"
    "execute insn_tlbwr m = tlb_effect (\<lambda>c. tlb_write_indexed (c_cop0 c Cop0_Random) c) True m"
    "execute insn_tlbp m = tlb_effect tlb_probe False m"
    by (simp_all add: execute_def cop0_op_fields exec_cop0_m_def exec_cop0_def tlb_effect_def Let_def upd_cpu_def)
qed

lemma cop0_moves_execute:
  assumes "rt < 32" "rd < 32"
  shows "execute (insn_mfc0 rt rd) m = meaning (Mfc0 rt rd) m"
    "execute (insn_mtc0 rt rd) m = meaning (Mtc0 rt rd) m"
  by (simp_all add: execute_def mfc0_fields [OF assms] mtc0_fields [OF assms] exec_cop0_m_def exec_cop0_def
      tlb_effect_def reg_defs Let_def upd_cpu_def)

lemma jumps_execute:
  "execute (insn_j addr) m = meaning (Jump addr) m"
  "execute (insn_jal addr) m = meaning (Jal addr) m"
  "rs < 32 \<Longrightarrow> execute (insn_jr rs) m = meaning (Jr rs) m"
  "rs < 32 \<Longrightarrow> rd < 32 \<Longrightarrow> execute (insn_jalr rd rs) m = meaning (Jalr rd rs) m"
  by (simp_all add: insn_j_def insn_jal_def insn_jr_def insn_jalr_def execute_special op_zero
      execute_def execute_local_def exec_special_def special_shift_jump_def rtype_fields jtype_fields
      reg_defs Let_def jump_target_def upd_cpu_def)

lemma sllv_executes:
  assumes "rd < 32" "rt < 32" "rs < 32"
  shows "execute (insn_sllv rd rt rs) m = meaning (Sllv rd rt rs) m"
  by (simp add: assms execute_special insn_sllv_def rtype_fields exec_special_def special_shift_jump_def
      reg_defs Let_def sllv_amount upd_cpu_def)

lemma moves_execute:
  "rd < 32 \<Longrightarrow> execute (insn_mfhi rd) m = meaning (Mfhi rd) m"
  "rd < 32 \<Longrightarrow> execute (insn_mflo rd) m = meaning (Mflo rd) m"
  "rt < 32 \<Longrightarrow> execute (insn_lui rt imm) m = meaning (Lui rt imm) m"
  by (simp_all add: execute_special op_zero insn_mfhi_def insn_mflo_def insn_lui_def exec_special_def
      special_shift_jump_def rtype_fields itype_fields execute_def execute_local_def reg_defs Let_def upd_cpu_def)

lemma special_encodings:
  shows alu_encoding: "rd < 32 \<Longrightarrow> rs < 32 \<Longrightarrow> rt < 32 \<Longrightarrow> i_op (encode_alu a rd rs rt) = 0"
    and shift_encoding: "rd < 32 \<Longrightarrow> rt < 32 \<Longrightarrow> sa < 32 \<Longrightarrow> i_op (encode_shift s rd rt sa) = 0"
    and muldiv_encoding: "rs < 32 \<Longrightarrow> rt < 32 \<Longrightarrow> i_op (encode_muldiv d rs rt) = 0"
proof -
  show "rd < 32 \<Longrightarrow> rs < 32 \<Longrightarrow> rt < 32 \<Longrightarrow> i_op (encode_alu a rd rs rt) = 0"
    by (cases a) (simp_all add: insn_add_def insn_addu_def insn_sub_def insn_subu_def insn_and_def
        insn_or_def insn_xor_def insn_nor_def insn_slt_def insn_sltu_def insn_dadd_def insn_dsub_def op_zero)
  show "rd < 32 \<Longrightarrow> rt < 32 \<Longrightarrow> sa < 32 \<Longrightarrow> i_op (encode_shift s rd rt sa) = 0"
    by (cases s) (simp_all add: insn_sll_def insn_srl_def insn_sra_def insn_dsll_def insn_dsll32_def op_zero)
  show "rs < 32 \<Longrightarrow> rt < 32 \<Longrightarrow> i_op (encode_muldiv d rs rt) = 0"
    by (cases d) (simp_all add: insn_mult_def insn_multu_def insn_div_def insn_divu_def insn_dmult_def op_zero)
qed



end
