(* ===== verification/Rsp_Insn.thy ===== *)
theory Rsp_Insn
  imports Rsp_Exec
begin

unbundle bit_operations_syntax

text \<open>
  The encoders of RSP instructions (\<open>rcp/rsp/insn.hpp\<close>), against the executor of \<open>Rsp_Exec\<close>: the
  functions of the namespace \<open>rsp_insn\<close> have the prefix \<open>rinsn_\<close> here, its scalar opcodes the prefix
  \<open>ROP_\<close> and its function codes \<open>RFN_\<close>. The property is the round trip of a vector through the data
  memory, from the words the encoders give.
\<close>

section \<open>Opcodes and encoders\<close>

abbreviation (input) ROP_SPECIAL :: u32 where "ROP_SPECIAL \<equiv> 0x00"
abbreviation (input) ROP_REGIMM :: u32 where "ROP_REGIMM \<equiv> 0x01"
abbreviation (input) ROP_J :: u32 where "ROP_J \<equiv> 0x02"
abbreviation (input) ROP_JAL :: u32 where "ROP_JAL \<equiv> 0x03"
abbreviation (input) ROP_BEQ :: u32 where "ROP_BEQ \<equiv> 0x04"
abbreviation (input) ROP_BNE :: u32 where "ROP_BNE \<equiv> 0x05"
abbreviation (input) ROP_ADDIU :: u32 where "ROP_ADDIU \<equiv> 0x09"
abbreviation (input) ROP_ANDI :: u32 where "ROP_ANDI \<equiv> 0x0C"
abbreviation (input) ROP_ORI :: u32 where "ROP_ORI \<equiv> 0x0D"
abbreviation (input) ROP_LUI :: u32 where "ROP_LUI \<equiv> 0x0F"
abbreviation (input) ROP_COP0 :: u32 where "ROP_COP0 \<equiv> 0x10"
abbreviation (input) ROP_COP2 :: u32 where "ROP_COP2 \<equiv> 0x12"
abbreviation (input) ROP_LW :: u32 where "ROP_LW \<equiv> 0x23"
abbreviation (input) ROP_SW :: u32 where "ROP_SW \<equiv> 0x2B"
abbreviation (input) ROP_LB :: u32 where "ROP_LB \<equiv> 0x20"
abbreviation (input) ROP_LBU :: u32 where "ROP_LBU \<equiv> 0x24"
abbreviation (input) ROP_SB :: u32 where "ROP_SB \<equiv> 0x28"
abbreviation (input) ROP_LWC2 :: u32 where "ROP_LWC2 \<equiv> 0x32"
abbreviation (input) ROP_SWC2 :: u32 where "ROP_SWC2 \<equiv> 0x3A"
abbreviation (input) COP2_MFC :: u32 where "COP2_MFC \<equiv> 0x00"
abbreviation (input) COP2_CFC :: u32 where "COP2_CFC \<equiv> 0x02"
abbreviation (input) COP2_MTC :: u32 where "COP2_MTC \<equiv> 0x04"
abbreviation (input) COP2_CTC :: u32 where "COP2_CTC \<equiv> 0x06"
abbreviation (input) VF_VMULF :: u32 where "VF_VMULF \<equiv> 0x00"
abbreviation (input) VF_VMULU :: u32 where "VF_VMULU \<equiv> 0x01"
abbreviation (input) VF_VRNDP :: u32 where "VF_VRNDP \<equiv> 0x02"
abbreviation (input) VF_VMULQ :: u32 where "VF_VMULQ \<equiv> 0x03"
abbreviation (input) VF_VMUDL :: u32 where "VF_VMUDL \<equiv> 0x04"
abbreviation (input) VF_VMUDM :: u32 where "VF_VMUDM \<equiv> 0x05"
abbreviation (input) VF_VMUDN :: u32 where "VF_VMUDN \<equiv> 0x06"
abbreviation (input) VF_VMUDH :: u32 where "VF_VMUDH \<equiv> 0x07"
abbreviation (input) VF_VMACF :: u32 where "VF_VMACF \<equiv> 0x08"
abbreviation (input) VF_VMACU :: u32 where "VF_VMACU \<equiv> 0x09"
abbreviation (input) VF_VRNDN :: u32 where "VF_VRNDN \<equiv> 0x0A"
abbreviation (input) VF_VMACQ :: u32 where "VF_VMACQ \<equiv> 0x0B"
abbreviation (input) VF_VMADL :: u32 where "VF_VMADL \<equiv> 0x0C"
abbreviation (input) VF_VMADM :: u32 where "VF_VMADM \<equiv> 0x0D"
abbreviation (input) VF_VMADN :: u32 where "VF_VMADN \<equiv> 0x0E"
abbreviation (input) VF_VMADH :: u32 where "VF_VMADH \<equiv> 0x0F"
abbreviation (input) VF_VADD :: u32 where "VF_VADD \<equiv> 0x10"
abbreviation (input) VF_VSUB :: u32 where "VF_VSUB \<equiv> 0x11"
abbreviation (input) VF_VABS :: u32 where "VF_VABS \<equiv> 0x13"
abbreviation (input) VF_VADDC :: u32 where "VF_VADDC \<equiv> 0x14"
abbreviation (input) VF_VSUBC :: u32 where "VF_VSUBC \<equiv> 0x15"
abbreviation (input) VF_VSAR :: u32 where "VF_VSAR \<equiv> 0x1D"
abbreviation (input) VF_VLT :: u32 where "VF_VLT \<equiv> 0x20"
abbreviation (input) VF_VEQ :: u32 where "VF_VEQ \<equiv> 0x21"
abbreviation (input) VF_VNE :: u32 where "VF_VNE \<equiv> 0x22"
abbreviation (input) VF_VGE :: u32 where "VF_VGE \<equiv> 0x23"
abbreviation (input) VF_VCL :: u32 where "VF_VCL \<equiv> 0x24"
abbreviation (input) VF_VCH :: u32 where "VF_VCH \<equiv> 0x25"
abbreviation (input) VF_VCR :: u32 where "VF_VCR \<equiv> 0x26"
abbreviation (input) VF_VMRG :: u32 where "VF_VMRG \<equiv> 0x27"
abbreviation (input) VF_VAND :: u32 where "VF_VAND \<equiv> 0x28"
abbreviation (input) VF_VNAND :: u32 where "VF_VNAND \<equiv> 0x29"
abbreviation (input) VF_VOR :: u32 where "VF_VOR \<equiv> 0x2A"
abbreviation (input) VF_VNOR :: u32 where "VF_VNOR \<equiv> 0x2B"
abbreviation (input) VF_VXOR :: u32 where "VF_VXOR \<equiv> 0x2C"
abbreviation (input) VF_VNXOR :: u32 where "VF_VNXOR \<equiv> 0x2D"
abbreviation (input) VF_VRCP :: u32 where "VF_VRCP \<equiv> 0x30"
abbreviation (input) VF_VRCPL :: u32 where "VF_VRCPL \<equiv> 0x31"
abbreviation (input) VF_VRCPH :: u32 where "VF_VRCPH \<equiv> 0x32"
abbreviation (input) VF_VMOV :: u32 where "VF_VMOV \<equiv> 0x33"
abbreviation (input) VF_VRSQ :: u32 where "VF_VRSQ \<equiv> 0x34"
abbreviation (input) VF_VRSQL :: u32 where "VF_VRSQL \<equiv> 0x35"
abbreviation (input) VF_VRSQH :: u32 where "VF_VRSQH \<equiv> 0x36"
abbreviation (input) VF_VNOP :: u32 where "VF_VNOP \<equiv> 0x37"
abbreviation (input) VMEM_LBV :: u32 where "VMEM_LBV \<equiv> 0x00"
abbreviation (input) VMEM_LSV :: u32 where "VMEM_LSV \<equiv> 0x01"
abbreviation (input) VMEM_LLV :: u32 where "VMEM_LLV \<equiv> 0x02"
abbreviation (input) VMEM_LDV :: u32 where "VMEM_LDV \<equiv> 0x03"
abbreviation (input) VMEM_LQV :: u32 where "VMEM_LQV \<equiv> 0x04"
abbreviation (input) VMEM_LRV :: u32 where "VMEM_LRV \<equiv> 0x05"
abbreviation (input) VMEM_LPV :: u32 where "VMEM_LPV \<equiv> 0x06"
abbreviation (input) VMEM_LUV :: u32 where "VMEM_LUV \<equiv> 0x07"
abbreviation (input) VMEM_LHV :: u32 where "VMEM_LHV \<equiv> 0x08"
abbreviation (input) VMEM_LFV :: u32 where "VMEM_LFV \<equiv> 0x09"
abbreviation (input) VMEM_LWV :: u32 where "VMEM_LWV \<equiv> 0x0A"
abbreviation (input) VMEM_LTV :: u32 where "VMEM_LTV \<equiv> 0x0B"
abbreviation (input) RFN_SLL :: u32 where "RFN_SLL \<equiv> 0x00"
abbreviation (input) RFN_SRL :: u32 where "RFN_SRL \<equiv> 0x02"
abbreviation (input) RFN_JR :: u32 where "RFN_JR \<equiv> 0x08"
abbreviation (input) RFN_JALR :: u32 where "RFN_JALR \<equiv> 0x09"
abbreviation (input) RFN_BREAK :: u32 where "RFN_BREAK \<equiv> 0x0D"
abbreviation (input) RFN_ADDU :: u32 where "RFN_ADDU \<equiv> 0x21"
abbreviation (input) RFN_SUBU :: u32 where "RFN_SUBU \<equiv> 0x23"
abbreviation (input) RFN_AND :: u32 where "RFN_AND \<equiv> 0x24"
abbreviation (input) RFN_OR :: u32 where "RFN_OR \<equiv> 0x25"
abbreviation (input) RFN_XOR :: u32 where "RFN_XOR \<equiv> 0x26"
abbreviation (input) RFN_SLT :: u32 where "RFN_SLT \<equiv> 0x2A"

definition rinsn_rtype :: "u32 \<Rightarrow> u32 \<Rightarrow> u32 \<Rightarrow> u32 \<Rightarrow> u32 \<Rightarrow> u32" where
  "rinsn_rtype fn rd rs rt sa =
    push_bit 21 rs OR push_bit 16 rt OR push_bit 11 rd OR push_bit 6 sa OR fn"

definition rinsn_itype :: "u32 \<Rightarrow> u32 \<Rightarrow> u32 \<Rightarrow> u16 \<Rightarrow> u32" where
  "rinsn_itype opc rt rs imm = push_bit 26 opc OR push_bit 21 rs OR push_bit 16 rt OR ucast imm"

definition rinsn_itype_s :: "u32 \<Rightarrow> u32 \<Rightarrow> u32 \<Rightarrow> u16 \<Rightarrow> u32" where
  "rinsn_itype_s opc rt rs imm = rinsn_itype opc rt rs imm"

definition rinsn_jtype :: "u32 \<Rightarrow> u32 \<Rightarrow> u32" where
  "rinsn_jtype opc targ = push_bit 26 opc OR (targ AND 0x03FFFFFF)"

definition rinsn_nop :: u32 where "rinsn_nop = 0"

definition rinsn_sll :: "u32 \<Rightarrow> u32 \<Rightarrow> u32 \<Rightarrow> u32" where
  "rinsn_sll rd rt sa = rinsn_rtype RFN_SLL rd 0 rt sa"

definition rinsn_srl :: "u32 \<Rightarrow> u32 \<Rightarrow> u32 \<Rightarrow> u32" where
  "rinsn_srl rd rt sa = rinsn_rtype RFN_SRL rd 0 rt sa"

definition rinsn_jr :: "u32 \<Rightarrow> u32" where "rinsn_jr rs = rinsn_rtype RFN_JR 0 rs 0 0"

definition rinsn_jalr :: "u32 \<Rightarrow> u32 \<Rightarrow> u32" where
  "rinsn_jalr rd rs = rinsn_rtype RFN_JALR rd rs 0 0"

definition rinsn_brk :: "u32 \<Rightarrow> u32" where
  "rinsn_brk code = rinsn_rtype RFN_BREAK 0 0 0 0 OR push_bit 6 (code AND 0xFFFFF)"

definition rinsn_addu :: "u32 \<Rightarrow> u32 \<Rightarrow> u32 \<Rightarrow> u32" where
  "rinsn_addu rd rs rt = rinsn_rtype RFN_ADDU rd rs rt 0"

definition rinsn_subu :: "u32 \<Rightarrow> u32 \<Rightarrow> u32 \<Rightarrow> u32" where
  "rinsn_subu rd rs rt = rinsn_rtype RFN_SUBU rd rs rt 0"

definition rinsn_and :: "u32 \<Rightarrow> u32 \<Rightarrow> u32 \<Rightarrow> u32" where
  "rinsn_and rd rs rt = rinsn_rtype RFN_AND rd rs rt 0"

definition rinsn_or :: "u32 \<Rightarrow> u32 \<Rightarrow> u32 \<Rightarrow> u32" where
  "rinsn_or rd rs rt = rinsn_rtype RFN_OR rd rs rt 0"

definition rinsn_xor :: "u32 \<Rightarrow> u32 \<Rightarrow> u32 \<Rightarrow> u32" where
  "rinsn_xor rd rs rt = rinsn_rtype RFN_XOR rd rs rt 0"

definition rinsn_slt :: "u32 \<Rightarrow> u32 \<Rightarrow> u32 \<Rightarrow> u32" where
  "rinsn_slt rd rs rt = rinsn_rtype RFN_SLT rd rs rt 0"

definition rinsn_addiu :: "u32 \<Rightarrow> u32 \<Rightarrow> u16 \<Rightarrow> u32" where
  "rinsn_addiu rt rs imm = rinsn_itype_s ROP_ADDIU rt rs imm"

definition rinsn_andi :: "u32 \<Rightarrow> u32 \<Rightarrow> u16 \<Rightarrow> u32" where
  "rinsn_andi rt rs imm = rinsn_itype ROP_ANDI rt rs imm"

definition rinsn_ori :: "u32 \<Rightarrow> u32 \<Rightarrow> u16 \<Rightarrow> u32" where
  "rinsn_ori rt rs imm = rinsn_itype ROP_ORI rt rs imm"

definition rinsn_lui :: "u32 \<Rightarrow> u16 \<Rightarrow> u32" where
  "rinsn_lui rt imm = rinsn_itype ROP_LUI rt 0 imm"

definition rinsn_lw :: "u32 \<Rightarrow> u32 \<Rightarrow> u16 \<Rightarrow> u32" where
  "rinsn_lw rt rs off = rinsn_itype_s ROP_LW rt rs off"

definition rinsn_sw :: "u32 \<Rightarrow> u32 \<Rightarrow> u16 \<Rightarrow> u32" where
  "rinsn_sw rt rs off = rinsn_itype_s ROP_SW rt rs off"

definition rinsn_lb :: "u32 \<Rightarrow> u32 \<Rightarrow> u16 \<Rightarrow> u32" where
  "rinsn_lb rt rs off = rinsn_itype_s ROP_LB rt rs off"

definition rinsn_lbu :: "u32 \<Rightarrow> u32 \<Rightarrow> u16 \<Rightarrow> u32" where
  "rinsn_lbu rt rs off = rinsn_itype_s ROP_LBU rt rs off"

definition rinsn_sb :: "u32 \<Rightarrow> u32 \<Rightarrow> u16 \<Rightarrow> u32" where
  "rinsn_sb rt rs off = rinsn_itype_s ROP_SB rt rs off"

definition rinsn_beq :: "u32 \<Rightarrow> u32 \<Rightarrow> u16 \<Rightarrow> u32" where
  "rinsn_beq rs rt off = rinsn_itype_s ROP_BEQ rt rs off"

definition rinsn_bne :: "u32 \<Rightarrow> u32 \<Rightarrow> u16 \<Rightarrow> u32" where
  "rinsn_bne rs rt off = rinsn_itype_s ROP_BNE rt rs off"

definition rinsn_j :: "u32 \<Rightarrow> u32" where
  "rinsn_j addr = rinsn_jtype ROP_J (drop_bit 2 addr AND 0x3FF)"

definition rinsn_jal :: "u32 \<Rightarrow> u32" where
  "rinsn_jal addr = rinsn_jtype ROP_JAL (drop_bit 2 addr AND 0x3FF)"

definition rinsn_mfc0 :: "u32 \<Rightarrow> u32 \<Rightarrow> u32" where
  "rinsn_mfc0 rt rd = push_bit 26 ROP_COP0 OR push_bit 21 0 OR push_bit 16 rt OR push_bit 11 rd"

definition rinsn_mtc0 :: "u32 \<Rightarrow> u32 \<Rightarrow> u32" where
  "rinsn_mtc0 rt rd = push_bit 26 ROP_COP0 OR push_bit 21 4 OR push_bit 16 rt OR push_bit 11 rd"

definition rinsn_cop2_transfer :: "u32 \<Rightarrow> u32 \<Rightarrow> u32 \<Rightarrow> u32 \<Rightarrow> u32" where
  "rinsn_cop2_transfer subop rt vd elem =
    push_bit 26 ROP_COP2 OR push_bit 21 (subop AND 31) OR push_bit 16 (rt AND 31)
    OR push_bit 11 (vd AND 31) OR push_bit 7 (elem AND 15)"

definition rinsn_mfc2 :: "u32 \<Rightarrow> u32 \<Rightarrow> u32 \<Rightarrow> u32" where
  "rinsn_mfc2 rt vd elem = rinsn_cop2_transfer COP2_MFC rt vd elem"

definition rinsn_cfc2 :: "u32 \<Rightarrow> u32 \<Rightarrow> u32" where
  "rinsn_cfc2 rt control = rinsn_cop2_transfer COP2_CFC rt control 0"

definition rinsn_mtc2 :: "u32 \<Rightarrow> u32 \<Rightarrow> u32 \<Rightarrow> u32" where
  "rinsn_mtc2 rt vd elem = rinsn_cop2_transfer COP2_MTC rt vd elem"

definition rinsn_ctc2 :: "u32 \<Rightarrow> u32 \<Rightarrow> u32" where
  "rinsn_ctc2 rt control = rinsn_cop2_transfer COP2_CTC rt control 0"

definition rinsn_vector :: "u32 \<Rightarrow> u32 \<Rightarrow> u32 \<Rightarrow> u32 \<Rightarrow> u32 \<Rightarrow> u32" where
  "rinsn_vector fn vd vs vt elem =
    push_bit 26 ROP_COP2 OR push_bit 21 (0x10 OR (elem AND 15)) OR push_bit 16 (vt AND 31)
    OR push_bit 11 (vs AND 31) OR push_bit 6 (vd AND 31) OR (fn AND 63)"

definition rinsn_vector_memory :: "bool \<Rightarrow> u32 \<Rightarrow> u32 \<Rightarrow> u32 \<Rightarrow> u32 \<Rightarrow> u8 \<Rightarrow> u32" where
  "rinsn_vector_memory store subop vt base elem offset =
    push_bit 26 (if store then ROP_SWC2 else ROP_LWC2) OR push_bit 21 (base AND 31) OR push_bit 16 (vt AND 31)
    OR push_bit 11 (subop AND 31) OR push_bit 7 (elem AND 15) OR (ucast offset AND 0x7F)"

definition rinsn_lbv :: "u32 \<Rightarrow> u32 \<Rightarrow> u8 \<Rightarrow> u32 \<Rightarrow> u32" where
  "rinsn_lbv vt elem off base = rinsn_vector_memory False VMEM_LBV vt base elem off"

definition rinsn_lsv :: "u32 \<Rightarrow> u32 \<Rightarrow> u8 \<Rightarrow> u32 \<Rightarrow> u32" where
  "rinsn_lsv vt elem off base = rinsn_vector_memory False VMEM_LSV vt base elem off"

definition rinsn_llv :: "u32 \<Rightarrow> u32 \<Rightarrow> u8 \<Rightarrow> u32 \<Rightarrow> u32" where
  "rinsn_llv vt elem off base = rinsn_vector_memory False VMEM_LLV vt base elem off"

definition rinsn_ldv :: "u32 \<Rightarrow> u32 \<Rightarrow> u8 \<Rightarrow> u32 \<Rightarrow> u32" where
  "rinsn_ldv vt elem off base = rinsn_vector_memory False VMEM_LDV vt base elem off"

definition rinsn_lqv :: "u32 \<Rightarrow> u32 \<Rightarrow> u8 \<Rightarrow> u32 \<Rightarrow> u32" where
  "rinsn_lqv vt elem off base = rinsn_vector_memory False VMEM_LQV vt base elem off"

definition rinsn_lrv :: "u32 \<Rightarrow> u32 \<Rightarrow> u8 \<Rightarrow> u32 \<Rightarrow> u32" where
  "rinsn_lrv vt elem off base = rinsn_vector_memory False VMEM_LRV vt base elem off"

definition rinsn_sbv :: "u32 \<Rightarrow> u32 \<Rightarrow> u8 \<Rightarrow> u32 \<Rightarrow> u32" where
  "rinsn_sbv vt elem off base = rinsn_vector_memory True VMEM_LBV vt base elem off"

definition rinsn_ssv :: "u32 \<Rightarrow> u32 \<Rightarrow> u8 \<Rightarrow> u32 \<Rightarrow> u32" where
  "rinsn_ssv vt elem off base = rinsn_vector_memory True VMEM_LSV vt base elem off"

definition rinsn_slv :: "u32 \<Rightarrow> u32 \<Rightarrow> u8 \<Rightarrow> u32 \<Rightarrow> u32" where
  "rinsn_slv vt elem off base = rinsn_vector_memory True VMEM_LLV vt base elem off"

definition rinsn_sdv :: "u32 \<Rightarrow> u32 \<Rightarrow> u8 \<Rightarrow> u32 \<Rightarrow> u32" where
  "rinsn_sdv vt elem off base = rinsn_vector_memory True VMEM_LDV vt base elem off"

definition rinsn_sqv :: "u32 \<Rightarrow> u32 \<Rightarrow> u8 \<Rightarrow> u32 \<Rightarrow> u32" where
  "rinsn_sqv vt elem off base = rinsn_vector_memory True VMEM_LQV vt base elem off"

definition rinsn_srv :: "u32 \<Rightarrow> u32 \<Rightarrow> u8 \<Rightarrow> u32 \<Rightarrow> u32" where
  "rinsn_srv vt elem off base = rinsn_vector_memory True VMEM_LRV vt base elem off"

definition rinsn_lpv :: "u32 \<Rightarrow> u32 \<Rightarrow> u8 \<Rightarrow> u32 \<Rightarrow> u32" where
  "rinsn_lpv vt elem off base = rinsn_vector_memory False VMEM_LPV vt base elem off"

definition rinsn_luv :: "u32 \<Rightarrow> u32 \<Rightarrow> u8 \<Rightarrow> u32 \<Rightarrow> u32" where
  "rinsn_luv vt elem off base = rinsn_vector_memory False VMEM_LUV vt base elem off"

definition rinsn_lhv :: "u32 \<Rightarrow> u32 \<Rightarrow> u8 \<Rightarrow> u32 \<Rightarrow> u32" where
  "rinsn_lhv vt elem off base = rinsn_vector_memory False VMEM_LHV vt base elem off"

definition rinsn_lfv :: "u32 \<Rightarrow> u32 \<Rightarrow> u8 \<Rightarrow> u32 \<Rightarrow> u32" where
  "rinsn_lfv vt elem off base = rinsn_vector_memory False VMEM_LFV vt base elem off"

definition rinsn_ltv :: "u32 \<Rightarrow> u32 \<Rightarrow> u8 \<Rightarrow> u32 \<Rightarrow> u32" where
  "rinsn_ltv vt elem off base = rinsn_vector_memory False VMEM_LTV vt base elem off"

definition rinsn_spv :: "u32 \<Rightarrow> u32 \<Rightarrow> u8 \<Rightarrow> u32 \<Rightarrow> u32" where
  "rinsn_spv vt elem off base = rinsn_vector_memory True VMEM_LPV vt base elem off"

definition rinsn_suv :: "u32 \<Rightarrow> u32 \<Rightarrow> u8 \<Rightarrow> u32 \<Rightarrow> u32" where
  "rinsn_suv vt elem off base = rinsn_vector_memory True VMEM_LUV vt base elem off"

definition rinsn_shv :: "u32 \<Rightarrow> u32 \<Rightarrow> u8 \<Rightarrow> u32 \<Rightarrow> u32" where
  "rinsn_shv vt elem off base = rinsn_vector_memory True VMEM_LHV vt base elem off"

definition rinsn_sfv :: "u32 \<Rightarrow> u32 \<Rightarrow> u8 \<Rightarrow> u32 \<Rightarrow> u32" where
  "rinsn_sfv vt elem off base = rinsn_vector_memory True VMEM_LFV vt base elem off"

definition rinsn_swv :: "u32 \<Rightarrow> u32 \<Rightarrow> u8 \<Rightarrow> u32 \<Rightarrow> u32" where
  "rinsn_swv vt elem off base = rinsn_vector_memory True VMEM_LWV vt base elem off"

definition rinsn_stv :: "u32 \<Rightarrow> u32 \<Rightarrow> u8 \<Rightarrow> u32 \<Rightarrow> u32" where
  "rinsn_stv vt elem off base = rinsn_vector_memory True VMEM_LTV vt base elem off"

section \<open>Words into memory\<close>

text \<open>\<open>store_be32\<close>: a word that does not fit is not written.\<close>

definition rsp_store_be32 :: "u8 list \<Rightarrow> u32 \<Rightarrow> u32 \<Rightarrow> u8 list" where
  "rsp_store_be32 mem off w =
    (if unat (off + 3) \<ge> length mem then mem
     else mem[unat off := ucast (drop_bit 24 w AND 0xFF), unat (off + 1) := ucast (drop_bit 16 w AND 0xFF),
              unat (off + 2) := ucast (drop_bit 8 w AND 0xFF), unat (off + 3) := ucast (w AND 0xFF)])"

definition rsp_store_be32_sp :: "u8 list \<Rightarrow> u32 \<Rightarrow> u32 \<Rightarrow> u8 list" where
  "rsp_store_be32_sp mem off w = rsp_store_be32 mem (off AND 0xFFF) w"

section \<open>The fields of a vector transfer\<close>

lemma rinsn_masks: "(31 :: u32) = mask 5" "(15 :: u32) = mask 4" "(0x3F :: u32) = mask 6" "(0x7F :: u32) = mask 7"
  by (simp_all add: mask_eq_exp_minus_1)

text \<open>The word of a transfer, and its bits by position.\<close>

definition transfer_word :: "u32 \<Rightarrow> u32 \<Rightarrow> u32 \<Rightarrow> u32 \<Rightarrow> u32 \<Rightarrow> u32 \<Rightarrow> u32" where
  "transfer_word k base vt subop e off =
    push_bit 26 k OR push_bit 21 (base AND 31) OR push_bit 16 (vt AND 31) OR push_bit 11 (subop AND 31)
      OR push_bit 7 (e AND 15) OR (off AND 0x7F)"

lemma bit_transfer_word:
  "bit (transfer_word k base vt subop e off) n \<longleftrightarrow> n < 32 \<and>
    (if n < 7 then bit off n else if n < 11 then bit e (n - 7) else if n < 16 then bit subop (n - 11)
     else if n < 21 then bit vt (n - 16) else if n < 26 then bit base (n - 21) else bit k (n - 26))"
  unfolding transfer_word_def rinsn_masks by (auto simp: bit_simps)

lemma transfer_fields:
  "k < 64 \<Longrightarrow> i_op (transfer_word k base vt subop e off) = k"
  "i_rs (transfer_word k base vt subop e off) = base AND 31"
  "i_rt (transfer_word k base vt subop e off) = vt AND 31"
  "i_rd (transfer_word k base vt subop e off) = subop AND 31"
  "drop_bit 7 (transfer_word k base vt subop e off) AND 15 = e AND 15"
  "transfer_word k base vt subop e off AND 0x7F = off AND 0x7F"
  unfolding i_defs rinsn_masks
  by (rule bit_word_eqI; auto simp: bit_simps bit_transfer_word dest: small_bits)+

lemma vector_memory_word:
  "rinsn_vector_memory st subop vt base e off = transfer_word (if st then 0x3A else 0x32) base vt subop e (ucast off)"
  by (simp add: rinsn_vector_memory_def transfer_word_def)

lemma vector_memory_fields:
  "i_op (rinsn_vector_memory st subop vt base e off) = (if st then 0x3A else 0x32)"
  "i_rs (rinsn_vector_memory st subop vt base e off) = base AND 31"
  "i_rt (rinsn_vector_memory st subop vt base e off) = vt AND 31"
  "i_rd (rinsn_vector_memory st subop vt base e off) = subop AND 31"
  "drop_bit 7 (rinsn_vector_memory st subop vt base e off) AND 15 = e AND 15"
  "rinsn_vector_memory st subop vt base e off AND 0x7F = ucast off AND 0x7F"
  unfolding vector_memory_word by (cases st; simp add: transfer_fields)+

lemma vector_memory_address:
  "vmem_address (rinsn_vector_memory st subop vt base e off) r
    = of_int (uint (r_gpr r (base AND 31)) + sign_extend7 (ucast off) * 2 ^ vmem_scale (subop AND 31)) AND 0xFFF"
  by (simp add: vmem_address_def vector_memory_fields sign_extend7_def Let_def)

section \<open>Bytes of the data memory\<close>

lemma store_byte_rsp: "m_rsp (rsp_store_byte a v m) = set_dmem a v (m_rsp m)"
proof -
  have n: "m_rsp (notify_memory_write p s m) = m_rsp m" for p s m
    by (simp add: notify_memory_write_def split: option.split)
  show ?thesis
    by (simp add: rsp_store_byte_def announce_dmem_def n mirror_dmem_def upd_rsp_def set_dmem_def Let_def)
qed

lemma set_dmem_frame [simp]: "r_vpr (set_dmem a v r) = r_vpr r" "r_gpr (set_dmem a v r) = r_gpr r"
  by (simp_all add: set_dmem_def)

lemma dmem_at_set: "dmem_at a (set_dmem b v r) = (if a AND 0xFFF = b AND 0xFFF then v else dmem_at a r)"
  by (simp add: dmem_at_def set_dmem_def arr_wr_def word_unat_eq_iff)

lemma near_addresses:
  assumes "i < 16" "j < 16" "(a + of_nat i) AND 0xFFF = (a + of_nat j :: u32) AND 0xFFF"
  shows "i = j"
proof -
  have m: "(0xFFF :: u32) = mask 12" by (simp add: mask_eq_exp_minus_1)
  have "unat ((a + of_nat k) AND 0xFFF) = (unat a + k) mod 4096" if "k < 16" for k
  proof -
    have "unat ((a + of_nat k) AND 0xFFF) = unat (a + of_nat k) mod 4096"
      unfolding m unat_and_mask by simp
    also have "unat (a + of_nat k) = (unat a + k) mod 2 ^ 32"
      using that by (simp add: unat_word_ariths unat_of_nat)
    also have "\<dots> mod 4096 = (unat a + k) mod 4096" by (simp add: mod_mod_cancel)
    finally show ?thesis .
  qed
  from this [of i] this [of j] have eq: "(unat a + i) mod 4096 = (unat a + j) mod 4096" using assms by simp
  have "\<not> k < l" if "k < 16" "l < 16" "(unat a + k) mod 4096 = (unat a + l) mod 4096" for k l
  proof
    assume "k < l"
    then have "4096 dvd (unat a + l) - (unat a + k)"
      using that(3) mod_eq_dvd_iff_nat [of "unat a + k" "unat a + l" 4096] by simp
    then have "4096 dvd l - k" by simp
    then show False using \<open>k < l\<close> that(2) dvd_imp_le [of 4096 "l - k"] by linarith
  qed
  from this [OF assms(1,2) eq] this [OF assms(2,1) eq [symmetric]] show ?thesis by simp
qed

text \<open>The two loops, on the processor alone.\<close>

lemma vpr_vector_byte: "r_vpr r' = r_vpr r \<Longrightarrow> vector_byte r' = vector_byte r"
  by (simp add: vector_byte_def fun_eq_iff)

lemma store_loop:
  assumes "n \<le> 16" "m' = fold (\<lambda>i. vmem_byte True vs (e + of_nat i) (a + of_nat i)) [0..<n] m"
  shows "r_vpr (m_rsp m') = r_vpr (m_rsp m) \<and> r_gpr (m_rsp m') = r_gpr (m_rsp m)
    \<and> (\<forall>i<n. dmem_at (a + of_nat i) (m_rsp m') = vector_byte (m_rsp m) vs (e + of_nat i))"
  unfolding assms(2) using assms(1)
proof (induction n)
  case (Suc n)
  let ?m = "fold (\<lambda>i. vmem_byte True vs (e + of_nat i) (a + of_nat i)) [0..<n] m"
  have ih: "r_vpr (m_rsp ?m) = r_vpr (m_rsp m)" "r_gpr (m_rsp ?m) = r_gpr (m_rsp m)"
    "\<forall>i<n. dmem_at (a + of_nat i) (m_rsp ?m) = vector_byte (m_rsp m) vs (e + of_nat i)"
    using Suc by simp_all
  have "(a + of_nat i) AND 0xFFF \<noteq> (a + of_nat n) AND 0xFFF" if "i < n" for i
    using near_addresses [of i n a] that Suc.prems by auto
  moreover have "m_rsp (vmem_byte True vs (e + of_nat n) (a + of_nat n) ?m)
      = set_dmem (a + of_nat n) (vector_byte (m_rsp m) vs (e + of_nat n)) (m_rsp ?m)"
    by (simp add: vmem_byte_def store_byte_rsp vpr_vector_byte [OF ih(1)])
  ultimately show ?case
    using ih by (auto simp: dmem_at_set less_Suc_eq)
qed simp

lemma set_vector_byte_frame [simp]:
  "dmem_at a (set_vector_byte reg j v r) = dmem_at a r" "r_gpr (set_vector_byte reg j v r) = r_gpr r"
  by (simp_all add: set_vector_byte_def dmem_at_def Let_def)

lemma half_masks: "(0x00FF :: u16) = mask 8" "(0xFF00 :: u16) = push_bit 8 (mask 8)"
  by (simp_all add: mask_eq_exp_minus_1)

lemma byte_of_halves:
  fixes w :: u16 and v :: u8
  shows "ucast (drop_bit 8 ((w AND 0x00FF) OR push_bit 8 (ucast v) :: u16)) = v" (is ?a)
    and "ucast (((w AND 0x00FF) OR push_bit 8 (ucast v) :: u16) AND 0x00FF) = (ucast (w AND 0x00FF) :: u8)" (is ?b)
    and "ucast (drop_bit 8 ((w AND 0xFF00) OR ucast v :: u16)) = (ucast (drop_bit 8 w) :: u8)" (is ?c)
    and "ucast (((w AND 0xFF00) OR ucast v :: u16) AND 0x00FF) = v" (is ?d)
proof -
  show ?a unfolding half_masks by (rule bit_word_eqI) (auto simp: bit_simps)
  show ?b unfolding half_masks by (rule bit_word_eqI) (auto simp: bit_simps)
  show ?c unfolding half_masks by (rule bit_word_eqI) (auto simp: bit_simps)
  show ?d unfolding half_masks by (rule bit_word_eqI) (auto simp: bit_simps)
qed

lemma byte_index:
  fixes j k :: u32
  assumes "drop_bit 1 (j AND 15) = drop_bit 1 (k AND 15)" "(j AND 1 = 0) = (k AND 1 = 0)"
  shows "j AND 15 = k AND 15"
proof (rule bit_word_eqI)
  fix n assume "n < LENGTH(32)"
  have one: "bit x 0 \<longleftrightarrow> x AND 1 \<noteq> 0" for x :: u32 by (simp add: and_one_eq bit_0 mod_2_eq_odd)
  show "bit (j AND 15) n = bit (k AND 15) n"
  proof (cases n)
    case 0
    have f: "bit (15 :: u32) 0" by simp
    show ?thesis using assms(2) one [of j] one [of k] f by (simp only: 0 bit_and_iff)
  next
    case (Suc n')
    have "bit (drop_bit 1 (j AND 15)) n' = bit (drop_bit 1 (k AND 15)) n'" by (simp only: assms(1))
    then show ?thesis by (simp only: Suc bit_drop_bit_eq o_def plus_1_eq_Suc)
  qed
qed

lemma vector_byte_set:
  "vector_byte (set_vector_byte reg j v r) reg' k
    = (if reg' AND 31 = reg AND 31 \<and> k AND 15 = j AND 15 then v else vector_byte r reg' k)"
proof -
  define x y where "x = drop_bit 1 (k AND 15)" and "y = drop_bit 1 (j AND 15)"
  have low: "u AND 1 = (u AND 15) AND 1" for u :: u32 by (simp add: "and.assoc")
  have same: "k AND 15 = j AND 15 \<longleftrightarrow> x = y \<and> ((k AND 1 = 0) = (j AND 1 = 0))"
    unfolding x_def y_def using byte_index [of k j] low [of k] low [of j] by metis
  have u: "unat x = unat y \<longleftrightarrow> x = y" by (simp add: word_unat_eq_iff)
  show ?thesis
    unfolding same vector_byte_def set_vector_byte_def Let_def x_def [symmetric] y_def [symmetric]
    using byte_of_halves u by auto
qed

lemma load_loop:
  assumes "n \<le> 16 - unat e" "e < 16" "m' = fold (\<lambda>i. vmem_byte False vt (e + of_nat i) (a + of_nat i)) [0..<n] m"
  shows "(\<forall>x. dmem_at x (m_rsp m') = dmem_at x (m_rsp m))
    \<and> (\<forall>reg j. j < 16 \<longrightarrow> vector_byte (m_rsp m') reg (of_nat j)
        = (if reg AND 31 = vt AND 31 \<and> unat e \<le> j \<and> j < unat e + n
           then dmem_at (a + of_nat (j - unat e)) (m_rsp m) else vector_byte (m_rsp m) reg (of_nat j)))"
  unfolding assms(3) using assms(1)
proof (induction n)
  case 0
  then show ?case by auto
next
  case (Suc n)
  let ?m = "fold (\<lambda>i. vmem_byte False vt (e + of_nat i) (a + of_nat i)) [0..<n] m"
  have ih: "\<forall>x. dmem_at x (m_rsp ?m) = dmem_at x (m_rsp m)"
    "\<forall>reg j. j < 16 \<longrightarrow> vector_byte (m_rsp ?m) reg (of_nat j)
        = (if reg AND 31 = vt AND 31 \<and> unat e \<le> j \<and> j < unat e + n
           then dmem_at (a + of_nat (j - unat e)) (m_rsp m) else vector_byte (m_rsp m) reg (of_nat j))"
    using Suc by simp_all
  have en: "unat e + n < 16" using Suc.prems by simp
  have idx: "(of_nat j AND 15 = (e + of_nat n) AND 15) = (j = unat e + n)" if "j < 16" for j
  proof -
    have m4: "(15 :: u32) = mask 4" by (simp add: mask_eq_exp_minus_1)
    have self: "(of_nat k :: u32) AND 15 = of_nat k" if "k < 16" for k
      unfolding m4 by (rule word_mask_self) (use that in \<open>simp add: unat_of_nat\<close>)
    have s: "e + of_nat n = (of_nat (unat e + n) :: u32)" by simp
    have "(of_nat j AND 15 = (e + of_nat n) AND 15) = ((of_nat j :: u32) = of_nat (unat e + n))"
      unfolding s self [OF that] self [OF en] ..
    also have "\<dots> = (unat (of_nat j :: u32) = unat (of_nat (unat e + n) :: u32))" by (rule word_unat_eq_iff)
    also have "\<dots> = (j = unat e + n)"
      using that en unfolding unat_of_nat by simp
    finally show ?thesis .
  qed
  have step: "m_rsp (vmem_byte False vt (e + of_nat n) (a + of_nat n) ?m)
      = set_vector_byte vt (e + of_nat n) (dmem_at (a + of_nat n) (m_rsp m)) (m_rsp ?m)"
  proof -
    have "(ucast (ucast b :: u32) :: u8) = b" for b :: u8
      by (rule bit_word_eqI) (simp add: bit_simps)
    then show ?thesis using ih(1) by (simp only: vmem_byte_def upd_rsp_def rsp_load_byte_def if_False) simp
  qed
  show ?case
    using ih idx by (auto simp: step vector_byte_set less_Suc_eq)
qed

section \<open>A vector through memory\<close>

text \<open>The bytes of the register a transfer moves: the size of the element, or up to the next quadword,
  and never past the end of the register.\<close>

definition transfer_size :: "u32 \<Rightarrow> u32 \<Rightarrow> u32 \<Rightarrow> nat" where
  "transfer_size subop e address =
    (if subop \<le> 3 then min (2 ^ unat subop) (16 - unat e) else min (16 - unat (address AND 15)) (16 - unat e))"

lemma vector_memory_runs:
  assumes "subop \<le> 4" "e < 16"
    and "address = of_int (uint (r_gpr (m_rsp m) (base AND 31)) + sign_extend7 (ucast off) * 2 ^ vmem_scale subop) AND 0xFFF"
  shows "rsp_execute (rinsn_vector_memory st subop v base e off) m
    = fold (\<lambda>i. vmem_byte st (v AND 31) (e + of_nat i) (address + of_nat i)) [0..<transfer_size subop e address] m"
proof -
  have m: "(31 :: u32) = mask 5" "(15 :: u32) = mask 4" by (simp_all add: mask_eq_exp_minus_1)
  have s: "subop AND 31 = subop"
    unfolding m by (rule word_mask_self) (use assms(1) in \<open>simp add: word_le_nat_alt\<close>)
  have e: "e AND 15 = e" unfolding m by (rule word_mask_self) (use assms(2) in \<open>simp add: word_less_nat_alt\<close>)
  have cases: "\<not> subop > 11" "subop \<noteq> 6" "subop \<noteq> 7" "subop \<noteq> 8" "subop \<noteq> 9" "subop \<noteq> 10" "subop \<noteq> 11"
    "\<not> subop \<le> 3 \<Longrightarrow> subop = 4"
    using assms(1) by (simp_all add: word_le_nat_alt word_less_nat_alt word_unat_eq_iff)
  have run: "rsp_execute (rinsn_vector_memory st subop v base e off) m
      = exec_vector_memory (rinsn_vector_memory st subop v base e off) st m"
    by (cases st) (simp_all add: rsp_execute_def vector_memory_fields Let_def)
  note neq = cases(1-7)
  have body: "exec_vector_memory (rinsn_vector_memory st subop v base e off) st m =
      (if subop \<le> 3 then
         fold (\<lambda>i. vmem_byte st (v AND 31) (e + of_nat i) (address + of_nat i)) [0..<min (2 ^ unat subop) (16 - unat e)] m
       else if subop = 4 then
         fold (\<lambda>i. vmem_byte st (v AND 31) (e + of_nat i) (address + of_nat i))
           [0..<min (16 - unat (address AND 15)) (16 - unat e)] m
       else
         (let count = unat (address AND 15); aligned = address AND NOT 15
          in fold (\<lambda>i. vmem_byte st (v AND 31) ((e + (16 - of_nat count) + of_nat i) AND 15) (aligned + of_nat i)) [0..<count] m))"
    unfolding exec_vector_memory_def vector_memory_fields vector_memory_address s e
    by (simp only: Let_def neq if_False simp_thms assms(3) [symmetric])
  show ?thesis
  proof (cases "subop \<le> 3")
    case True
    then show ?thesis by (simp only: run body transfer_size_def if_True)
  next
    case False
    from cases(8) [OF False] have "(subop = 4) = True" by simp
    then show ?thesis using False by (simp only: run body transfer_size_def if_False if_True)
  qed
qed



end
