(* ===== verification/Input.thy ===== *)
theory Input
  imports Joybus "HOL-Library.Signed_Division"
begin

unbundle bit_operations_syntax

text \<open>
  The input mapper (\<open>frontend/input.hpp\<close>, \<open>frontend/input.cpp\<close>): keyboard and game controller
  events to the state of the first pad. SDL's events are the data the handlers read of them; the
  codes of buttons and axes are those of \<open>SDL_gamecontroller.h\<close>. Opening and closing the device
  is left out. The signed stick bytes are held as the bytes they are, as in \<open>Joybus\<close>.
\<close>

section \<open>Buttons and events\<close>

datatype n64_button = CRight | CLeft | CDown | CUp | BtnR | BtnL | DRight | DLeft | DDown | DUp
  | Start | BtnZ | BtnB | BtnA

fun button_bit :: "n64_button \<Rightarrow> u16" where
  "button_bit CRight = 0x0001"
| "button_bit CLeft = 0x0002"
| "button_bit CDown = 0x0004"
| "button_bit CUp = 0x0008"
| "button_bit BtnR = 0x0010"
| "button_bit BtnL = 0x0020"
| "button_bit DRight = 0x0100"
| "button_bit DLeft = 0x0200"
| "button_bit DDown = 0x0400"
| "button_bit DUp = 0x0800"
| "button_bit Start = 0x1000"
| "button_bit BtnZ = 0x2000"
| "button_bit BtnB = 0x4000"
| "button_bit BtnA = 0x8000"

datatype scancode = ScZ | ScX | ScReturn | ScC | ScA | ScQ | ScE | ScUp | ScDown | ScLeft | ScRight
  | ScI | ScK | ScJ | ScL | ScW | ScS | ScD | ScOther nat

record key_event =
  ke_scancode :: scancode
  ke_pressed :: bool
  ke_repeat :: bool

datatype pad_axis = LeftX | LeftY | RightX | RightY | TriggerLeft | TriggerRight | OtherAxis

datatype input_event = Key key_event | PadButton u8 bool | PadAxis pad_axis "16 word"

section \<open>The mapper\<close>

record input_mapper =
  in_key_buttons :: u16
  in_key_stick_x :: u8
  in_key_stick_y :: u8
  in_key_w :: bool
  in_key_a :: bool
  in_key_s :: bool
  in_key_d :: bool
  in_pad_buttons :: u16
  in_pad_axes :: u16
  in_pad_stick_x :: u8
  in_pad_stick_y :: u8
  in_pad_down :: "bool list"
  in_trigger_left :: bool
  in_trigger_right :: bool

definition mapper_new :: input_mapper where
  "mapper_new = \<lparr>in_key_buttons = 0, in_key_stick_x = 0, in_key_stick_y = 0, in_key_w = False,
     in_key_a = False, in_key_s = False, in_key_d = False, in_pad_buttons = 0, in_pad_axes = 0,
     in_pad_stick_x = 0, in_pad_stick_y = 0, in_pad_down = replicate 32 False,
     in_trigger_left = False, in_trigger_right = False\<rparr>"

definition clamp_stick :: "int \<Rightarrow> u8" where
  "clamp_stick v = (if v > 127 then word_of_int 127 else if v < -128 then word_of_int (-128) else word_of_int v)"

definition set_key_button :: "n64_button \<Rightarrow> bool \<Rightarrow> input_mapper \<Rightarrow> input_mapper" where
  "set_key_button b down m =
    (if down then m\<lparr>in_key_buttons := in_key_buttons m OR button_bit b\<rparr>
     else m\<lparr>in_key_buttons := in_key_buttons m AND NOT (button_bit b)\<rparr>)"

definition recompute_key_stick :: "input_mapper \<Rightarrow> input_mapper" where
  "recompute_key_stick m =
    (let x = (if in_key_d m then 80 else 0) - (if in_key_a m then 80 else 0);
         y = (if in_key_w m then 80 else 0) - (if in_key_s m then 80 else 0)
     in m\<lparr>in_key_stick_x := clamp_stick x, in_key_stick_y := clamp_stick y\<rparr>)"

text \<open>The switch of \<open>on_key\<close>; the key of the stick's left direction is handled behind it.\<close>

fun key_switch :: "scancode \<Rightarrow> bool \<Rightarrow> input_mapper \<Rightarrow> input_mapper" where
  "key_switch ScZ down m = set_key_button BtnA down m"
| "key_switch ScX down m = set_key_button BtnB down m"
| "key_switch ScReturn down m = set_key_button Start down m"
| "key_switch ScC down m = set_key_button BtnZ down m"
| "key_switch ScA down m = m"
| "key_switch ScQ down m = set_key_button BtnL down m"
| "key_switch ScE down m = set_key_button BtnR down m"
| "key_switch ScUp down m = set_key_button DUp down m"
| "key_switch ScDown down m = set_key_button DDown down m"
| "key_switch ScLeft down m = set_key_button DLeft down m"
| "key_switch ScRight down m = set_key_button DRight down m"
| "key_switch ScI down m = set_key_button CUp down m"
| "key_switch ScK down m = set_key_button CDown down m"
| "key_switch ScJ down m = set_key_button CLeft down m"
| "key_switch ScL down m = set_key_button CRight down m"
| "key_switch ScW down m = recompute_key_stick (m\<lparr>in_key_w := down\<rparr>)"
| "key_switch ScS down m = recompute_key_stick (m\<lparr>in_key_s := down\<rparr>)"
| "key_switch ScD down m = recompute_key_stick (m\<lparr>in_key_d := down\<rparr>)"
| "key_switch (ScOther _) down m = m"

definition on_key :: "key_event \<Rightarrow> input_mapper \<Rightarrow> input_mapper" where
  "on_key e m =
    (if ke_repeat e then m
     else
       (let down = ke_pressed e; m1 = key_switch (ke_scancode e) down m
        in if ke_scancode e = ScA then recompute_key_stick (m1\<lparr>in_key_a := down\<rparr>) else m1))"

definition axis_to_stick :: "int \<Rightarrow> u8" where
  "axis_to_stick axis =
    (if axis > -8000 \<and> axis < 8000 then 0 else clamp_stick ((axis * 80) sdiv 32767))"

definition pad_held :: "input_mapper \<Rightarrow> nat \<Rightarrow> bool" where
  "pad_held m i \<longleftrightarrow> i < length (in_pad_down m) \<and> in_pad_down m ! i"

definition set_if :: "n64_button \<Rightarrow> bool \<Rightarrow> u16 \<Rightarrow> u16" where
  "set_if b down buttons = (if down then buttons OR button_bit b else buttons)"

definition recompute_pad_buttons :: "input_mapper \<Rightarrow> input_mapper" where
  "recompute_pad_buttons m =
    (let held = pad_held m;
         b0 = set_if BtnA (held 0 \<or> held 3) 0;
         b1 = set_if BtnB (held 1 \<or> held 2) b0;
         b2 = set_if Start (held 6) b1;
         b3 = set_if BtnZ (held 4 \<or> held 8 \<or> in_trigger_left m \<or> in_trigger_right m) b2;
         b4 = set_if BtnL (held 9) b3;
         b5 = set_if BtnR (held 10) b4;
         b6 = set_if DUp (held 11) b5;
         b7 = set_if DDown (held 12) b6;
         b8 = set_if DLeft (held 13) b7;
         b9 = set_if DRight (held 14) b8
     in m\<lparr>in_pad_buttons := b9\<rparr>)"

definition on_controller_button :: "u8 \<Rightarrow> bool \<Rightarrow> input_mapper \<Rightarrow> input_mapper" where
  "on_controller_button b down m =
    (if unat b \<ge> length (in_pad_down m) then m
     else recompute_pad_buttons (m\<lparr>in_pad_down := (in_pad_down m)[unat b := down]\<rparr>))"

fun on_controller_axis :: "pad_axis \<Rightarrow> 16 word \<Rightarrow> input_mapper \<Rightarrow> input_mapper" where
  "on_controller_axis LeftX v m = m\<lparr>in_pad_stick_x := axis_to_stick (sint v)\<rparr>"
| "on_controller_axis LeftY v m = m\<lparr>in_pad_stick_y := axis_to_stick (- sint v)\<rparr>"
| "on_controller_axis TriggerRight v m = recompute_pad_buttons (m\<lparr>in_trigger_right := sint v > 16000\<rparr>)"
| "on_controller_axis TriggerLeft v m = recompute_pad_buttons (m\<lparr>in_trigger_left := sint v > 16000\<rparr>)"
| "on_controller_axis RightX v m =
    (let m1 = m\<lparr>in_pad_axes := in_pad_axes m AND NOT (button_bit CLeft OR button_bit CRight)\<rparr> in
     if sint v > 16000 then m1\<lparr>in_pad_axes := in_pad_axes m1 OR button_bit CRight\<rparr>
     else if sint v < -16000 then m1\<lparr>in_pad_axes := in_pad_axes m1 OR button_bit CLeft\<rparr>
     else m1)"
| "on_controller_axis RightY v m =
    (let m1 = m\<lparr>in_pad_axes := in_pad_axes m AND NOT (button_bit CUp OR button_bit CDown)\<rparr> in
     if sint v < -16000 then m1\<lparr>in_pad_axes := in_pad_axes m1 OR button_bit CUp\<rparr>
     else if sint v > 16000 then m1\<lparr>in_pad_axes := in_pad_axes m1 OR button_bit CDown\<rparr>
     else m1)"
| "on_controller_axis OtherAxis v m = m"

definition mapper_state :: "input_mapper \<Rightarrow> controller_state" where
  "mapper_state m =
    (let stick = (if in_pad_stick_x m \<noteq> 0 \<or> in_pad_stick_y m \<noteq> 0
           then (in_pad_stick_x m, in_pad_stick_y m) else (in_key_stick_x m, in_key_stick_y m))
     in \<lparr>cs_buttons = in_key_buttons m OR in_pad_buttons m OR in_pad_axes m,
         cs_stick_x = fst stick, cs_stick_y = snd stick, cs_present = True\<rparr>)"

definition apply_to :: "input_mapper \<Rightarrow> pif \<Rightarrow> pif" where
  "apply_to m p = set_controller 0 (mapper_state m) p"

fun on_input :: "input_event \<Rightarrow> input_mapper \<Rightarrow> input_mapper" where
  "on_input (Key e) m = on_key e m"
| "on_input (PadButton b down) m = on_controller_button b down m"
| "on_input (PadAxis a v) m = on_controller_axis a v m"

section \<open>What is held\<close>

text \<open>The specification keeps the physical state only: which keys and pad buttons are down, and
  where the axes stand. The pad state is a function of it.\<close>

record held =
  h_key :: "scancode \<Rightarrow> bool"
  h_button :: "nat \<Rightarrow> bool"
  h_axis :: "pad_axis \<Rightarrow> int"

definition released :: held where
  "released = \<lparr>h_key = (\<lambda>_. False), h_button = (\<lambda>_. False), h_axis = (\<lambda>_. 0)\<rparr>"

fun hold :: "input_event \<Rightarrow> held \<Rightarrow> held" where
  "hold (Key e) h = (if ke_repeat e then h else h\<lparr>h_key := (h_key h)(ke_scancode e := ke_pressed e)\<rparr>)"
| "hold (PadButton b down) h = h\<lparr>h_button := (h_button h)(unat b := down)\<rparr>"
| "hold (PadAxis a v) h = h\<lparr>h_axis := (h_axis h)(a := sint v)\<rparr>"

fun button_key :: "n64_button \<Rightarrow> scancode" where
  "button_key CRight = ScL" | "button_key CLeft = ScJ" | "button_key CDown = ScK"
| "button_key CUp = ScI" | "button_key BtnR = ScE" | "button_key BtnL = ScQ"
| "button_key DRight = ScRight" | "button_key DLeft = ScLeft" | "button_key DDown = ScDown"
| "button_key DUp = ScUp" | "button_key Start = ScReturn" | "button_key BtnZ = ScC"
| "button_key BtnB = ScX" | "button_key BtnA = ScZ"

fun pad_pressed :: "held \<Rightarrow> n64_button \<Rightarrow> bool" where
  "pad_pressed h BtnA = (h_button h 0 \<or> h_button h 3)"
| "pad_pressed h BtnB = (h_button h 1 \<or> h_button h 2)"
| "pad_pressed h Start = h_button h 6"
| "pad_pressed h BtnZ = (h_button h 4 \<or> h_button h 8 \<or> h_axis h TriggerLeft > 16000
    \<or> h_axis h TriggerRight > 16000)"
| "pad_pressed h BtnL = h_button h 9"
| "pad_pressed h BtnR = h_button h 10"
| "pad_pressed h DUp = h_button h 11"
| "pad_pressed h DDown = h_button h 12"
| "pad_pressed h DLeft = h_button h 13"
| "pad_pressed h DRight = h_button h 14"
| "pad_pressed h _ = False"

fun axis_pressed :: "held \<Rightarrow> n64_button \<Rightarrow> bool" where
  "axis_pressed h CRight = (h_axis h RightX > 16000)"
| "axis_pressed h CLeft = (h_axis h RightX < -16000)"
| "axis_pressed h CDown = (h_axis h RightY > 16000)"
| "axis_pressed h CUp = (h_axis h RightY < -16000)"
| "axis_pressed h _ = False"

definition pressed :: "held \<Rightarrow> n64_button \<Rightarrow> bool" where
  "pressed h b \<longleftrightarrow> h_key h (button_key b) \<or> pad_pressed h b \<or> axis_pressed h b"

definition stick_of :: "held \<Rightarrow> int \<times> int" where
  "stick_of h =
    (let axis = (\<lambda>v. if \<bar>v\<bar> < 8000 then 0 else (v * 80) sdiv 32767);
         dir = (\<lambda>p n. (if h_key h p then 80 else 0) - (if h_key h n then 80 else 0));
         pad = (axis (h_axis h LeftX), axis (- h_axis h LeftY))
     in if pad \<noteq> (0, 0) then pad else (dir ScD ScA, dir ScW ScS))"


section \<open>Button masks\<close>

fun button_index :: "n64_button \<Rightarrow> nat" where
  "button_index CRight = 0" | "button_index CLeft = 1" | "button_index CDown = 2"
| "button_index CUp = 3" | "button_index BtnR = 4" | "button_index BtnL = 5"
| "button_index DRight = 8" | "button_index DLeft = 9" | "button_index DDown = 10"
| "button_index DUp = 11" | "button_index Start = 12" | "button_index BtnZ = 13"
| "button_index BtnB = 14" | "button_index BtnA = 15"

lemma button_bit_index: "button_bit b = push_bit (button_index b) 1"
  by (cases b) simp_all

lemma button_index_range: "button_index b < 16" "button_index b \<noteq> 6" "button_index b \<noteq> 7"
  by (cases b; simp)+

lemma button_index_inj [simp]: "button_index b = button_index c \<longleftrightarrow> b = c"
  by (cases b; cases c) simp_all

definition all_buttons :: "n64_button list" where
  "all_buttons = [BtnA, BtnB, Start, BtnZ, BtnL, BtnR, DUp, DDown, DLeft, DRight, CUp, CDown, CLeft, CRight]"

lemma set_all_buttons [simp]: "set all_buttons = UNIV"
proof (intro UNIV_eq_I [symmetric])
  show "b \<in> set all_buttons" for b by (cases b) (simp_all add: all_buttons_def)
qed

text \<open>The mask of a set of buttons.\<close>

definition button_mask :: "(n64_button \<Rightarrow> bool) \<Rightarrow> u16" where
  "button_mask P = fold (\<lambda>b. set_if b (P b)) all_buttons 0"

lemma bit_set_if: "bit (set_if b down w) n \<longleftrightarrow> bit w n \<or> down \<and> n = button_index b"
  using button_index_range [of b] by (auto simp: set_if_def button_bit_index bit_simps)

lemma bit_fold_set_if:
  "bit (fold (\<lambda>b. set_if b (P b)) bs w) n \<longleftrightarrow> bit w n \<or> (\<exists>b\<in>set bs. P b \<and> n = button_index b)"
  by (induction bs arbitrary: w) (auto simp: bit_set_if)

lemma bit_button_mask: "bit (button_mask P) n \<longleftrightarrow> (\<exists>b. P b \<and> n = button_index b)"
  by (simp add: button_mask_def bit_fold_set_if)

lemma button_mask_update:
  "button_mask P OR button_bit b = button_mask (P(b := True))"
  "button_mask P AND NOT (button_bit b) = button_mask (P(b := False))"
  by (rule bit_word_eqI; auto simp: bit_button_mask button_bit_index bit_simps)+

lemma button_mask_or: "button_mask P OR button_mask Q = button_mask (\<lambda>b. P b \<or> Q b)"
  by (rule bit_word_eqI) (auto simp: bit_button_mask bit_simps)

lemma button_in_mask:
  "cs_buttons c = button_mask P \<Longrightarrow> button (button_bit b) c \<longleftrightarrow> P b"
  by (simp only: button_def button_bit_index bit_iff_and_push_bit_not_eq_0 [symmetric] bit_button_mask)
    auto

lemma reserved_clear: "button_mask P AND 0x00C0 = 0"
proof -
  have e: "(0x00C0 :: u16) = push_bit 6 (mask 2)" by (simp add: mask_eq_exp_minus_1)
  show ?thesis
  proof (rule bit_word_eqI)
    fix n assume "n < LENGTH(16)"
    show "bit (button_mask P AND 0x00C0) n = bit (0 :: u16) n"
      unfolding e
    proof (cases "bit (button_mask P) n")
      case True
      then obtain b where "n = button_index b" by (auto simp: bit_button_mask)
      then show "bit (button_mask P AND push_bit 6 (mask 2)) n = bit (0 :: u16) n"
        using button_index_range [of b] by (auto simp: bit_simps)
    qed (simp add: bit_simps)
  qed
qed

section \<open>The stick\<close>

lemma stick_byte:
  assumes "\<bar>v\<bar> \<le> 80"
  shows "sint (clamp_stick v) = v" "clamp_stick v = 0 \<longleftrightarrow> v = 0"
proof -
  have "- 80 \<le> v" "v \<le> 80" using assms by linarith+
  then show s: "sint (clamp_stick v) = v"
    by (simp add: clamp_stick_def sint_sbintrunc' signed_take_bit_int_eq_self)
  have "sint (clamp_stick v) = 0 \<longleftrightarrow> clamp_stick v = 0"
    by (metis signed_0 signed_word_eqI)
  then show "clamp_stick v = 0 \<longleftrightarrow> v = 0" using s by simp
qed

definition axis_value :: "int \<Rightarrow> int" where
  "axis_value v = (if \<bar>v\<bar> < 8000 then 0 else (v * 80) sdiv 32767)"

lemma axis_value_bound:
  assumes "\<bar>v\<bar> \<le> 32768"
  shows "\<bar>axis_value v\<bar> \<le> 80"
proof -
  have "\<bar>v * 80\<bar> div 32767 \<le> 80" using assms by simp
  moreover have "0 \<le> \<bar>v * 80\<bar> div 32767" by simp
  ultimately show ?thesis
    by (auto simp: axis_value_def signed_divide_int_def abs_mult abs_sgn_eq)
qed

lemma axis_to_stick_value: "axis_to_stick v = clamp_stick (axis_value v)"
proof -
  have "clamp_stick 0 = 0" by (simp add: clamp_stick_def)
  then show ?thesis by (auto simp: axis_to_stick_def axis_value_def)
qed

section \<open>The mapper implements the specification\<close>

definition key_dir :: "held \<Rightarrow> scancode \<Rightarrow> scancode \<Rightarrow> int" where
  "key_dir h p n = (if h_key h p then 80 else 0) - (if h_key h n then 80 else 0)"

definition tracks :: "input_mapper \<Rightarrow> held \<Rightarrow> bool" where
  "tracks m h \<longleftrightarrow> in_key_buttons m = button_mask (\<lambda>b. h_key h (button_key b))
    \<and> in_key_w m = h_key h ScW \<and> in_key_a m = h_key h ScA \<and> in_key_s m = h_key h ScS
    \<and> in_key_d m = h_key h ScD
    \<and> in_key_stick_x m = clamp_stick (key_dir h ScD ScA)
    \<and> in_key_stick_y m = clamp_stick (key_dir h ScW ScS)
    \<and> in_pad_buttons m = button_mask (pad_pressed h) \<and> in_pad_axes m = button_mask (axis_pressed h)
    \<and> in_pad_stick_x m = axis_to_stick (h_axis h LeftX)
    \<and> in_pad_stick_y m = axis_to_stick (- h_axis h LeftY)
    \<and> length (in_pad_down m) = 32 \<and> (\<forall>i<32. in_pad_down m ! i = h_button h i)
    \<and> in_trigger_left m = (h_axis h TriggerLeft > 16000)
    \<and> in_trigger_right m = (h_axis h TriggerRight > 16000)
    \<and> (\<forall>a. \<bar>h_axis h a\<bar> \<le> 32768)"

lemma tracks_init: "tracks mapper_new released"
proof -
  have z: "button_mask P = 0" if "\<And>b. \<not> P b" for P
    using that by (intro bit_word_eqI) (simp add: bit_button_mask)
  have "\<not> pad_pressed released b" "\<not> axis_pressed released b" for b
    by (cases b; simp add: released_def)+
  then show ?thesis
    by (simp add: tracks_def mapper_new_def z key_dir_def released_def axis_to_stick_def clamp_stick_def)
qed


lemma pressed_frame [simp]:
  "pad_pressed (h\<lparr>h_key := k\<rparr>) = pad_pressed h"
  "axis_pressed (h\<lparr>h_key := k\<rparr>) = axis_pressed h"
  "axis_pressed (h\<lparr>h_button := g\<rparr>) = axis_pressed h"
proof -
  have "pad_pressed (h\<lparr>h_key := k\<rparr>) b = pad_pressed h b"
    "axis_pressed (h\<lparr>h_key := k\<rparr>) b = axis_pressed h b"
    "axis_pressed (h\<lparr>h_button := g\<rparr>) b = axis_pressed h b" for b
    by (cases b; simp)+
  then show "pad_pressed (h\<lparr>h_key := k\<rparr>) = pad_pressed h"
    "axis_pressed (h\<lparr>h_key := k\<rparr>) = axis_pressed h"
    "axis_pressed (h\<lparr>h_button := g\<rparr>) = axis_pressed h" by auto
qed

lemma key_dir_frame [simp]:
  "key_dir (h\<lparr>h_button := g\<rparr>) p n = key_dir h p n" "key_dir (h\<lparr>h_axis := x\<rparr>) p n = key_dir h p n"
  by (simp_all add: key_dir_def)

lemma key_mask_update:
  "button_key b = k \<Longrightarrow> (\<lambda>c. (f(k := d)) (button_key c)) = (\<lambda>c. f (button_key c))(b := d)"
  "(\<And>b. button_key b \<noteq> k) \<Longrightarrow> (\<lambda>c. (f(k := d)) (button_key c)) = (\<lambda>c. f (button_key c))"
proof -
  have inj: "button_key c = button_key b \<longleftrightarrow> c = b" for c by (cases b; cases c) simp_all
  show "button_key b = k \<Longrightarrow> (\<lambda>c. (f(k := d)) (button_key c)) = (\<lambda>c. f (button_key c))(b := d)"
    using inj by auto
qed auto

lemma stick_keys: "button_key b \<noteq> ScA" "button_key b \<noteq> ScW" "button_key b \<noteq> ScS" "button_key b \<noteq> ScD"
  "button_key b \<noteq> ScOther n"
  by (cases b; simp)+

lemma set_key_button_value:
  "set_key_button b d m = m\<lparr>in_key_buttons :=
    (if d then in_key_buttons m OR button_bit b else in_key_buttons m AND NOT (button_bit b))\<rparr>"
  by (simp add: set_key_button_def)

lemma tracks_button_key:
  assumes "tracks m h" "button_key b = k" "k \<notin> {ScA, ScW, ScS, ScD}"
  shows "tracks (set_key_button b d m) (h\<lparr>h_key := (h_key h)(k := d)\<rparr>)"
proof -
  have f: "((h_key h)(k := d)) c = h_key h c" if "c \<in> {ScA, ScW, ScS, ScD}" for c
    using that assms(3) by auto
  note fs = f [of ScA] f [of ScW] f [of ScS] f [of ScD]
  show ?thesis
    using assms(1) fs
    by (simp add: tracks_def set_key_button_value button_mask_update key_mask_update(1) [OF assms(2)]
        key_dir_def del: fun_upd_apply)
qed

lemma tracks_stick_key:
  assumes "tracks m h"
  shows "tracks (recompute_key_stick (m\<lparr>in_key_w := d\<rparr>)) (h\<lparr>h_key := (h_key h)(ScW := d)\<rparr>)"
    "tracks (recompute_key_stick (m\<lparr>in_key_a := d\<rparr>)) (h\<lparr>h_key := (h_key h)(ScA := d)\<rparr>)"
    "tracks (recompute_key_stick (m\<lparr>in_key_s := d\<rparr>)) (h\<lparr>h_key := (h_key h)(ScS := d)\<rparr>)"
    "tracks (recompute_key_stick (m\<lparr>in_key_d := d\<rparr>)) (h\<lparr>h_key := (h_key h)(ScD := d)\<rparr>)"
    "tracks m (h\<lparr>h_key := (h_key h)(ScOther n := d)\<rparr>)"
  using assms
  by (simp_all add: tracks_def recompute_key_stick_def Let_def key_mask_update(2) stick_keys key_dir_def)

lemma tracks_key:
  assumes "tracks m h"
  shows "tracks (on_key e m) (hold (Key e) h)"
proof (cases "ke_scancode e")
qed (simp_all add: on_key_def Let_def assms tracks_stick_key [OF assms] tracks_button_key [OF assms])

lemma recompute_pad_mask:
  assumes "length (in_pad_down m) = 32" "\<forall>i<32. in_pad_down m ! i = h_button h i"
    and "in_trigger_left m = (h_axis h TriggerLeft > 16000)"
    and "in_trigger_right m = (h_axis h TriggerRight > 16000)"
  shows "recompute_pad_buttons m = m\<lparr>in_pad_buttons := button_mask (pad_pressed h)\<rparr>"
proof -
  have off: "set_if b False w = w" for b w by (simp add: set_if_def)
  show ?thesis
    using assms by (simp add: recompute_pad_buttons_def Let_def pad_held_def button_mask_def all_buttons_def off)
qed

lemma tracks_pad_button:
  assumes "tracks m h"
  shows "tracks (on_controller_button b d m) (hold (PadButton b d) h)"
proof (cases "32 \<le> unat b")
  case True
  have "pad_pressed (h\<lparr>h_button := (h_button h)(unat b := d)\<rparr>) = pad_pressed h"
  proof
    show "pad_pressed (h\<lparr>h_button := (h_button h)(unat b := d)\<rparr>) c = pad_pressed h c" for c
      using True by (cases c) auto
  qed
  then show ?thesis
    using assms True by (simp add: tracks_def on_controller_button_def)
next
  case False
  let ?m = "m\<lparr>in_pad_down := (in_pad_down m)[unat b := d]\<rparr>" and ?h = "hold (PadButton b d) h"
  have "recompute_pad_buttons ?m = ?m\<lparr>in_pad_buttons := button_mask (pad_pressed ?h)\<rparr>"
    using assms False by (intro recompute_pad_mask) (auto simp: tracks_def nth_list_update)
  then show ?thesis
    using assms False by (simp add: tracks_def on_controller_button_def nth_list_update)
qed

lemma axis_range: "\<bar>sint (v :: 16 word)\<bar> \<le> 32768"
  using sint_greater_eq [of v] sint_less [of v] by simp

lemma right_stick_masks:
  assumes "in_pad_axes m = button_mask P"
  shows "on_controller_axis RightX v m = m\<lparr>in_pad_axes :=
      button_mask (P(CLeft := sint v < -16000, CRight := sint v > 16000))\<rparr>"
    "on_controller_axis RightY v m = m\<lparr>in_pad_axes :=
      button_mask (P(CUp := sint v < -16000, CDown := sint v > 16000))\<rparr>"
  by (simp_all add: assms Let_def and.assoc [symmetric] button_mask_update fun_upd_twist del: button_bit.simps)

lemma tracks_axis:
  assumes "tracks m h"
  shows "tracks (on_controller_axis a v m) (hold (PadAxis a v) h)"
proof -
  let ?h = "h\<lparr>h_axis := (h_axis h)(a := sint v)\<rparr>"
  have "pad_pressed ?h c = pad_pressed h c" if "a \<noteq> TriggerLeft" "a \<noteq> TriggerRight" for c
    using that by (cases c) auto
  then have keep: "pad_pressed ?h = pad_pressed h" if "a \<noteq> TriggerLeft" "a \<noteq> TriggerRight"
    using that by auto
  have "axis_pressed ?h c = axis_pressed h c" if "a \<noteq> RightX" "a \<noteq> RightY" for c
    using that by (cases c) auto
  then have keep': "axis_pressed ?h = axis_pressed h" if "a \<noteq> RightX" "a \<noteq> RightY"
    using that by auto
  note r = axis_range [of v]
  show ?thesis
  proof (cases a)
    case TriggerLeft
    then show ?thesis
      using assms keep' r recompute_pad_mask [of "m\<lparr>in_trigger_left := sint v > 16000\<rparr>" ?h]
      by (simp add: tracks_def)
  next
    case TriggerRight
    then show ?thesis
      using assms keep' r recompute_pad_mask [of "m\<lparr>in_trigger_right := sint v > 16000\<rparr>" ?h]
      by (simp add: tracks_def)
  next
    case RightX
    have "axis_pressed ?h = (axis_pressed h)(CLeft := sint v < -16000, CRight := sint v > 16000)"
    proof
      show "axis_pressed ?h c = ((axis_pressed h)(CLeft := sint v < -16000, CRight := sint v > 16000)) c" for c
        using RightX by (cases c) auto
    qed
    then show ?thesis
      using assms keep r RightX right_stick_masks(1) [of m "axis_pressed h" v]
      by (simp add: tracks_def del: on_controller_axis.simps)
  next
    case RightY
    have "axis_pressed ?h = (axis_pressed h)(CUp := sint v < -16000, CDown := sint v > 16000)"
    proof
      show "axis_pressed ?h c = ((axis_pressed h)(CUp := sint v < -16000, CDown := sint v > 16000)) c" for c
        using RightY by (cases c) auto
    qed
    then show ?thesis
      using assms keep r RightY right_stick_masks(2) [of m "axis_pressed h" v]
      by (simp add: tracks_def del: on_controller_axis.simps)
  qed (use assms keep keep' r in \<open>simp_all add: tracks_def\<close>)
qed

lemma tracks_events: "tracks m h \<Longrightarrow> tracks (fold on_input evs m) (fold hold evs h)"
proof (induction evs arbitrary: m h)
  case (Cons e evs)
  have "tracks (on_input e m) (hold e h)"
    using tracks_key [OF Cons.prems] tracks_pad_button [OF Cons.prems] tracks_axis [OF Cons.prems]
    by (cases e) simp_all
  then show ?case using Cons.IH by simp
qed simp


lemma tracks_state:
  assumes "tracks m h"
  shows "cs_buttons (mapper_state m) = button_mask (pressed h)"
    "(sint (cs_stick_x (mapper_state m)), sint (cs_stick_y (mapper_state m))) = stick_of h"
    "\<bar>fst (stick_of h)\<bar> \<le> 80" "\<bar>snd (stick_of h)\<bar> \<le> 80"
proof -
  have m: "(\<lambda>b. (h_key h (button_key b) \<or> pad_pressed h b) \<or> axis_pressed h b) = pressed h"
    by (auto simp: pressed_def)
  show "cs_buttons (mapper_state m) = button_mask (pressed h)"
    using assms by (simp add: tracks_def mapper_state_def Let_def button_mask_or m [symmetric] or.assoc)
  let ?x = "axis_value (h_axis h LeftX)" and ?y = "axis_value (- h_axis h LeftY)"
  have "\<bar>h_axis h LeftX\<bar> \<le> 32768" "\<bar>- h_axis h LeftY\<bar> \<le> 32768" using assms by (simp_all add: tracks_def)
  then have b: "\<bar>?x\<bar> \<le> 80" "\<bar>?y\<bar> \<le> 80" by (simp_all only: axis_value_bound)
  have k: "\<bar>key_dir h ScD ScA\<bar> \<le> 80" "\<bar>key_dir h ScW ScS\<bar> \<le> 80" by (simp_all add: key_dir_def)
  have st: "stick_of h = (if ?x \<noteq> 0 \<or> ?y \<noteq> 0 then (?x, ?y) else (key_dir h ScD ScA, key_dir h ScW ScS))"
    by (simp add: stick_of_def Let_def axis_value_def key_dir_def)
  have p: "in_pad_stick_x m = clamp_stick ?x" "in_pad_stick_y m = clamp_stick ?y"
    "in_key_stick_x m = clamp_stick (key_dir h ScD ScA)" "in_key_stick_y m = clamp_stick (key_dir h ScW ScS)"
    using assms by (simp_all add: tracks_def axis_to_stick_value)
  note sb = stick_byte [OF b(1)] stick_byte [OF b(2)] stick_byte [OF k(1)] stick_byte [OF k(2)]
  show "(sint (cs_stick_x (mapper_state m)), sint (cs_stick_y (mapper_state m))) = stick_of h"
    "\<bar>fst (stick_of h)\<bar> \<le> 80" "\<bar>snd (stick_of h)\<bar> \<le> 80"
    using b k by (auto simp: mapper_state_def Let_def p sb st)
qed

text \<open>The state handed to the joybus after a sequence of events.\<close>

definition mapped :: "input_event list \<Rightarrow> controller_state" where
  "mapped evs = mapper_state (fold on_input evs mapper_new)"

lemmas mapped_tracks = tracks_events [OF tracks_init]

text \<open>C12: The pad is what is held: after any sequence of keyboard and game controller events the
  state of the mapper is a function of the keys, pad buttons and axes that are down at that
  moment. A button reads as pressed exactly when a key, pad button, trigger or stick direction
  bound to it is down, so that no button sticks or is lost when two sources overlap; the reserved
  bits are clear; the stick is the controller's when deflected and the keys' otherwise, and never
  leaves the range of eighty steps to each side.\<close>

theorem input_is_what_is_held:
  "(\<forall>b. button (button_bit b) (mapped evs) = pressed (fold hold evs released) b)
    \<and> cs_buttons (mapped evs) AND 0x00C0 = 0
    \<and> (sint (cs_stick_x (mapped evs)), sint (cs_stick_y (mapped evs))) = stick_of (fold hold evs released)
    \<and> \<bar>fst (stick_of (fold hold evs released))\<bar> \<le> 80
    \<and> \<bar>snd (stick_of (fold hold evs released))\<bar> \<le> 80"
  using tracks_state [OF mapped_tracks [of evs]]
    button_in_mask [of "mapped evs" "pressed (fold hold evs released)"]
  by (simp add: mapped_def reserved_clear)

end
