(* ===== verification/Window.thy ===== *)
theory Window
  imports Input
begin

text \<open>
  The window (\<open>frontend/window.hpp\<close>, \<open>frontend/window.cpp\<close>): the life of the SDL objects, the events,
  the picture and the overlay's text. SDL is not part of the repository: every call the code makes is
  recorded, newest first, and \<open>sdl calls\<close> is what SDL answers to the newest of them (a handle, 0 for
  none, or the result code). The pictures on the screen are the recorded calls. The platform is a Unix
  one and the build is without \<open>N64EMU_HEADLESS\<close>.
\<close>

section \<open>SDL\<close>

datatype sdl_call =
    SdlSetenv string string
  | SdlInit
  | SdlCreateWindow string int int u32
  | SdlCreateRenderer nat u32
  | SdlCreateTexture nat int int
  | SdlUpdateTexture nat "u8 list" int
  | SdlRenderCopy nat nat
  | SdlSetDrawBlend nat
  | SdlSetDrawColor nat u8 u8 u8 u8
  | SdlRenderClear nat
  | SdlFillRect nat int int int int
  | SdlRenderPresent nat
  | SdlSetTitle nat string
  | SdlDestroyTexture nat
  | SdlDestroyRenderer nat
  | SdlDestroyWindow nat
  | SdlQuit

type_synonym sdl = "sdl_call list \<Rightarrow> nat"

definition SDL_WINDOW_RESIZABLE :: u32 where "SDL_WINDOW_RESIZABLE = 0x20"
definition SDL_WINDOW_ALLOW_HIGHDPI :: u32 where "SDL_WINDOW_ALLOW_HIGHDPI = 0x2000"
definition SDL_RENDERER_SOFTWARE :: u32 where "SDL_RENDERER_SOFTWARE = 1"
definition SDL_RENDERER_ACCELERATED :: u32 where "SDL_RENDERER_ACCELERATED = 2"
definition SDL_RENDERER_PRESENTVSYNC :: u32 where "SDL_RENDERER_PRESENTVSYNC = 4"

datatype keysym = SymEscape | SymF1 | SymF2 | SymF3 | SymF5 | SymF6 | SymF9 | SymOther

datatype sdl_event = EvQuit | EvWindowSize int int | EvWindowOther | EvKeyDown keysym key_event
  | EvKeyUp keysym key_event | EvButton u8 bool | EvAxis pad_axis "16 word" | EvOther

section \<open>The window\<close>

record window_config =
  wc_title :: string
  wc_width :: int
  wc_height :: int
  wc_resizable :: bool
  wc_vsync :: bool
  wc_headless :: bool

definition window_config_default :: window_config where
  "window_config_default = \<lparr>wc_title = ''n64emu'', wc_width = 640, wc_height = 480,
     wc_resizable = True, wc_vsync = True, wc_headless = False\<rparr>"

record window =
  w_window :: nat
  w_renderer :: nat
  w_fb_tex :: nat
  w_width :: int
  w_height :: int
  w_fb_w :: int
  w_fb_h :: int
  w_quit :: bool
  w_sdl_owned :: bool

definition window_new :: window where
  "window_new = \<lparr>w_window = 0, w_renderer = 0, w_fb_tex = 0, w_width = 0, w_height = 0,
     w_fb_w = 0, w_fb_h = 0, w_quit = False, w_sdl_owned = False\<rparr>"

text \<open>The stages of \<open>destroy\<close>.\<close>

definition destroy_texture :: "window \<times> sdl_call list \<Rightarrow> window \<times> sdl_call list" where
  "destroy_texture s = (case s of (w, calls) \<Rightarrow>
    if w_fb_tex w \<noteq> 0 then (w\<lparr>w_fb_tex := 0\<rparr>, SdlDestroyTexture (w_fb_tex w) # calls) else s)"

definition destroy_renderer :: "window \<times> sdl_call list \<Rightarrow> window \<times> sdl_call list" where
  "destroy_renderer s = (case s of (w, calls) \<Rightarrow>
    if w_renderer w \<noteq> 0 then (w\<lparr>w_renderer := 0\<rparr>, SdlDestroyRenderer (w_renderer w) # calls) else s)"

definition destroy_window :: "window \<times> sdl_call list \<Rightarrow> window \<times> sdl_call list" where
  "destroy_window s = (case s of (w, calls) \<Rightarrow>
    if w_window w \<noteq> 0 then (w\<lparr>w_window := 0\<rparr>, SdlDestroyWindow (w_window w) # calls) else s)"

definition leave_sdl :: "window \<times> sdl_call list \<Rightarrow> window \<times> sdl_call list" where
  "leave_sdl s = (case s of (w, calls) \<Rightarrow>
    if w_sdl_owned w then (w\<lparr>w_sdl_owned := False\<rparr>, SdlQuit # calls) else s)"

definition win_destroy :: "window \<times> sdl_call list \<Rightarrow> window \<times> sdl_call list" where
  "win_destroy s =
    (case leave_sdl (destroy_window (destroy_renderer (destroy_texture s))) of
       (w, calls) \<Rightarrow> (w\<lparr>w_fb_w := 0, w_fb_h := 0\<rparr>, calls))"

text \<open>The move assignment between two windows; the constructor moves into a new one.\<close>

definition win_move :: "window \<Rightarrow> window \<Rightarrow> sdl_call list \<Rightarrow> window \<times> window \<times> sdl_call list" where
  "win_move this other calls0 =
    (case win_destroy (this, calls0) of (t, calls) \<Rightarrow>
       (t\<lparr>w_window := w_window other, w_renderer := w_renderer other, w_fb_tex := w_fb_tex other,
          w_width := w_width other, w_height := w_height other, w_fb_w := w_fb_w other,
          w_fb_h := w_fb_h other, w_quit := w_quit other, w_sdl_owned := w_sdl_owned other\<rparr>,
        other\<lparr>w_window := 0, w_renderer := 0, w_fb_tex := 0, w_sdl_owned := False\<rparr>, calls))"

definition unset_env :: "(string \<Rightarrow> string option) \<Rightarrow> string \<Rightarrow> bool" where
  "unset_env env n \<longleftrightarrow> (case env n of None \<Rightarrow> True | Some v \<Rightarrow> v = [])"

definition force_headless :: "(string \<Rightarrow> string option) \<Rightarrow> window_config \<Rightarrow> bool" where
  "force_headless env cfg \<longleftrightarrow>
     wc_headless cfg \<or> (unset_env env ''DISPLAY'' \<and> unset_env env ''WAYLAND_DISPLAY'')"

text \<open>The renderer: accelerated, else software.\<close>

definition create_renderer ::
    "sdl \<Rightarrow> window_config \<Rightarrow> nat \<Rightarrow> sdl_call list \<Rightarrow> nat \<times> sdl_call list" where
  "create_renderer sdl cfg win calls0 =
    (let flags = (if wc_vsync cfg then SDL_RENDERER_ACCELERATED OR SDL_RENDERER_PRESENTVSYNC
                  else SDL_RENDERER_ACCELERATED);
         calls1 = SdlCreateRenderer win flags # calls0;
         calls2 = SdlCreateRenderer win SDL_RENDERER_SOFTWARE # calls1
     in if sdl calls1 \<noteq> 0 then (sdl calls1, calls1) else (sdl calls2, calls2))"

definition win_create ::
    "sdl \<Rightarrow> (string \<Rightarrow> string option) \<Rightarrow> window_config \<Rightarrow> window \<times> sdl_call list
      \<Rightarrow> bool \<times> window \<times> sdl_call list" where
  "win_create sdl env cfg s0 =
    (case win_destroy s0 of (wa, calls0) \<Rightarrow>
      (let w0 = wa\<lparr>w_quit := False\<rparr>;
           calls1 = (if force_headless env cfg
             then SdlSetenv ''SDL_AUDIODRIVER'' ''dummy'' # SdlSetenv ''SDL_VIDEODRIVER'' ''dummy'' # calls0
             else calls0);
           calls2 = SdlInit # calls1
       in if sdl calls2 \<noteq> 0 then (False, w0, calls2)
          else
            (let w1 = w0\<lparr>w_sdl_owned := True\<rparr>;
                 flags = (if wc_resizable cfg then SDL_WINDOW_ALLOW_HIGHDPI OR SDL_WINDOW_RESIZABLE
                          else SDL_WINDOW_ALLOW_HIGHDPI);
                 calls3 = SdlCreateWindow (wc_title cfg) (wc_width cfg) (wc_height cfg) flags # calls2;
                 w2 = w1\<lparr>w_window := sdl calls3\<rparr>
             in if w_window w2 = 0 then (False, win_destroy (w2, calls3))
                else
                  (case create_renderer sdl cfg (w_window w2) calls3 of (ren, calls4) \<Rightarrow>
                    (let w3 = w2\<lparr>w_renderer := ren\<rparr> in
                     if ren = 0 then (False, win_destroy (w3, calls4))
                     else (True, w3\<lparr>w_width := wc_width cfg, w_height := wc_height cfg\<rparr>,
                             SdlSetDrawBlend ren # calls4))))))"

section \<open>Events\<close>

fun window_event :: "sdl_event \<Rightarrow> window \<Rightarrow> window" where
  "window_event EvQuit w = w\<lparr>w_quit := True\<rparr>"
| "window_event (EvWindowSize x y) w = w\<lparr>w_width := x, w_height := y\<rparr>"
| "window_event (EvKeyDown key _) w = (if key = SymEscape then w\<lparr>w_quit := True\<rparr> else w)"
| "window_event _ w = w"

fun poll_events ::
    "(sdl_event \<Rightarrow> 's \<Rightarrow> 's) option \<Rightarrow> sdl_event list \<Rightarrow> window \<times> 's \<Rightarrow> bool \<times> window \<times> 's" where
  "poll_events on_event [] s = (\<not> w_quit (fst s), s)"
| "poll_events on_event (ev # evs) s =
    poll_events on_event evs
      (window_event ev (fst s), (case on_event of None \<Rightarrow> snd s | Some f \<Rightarrow> f ev (snd s)))"

section \<open>The picture\<close>

definition win_clear :: "u8 \<Rightarrow> u8 \<Rightarrow> u8 \<Rightarrow> u8 \<Rightarrow> window \<times> sdl_call list \<Rightarrow> window \<times> sdl_call list" where
  "win_clear r g b a s = (case s of (w, calls) \<Rightarrow>
    if w_renderer w = 0 then s
    else (w, SdlRenderClear (w_renderer w) # SdlSetDrawColor (w_renderer w) r g b a # calls))"

definition win_present :: "window \<times> sdl_call list \<Rightarrow> window \<times> sdl_call list" where
  "win_present s = (case s of (w, calls) \<Rightarrow>
    if w_renderer w = 0 then s else (w, SdlRenderPresent (w_renderer w) # calls))"

text \<open>A texture of the size of the picture: kept, or made anew.\<close>

definition fit_texture :: "sdl \<Rightarrow> int \<Rightarrow> int \<Rightarrow> window \<times> sdl_call list \<Rightarrow> window \<times> sdl_call list" where
  "fit_texture sdl x y s = (case s of (w, calls) \<Rightarrow>
    if w_fb_tex w = 0 \<or> w_fb_w w \<noteq> x \<or> w_fb_h w \<noteq> y then
      (let calls1 = (if w_fb_tex w \<noteq> 0 then SdlDestroyTexture (w_fb_tex w) # calls else calls);
           calls2 = SdlCreateTexture (w_renderer w) x y # calls1
       in (w\<lparr>w_fb_tex := sdl calls2, w_fb_w := x, w_fb_h := y\<rparr>, calls2))
    else s)"

definition draw_framebuffer ::
    "sdl \<Rightarrow> u8 list \<Rightarrow> int \<Rightarrow> int \<Rightarrow> window \<times> sdl_call list \<Rightarrow> window \<times> sdl_call list" where
  "draw_framebuffer sdl rgba x y s =
    (if w_renderer (fst s) = 0 \<or> rgba = [] \<or> x \<le> 0 \<or> y \<le> 0 then s
     else
       (case fit_texture sdl x y s of (w, calls) \<Rightarrow>
          if w_fb_tex w = 0 then (w, calls)
          else (w, SdlRenderCopy (w_renderer w) (w_fb_tex w)
                   # SdlUpdateTexture (w_fb_tex w) rgba (x * 4) # calls)))"

definition set_title :: "string \<Rightarrow> window \<times> sdl_call list \<Rightarrow> window \<times> sdl_call list" where
  "set_title title s = (case s of (w, calls) \<Rightarrow>
    if w_window w \<noteq> 0 then (w, SdlSetTitle (w_window w) title # calls) else s)"

section \<open>Text\<close>

definition kFontW :: int where "kFontW = 5"
definition kFontH :: int where "kFontH = 7"

definition font :: "nat list list" where
  "font =
    [[0, 0, 0, 0, 0, 0, 0],
     [0x04, 0x04, 0x04, 0x04, 0, 0x04, 0],
     [0x0A, 0x0A, 0, 0, 0, 0, 0],
     [0x0A, 0x1F, 0x0A, 0x1F, 0x0A, 0, 0],
     [0x04, 0x0F, 0x14, 0x0E, 0x05, 0x1E, 0x04],
     [0x19, 0x19, 0x02, 0x04, 0x08, 0x13, 0x13],
     [0x08, 0x14, 0x08, 0x15, 0x12, 0x0D, 0],
     [0x04, 0x04, 0, 0, 0, 0, 0],
     [0x02, 0x04, 0x08, 0x08, 0x08, 0x04, 0x02],
     [0x08, 0x04, 0x02, 0x02, 0x02, 0x04, 0x08],
     [0, 0x0A, 0x04, 0x1F, 0x04, 0x0A, 0],
     [0, 0x04, 0x04, 0x1F, 0x04, 0x04, 0],
     [0, 0, 0, 0, 0x04, 0x04, 0x08],
     [0, 0, 0, 0x1F, 0, 0, 0],
     [0, 0, 0, 0, 0, 0x04, 0],
     [0x01, 0x02, 0x04, 0x08, 0x10, 0, 0],
     [0x0E, 0x11, 0x13, 0x15, 0x19, 0x11, 0x0E],
     [0x04, 0x0C, 0x04, 0x04, 0x04, 0x04, 0x0E],
     [0x0E, 0x11, 0x01, 0x02, 0x04, 0x08, 0x1F],
     [0x1F, 0x02, 0x04, 0x02, 0x01, 0x11, 0x0E],
     [0x02, 0x06, 0x0A, 0x12, 0x1F, 0x02, 0x02],
     [0x1F, 0x10, 0x1E, 0x01, 0x01, 0x11, 0x0E],
     [0x06, 0x08, 0x10, 0x1E, 0x11, 0x11, 0x0E],
     [0x1F, 0x01, 0x02, 0x04, 0x08, 0x08, 0x08],
     [0x0E, 0x11, 0x11, 0x0E, 0x11, 0x11, 0x0E],
     [0x0E, 0x11, 0x11, 0x0F, 0x01, 0x02, 0x0C],
     [0, 0x04, 0, 0, 0x04, 0, 0],
     [0, 0x04, 0, 0, 0x04, 0x04, 0x08],
     [0x02, 0x04, 0x08, 0x10, 0x08, 0x04, 0x02],
     [0, 0, 0x1F, 0, 0x1F, 0, 0],
     [0x08, 0x04, 0x02, 0x01, 0x02, 0x04, 0x08],
     [0x0E, 0x11, 0x01, 0x02, 0x04, 0, 0x04],
     [0x0E, 0x11, 0x17, 0x15, 0x17, 0x10, 0x0E],
     [0x0E, 0x11, 0x11, 0x1F, 0x11, 0x11, 0x11],
     [0x1E, 0x11, 0x11, 0x1E, 0x11, 0x11, 0x1E],
     [0x0E, 0x11, 0x10, 0x10, 0x10, 0x11, 0x0E],
     [0x1E, 0x11, 0x11, 0x11, 0x11, 0x11, 0x1E],
     [0x1F, 0x10, 0x10, 0x1E, 0x10, 0x10, 0x1F],
     [0x1F, 0x10, 0x10, 0x1E, 0x10, 0x10, 0x10],
     [0x0E, 0x11, 0x10, 0x17, 0x11, 0x11, 0x0F],
     [0x11, 0x11, 0x11, 0x1F, 0x11, 0x11, 0x11],
     [0x0E, 0x04, 0x04, 0x04, 0x04, 0x04, 0x0E],
     [0x01, 0x01, 0x01, 0x01, 0x11, 0x11, 0x0E],
     [0x11, 0x12, 0x14, 0x18, 0x14, 0x12, 0x11],
     [0x10, 0x10, 0x10, 0x10, 0x10, 0x10, 0x1F],
     [0x11, 0x1B, 0x15, 0x15, 0x11, 0x11, 0x11],
     [0x11, 0x19, 0x15, 0x13, 0x11, 0x11, 0x11],
     [0x0E, 0x11, 0x11, 0x11, 0x11, 0x11, 0x0E],
     [0x1E, 0x11, 0x11, 0x1E, 0x10, 0x10, 0x10],
     [0x0E, 0x11, 0x11, 0x11, 0x15, 0x12, 0x0D],
     [0x1E, 0x11, 0x11, 0x1E, 0x14, 0x12, 0x11],
     [0x0E, 0x11, 0x10, 0x0E, 0x01, 0x11, 0x0E],
     [0x1F, 0x04, 0x04, 0x04, 0x04, 0x04, 0x04],
     [0x11, 0x11, 0x11, 0x11, 0x11, 0x11, 0x0E],
     [0x11, 0x11, 0x11, 0x11, 0x11, 0x0A, 0x04],
     [0x11, 0x11, 0x11, 0x15, 0x15, 0x1B, 0x11],
     [0x11, 0x11, 0x0A, 0x04, 0x0A, 0x11, 0x11],
     [0x11, 0x11, 0x0A, 0x04, 0x04, 0x04, 0x04],
     [0x1F, 0x01, 0x02, 0x04, 0x08, 0x10, 0x1F],
     [0x0E, 0x08, 0x08, 0x08, 0x08, 0x08, 0x0E],
     [0x10, 0x08, 0x04, 0x02, 0x01, 0, 0],
     [0x0E, 0x02, 0x02, 0x02, 0x02, 0x02, 0x0E],
     [0x04, 0x0A, 0x11, 0, 0, 0, 0],
     [0, 0, 0, 0, 0, 0, 0x1F],
     [0x08, 0x04, 0, 0, 0, 0, 0],
     [0x0E, 0x11, 0x11, 0x1F, 0x11, 0x11, 0x11],
     [0x1E, 0x11, 0x11, 0x1E, 0x11, 0x11, 0x1E],
     [0x0E, 0x11, 0x10, 0x10, 0x10, 0x11, 0x0E],
     [0x1E, 0x11, 0x11, 0x11, 0x11, 0x11, 0x1E],
     [0x1F, 0x10, 0x10, 0x1E, 0x10, 0x10, 0x1F],
     [0x1F, 0x10, 0x10, 0x1E, 0x10, 0x10, 0x10],
     [0x0E, 0x11, 0x10, 0x17, 0x11, 0x11, 0x0F],
     [0x11, 0x11, 0x11, 0x1F, 0x11, 0x11, 0x11],
     [0x0E, 0x04, 0x04, 0x04, 0x04, 0x04, 0x0E],
     [0x01, 0x01, 0x01, 0x01, 0x11, 0x11, 0x0E],
     [0x11, 0x12, 0x14, 0x18, 0x14, 0x12, 0x11],
     [0x10, 0x10, 0x10, 0x10, 0x10, 0x10, 0x1F],
     [0x11, 0x1B, 0x15, 0x15, 0x11, 0x11, 0x11],
     [0x11, 0x19, 0x15, 0x13, 0x11, 0x11, 0x11],
     [0x0E, 0x11, 0x11, 0x11, 0x11, 0x11, 0x0E],
     [0x1E, 0x11, 0x11, 0x1E, 0x10, 0x10, 0x10],
     [0x0E, 0x11, 0x11, 0x11, 0x15, 0x12, 0x0D],
     [0x1E, 0x11, 0x11, 0x1E, 0x14, 0x12, 0x11],
     [0x0E, 0x11, 0x10, 0x0E, 0x01, 0x11, 0x0E],
     [0x1F, 0x04, 0x04, 0x04, 0x04, 0x04, 0x04],
     [0x11, 0x11, 0x11, 0x11, 0x11, 0x11, 0x0E],
     [0x11, 0x11, 0x11, 0x11, 0x11, 0x0A, 0x04],
     [0x11, 0x11, 0x11, 0x15, 0x15, 0x1B, 0x11],
     [0x11, 0x11, 0x0A, 0x04, 0x0A, 0x11, 0x11],
     [0x11, 0x11, 0x0A, 0x04, 0x04, 0x04, 0x04],
     [0x1F, 0x01, 0x02, 0x04, 0x08, 0x10, 0x1F],
     [0x02, 0x04, 0x04, 0x08, 0x04, 0x04, 0x02],
     [0x04, 0x04, 0x04, 0x04, 0x04, 0x04, 0x04],
     [0x08, 0x04, 0x04, 0x02, 0x04, 0x04, 0x08],
     [0, 0, 0x08, 0x15, 0x02, 0, 0],
     [0, 0, 0, 0, 0, 0, 0]]"

definition glyph :: "char \<Rightarrow> nat list" where
  "glyph c = (let uc = of_char c in if uc < 32 \<or> uc > (127 :: nat) then [0, 0, 0, 0, 0, 0, 0] else font ! (uc - 32))"

definition glyph_bit :: "char \<Rightarrow> nat \<Rightarrow> nat \<Rightarrow> bool" where
  "glyph_bit c row col \<longleftrightarrow> (word_of_nat (glyph c ! row) :: u8) AND (drop_bit col 0x10) \<noteq> 0"

text \<open>The cells of a glyph that are lit, in the order of the two loops.\<close>

definition glyph_rects :: "char \<Rightarrow> int \<Rightarrow> int \<Rightarrow> int \<Rightarrow> (int \<times> int \<times> int \<times> int) list" where
  "glyph_rects c cx cy scale =
    concat (map (\<lambda>row. concat (map (\<lambda>col.
        if glyph_bit c row col then [(cx + int col * scale, cy + int row * scale, scale, scale)] else [])
      [0..<nat kFontW])) [0..<nat kFontH])"

fun text_rects :: "int \<Rightarrow> int \<Rightarrow> int \<Rightarrow> int \<Rightarrow> string \<Rightarrow> (int \<times> int \<times> int \<times> int) list" where
  "text_rects x cx cy scale [] = []"
| "text_rects x cx cy scale (ch # text) =
    (if ch = CHR 0x0A then text_rects x x (cy + (kFontH + 1) * scale) scale text
     else glyph_rects ch cx cy scale @ text_rects x (cx + (kFontW + 1) * scale) cy scale text)"

definition fill_rects :: "nat \<Rightarrow> (int \<times> int \<times> int \<times> int) list \<Rightarrow> sdl_call list" where
  "fill_rects ren rects = rev (map (\<lambda>(x, y, w, h). SdlFillRect ren x y w h) rects)"

definition draw_text ::
    "int \<Rightarrow> int \<Rightarrow> string \<Rightarrow> u8 \<Rightarrow> u8 \<Rightarrow> u8 \<Rightarrow> int \<Rightarrow> window \<times> sdl_call list \<Rightarrow> window \<times> sdl_call list" where
  "draw_text x y text r g b scale s = (case s of (w, calls) \<Rightarrow>
    if w_renderer w = 0 \<or> scale < 1 then s
    else (w, fill_rects (w_renderer w) (text_rects x x y scale text)
             @ SdlSetDrawColor (w_renderer w) r g b 255 # calls))"

text \<open>The lines and the longest of them: the lines begun, the longest line ended and the length of the
  line begun.\<close>

fun measure_text :: "int \<Rightarrow> int \<Rightarrow> int \<Rightarrow> string \<Rightarrow> int \<times> int" where
  "measure_text lns maxc col [] = (lns, max maxc col)"
| "measure_text lns maxc col (ch # text) =
    (if ch = CHR 0x0A then measure_text (lns + 1) (max maxc col) 0 text
     else measure_text lns maxc (col + 1) text)"

definition panel_size :: "string \<Rightarrow> int \<times> int" where
  "panel_size text =
    (case measure_text 1 0 0 text of (lns, maxc) \<Rightarrow> (maxc * (kFontW + 1) * 1 + 8, lns * (kFontH + 1) * 1 + 8))"

definition draw_overlay_text :: "string \<Rightarrow> window \<times> sdl_call list \<Rightarrow> window \<times> sdl_call list" where
  "draw_overlay_text text s = (case s of (w, calls) \<Rightarrow>
    if w_renderer w = 0 then s
    else
      (case panel_size text of (pw, ph) \<Rightarrow>
        draw_text 8 8 text 0 255 80 1
          (w, SdlFillRect (w_renderer w) 4 4 pw ph # SdlSetDrawColor (w_renderer w) 0 0 0 180
              # SdlSetDrawBlend (w_renderer w) # calls)))"

section \<open>The discipline of SDL's objects\<close>

text \<open>What is alive in SDL after a list of calls, and the calls SDL allows in that state: only live
  objects are used and destroyed, none is made while its parent is dead or another one is alive, an
  upload has the size of the texture and enough bytes for it, and SDL is left only when nothing is
  alive. \<open>None\<close> is a call that breaks this.\<close>

record sdl_live =
  lv_init :: bool
  lv_window :: nat
  lv_renderer :: nat
  lv_texture :: nat
  lv_tex_w :: int
  lv_tex_h :: int

definition nothing_live :: sdl_live where
  "nothing_live = \<lparr>lv_init = False, lv_window = 0, lv_renderer = 0, lv_texture = 0, lv_tex_w = 0, lv_tex_h = 0\<rparr>"

definition allow :: "bool \<Rightarrow> 'a \<Rightarrow> 'a option" where
  "allow b x = (if b then Some x else None)"

definition live_handle :: "nat \<Rightarrow> nat \<Rightarrow> bool" where
  "live_handle n h \<longleftrightarrow> n \<noteq> 0 \<and> n = h"

fun sdl_use :: "nat \<Rightarrow> sdl_call \<Rightarrow> sdl_live \<Rightarrow> sdl_live option" where
  "sdl_use r (SdlSetenv n x) v = Some v"
| "sdl_use r SdlInit v = allow (\<not> lv_init v) (v\<lparr>lv_init := r = 0\<rparr>)"
| "sdl_use r (SdlCreateWindow t x y flags) v = allow (lv_init v \<and> lv_window v = 0) (v\<lparr>lv_window := r\<rparr>)"
| "sdl_use r (SdlCreateRenderer win flags) v =
    allow (live_handle win (lv_window v) \<and> lv_renderer v = 0) (v\<lparr>lv_renderer := r\<rparr>)"
| "sdl_use r (SdlCreateTexture ren x y) v =
    allow (live_handle ren (lv_renderer v) \<and> lv_texture v = 0 \<and> x > 0 \<and> y > 0)
      (v\<lparr>lv_texture := r, lv_tex_w := x, lv_tex_h := y\<rparr>)"
| "sdl_use r (SdlUpdateTexture tex px pitch) v =
    allow (live_handle tex (lv_texture v) \<and> pitch = 4 * lv_tex_w v \<and> pitch * lv_tex_h v \<le> int (length px)) v"
| "sdl_use r (SdlRenderCopy ren tex) v =
    allow (live_handle ren (lv_renderer v) \<and> live_handle tex (lv_texture v)) v"
| "sdl_use r (SdlSetDrawBlend ren) v = allow (live_handle ren (lv_renderer v)) v"
| "sdl_use r (SdlSetDrawColor ren cr cg cb ca) v = allow (live_handle ren (lv_renderer v)) v"
| "sdl_use r (SdlRenderClear ren) v = allow (live_handle ren (lv_renderer v)) v"
| "sdl_use r (SdlFillRect ren x y w h) v = allow (live_handle ren (lv_renderer v)) v"
| "sdl_use r (SdlRenderPresent ren) v = allow (live_handle ren (lv_renderer v)) v"
| "sdl_use r (SdlSetTitle win t) v = allow (live_handle win (lv_window v)) v"
| "sdl_use r (SdlDestroyTexture tex) v = allow (live_handle tex (lv_texture v)) (v\<lparr>lv_texture := 0\<rparr>)"
| "sdl_use r (SdlDestroyRenderer ren) v =
    allow (live_handle ren (lv_renderer v) \<and> lv_texture v = 0) (v\<lparr>lv_renderer := 0\<rparr>)"
| "sdl_use r (SdlDestroyWindow win) v =
    allow (live_handle win (lv_window v) \<and> lv_renderer v = 0) (v\<lparr>lv_window := 0\<rparr>)"
| "sdl_use r SdlQuit v = allow (lv_init v \<and> lv_window v = 0) (v\<lparr>lv_init := False\<rparr>)"

fun sdl_after :: "sdl \<Rightarrow> sdl_call list \<Rightarrow> sdl_live option" where
  "sdl_after sdl [] = Some nothing_live"
| "sdl_after sdl (c # calls) = Option.bind (sdl_after sdl calls) (sdl_use (sdl (c # calls)) c)"

text \<open>The window holds exactly what is alive.\<close>

definition holds :: "window \<Rightarrow> sdl_live \<Rightarrow> bool" where
  "holds w v \<longleftrightarrow> lv_init v = w_sdl_owned w \<and> lv_window v = w_window w \<and> lv_renderer v = w_renderer w
     \<and> lv_texture v = w_fb_tex w
     \<and> (w_fb_tex w = 0 \<or> w_renderer w \<noteq> 0 \<and> lv_tex_w v = w_fb_w w \<and> lv_tex_h v = w_fb_h w)
     \<and> (w_renderer w = 0 \<or> w_window w \<noteq> 0) \<and> (w_window w = 0 \<or> w_sdl_owned w)"

definition gui_ok :: "sdl \<Rightarrow> window \<times> sdl_call list \<Rightarrow> bool" where
  "gui_ok sdl s \<longleftrightarrow> (case sdl_after sdl (snd s) of None \<Rightarrow> False | Some v \<Rightarrow> holds (fst s) v)"

definition closed :: "window \<Rightarrow> bool" where
  "closed w \<longleftrightarrow> w_fb_tex w = 0 \<and> w_renderer w = 0 \<and> w_window w = 0 \<and> \<not> w_sdl_owned w"

lemma gui_okE:
  assumes "gui_ok sdl s"
  obtains w calls v where "s = (w, calls)" "sdl_after sdl calls = Some v" "holds w v"
  using assms by (cases s) (auto simp: gui_ok_def split: option.splits)

lemma gui_okI [intro]: "sdl_after sdl calls = Some v \<Longrightarrow> holds w v \<Longrightarrow> gui_ok sdl (w, calls)"
  by (simp add: gui_ok_def)

lemmas gui_simps = gui_ok_def holds_def allow_def live_handle_def

lemma destroy_zeroes:
  "w_fb_tex (fst (destroy_texture s)) = 0"
  "w_renderer (fst (destroy_renderer s)) = 0" "w_fb_tex (fst (destroy_renderer s)) = w_fb_tex (fst s)"
  "w_window (fst (destroy_window s)) = 0" "w_fb_tex (fst (destroy_window s)) = w_fb_tex (fst s)"
  "w_renderer (fst (destroy_window s)) = w_renderer (fst s)" "\<not> w_sdl_owned (fst (leave_sdl s))"
  "w_fb_tex (fst (leave_sdl s)) = w_fb_tex (fst s)" "w_renderer (fst (leave_sdl s)) = w_renderer (fst s)"
  "w_window (fst (leave_sdl s)) = w_window (fst s)"
  by (cases s; simp add: destroy_texture_def destroy_renderer_def destroy_window_def leave_sdl_def)+

lemma destroy_stages:
  assumes "gui_ok sdl s"
  shows "gui_ok sdl (destroy_texture s)"
    "w_fb_tex (fst s) = 0 \<Longrightarrow> gui_ok sdl (destroy_renderer s)"
    "w_renderer (fst s) = 0 \<Longrightarrow> gui_ok sdl (destroy_window s)"
    "w_window (fst s) = 0 \<Longrightarrow> gui_ok sdl (leave_sdl s)"
proof -
  obtain w calls v where s: "s = (w, calls)" "sdl_after sdl calls = Some v" "holds w v"
    using assms by (rule gui_okE)
  show "gui_ok sdl (destroy_texture s)" using s by (auto simp: destroy_texture_def gui_simps)
  show "w_fb_tex (fst s) = 0 \<Longrightarrow> gui_ok sdl (destroy_renderer s)"
    using s by (auto simp: destroy_renderer_def gui_simps)
  show "w_renderer (fst s) = 0 \<Longrightarrow> gui_ok sdl (destroy_window s)"
    using s by (auto simp: destroy_window_def gui_simps)
  show "w_window (fst s) = 0 \<Longrightarrow> gui_ok sdl (leave_sdl s)"
    using s by (auto simp: leave_sdl_def gui_simps)
qed

lemma win_destroy_ok:
  assumes "gui_ok sdl s"
  shows "gui_ok sdl (win_destroy s)" "closed (fst (win_destroy s))"
    "sdl_after sdl (snd (win_destroy s)) = Some v \<Longrightarrow> \<not> lv_init v \<and> lv_window v = 0 \<and> lv_renderer v = 0 \<and> lv_texture v = 0"
proof -
  define s3 where "s3 = leave_sdl (destroy_window (destroy_renderer (destroy_texture s)))"
  have ok: "gui_ok sdl s3" and z: "closed (fst s3)"
    unfolding s3_def closed_def by (simp_all add: destroy_zeroes destroy_stages assms)
  have eq: "win_destroy s = ((fst s3)\<lparr>w_fb_w := 0, w_fb_h := 0\<rparr>, snd s3)"
    by (simp add: win_destroy_def s3_def split_beta)
  show "gui_ok sdl (win_destroy s)" "closed (fst (win_destroy s))"
    using ok z by (auto simp: eq gui_ok_def holds_def closed_def split: option.splits)
  show "sdl_after sdl (snd (win_destroy s)) = Some v \<Longrightarrow> \<not> lv_init v \<and> lv_window v = 0 \<and> lv_renderer v = 0 \<and> lv_texture v = 0"
    using ok z by (auto simp: eq gui_ok_def holds_def closed_def split: option.splits)
qed

text \<open>The other operations.\<close>

lemma win_create_ok:
  assumes "gui_ok sdl s"
  shows "gui_ok sdl (snd (win_create sdl env cfg s))"
proof -
  obtain wa calls0 where d: "win_destroy s = (wa, calls0)" by fastforce
  obtain v where v: "sdl_after sdl calls0 = Some v" "holds wa v" and z: "closed wa"
    using win_destroy_ok [OF assms] by (auto simp: d gui_ok_def split: option.splits)
  note facts = v(1) v(2) [unfolded holds_def] z [unfolded closed_def]
  define calls1 where "calls1 = (if force_headless env cfg
     then SdlSetenv ''SDL_AUDIODRIVER'' ''dummy'' # SdlSetenv ''SDL_VIDEODRIVER'' ''dummy'' # calls0 else calls0)"
  have c1: "sdl_after sdl calls1 = Some v" using v(1) by (simp add: calls1_def)
  define w0 where "w0 = wa\<lparr>w_quit := False\<rparr>"
  define calls2 where "calls2 = SdlInit # calls1"
  have c2: "sdl_after sdl calls2 = Some (v\<lparr>lv_init := sdl calls2 = 0\<rparr>)"
    using c1 facts by (simp add: calls2_def allow_def)
  define calls3 where "calls3 = SdlCreateWindow (wc_title cfg) (wc_width cfg) (wc_height cfg)
     (if wc_resizable cfg then SDL_WINDOW_ALLOW_HIGHDPI OR SDL_WINDOW_RESIZABLE else SDL_WINDOW_ALLOW_HIGHDPI) # calls2"
  have c3: "sdl_after sdl calls3 = Some (v\<lparr>lv_init := True, lv_window := sdl calls3\<rparr>)" if "sdl calls2 = 0"
    using c2 facts that by (simp add: calls3_def allow_def)
  define w2 where "w2 = w0\<lparr>w_sdl_owned := True, w_window := sdl calls3\<rparr>"
  have g2: "gui_ok sdl (w2, calls3)" if "sdl calls2 = 0"
    using c3 [OF that] facts by (simp add: gui_ok_def holds_def w2_def w0_def)
  have ww: "w_window w2 = sdl calls3" by (simp add: w2_def)
  obtain ren calls4 where r: "create_renderer sdl cfg (sdl calls3) calls3 = (ren, calls4)" by fastforce
  have c4: "sdl_after sdl calls4 = Some (v\<lparr>lv_init := True, lv_window := sdl calls3, lv_renderer := ren\<rparr>)"
    if "sdl calls2 = 0" "sdl calls3 \<noteq> 0"
    using c3 that facts r
    by (auto simp: create_renderer_def Let_def allow_def live_handle_def split: if_splits)
  have g3: "gui_ok sdl (w2\<lparr>w_renderer := ren\<rparr>, calls4)" if "sdl calls2 = 0" "sdl calls3 \<noteq> 0"
    using c4 [OF that] facts that by (simp add: gui_ok_def holds_def w2_def w0_def)
  have eq: "snd (win_create sdl env cfg s) =
      (if sdl calls2 \<noteq> 0 then (w0, calls2)
       else if sdl calls3 = 0 then win_destroy (w2, calls3)
       else if ren = 0 then win_destroy (w2\<lparr>w_renderer := ren\<rparr>, calls4)
       else (w2\<lparr>w_renderer := ren, w_width := wc_width cfg, w_height := wc_height cfg\<rparr>, SdlSetDrawBlend ren # calls4))"
    unfolding win_create_def d Let_def prod.case calls1_def [symmetric] w0_def [symmetric]
      calls2_def [symmetric] calls3_def [symmetric]
    by (cases "sdl calls2 = 0"; cases "sdl calls3 = 0"; cases "ren = 0"; simp add: w2_def r)
  have g0: "gui_ok sdl (w0, calls2)" if "sdl calls2 \<noteq> 0"
    using c2 facts that by (simp add: gui_ok_def holds_def w0_def)
  have g4: "gui_ok sdl (w2\<lparr>w_renderer := ren, w_width := wc_width cfg, w_height := wc_height cfg\<rparr>, SdlSetDrawBlend ren # calls4)"
    if "sdl calls2 = 0" "sdl calls3 \<noteq> 0" "ren \<noteq> 0"
    using c4 facts that by (simp add: gui_ok_def holds_def w0_def w2_def allow_def live_handle_def)
  show ?thesis
    unfolding eq using win_destroy_ok(1) [OF g2] win_destroy_ok(1) [OF g3] g0 g4
    by (cases "ren = 0"; simp)
qed

lemma win_present_ok: "gui_ok sdl s \<Longrightarrow> gui_ok sdl (win_present s)"
  by (erule gui_okE) (auto simp: win_present_def gui_simps)

lemma win_clear_ok: "gui_ok sdl s \<Longrightarrow> gui_ok sdl (win_clear r g b a s)"
  by (erule gui_okE) (auto simp: win_clear_def gui_simps)

lemma set_title_ok: "gui_ok sdl s \<Longrightarrow> gui_ok sdl (set_title t s)"
  by (erule gui_okE) (auto simp: set_title_def gui_simps)

lemma fit_texture_ok:
  assumes "gui_ok sdl s" "w_renderer (fst s) \<noteq> 0" "0 < x" "0 < y"
  shows "gui_ok sdl (fit_texture sdl x y s)" "w_renderer (fst (fit_texture sdl x y s)) = w_renderer (fst s)"
    "w_fb_w (fst (fit_texture sdl x y s)) = x" "w_fb_h (fst (fit_texture sdl x y s)) = y"
proof -
  obtain w calls v where s: "s = (w, calls)" "sdl_after sdl calls = Some v" "holds w v"
    using assms(1) by (rule gui_okE)
  show "gui_ok sdl (fit_texture sdl x y s)" using s assms(2-4) by (auto simp: fit_texture_def Let_def gui_simps)
qed (use assms in \<open>auto simp: fit_texture_def Let_def split: prod.splits\<close>)

lemma draw_framebuffer_ok:
  assumes "gui_ok sdl s" "4 * x * y \<le> int (length rgba)"
  shows "gui_ok sdl (draw_framebuffer sdl rgba x y s)"
proof (cases "w_renderer (fst s) = 0 \<or> rgba = [] \<or> x \<le> 0 \<or> y \<le> 0")
  case False
  then have o: "w_renderer (fst s) \<noteq> 0" "0 < x" "0 < y" by auto
  obtain w calls v where t: "fit_texture sdl x y s = (w, calls)" "sdl_after sdl calls = Some v" "holds w v"
    using fit_texture_ok(1) [OF assms(1) o] by (rule gui_okE)
  have w: "w_fb_w w = x" "w_fb_h w = y" "w_renderer w \<noteq> 0"
    using fit_texture_ok [OF assms(1) o] o by (simp_all add: t(1))
  have eq: "draw_framebuffer sdl rgba x y s = (if w_fb_tex w = 0 then (w, calls)
      else (w, SdlRenderCopy (w_renderer w) (w_fb_tex w) # SdlUpdateTexture (w_fb_tex w) rgba (x * 4) # calls))"
    unfolding draw_framebuffer_def if_not_P [OF False] t(1) by simp
  show ?thesis
  proof (cases "w_fb_tex w = 0")
    case True
    then show ?thesis using t by (simp add: eq gui_ok_def)
  next
    case nz: False
    have v: "lv_texture v = w_fb_tex w" "lv_renderer v = w_renderer w" "lv_tex_w v = x" "lv_tex_h v = y"
      using t(3) nz w by (simp_all add: holds_def)
    have "x * 4 * y \<le> int (length rgba)" using assms(2) by (simp add: ac_simps)
    then show ?thesis
      using t(2,3) nz w(3) unfolding eq by (simp add: gui_ok_def v allow_def live_handle_def)
  qed
qed (use assms in \<open>auto simp: draw_framebuffer_def\<close>)

lemma fill_rects_live:
  assumes "live_handle ren (lv_renderer v)" "sdl_after sdl calls = Some v"
  shows "sdl_after sdl (fill_rects ren rects @ calls) = Some v"
  unfolding fill_rects_def using assms
  by (induction rects rule: rev_induct) (auto simp: allow_def split: prod.splits)

lemma draw_text_ok: "gui_ok sdl s \<Longrightarrow> gui_ok sdl (draw_text x y t r g b scale s)"
  by (erule gui_okE)
    (auto simp: draw_text_def allow_def live_handle_def holds_def intro!: gui_okI fill_rects_live)

lemma draw_overlay_text_ok: "gui_ok sdl s \<Longrightarrow> gui_ok sdl (draw_overlay_text t s)"
  by (erule gui_okE)
    (auto simp: draw_overlay_text_def allow_def live_handle_def holds_def split: prod.splits
      intro!: draw_text_ok gui_okI)

lemma window_event_ok: "gui_ok sdl (w, calls) \<Longrightarrow> gui_ok sdl (window_event ev w, calls)"
  by (induction ev w rule: window_event.induct) (auto simp: gui_ok_def holds_def split: option.splits)

lemma poll_events_ok: "gui_ok sdl (w, calls) \<Longrightarrow> gui_ok sdl (fst (snd (poll_events f evs (w, x))), calls)"
  by (induction evs arbitrary: w x) (simp_all add: window_event_ok)

section \<open>Any use of the window\<close>

datatype window_op = OpCreate window_config | OpDestroy | OpPoll "sdl_event list"
  | OpClear u8 u8 u8 u8 | OpPresent | OpPicture "u8 list" int int | OpTitle string
  | OpText int int string u8 u8 u8 int | OpOverlay string

fun window_do ::
    "sdl \<Rightarrow> (string \<Rightarrow> string option) \<Rightarrow> window_op \<Rightarrow> window \<times> sdl_call list \<Rightarrow> window \<times> sdl_call list" where
  "window_do sdl env (OpCreate cfg) s = snd (win_create sdl env cfg s)"
| "window_do sdl env OpDestroy s = win_destroy s"
| "window_do sdl env (OpPoll evs) s = (fst (snd (poll_events None evs (fst s, ()))), snd s)"
| "window_do sdl env (OpClear r g b a) s = win_clear r g b a s"
| "window_do sdl env OpPresent s = win_present s"
| "window_do sdl env (OpPicture px x y) s = draw_framebuffer sdl px x y s"
| "window_do sdl env (OpTitle t) s = set_title t s"
| "window_do sdl env (OpText x y t r g b scale) s = draw_text x y t r g b scale s"
| "window_do sdl env (OpOverlay t) s = draw_overlay_text t s"

fun whole_picture :: "window_op \<Rightarrow> bool" where
  "whole_picture (OpPicture px x y) \<longleftrightarrow> 4 * x * y \<le> int (length px)"
| "whole_picture _ \<longleftrightarrow> True"

lemma window_do_ok: "gui_ok sdl s \<Longrightarrow> whole_picture op \<Longrightarrow> gui_ok sdl (window_do sdl env op s)"
  by (cases op) (simp_all add: win_create_ok win_destroy_ok win_clear_ok win_present_ok draw_framebuffer_ok
    set_title_ok draw_text_ok draw_overlay_text_ok poll_events_ok)

lemma window_new_ok: "gui_ok sdl (window_new, [])"
  by (simp add: gui_ok_def window_new_def holds_def nothing_live_def)

text \<open>C16: However SDL answers, whatever sequence of operations a window goes through (created, closed and
  created again, failing at any point of it, resized, drawn into with pictures that have all their
  bytes): no call uses or destroys an SDL object that is not alive, none is made over a living one,
  and every upload has the size of its texture. What is alive afterwards is exactly what the window
  holds, so destroying the window leaves nothing alive.\<close>

theorem window_lifetime_safe:
  assumes "\<forall>op \<in> set ops. whole_picture op"
  shows "gui_ok sdl (fold (window_do sdl env) ops (window_new, []))
    \<and> (\<exists>v. sdl_after sdl (snd (win_destroy (fold (window_do sdl env) ops (window_new, [])))) = Some v
         \<and> \<not> lv_init v \<and> lv_window v = 0 \<and> lv_renderer v = 0 \<and> lv_texture v = 0)"
proof -
  have "gui_ok sdl (fold (window_do sdl env) ops s)" if "gui_ok sdl s" for s
    using assms that by (induction ops arbitrary: s) (simp_all add: window_do_ok)
  then have ok: "gui_ok sdl (fold (window_do sdl env) ops (window_new, []))" by (simp add: window_new_ok)
  then show ?thesis
    using win_destroy_ok [OF ok] by (auto simp: gui_ok_def split: option.splits)
qed

theorem window_lifetime_safe_witness:
  "snd (fold (window_do (\<lambda>calls. if hd calls = SdlInit then 0 else length calls) (\<lambda>_. None))
      [OpCreate window_config_default, OpPicture (replicate 8 0) 2 1, OpDestroy] (window_new, []))
    = [SdlQuit, SdlDestroyWindow 4, SdlDestroyRenderer 5, SdlDestroyTexture 7,
       SdlRenderCopy 5 7, SdlUpdateTexture 7 (replicate 8 0) 8, SdlCreateTexture 5 2 1, SdlSetDrawBlend 5,
       SdlCreateRenderer 4 6, SdlCreateWindow ''n64emu'' 640 480 0x2020, SdlInit,
       SdlSetenv ''SDL_AUDIODRIVER'' ''dummy'', SdlSetenv ''SDL_VIDEODRIVER'' ''dummy'']
   \<and> gui_ok (\<lambda>calls. if hd calls = SdlInit then 0 else length calls)
       (fold (window_do (\<lambda>calls. if hd calls = SdlInit then 0 else length calls) (\<lambda>_. None))
         [OpCreate window_config_default, OpPicture (replicate 8 0) 2 1, OpDestroy] (window_new, []))"
proof
  show "gui_ok (\<lambda>calls. if hd calls = SdlInit then 0 else length calls)
       (fold (window_do (\<lambda>calls. if hd calls = SdlInit then 0 else length calls) (\<lambda>_. None))
         [OpCreate window_config_default, OpPicture (replicate 8 0) 2 1, OpDestroy] (window_new, []))"
    using window_lifetime_safe
      [of "[OpCreate window_config_default, OpPicture (replicate 8 0) 2 1, OpDestroy]"
        "\<lambda>calls. if hd calls = SdlInit then 0 else length calls" "\<lambda>_. None"]
    by simp
qed (simp add: win_create_def win_destroy_def window_new_def window_config_default_def Let_def
    destroy_texture_def destroy_renderer_def destroy_window_def leave_sdl_def force_headless_def
    unset_env_def create_renderer_def draw_framebuffer_def fit_texture_def
    SDL_RENDERER_ACCELERATED_def SDL_RENDERER_PRESENTVSYNC_def SDL_WINDOW_ALLOW_HIGHDPI_def
    SDL_WINDOW_RESIZABLE_def)

section \<open>Where the text goes\<close>

text \<open>The font has a glyph of seven rows of five bits for every index the code reads.\<close>

lemma font_shape: "length font = 96" "\<forall>g \<in> set font. length g = 7 \<and> (\<forall>r \<in> set g. r < 32)"
  by (simp_all add: font_def)

lemma glyph_shape: "length (glyph c) = 7 \<and> (\<forall>r \<in> set (glyph c). r < 32)"
proof (cases "of_char c < (32 :: nat) \<or> of_char c > (127 :: nat)")
  case False
  then have "of_char c - 32 < (96 :: nat)" by linarith
  then have "font ! (of_char c - 32) \<in> set font" by (intro nth_mem) (simp add: font_shape(1))
  then show ?thesis using False font_shape(2) by (simp add: glyph_def Let_def)
qed (auto simp: glyph_def Let_def)

fun text_lines :: "string \<Rightarrow> string list" where
  "text_lines [] = [[]]"
| "text_lines (ch # text) =
    (if ch = CHR 0x0A then [] # text_lines text
     else (ch # hd (text_lines text)) # tl (text_lines text))"

definition longest :: "string list \<Rightarrow> nat" where
  "longest ls = foldr max (map length ls) 0"

definition glyph_cells :: "char \<Rightarrow> int \<Rightarrow> int \<Rightarrow> int \<Rightarrow> (int \<times> int \<times> int \<times> int) set" where
  "glyph_cells c px py s = {(px + int col * s, py + int row * s, s, s) | row col. row < 7 \<and> col < 5 \<and> glyph_bit c row col}"

definition line_cells :: "string \<Rightarrow> int \<Rightarrow> int \<Rightarrow> int \<Rightarrow> (int \<times> int \<times> int \<times> int) set" where
  "line_cells l px py s = (\<Union>i<length l. glyph_cells (l ! i) (px + 6 * int i * s) py s)"

text \<open>The lit cells of a text at a place: character \<open>i\<close> of line \<open>j\<close> is six columns and eight rows further
  for each before it.\<close>

definition text_cells :: "string \<Rightarrow> int \<Rightarrow> int \<Rightarrow> int \<Rightarrow> (int \<times> int \<times> int \<times> int) set" where
  "text_cells text px py s =
    (\<Union>j<length (text_lines text). line_cells (text_lines text ! j) px (py + 8 * int j * s) s)"

lemma text_lines_ne [simp]: "text_lines t \<noteq> []"
  by (induction t) auto

lemma UN_cells:
  "(\<Union>row\<in>{0..<m}. \<Union>col\<in>{0..<n}. if P row col then {f row col} else {})
    = {f row col | row col. row < m \<and> col < n \<and> P row (col :: nat)}" for m :: nat
  by (auto split: if_splits) (blast, rule bexI, rule bexI, rule refl, simp_all)

lemma set_glyph_rects: "set (glyph_rects c cx cy s) = glyph_cells c cx cy s"
proof -
  have "set (glyph_rects c cx cy s) = (\<Union>row\<in>{0..<7}. \<Union>col\<in>{0..<5}.
      if glyph_bit c row col then {(cx + int col * s, cy + int row * s, s, s)} else {})"
    unfolding glyph_rects_def kFontW_def kFontH_def
    by (simp del: upt_Suc upt_rec_numeral add: if_distrib [of set] cong: if_cong)
  then show ?thesis unfolding glyph_cells_def UN_cells .
qed

lemma line_cells_Cons: "line_cells (c # l) px py s = glyph_cells c px py s \<union> line_cells l (px + 6 * s) py s"
  unfolding line_cells_def by (simp add: lessThan_Suc_eq_insert_0 algebra_simps)

lemma set_text_rects:
  "set (text_rects x cx cy s text) = line_cells (hd (text_lines text)) cx cy s
     \<union> (\<Union>j<length (tl (text_lines text)). line_cells (tl (text_lines text) ! j) x (cy + 8 * int (Suc j) * s) s)"
proof (induction x cx cy s "text" rule: text_rects.induct)
  case (1 x cx cy s)
  then show ?case by (simp add: line_cells_def)
next
  case (2 x cx cy s ch "text")
  obtain l ls where L: "text_lines text = l # ls" by (cases "text_lines text") auto
  show ?case
  proof (cases "ch = CHR 0x0A")
    case True
    have "line_cells [] cx cy s = {}" by (simp add: line_cells_def)
    then show ?thesis
      using 2(1) [OF True] True by (simp add: L kFontH_def lessThan_Suc_eq_insert_0 algebra_simps)
  next
    case False
    then show ?thesis
      using 2(2) [OF False]
      by (simp add: L kFontW_def set_glyph_rects line_cells_Cons Un_assoc algebra_simps)
  qed
qed

lemma text_rects_cells: "set (text_rects x x y s text) = text_cells text x y s"
proof -
  obtain l ls where L: "text_lines text = l # ls" by (cases "text_lines text") auto
  show ?thesis
    by (simp add: set_text_rects text_cells_def L lessThan_Suc_eq_insert_0)
qed

lemma foldr_max: "foldr max xs (max a b) = max (b :: 'a :: linorder) (foldr max xs a)"
  by (induction xs) (auto simp: max.left_commute max.commute)

lemma measure_text_eq:
  "measure_text lns maxc col text = (lns + int (length (text_lines text)) - 1,
     foldr max (map (\<lambda>l. int (length l)) (tl (text_lines text))) (max maxc (col + int (length (hd (text_lines text))))))"
proof (induction lns maxc col "text" rule: measure_text.induct)
  case (2 lns maxc col ch "text")
  obtain l ls where L: "text_lines text = l # ls" by (cases "text_lines text") auto
  show ?case
    using 2 by (cases "ch = CHR 0x0A") (simp_all add: L foldr_max algebra_simps)
qed simp

lemma panel_size_eq:
  "panel_size text = (6 * int (longest (text_lines text)) + 8, 8 * int (length (text_lines text)) + 8)"
proof -
  obtain l ls where L: "text_lines text = l # ls" by (cases "text_lines text") auto
  have "foldr max (map (\<lambda>l. int (length l)) ls) (max 0 k) = int (foldr max (map length ls) (nat k))" if "0 \<le> k" for k
    using that by (induction ls) (simp_all add: of_nat_max)
  from this [of "int (length l)"] show ?thesis
    using foldr_max [of "map length ls" 0 "length l"]
    by (simp add: panel_size_def measure_text_eq L longest_def kFontW_def kFontH_def)
qed

lemma longest_le: "l \<in> set ls \<Longrightarrow> length l \<le> longest ls"
  unfolding longest_def by (induction ls) auto

lemma text_lines_length: "longest (text_lines t) \<le> length t" "length (text_lines t) \<le> Suc (length t)"
proof -
  have "longest (text_lines t) \<le> length t \<and> length (text_lines t) \<le> Suc (length t)"
  proof (induction t)
    case (Cons c t)
    obtain l ls where "text_lines t = l # ls" by (cases "text_lines t") auto
    then show ?case using Cons by (auto simp: longest_def)
  qed (simp add: longest_def)
  then show "longest (text_lines t) \<le> length t" "length (text_lines t) \<le> Suc (length t)" by simp_all
qed

text \<open>C29: The overlay draws its text on its panel: after the panel, exactly the lit cells of the glyphs are
  filled, each character at its column of its line, and every one of them lies inside the panel, four
  pixels from its upper left corner and at least five from the other edges. The panel is as wide as
  the longest line and as high as the number of lines ask, and for texts below $2^{27}$ characters
  nothing of it overflows the \<open>int\<close> of the code.\<close>

theorem overlay_inside_panel:
  assumes "w_renderer w \<noteq> 0" "length text < 2 ^ 27"
  shows "\<exists>rects pw ph. draw_overlay_text text (w, calls) =
      (w, fill_rects (w_renderer w) rects @ SdlSetDrawColor (w_renderer w) 0 255 80 255
         # SdlFillRect (w_renderer w) 4 4 pw ph # SdlSetDrawColor (w_renderer w) 0 0 0 180
         # SdlSetDrawBlend (w_renderer w) # calls)
    \<and> set rects = text_cells text 8 8 1
    \<and> pw = 6 * int (longest (text_lines text)) + 8 \<and> ph = 8 * int (length (text_lines text)) + 8
    \<and> 4 + pw < 2 ^ 31 \<and> 4 + ph < 2 ^ 31
    \<and> (\<forall>(x, y, a, b) \<in> set rects. a = 1 \<and> b = 1 \<and> 4 + 4 \<le> x \<and> x + 1 + 5 \<le> 4 + pw \<and> 4 + 4 \<le> y \<and> y + 1 + 5 \<le> 4 + ph)"
proof -
  have inside: "a = 1 \<and> b = 1 \<and> 4 + 4 \<le> x \<and> x + 1 + 5 \<le> 4 + (6 * int (longest (text_lines text)) + 8)
      \<and> 4 + 4 \<le> y \<and> y + 1 + 5 \<le> 4 + (8 * int (length (text_lines text)) + 8)"
    if cell: "(x, y, a, b) \<in> text_cells text 8 8 1" for x y a b
  proof -
    obtain j i row col where c: "j < length (text_lines text)" "i < length (text_lines text ! j)" "row < 7" "col < 5"
        "x = 8 + 6 * int i + int col" "y = 8 + 8 * int j + int row" "a = 1" "b = 1"
      using cell by (auto simp: text_cells_def line_cells_def glyph_cells_def)
    have "i < longest (text_lines text)" using longest_le [OF nth_mem [OF c(1)]] c(2) by simp
    then show ?thesis using c by simp
  qed
  have "4 + (6 * int (longest (text_lines text)) + 8) < 2 ^ 31" "4 + (8 * int (length (text_lines text)) + 8) < 2 ^ 31"
    using text_lines_length [of "text"] assms(2) by simp_all
  moreover have "draw_overlay_text text (w, calls) =
      (w, fill_rects (w_renderer w) (text_rects 8 8 8 1 text) @ SdlSetDrawColor (w_renderer w) 0 255 80 255
         # SdlFillRect (w_renderer w) 4 4 (6 * int (longest (text_lines text)) + 8) (8 * int (length (text_lines text)) + 8)
         # SdlSetDrawColor (w_renderer w) 0 0 0 180 # SdlSetDrawBlend (w_renderer w) # calls)"
    using assms(1) by (simp add: draw_overlay_text_def panel_size_eq draw_text_def)
  ultimately show ?thesis
    using inside text_rects_cells [of 8 8 1 "text"] by (intro exI conjI) auto
qed

theorem overlay_inside_panel_witness:
  "\<exists>rects. snd (draw_overlay_text ''ok'' (window_new\<lparr>w_renderer := 1\<rparr>, [])) =
      fill_rects 1 rects @ [SdlSetDrawColor 1 0 255 80 255, SdlFillRect 1 4 4 20 16,
        SdlSetDrawColor 1 0 0 0 180, SdlSetDrawBlend 1] \<and> set rects = text_cells ''ok'' 8 8 1"
  using overlay_inside_panel [of "window_new\<lparr>w_renderer := 1\<rparr>" "''ok''" "[]"]
  by (auto simp: longest_def)

end
