(* ===== verification/Audio_Output.thy ===== *)
theory Audio_Output
  imports Audio
begin

text \<open>
  The host's audio output (\<open>frontend/audio_output.hpp\<close>, \<open>frontend/audio_output.cpp\<close>): opening the
  device, following the rate of the audio interface, and the callback that takes frames from the ring.
  SDL is not part of the repository: each call is recorded, newest first, and \<open>aud calls\<close> is the
  answer to the newest (for \<open>AcOpen\<close> the device and the rate obtained, else the result). The
  interface the output points at is an argument wherever the code reads it; the atomic counters make
  the callback one step.
\<close>

section \<open>State\<close>

datatype audio_call = AcWasInit | AcInitSub | AcOpen int | AcUnpause u32 | AcClose u32 | AcQuitSub

type_synonym audio_host = "audio_call list \<Rightarrow> u32 \<times> int"

record audio_output =
  ao_attached :: bool
  ao_dev :: u32
  ao_rate :: int
  ao_owns_sdl_audio :: bool
  ao_buf :: nat
  ao_frames_submitted :: u64

definition audio_output_new :: audio_output where
  "audio_output_new = \<lparr>ao_attached = False, ao_dev = 0, ao_rate = 0, ao_owns_sdl_audio = False,
     ao_buf = 0, ao_frames_submitted = 0\<rparr>"

definition active :: "audio_output \<Rightarrow> bool" where
  "active a \<longleftrightarrow> ao_dev a \<noteq> 0"

section \<open>The device\<close>

definition leave_audio :: "audio_output \<times> audio_call list \<Rightarrow> audio_output \<times> audio_call list" where
  "leave_audio s = (case s of (a, calls) \<Rightarrow>
    if ao_owns_sdl_audio a then (a\<lparr>ao_owns_sdl_audio := False\<rparr>, AcQuitSub # calls) else s)"

definition audio_shutdown :: "audio_output \<times> audio_call list \<Rightarrow> audio_output \<times> audio_call list" where
  "audio_shutdown s =
    (let close = (case s of (a, calls) \<Rightarrow>
           if ao_dev a \<noteq> 0 then (a\<lparr>ao_dev := 0\<rparr>, AcClose (ao_dev a) # calls) else s)
     in case leave_audio close of
          (a, calls) \<Rightarrow> (a\<lparr>ao_attached := False, ao_rate := 0, ao_buf := 0\<rparr>, calls))"

text \<open>The rate asked for: the argument, else the interface's, else 32000.\<close>

definition wanted_rate :: "audio_interface \<Rightarrow> int \<Rightarrow> int" where
  "wanted_rate ai rate =
    (let r1 = (if rate \<le> 0 then sint (sample_rate ai) else rate) in if r1 \<le> 0 then 32000 else r1)"

definition audio_init ::
    "audio_host \<Rightarrow> audio_interface option \<Rightarrow> int \<Rightarrow> audio_output \<times> audio_call list
      \<Rightarrow> bool \<times> audio_output \<times> audio_call list" where
  "audio_init aud ai_ptr rate s =
    (case audio_shutdown s of (a0, calls0) \<Rightarrow>
      (case ai_ptr of
         None \<Rightarrow> (False, a0\<lparr>ao_attached := False\<rparr>, calls0)
       | Some ai \<Rightarrow>
          (let a1 = a0\<lparr>ao_attached := True\<rparr>;
               freq = wanted_rate ai rate;
               calls1 = AcWasInit # calls0;
               need = fst (aud calls1) = 0;
               calls2 = (if need then AcInitSub # calls1 else calls1)
           in if need \<and> fst (aud calls2) \<noteq> 0 then (False, a1, calls2)
              else
                (let a2 = (if need then a1\<lparr>ao_owns_sdl_audio := True\<rparr> else a1);
                     calls3 = AcOpen freq # calls2;
                     dev = fst (aud calls3)
                 in if dev = 0 then (False, leave_audio (a2, calls3))
                    else (True, a2\<lparr>ao_dev := dev, ao_rate := snd (aud calls3), ao_buf := 4096 * 2,
                            ao_frames_submitted := 0\<rparr>, AcUnpause dev # calls3)))))"

definition sync_rate_from_ai ::
    "audio_host \<Rightarrow> audio_interface \<Rightarrow> audio_output \<times> audio_call list \<Rightarrow> audio_output \<times> audio_call list" where
  "sync_rate_from_ai aud ai s =
    (if \<not> ao_attached (fst s) \<or> ao_dev (fst s) = 0 then s
     else
       (let want = sint (sample_rate ai) in
        if want \<le> 0 then s
        else if \<bar>want - ao_rate (fst s)\<bar> * 100 > ao_rate (fst s) * 2
          then snd (audio_init aud (Some ai) want (audio_shutdown s))
        else s))"

definition pump ::
    "audio_host \<Rightarrow> audio_interface \<Rightarrow> audio_output \<times> audio_call list \<Rightarrow> audio_output \<times> audio_call list" where
  "pump aud ai s = sync_rate_from_ai aud ai s"

section \<open>The callback\<close>

text \<open>The bytes of a stereo frame on a little-endian host.\<close>

definition frame_bytes :: "u16 \<times> u16 \<Rightarrow> u8 list" where
  "frame_bytes f = [ucast (fst f), ucast (drop_bit 8 (fst f)), ucast (snd f), ucast (drop_bit 8 (snd f))]"

text \<open>\<open>stream\<close> holds the \<open>len\<close> bytes to be filled. A stream of no bytes is left alone.\<close>

definition audio_callback ::
    "u8 list \<Rightarrow> audio_interface \<Rightarrow> audio_output \<Rightarrow> u8 list \<times> audio_interface \<times> audio_output" where
  "audio_callback stream ai a =
    (if \<not> ao_attached a \<or> stream = [] then (replicate (length stream) 0, ai, a)
     else
       (let want_frames = length stream div 4;
            (frames, ring) = pull_frames want_frames (ai_ring ai);
            got = length frames;
            filled = concat (map frame_bytes frames) @ drop (4 * got) stream;
            silent = (if got < want_frames
              then take (4 * got) filled @ replicate (4 * (want_frames - got)) 0 @ drop (4 * want_frames) filled
              else filled)
        in (silent, ai\<lparr>ai_ring := ring\<rparr>, a\<lparr>ao_frames_submitted := ao_frames_submitted a + of_nat got\<rparr>)))"

section \<open>What is heard\<close>

lemma length_frame_bytes [simp]: "length (frame_bytes f) = 4"
  by (simp add: frame_bytes_def)

lemma length_frames_bytes [simp]: "length (concat (map frame_bytes fs)) = 4 * length fs"
  by (induction fs) simp_all

lemma pull_at_most: "length (fst (pull_frames n q)) \<le> n"
  by (simp add: pull_frames_def Let_def)

text \<open>The callback fills the stream it is given exactly: with the frames that came first into the ring,
  in their order, then with silence to the last whole frame. It takes those frames from the ring and no
  other, counts them, and never writes past the stream, whose length it keeps.\<close>

theorem audio_callback_exact:
  assumes "ring_room (ai_ring ai) n" "ao_attached a" "length stream = 4 * k"
  shows "\<exists>ai' a'. audio_callback stream ai a =
        (concat (map frame_bytes (take k (ring_content (ai_ring ai))))
           @ replicate (4 * (k - length (ring_content (ai_ring ai)))) 0, ai', a')
      \<and> ring_content (ai_ring ai') = drop k (ring_content (ai_ring ai)) \<and> ring_room (ai_ring ai') n
      \<and> ai' = ai\<lparr>ai_ring := ai_ring ai'\<rparr>
      \<and> a' = a\<lparr>ao_frames_submitted := ao_frames_submitted a + of_nat (min k (length (ring_content (ai_ring ai))))\<rparr>"
proof -
  obtain fs ring where p: "pull_frames k (ai_ring ai) = (fs, ring)" by fastforce
  have fs: "fs = take k (ring_content (ai_ring ai))" and ring: "ring_content ring = drop k (ring_content (ai_ring ai))"
    "ring_room ring n"
    using pull_frames_content [OF assms(1), of k] by (simp_all add: p)
  have len: "length fs = min k (length (ring_content (ai_ring ai)))" by (simp add: fs)
  show ?thesis
  proof (cases "stream = []")
    case True
    then show ?thesis using assms by (cases a) (simp add: audio_callback_def)
  next
    case False
    have out: "audio_callback stream ai a =
        (concat (map frame_bytes fs) @ replicate (4 * (k - length (ring_content (ai_ring ai)))) 0,
         ai\<lparr>ai_ring := ring\<rparr>, a\<lparr>ao_frames_submitted := ao_frames_submitted a + of_nat (length fs)\<rparr>)"
      using False assms(2,3) len by (auto simp: audio_callback_def Let_def p)
    show ?thesis
      using out ring by (simp add: fs len min_def)
  qed
qed

theorem audio_callback_exact_witness:
  "\<exists>ai' a'. audio_callback (replicate 12 1)
      (ai_new\<lparr>ai_ring := push_frame (0x1234, 0x5678) (push_frame (1, 2) ring_reset)\<rparr>)
      (audio_output_new\<lparr>ao_attached := True\<rparr>)
    = ([1, 0, 2, 0, 0x34, 0x12, 0x78, 0x56, 0, 0, 0, 0], ai', a')"
proof -
  have room: "ring_room ring_reset 2" by (simp add: ring_room_def ring_reset_def)
  have e: "ring_content ring_reset = []" by (simp add: ring_content_def ring_reset_def)
  have r1: "ring_room (push_frame (1, 2) ring_reset) 1"
    "ring_content (push_frame (1, 2) ring_reset) = [(1, 2)]"
    using push_frame_content [of ring_reset 1 "(1, 2)"] room by (simp_all add: e kRingFrames_def numeral_2_eq_2)
  then have r2: "ring_room (push_frame (0x1234, 0x5678) (push_frame (1, 2) ring_reset)) 0"
    "ring_content (push_frame (0x1234, 0x5678) (push_frame (1, 2) ring_reset)) = [(1, 2), (0x1234, 0x5678)]"
    using push_frame_content [of "push_frame (1, 2) ring_reset" 0 "(0x1234, 0x5678)"]
    by (simp_all add: kRingFrames_def)
  have b: "frame_bytes (1, 2) = [1, 0, 2, 0]" "frame_bytes (0x1234, 0x5678) = [0x34, 0x12, 0x78, 0x56]"
    by (simp_all add: frame_bytes_def)
  show ?thesis
    using audio_callback_exact [of "ai_new\<lparr>ai_ring := push_frame (0x1234, 0x5678) (push_frame (1, 2) ring_reset)\<rparr>" 0
        "audio_output_new\<lparr>ao_attached := True\<rparr>" "replicate 12 1" 3]
    by (auto simp: r2 b numeral_eq_Suc)
qed

section \<open>Following the rate\<close>

definition rate_close :: "int \<Rightarrow> int \<Rightarrow> bool" where
  "rate_close want have_freq \<longleftrightarrow> \<bar>want - have_freq\<bar> * 100 \<le> have_freq * 2"

fun opened :: "audio_call list \<Rightarrow> nat" where
  "opened [] = 0"
| "opened (AcOpen _ # calls) = Suc (opened calls)"
| "opened (_ # calls) = opened calls"

lemma sample_rate_range: "4000 \<le> sample_rate ai" "sample_rate ai \<le> 96000"
  by (auto simp: sample_rate_def Let_def kDefaultSampleRate_def linorder_not_less)

lemma sample_rate_int: "sint (sample_rate ai) = uint (sample_rate ai)" "0 < uint (sample_rate ai)"
proof -
  have "4000 \<le> uint (sample_rate ai)" "uint (sample_rate ai) \<le> 96000"
    using sample_rate_range [of ai] by (simp_all add: word_le_def)
  then show "sint (sample_rate ai) = uint (sample_rate ai)" "0 < uint (sample_rate ai)"
    by (simp_all add: sint_uint signed_take_bit_int_eq_self)
qed

lemma opened_shutdown [simp]: "opened (snd (audio_shutdown s)) = opened (snd s)"
  by (cases s) (simp add: audio_shutdown_def leave_audio_def)

lemma audio_shutdown_parts:
  "audio_shutdown s = (fst (audio_shutdown s), snd (audio_shutdown s))"
  "\<not> ao_attached (fst (audio_shutdown s))" "ao_dev (fst (audio_shutdown s)) = 0"
  by (cases s; simp add: audio_shutdown_def leave_audio_def)+

text \<open>A host that always opens the device, at the rate \<open>g\<close>.\<close>

definition fixed_rate_host :: "int \<Rightarrow> audio_host \<Rightarrow> bool" where
  "fixed_rate_host g aud \<longleftrightarrow> (\<forall>calls freq. fst (aud (AcOpen freq # calls)) \<noteq> 0
     \<and> snd (aud (AcOpen freq # calls)) = g \<and> fst (aud (AcInitSub # calls)) = 0)"

definition playing :: "int \<Rightarrow> audio_output \<Rightarrow> bool" where
  "playing g a \<longleftrightarrow> ao_attached a \<and> ao_dev a \<noteq> 0 \<and> ao_rate a = g"

lemma audio_init_opens:
  assumes "fixed_rate_host g aud" "audio_init aud (Some ai) rate s = (ok, s')"
  shows "ok" "playing g (fst s')" "opened (snd s') = Suc (opened (snd s))"
proof -
  obtain a0 calls0 where d: "audio_shutdown s = (a0, calls0)" by fastforce
  have "opened calls0 = opened (snd s)" using opened_shutdown [of s] by (simp add: d)
  then show "ok" "playing g (fst s')" "opened (snd s') = Suc (opened (snd s))"
    using assms by (auto simp: audio_init_def d Let_def fixed_rate_host_def playing_def split: if_splits)
qed

lemma pump_step:
  assumes "fixed_rate_host g aud" "playing g (fst s)"
  shows "playing g (fst (pump aud ai s))"
    "opened (snd (pump aud ai s)) = opened (snd s) + (if rate_close (uint (sample_rate ai)) g then 0 else 1)"
    "rate_close (uint (sample_rate ai)) g \<Longrightarrow> pump aud ai s = s"
proof -
  obtain ok s' where i: "audio_init aud (Some ai) (uint (sample_rate ai)) (audio_shutdown s) = (ok, s')" by (rule prod.exhaust)
  have eq: "pump aud ai s = (if rate_close (uint (sample_rate ai)) g then s else s')"
    using assms(2) sample_rate_int [of ai]
    by (simp add: pump_def sync_rate_from_ai_def playing_def rate_close_def i)
  show "playing g (fst (pump aud ai s))"
    "opened (snd (pump aud ai s)) = opened (snd s) + (if rate_close (uint (sample_rate ai)) g then 0 else 1)"
    "rate_close (uint (sample_rate ai)) g \<Longrightarrow> pump aud ai s = s"
    using audio_init_opens [OF assms(1) i] assms(2) by (simp_all add: eq)
qed



end
