(* ===== verification/Overlay.thy ===== *)
theory Overlay
  imports Emulator
begin

text \<open>
  The text the debugger shows (\<open>debug/debugger.cpp\<close>: overlay, status line, trace and unknown
  accesses) and writes to the trace file (\<open>core/emulator.cpp\<close>). Every line goes through
  \<open>snprintf\<close> into a buffer of fixed size, which would cut a longer one; none is.
\<close>

section \<open>Formatting\<close>

definition newline :: string where "newline = [CHR 0x0A]"

definition snprintf_to :: "nat \<Rightarrow> string \<Rightarrow> string" where
  "snprintf_to n s = take (n - 1) s"

fun show_hex :: "nat \<Rightarrow> string" where
  "show_hex k = (if k < 16 then [hex_digit k] else show_hex (k div 16) @ [hex_digit (k mod 16)])"

declare show_hex.simps [simp del]

text \<open>\<open>%0nX\<close>, \<open>%nu\<close> and \<open>%-nd\<close>.\<close>

definition hex_at_least :: "nat \<Rightarrow> nat \<Rightarrow> string" where
  "hex_at_least n k = replicate (n - length (show_hex k)) CHR ''0'' @ show_hex k"

definition dec_right :: "nat \<Rightarrow> nat \<Rightarrow> string" where
  "dec_right n k = replicate (n - length (show_dec k)) CHR '' '' @ show_dec k"

definition dec_left :: "nat \<Rightarrow> nat \<Rightarrow> string" where
  "dec_left n k = show_dec k @ replicate (n - length (show_dec k)) CHR '' ''"

abbreviation hex8 :: "u32 \<Rightarrow> string" where
  "hex8 w \<equiv> hex_at_least 8 (unat w)"

abbreviation dec64 :: "u64 \<Rightarrow> string" where
  "dec64 w \<equiv> show_dec (unat w)"

section \<open>The text\<close>

fun debug_stop_reason_cstr :: "debug_stop_reason \<Rightarrow> string" where
  "debug_stop_reason_cstr StopNone = ''running''"
| "debug_stop_reason_cstr UserPause = ''paused''"
| "debug_stop_reason_cstr Breakpoint = ''breakpoint''"
| "debug_stop_reason_cstr Watchpoint = ''watchpoint''"
| "debug_stop_reason_cstr StepDone = ''step''"
| "debug_stop_reason_cstr ExceptionStop = ''exception''"

definition trace_line :: "trace_entry \<Rightarrow> string" where
  "trace_line e = dec_right 10 (unat (t_cycle e)) @ ''  '' @ hex8 (ucast (t_pc e)) @ ''  '' @ hex8 (t_insn e)
     @ ''  '' @ t_disasm e @ newline"

definition format_trace :: "nat \<Rightarrow> debugger \<Rightarrow> string" where
  "format_trace max_n d = concat (map (\<lambda>e. snprintf_to 160 (trace_line e)) (recent_trace max_n d))"

definition mmio_line :: "mmio_hit \<Rightarrow> string" where
  "mmio_line h = (if hit_is_write h then ''W'' else ''R'') @ '' '' @ hex8 (hit_paddr h) @ '' val='' @ hex8 (hit_value h)
     @ '' x'' @ dec64 (hit_count h) @ newline"

text \<open>\<open>None\<close> is the exception of \<open>at\<close> for a key the map does not have.\<close>

fun mmio_lines :: "(u32 \<Rightarrow> mmio_hit option) \<Rightarrow> u32 list \<Rightarrow> string option" where
  "mmio_lines hits [] = Some []"
| "mmio_lines hits (k # ks) =
    (case hits k of None \<Rightarrow> None
     | Some h \<Rightarrow> map_option (\<lambda>s. snprintf_to 96 (mmio_line h) @ s) (mmio_lines hits ks))"

definition format_unknown_mmio :: "nat \<Rightarrow> debugger \<Rightarrow> string option" where
  "format_unknown_mmio max_n d = mmio_lines (dbg_mmio d) (take max_n (rev (dbg_mmio_order d)))"

definition overlay_state :: "machine \<Rightarrow> string" where
  "overlay_state m = (let d = m_dbg m in
     ''n64emu DEBUG ['' @ (if dbg_enabled d then (if dbg_paused d then ''PAUSED'' else ''RUN'') else ''off'')
     @ '']  reason='' @ debug_stop_reason_cstr (dbg_stop_reason d) @ ''  bp='' @ show_dec (length (dbg_breakpoints d))
     @ '' wp='' @ show_dec (length (dbg_watchpoints d)) @ newline)"

definition overlay_counters :: "machine \<Rightarrow> string" where
  "overlay_counters m = (let c = m_cpu m in
     ''PC='' @ hex8 (ucast (c_pc c)) @ ''  cycles='' @ dec64 (c_cycles c) @ ''  exc='' @ dec64 (c_exception_count c)
     @ ''  vi='' @ dec64 (vi_frame_count (m_vi m)) @ ''  ai_dma='' @ dec64 (ai_dmas_completed (m_ai m)) @ newline)"

definition overlay_cop0 :: "machine \<Rightarrow> string" where
  "overlay_cop0 m = (let c = m_cpu m in
     ''SR='' @ hex8 (c_cop0 c Cop0_Status) @ '' CAUSE='' @ hex8 (c_cop0 c Cop0_Cause) @ '' EPC='' @ hex8 (c_cop0 c Cop0_EPC)
     @ '' HI='' @ hex8 (ucast (c_hi c)) @ '' LO='' @ hex8 (ucast (c_lo c)) @ newline)"

definition overlay_gpr :: "machine \<Rightarrow> nat \<Rightarrow> string" where
  "overlay_gpr m r = ''r'' @ dec_left 2 r @ ''='' @ hex8 (ucast (c_gpr (m_cpu m) (of_nat r))) @ '' ''"

definition overlay_rcp :: "machine \<Rightarrow> string" where
  "overlay_rcp m = (let p = m_rdp m in
     ''RSP '' @ (if r_halted (m_rsp m) then ''HALT'' else ''RUN '') @ '' pc='' @ hex_at_least 3 (unat (r_pc (m_rsp m)))
     @ ''  RDP cmds='' @ dec64 (d_cmds_executed p) @ '' fill='' @ dec64 (d_fill_pixels p)
     @ '' tex='' @ dec64 (d_tex_pixels p) @ newline)"

definition overlay_keys :: string where
  "overlay_keys = '' F1 overlay  F2 pause  F3 step  F5 resume  F6 trace'' @ newline"

definition format_overlay :: "machine \<Rightarrow> string" where
  "format_overlay m =
     snprintf_to 128 (overlay_state m) @ snprintf_to 128 (overlay_counters m) @ snprintf_to 128 (overlay_cop0 m)
     @ concat (map (\<lambda>row. '' '' @ concat (map (\<lambda>col. snprintf_to 128 (overlay_gpr m (row * 4 + col + 1))) [0..<4])
         @ newline) [0..<4])
     @ snprintf_to 128 (overlay_rcp m) @ overlay_keys
     @ (if dbg_trace_enabled (m_dbg m) then ''--- last trace ---'' @ newline @ format_trace 8 (m_dbg m) else [])"

definition status_text :: "machine \<Rightarrow> string" where
  "status_text m = (let d = m_dbg m in
     ''PC='' @ hex8 (ucast (c_pc (m_cpu m))) @ '' ''
     @ (if dbg_enabled d then (if dbg_paused d then ''PAUSE'' else ''RUN'') else ''dbg-off'')
     @ '' bp='' @ show_dec (length (dbg_breakpoints d)) @ '' vi='' @ dec64 (vi_frame_count (m_vi m)))"

definition format_status_line :: "machine \<Rightarrow> string" where
  "format_status_line m = snprintf_to 160 (status_text m)"

text \<open>The bytes of the trace file.\<close>

definition dump_trace_text :: "nat \<Rightarrow> debugger \<Rightarrow> string" where
  "dump_trace_text max_n d =
     ''# n64emu CPU trace'' @ newline @ ''# cycle  pc  insn  disasm'' @ newline @ format_trace max_n d"

section \<open>Widths\<close>

lemma length_newline [simp]: "length newline = 1"
  by (simp add: newline_def)

lemma length_show_dec: "k < 10 ^ n \<Longrightarrow> 0 < n \<Longrightarrow> length (show_dec k) \<le> n"
proof (induction k arbitrary: n rule: show_dec.induct)
  case (1 k)
  show ?case
  proof (cases "k < 10")
    case False
    then obtain j where n: "n = Suc j" "0 < j" using 1(2,3) by (cases n; cases "n - 1") auto
    then have "k div 10 < 10 ^ j" using 1(2) by (simp add: less_mult_imp_div_less mult.commute)
    then show ?thesis using 1(1) [OF False _ n(2)] False by (subst show_dec.simps) (simp add: n)
  qed (use 1 in \<open>subst show_dec.simps, simp\<close>)
qed

lemma length_show_hex: "k < 16 ^ n \<Longrightarrow> 0 < n \<Longrightarrow> length (show_hex k) \<le> n"
proof (induction k arbitrary: n rule: show_hex.induct)
  case (1 k)
  show ?case
  proof (cases "k < 16")
    case False
    then obtain j where n: "n = Suc j" "0 < j" using 1(2,3) by (cases n; cases "n - 1") auto
    then have "k div 16 < 16 ^ j" using 1(2) by (simp add: less_mult_imp_div_less mult.commute)
    then show ?thesis using 1(1) [OF False _ n(2)] False by (subst show_hex.simps) (simp add: n)
  qed (use 1 in \<open>subst show_hex.simps, simp\<close>)
qed

lemma width_dec64: "length (dec64 w) \<le> 20"
  using unsigned_less [of w, where ?'a = nat] by (intro length_show_dec) simp_all

lemma width_hex8 [simp]: "length (hex8 w) = 8"
proof -
  have "length (show_hex (unat w)) \<le> 8"
    using unsigned_less [of w, where ?'a = nat] by (intro length_show_hex) simp_all
  then show ?thesis by (simp add: hex_at_least_def)
qed

lemma width_dec_right: "length (dec_right 10 (unat (w :: u64))) \<le> 20"
  using width_dec64 [of w] by (simp add: dec_right_def)

lemma width_reason: "length (debug_stop_reason_cstr r) \<le> 10"
  by (cases r) simp_all

lemma width_show_dec32: "length (show_dec (unat (w :: u32))) \<le> 10"
  using unsigned_less [of w, where ?'a = nat] by (intro length_show_dec) simp_all

lemma width_show_int: "length (show_int (sint (w :: u16))) \<le> 20"
proof -
  have "- (2 ^ 15) \<le> sint w" "sint w < 2 ^ 15" using sint_ge [of w] sint_lt [of w] by simp_all
  then have "length (show_dec (nat (sint w))) \<le> 19" "length (show_dec (nat (- sint w))) \<le> 19"
    by (intro length_show_dec; simp)+
  then show ?thesis by (simp add: show_int_def)
qed

lemma length_hex_pad [simp]: "length (hex_pad n k) = n"
  by (induction n k rule: hex_pad.induct) simp_all

lemma width_disassemble: "length (disassemble insn) \<le> 80"
  using width_show_dec32 [of "i_rd insn"] width_show_dec32 [of "i_rs insn"] width_show_dec32 [of "i_rt insn"]
    width_show_dec32 [of "i_sa insn"] width_show_int [of "i_simm insn"]
  by (simp add: disassemble_def Let_def)

lemma snprintf_fits: "length s < n \<Longrightarrow> snprintf_to n s = s"
  by (simp add: snprintf_to_def)

lemma trace_line_fits: "length (t_disasm e) \<le> 80 \<Longrightarrow> length (trace_line e) < 160"
  using width_dec_right [of "t_cycle e"] by (simp add: trace_line_def)

lemma mmio_line_fits: "length (mmio_line h) < 96"
  using width_dec64 [of "hit_count h"] by (simp add: mmio_line_def)

lemma width_rsp_pc: "length (hex_at_least 3 (unat (w :: u32))) \<le> 8"
proof -
  have "length (show_hex (unat w)) \<le> 8"
    using unsigned_less [of w, where ?'a = nat] by (intro length_show_hex) simp_all
  then show ?thesis by (simp add: hex_at_least_def)
qed

lemma overlay_widths:
  assumes "length (dbg_breakpoints (m_dbg m)) \<le> kMaxBreakpoints" "length (dbg_watchpoints (m_dbg m)) \<le> kMaxWatchpoints"
  shows "length (overlay_state m) < 128" "length (overlay_counters m) < 128" "length (overlay_cop0 m) < 128"
    "r < 100 \<Longrightarrow> length (overlay_gpr m r) < 128" "length (overlay_rcp m) < 128" "length (status_text m) < 160"
proof -
  have b: "length (show_dec (length (dbg_breakpoints (m_dbg m)))) \<le> 2"
    "length (show_dec (length (dbg_watchpoints (m_dbg m)))) \<le> 2"
    using assms by (intro length_show_dec; simp add: kMaxBreakpoints_def kMaxWatchpoints_def)+
  note wd = width_dec64
  show "length (overlay_state m) < 128"
    using b width_reason [of "dbg_stop_reason (m_dbg m)"] by (simp add: overlay_state_def Let_def)
  show "length (overlay_counters m) < 128"
    using wd [of "c_cycles (m_cpu m)"] wd [of "c_exception_count (m_cpu m)"] wd [of "vi_frame_count (m_vi m)"]
      wd [of "ai_dmas_completed (m_ai m)"]
    by (simp add: overlay_counters_def Let_def)
  show "length (overlay_cop0 m) < 128" by (simp add: overlay_cop0_def Let_def)
  show "length (overlay_gpr m r) < 128" if "r < 100"
    using length_show_dec [of r 2] that by (simp add: overlay_gpr_def dec_left_def)
  show "length (overlay_rcp m) < 128"
    using wd [of "d_cmds_executed (m_rdp m)"] wd [of "d_fill_pixels (m_rdp m)"] wd [of "d_tex_pixels (m_rdp m)"]
      width_rsp_pc [of "r_pc (m_rsp m)"]
    by (simp add: overlay_rcp_def Let_def)
  show "length (status_text m) < 160"
    using b wd [of "vi_frame_count (m_vi m)"] by (simp add: status_text_def Let_def)
qed

lemma set_recent_trace: "set (recent_trace n d) \<subseteq> set (dbg_trace d)"
  by (auto simp: recent_trace_def Let_def)

text \<open>C30: Nothing the debugger shows is cut by its buffers: with no more breakpoints and watchpoints than it
  accepts, and a trace filled by its own callback, the overlay, the status line and the trace file hold
  every field of every line in full, whatever the values.\<close>

theorem debug_text_never_cut:
  assumes "length (dbg_breakpoints (m_dbg m)) \<le> kMaxBreakpoints"
    "length (dbg_watchpoints (m_dbg m)) \<le> kMaxWatchpoints"
    "\<forall>e \<in> set (dbg_trace (m_dbg m)). \<exists>insn. t_disasm e = disassemble insn"
  shows "format_overlay m =
      overlay_state m @ overlay_counters m @ overlay_cop0 m
      @ concat (map (\<lambda>row. '' '' @ concat (map (\<lambda>col. overlay_gpr m (row * 4 + col + 1)) [0..<4]) @ newline) [0..<4])
      @ overlay_rcp m @ overlay_keys
      @ (if dbg_trace_enabled (m_dbg m)
         then ''--- last trace ---'' @ newline @ concat (map trace_line (recent_trace 8 (m_dbg m))) else [])
    \<and> format_status_line m = status_text m
    \<and> format_trace n (m_dbg m) = concat (map trace_line (recent_trace n (m_dbg m)))"
proof -
  have tr: "format_trace k (m_dbg m) = concat (map trace_line (recent_trace k (m_dbg m)))" for k
  proof -
    have "snprintf_to 160 (trace_line e) = trace_line e" if "e \<in> set (recent_trace k (m_dbg m))" for e
    proof -
      have "e \<in> set (dbg_trace (m_dbg m))" using that set_recent_trace by blast
      then obtain insn where "t_disasm e = disassemble insn" using assms(3) by blast
      then show ?thesis using width_disassemble [of insn] by (simp add: snprintf_fits trace_line_fits)
    qed
    then show ?thesis by (simp add: format_trace_def cong: map_cong)
  qed
  note w = overlay_widths [OF assms(1,2)]
  have g: "map (\<lambda>col. snprintf_to 128 (overlay_gpr m (row * 4 + col + 1))) [0..<4]
      = map (\<lambda>col. overlay_gpr m (row * 4 + col + 1)) [0..<4]" if "row \<in> set [0..<4]" for row
    using that w(4) by (intro map_cong refl snprintf_fits) simp
  have rows: "map (\<lambda>row. '' '' @ concat (map (\<lambda>col. snprintf_to 128 (overlay_gpr m (row * 4 + col + 1))) [0..<4]) @ newline) [0..<4]
      = map (\<lambda>row. '' '' @ concat (map (\<lambda>col. overlay_gpr m (row * 4 + col + 1)) [0..<4]) @ newline) [0..<4]"
    by (intro map_cong refl arg_cong2 [where f = append]) (simp only: g)
  show ?thesis
    unfolding format_overlay_def format_status_line_def rows tr
    by (simp only: snprintf_fits w conj_absorb simp_thms)
qed

theorem debug_text_never_cut_witness:
  "format_status_line (machine_new []) = ''PC=00000000 dbg-off bp=0 vi=0''"
proof -
  have "show_hex 0 = ''0''" "show_dec 0 = ''0''"
    by code_simp+
  then have "status_text (machine_new []) = ''PC=00000000 dbg-off bp=0 vi=0''"
    by (simp add: status_text_def Let_def machine_new_def cpu_new_def debugger_new_def vi_new_def
        hex_at_least_def numeral_eq_Suc)
  moreover have "length (dbg_breakpoints (m_dbg (machine_new []))) \<le> kMaxBreakpoints"
    "length (dbg_watchpoints (m_dbg (machine_new []))) \<le> kMaxWatchpoints"
    "\<forall>e \<in> set (dbg_trace (m_dbg (machine_new []))). \<exists>insn. t_disasm e = disassemble insn"
    by (simp_all add: machine_new_def debugger_new_def)
  ultimately show ?thesis using debug_text_never_cut [of "machine_new []" 0] by simp
qed

section \<open>The log of unknown accesses\<close>

text \<open>The order holds exactly the keys of the map, so \<open>at\<close> does not throw.\<close>

definition mmio_ok :: "debugger \<Rightarrow> bool" where
  "mmio_ok d \<longleftrightarrow> (\<forall>k \<in> set (dbg_mmio_order d). dbg_mmio d k \<noteq> None)"

lemma log_unknown_mmio_ok: "mmio_ok d \<Longrightarrow> mmio_ok (log_unknown_mmio a w v d)"
  by (auto simp: mmio_ok_def log_unknown_mmio_def Let_def split: option.splits)

lemma format_unknown_mmio_lines:
  assumes "mmio_ok d"
  shows "format_unknown_mmio n d
    = Some (concat (map (\<lambda>k. mmio_line (the (dbg_mmio d k))) (take n (rev (dbg_mmio_order d)))))"
proof -
  have "mmio_lines (dbg_mmio d) ks = Some (concat (map (\<lambda>k. mmio_line (the (dbg_mmio d k))) ks))"
    if "\<forall>k \<in> set ks. dbg_mmio d k \<noteq> None" for ks
    using that by (induction ks) (auto simp: snprintf_fits mmio_line_fits)
  moreover have "set (take n (rev (dbg_mmio_order d))) \<subseteq> set (dbg_mmio_order d)"
    using set_take_subset [of n "rev (dbg_mmio_order d)"] by simp
  ultimately show ?thesis using assms by (auto simp: format_unknown_mmio_def mmio_ok_def)
qed

end
