(* ===== verification/Arguments.thy ===== *)
theory Arguments
  imports Overlay Window
begin

text \<open>
  The command line (\<open>frontend/application.hpp\<close> \<open>AppConfig\<close>, \<open>frontend/application.cpp\<close>
  \<open>parse_args\<close> and its helpers), with the two functions of the C library it reads numbers with. A
  call of \<open>exit\<close> is the left of the sum, with its code; what is printed is left out. Paths are not
  empty strings when they are given.
\<close>

section \<open>Configuration\<close>

datatype log_level = LevelTrace | LevelDebug | LevelInfo | LevelWarn | LevelErr | LevelCritical

record app_config =
  ac_window :: window_config
  ac_rom_path :: string
  ac_pause_on_start :: bool
  ac_auto_close_ms :: int
  ac_mute :: bool
  ac_pace_to_fps :: bool
  ac_debug :: bool
  ac_trace :: bool
  ac_trace_dump_path :: string
  ac_log_level :: log_level
  ac_boot :: boot_config
  ac_break_pcs :: "u64 list"

definition app_config_default :: app_config where
  "app_config_default = \<lparr>ac_window = window_config_default, ac_rom_path = [], ac_pause_on_start = False,
     ac_auto_close_ms = 0, ac_mute = False, ac_pace_to_fps = True, ac_debug = False, ac_trace = False,
     ac_trace_dump_path = [], ac_log_level = LevelInfo, ac_boot = boot_config_default, ac_break_pcs = []\<rparr>"

section \<open>Numbers of the C library\<close>

definition is_blank :: "char \<Rightarrow> bool" where
  "is_blank c \<longleftrightarrow> c = CHR '' '' \<or> (9 \<le> (of_char c :: nat) \<and> of_char c \<le> (13 :: nat))"

definition digit_value :: "char \<Rightarrow> nat option" where
  "digit_value c =
    (let n = (of_char c :: nat) in
     if 48 \<le> n \<and> n \<le> 57 then Some (n - 48)
     else if 65 \<le> n \<and> n \<le> 90 then Some (n - 55)
     else if 97 \<le> n \<and> n \<le> 122 then Some (n - 87) else None)"

definition is_digit :: "nat \<Rightarrow> char \<Rightarrow> bool" where
  "is_digit base c \<longleftrightarrow> (case digit_value c of None \<Rightarrow> False | Some d \<Rightarrow> d < base)"

text \<open>The digits in front, after \<open>acc\<close>.\<close>

fun read_digits :: "nat \<Rightarrow> nat \<Rightarrow> string \<Rightarrow> nat" where
  "read_digits base acc [] = acc"
| "read_digits base acc (c # cs) =
    (if is_digit base c then read_digits base (acc * base + the (digit_value c)) cs else acc)"

fun read_sign :: "string \<Rightarrow> bool \<times> string" where
  "read_sign [] = (False, [])"
| "read_sign (c # cs) = (if c = CHR ''-'' then (True, cs) else if c = CHR ''+'' then (False, cs) else (False, c # cs))"

definition atoi :: "string \<Rightarrow> int" where
  "atoi s = (case read_sign (dropWhile is_blank s) of (neg, t) \<Rightarrow>
     (if neg then - int (read_digits 10 0 t) else int (read_digits 10 0 t)))"

text \<open>With base 0: the prefix says the base. A number too large is the largest.\<close>

fun read_prefixed :: "string \<Rightarrow> nat" where
  "read_prefixed (CHR ''0'' # x # c # cs) =
    (if (x = CHR ''x'' \<or> x = CHR ''X'') \<and> is_digit 16 c then read_digits 16 0 (c # cs)
     else read_digits 8 0 (x # c # cs))"
| "read_prefixed (CHR ''0'' # cs) = read_digits 8 0 cs"
| "read_prefixed cs = read_digits 10 0 cs"

definition strtoull :: "string \<Rightarrow> u64" where
  "strtoull s = (case read_sign (dropWhile is_blank s) of (neg, t) \<Rightarrow>
     (let k = read_prefixed t in
      if k \<ge> 2 ^ 64 then - 1 else if neg then - of_nat k else of_nat k))"

section \<open>The options\<close>

definition parse_cic :: "string \<Rightarrow> int + cic_type" where
  "parse_cic s =
    (if s = ''6101'' then Inr Cic6101 else if s = ''6102'' then Inr Cic6102
     else if s = ''6103'' then Inr Cic6103 else if s = ''6105'' then Inr Cic6105
     else if s = ''6106'' then Inr Cic6106 else if s = ''5101'' then Inr Cic5101
     else if s = ''x103'' \<or> s = ''X103'' then Inr CicX103
     else if s = ''x105'' \<or> s = ''X105'' then Inr CicX105
     else if s = ''x106'' \<or> s = ''X106'' then Inr CicX106
     else Inl 2)"

definition parse_tv :: "string \<Rightarrow> int + tv_type" where
  "parse_tv s =
    (if s = ''ntsc'' \<or> s = ''NTSC'' then Inr NTSC else if s = ''pal'' \<or> s = ''PAL'' then Inr PAL
     else if s = ''mpal'' \<or> s = ''MPAL'' then Inr MPAL else Inl 2)"

definition parse_level :: "string \<Rightarrow> log_level" where
  "parse_level s =
    (if s = ''trace'' then LevelTrace else if s = ''debug'' then LevelDebug
     else if s = ''info'' then LevelInfo else if s = ''warn'' \<or> s = ''warning'' then LevelWarn
     else if s = ''error'' then LevelErr else if s = ''critical'' then LevelCritical else LevelInfo)"

definition upd_boot :: "(boot_config \<Rightarrow> boot_config) \<Rightarrow> app_config \<Rightarrow> app_config" where
  "upd_boot f cfg = cfg\<lparr>ac_boot := f (ac_boot cfg)\<rparr>"

definition upd_window :: "(window_config \<Rightarrow> window_config) \<Rightarrow> app_config \<Rightarrow> app_config" where
  "upd_window f cfg = cfg\<lparr>ac_window := f (ac_window cfg)\<rparr>"

text \<open>\<open>need\<close>: the value behind an option, and what is left.\<close>

definition need :: "string list \<Rightarrow> (string \<Rightarrow> int + app_config) \<Rightarrow> int + (app_config \<times> string list)" where
  "need rest use = (case rest of [] \<Rightarrow> Inl 2 | v # others \<Rightarrow> map_sum id (\<lambda>cfg. (cfg, others)) (use v))"

text \<open>One turn of the loop: the configuration and the arguments left, or the exit code.\<close>

definition parse_option :: "app_config \<Rightarrow> string \<Rightarrow> string list \<Rightarrow> int + (app_config \<times> string list)" where
  "parse_option cfg arg rest =
    (if arg = ''--help'' \<or> arg = ''-h'' then Inl 0
     else if arg = ''--rom'' then need rest (\<lambda>v. Inr (cfg\<lparr>ac_rom_path := v\<rparr>))
     else if arg = ''--pif-rom'' then need rest (\<lambda>v. Inr (upd_boot (\<lambda>b. b\<lparr>cfg_pif_rom_path := v\<rparr>) cfg))
     else if arg = ''--ipl3'' then need rest (\<lambda>v. Inr (upd_boot (\<lambda>b. b\<lparr>cfg_ipl3_path := v\<rparr>) cfg))
     else if arg = ''--lle-pif'' then Inr (upd_boot (\<lambda>b. b\<lparr>cfg_mode := LlePif\<rparr>) cfg, rest)
     else if arg = ''--cic'' then
       need rest (\<lambda>v. map_sum id (\<lambda>t. upd_boot (\<lambda>b. b\<lparr>cfg_force_cic := t\<rparr>) cfg) (parse_cic v))
     else if arg = ''--tv'' then
       need rest (\<lambda>v. map_sum id (\<lambda>t. upd_boot (\<lambda>b. b\<lparr>cfg_force_tv_set := True, cfg_force_tv := t\<rparr>) cfg) (parse_tv v))
     else if arg = ''--headless'' then Inr (upd_window (\<lambda>w. w\<lparr>wc_headless := True\<rparr>) cfg, rest)
     else if arg = ''--mute'' then Inr (cfg\<lparr>ac_mute := True\<rparr>, rest)
     else if arg = ''--no-vsync-emu'' then Inr (cfg\<lparr>ac_pace_to_fps := False\<rparr>, rest)
     else if arg = ''--debug'' then Inr (cfg\<lparr>ac_debug := True\<rparr>, rest)
     else if arg = ''--trace'' then Inr (cfg\<lparr>ac_trace := True, ac_debug := True\<rparr>, rest)
     else if arg = ''--trace-dump'' then
       need rest (\<lambda>v. Inr (cfg\<lparr>ac_trace_dump_path := v, ac_trace := True, ac_debug := True\<rparr>))
     else if arg = ''--break'' then
       need rest (\<lambda>v. Inr (cfg\<lparr>ac_break_pcs := ac_break_pcs cfg @ [strtoull v], ac_debug := True\<rparr>))
     else if arg = ''--auto-close'' then need rest (\<lambda>v. Inr (cfg\<lparr>ac_auto_close_ms := atoi v\<rparr>))
     else if arg = ''--log-level'' then need rest (\<lambda>v. Inr (cfg\<lparr>ac_log_level := parse_level v\<rparr>))
     else if arg = ''--width'' then need rest (\<lambda>v. Inr (upd_window (\<lambda>w. w\<lparr>wc_width := atoi v\<rparr>) cfg))
     else if arg = ''--height'' then need rest (\<lambda>v. Inr (upd_window (\<lambda>w. w\<lparr>wc_height := atoi v\<rparr>) cfg))
     else if arg \<noteq> [] \<and> hd arg \<noteq> CHR ''-'' then Inr (cfg\<lparr>ac_rom_path := arg\<rparr>, rest)
     else Inl 2)"

lemma need_shorter: "need rest use = Inr (cfg, others) \<Longrightarrow> length others < length rest"
  by (cases rest) (auto simp: need_def map_sum_def split: sum.splits)

lemma parse_option_shorter: "parse_option cfg arg rest = Inr (cfg', others) \<Longrightarrow> length others \<le> length rest"
  unfolding parse_option_def
  by (auto split: if_splits dest!: need_shorter)

function parse_loop :: "app_config \<Rightarrow> string list \<Rightarrow> int + app_config" where
  "parse_loop cfg [] = Inr cfg"
| "parse_loop cfg (arg # rest) =
    (case parse_option cfg arg rest of Inl code \<Rightarrow> Inl code | Inr (cfg', others) \<Rightarrow> parse_loop cfg' others)"
  by pat_completeness auto
termination
  by (relation "measure (\<lambda>(cfg, args). length args)") (auto simp: less_Suc_eq_le dest: parse_option_shorter parse_option_shorter [OF sym])

definition parse_args :: "string list \<Rightarrow> int + app_config" where
  "parse_args argv = parse_loop app_config_default (drop 1 argv)"

section \<open>Numbers read back\<close>

lemma digit_value_hex: "d < 16 \<Longrightarrow> digit_value (hex_digit d) = Some d"
  by (auto simp: digit_value_def hex_digit_def Let_def)

lemma is_digit_hex: "d < base \<Longrightarrow> base \<le> 16 \<Longrightarrow> is_digit base (hex_digit d)"
  by (simp add: is_digit_def digit_value_hex)

lemma read_digits_append:
  "\<forall>c \<in> set s. is_digit base c \<Longrightarrow> read_digits base acc (s @ t) = read_digits base (read_digits base acc s) t"
  by (induction base acc s rule: read_digits.induct) simp_all

lemma show_dec_digits: "\<forall>c \<in> set (show_dec k). is_digit 10 c"
  by (induction k rule: show_dec.induct) (subst show_dec.simps, auto simp: is_digit_hex)

lemma show_hex_digits: "\<forall>c \<in> set (show_hex k). is_digit 16 c"
  by (induction k rule: show_hex.induct) (subst show_hex.simps, auto simp: is_digit_hex)

lemma read_show_dec: "read_digits 10 0 (show_dec k) = k"
proof (induction k rule: show_dec.induct)
  case (1 k)
  show ?case
    using 1 show_dec_digits [of "k div 10"]
    by (subst show_dec.simps) (simp add: is_digit_hex digit_value_hex read_digits_append)
qed

lemma read_show_hex: "read_digits 16 0 (show_hex k) = k"
proof (induction k rule: show_hex.induct)
  case (1 k)
  show ?case
    using 1 show_hex_digits [of "k div 16"]
    by (subst show_hex.simps) (simp add: is_digit_hex digit_value_hex read_digits_append)
qed

lemma show_dec_ne: "show_dec k \<noteq> []" and show_hex_ne: "show_hex k \<noteq> []"
  by (subst show_dec.simps, simp) (subst show_hex.simps, simp)

lemma digit_not_special: "is_digit 10 c \<Longrightarrow> \<not> is_blank c \<and> c \<noteq> CHR ''-'' \<and> c \<noteq> CHR ''+''"
  by (auto simp: is_digit_def digit_value_def is_blank_def Let_def split: if_splits)

lemma atoi_show_int: "atoi (show_int i) = i"
proof -
  have dec: "dropWhile is_blank (show_dec k) = show_dec k" "read_sign (show_dec k) = (False, show_dec k)" for k
    using show_dec_digits [of k] show_dec_ne [of k] digit_not_special by (cases "show_dec k"; auto)+
  have blank: "\<not> is_blank CHR ''-''" by (simp add: is_blank_def)
  show ?thesis using dec blank by (simp add: atoi_def show_int_def read_show_dec)
qed

definition hex_literal :: "u64 \<Rightarrow> string" where
  "hex_literal w = ''0x'' @ show_hex (unat w)"

lemma strtoull_hex_literal: "strtoull (hex_literal w) = w"
proof -
  obtain c cs where s: "show_hex (unat w) = c # cs" using show_hex_ne by (cases "show_hex (unat w)") auto
  have "is_digit 16 c" using show_hex_digits [of "unat w"] by (simp add: s)
  then have "read_prefixed (hex_literal w) = unat w"
    using read_show_hex [of "unat w"] by (simp add: hex_literal_def s)
  moreover have "dropWhile is_blank (hex_literal w) = hex_literal w"
    "read_sign (hex_literal w) = (False, hex_literal w)"
    by (simp_all add: hex_literal_def is_blank_def)
  ultimately show ?thesis
    using unsigned_less [of w, where ?'a = nat] by (simp add: strtoull_def)
qed

section \<open>A command line for a configuration\<close>

fun cic_arg :: "cic_type \<Rightarrow> string" where
  "cic_arg Cic6101 = ''6101''" | "cic_arg Cic6102 = ''6102''" | "cic_arg Cic6103 = ''6103''"
| "cic_arg Cic6105 = ''6105''" | "cic_arg Cic6106 = ''6106''" | "cic_arg Cic5101 = ''5101''"
| "cic_arg CicX103 = ''x103''" | "cic_arg CicX105 = ''x105''" | "cic_arg CicX106 = ''x106''"
| "cic_arg Cic_Unknown = []"

fun tv_arg :: "tv_type \<Rightarrow> string" where
  "tv_arg NTSC = ''ntsc''" | "tv_arg PAL = ''pal''" | "tv_arg MPAL = ''mpal''"

fun level_arg :: "log_level \<Rightarrow> string" where
  "level_arg LevelTrace = ''trace''" | "level_arg LevelDebug = ''debug''" | "level_arg LevelInfo = ''info''"
| "level_arg LevelWarn = ''warn''" | "level_arg LevelErr = ''error''" | "level_arg LevelCritical = ''critical''"

definition opt :: "bool \<Rightarrow> string list \<Rightarrow> string list" where
  "opt b args = (if b then args else [])"

definition config_args :: "app_config \<Rightarrow> string list" where
  "config_args cfg = (let b = ac_boot cfg; w = ac_window cfg in
     opt (ac_rom_path cfg \<noteq> []) [''--rom'', ac_rom_path cfg]
     @ opt (cfg_pif_rom_path b \<noteq> []) [''--pif-rom'', cfg_pif_rom_path b]
     @ opt (cfg_ipl3_path b \<noteq> []) [''--ipl3'', cfg_ipl3_path b]
     @ opt (cfg_mode b = LlePif) [''--lle-pif'']
     @ opt (cfg_force_cic b \<noteq> Cic_Unknown) [''--cic'', cic_arg (cfg_force_cic b)]
     @ opt (cfg_force_tv_set b) [''--tv'', tv_arg (cfg_force_tv b)]
     @ opt (wc_headless w) [''--headless''] @ opt (ac_mute cfg) [''--mute'']
     @ opt (\<not> ac_pace_to_fps cfg) [''--no-vsync-emu''] @ opt (ac_debug cfg) [''--debug'']
     @ opt (ac_trace cfg) [''--trace'']
     @ opt (ac_trace_dump_path cfg \<noteq> []) [''--trace-dump'', ac_trace_dump_path cfg]
     @ concat (map (\<lambda>pc. [''--break'', hex_literal pc]) (ac_break_pcs cfg))
     @ [''--auto-close'', show_int (ac_auto_close_ms cfg), ''--log-level'', level_arg (ac_log_level cfg),
        ''--width'', show_int (wc_width w), ''--height'', show_int (wc_height w)])"

text \<open>What the command line can say: the fields without an option have their defaults, and an option
  that asks for the debugger has it.\<close>

definition expressible :: "app_config \<Rightarrow> bool" where
  "expressible cfg \<longleftrightarrow> (let b = ac_boot cfg; w = ac_window cfg in
     \<not> ac_pause_on_start cfg \<and> wc_title w = ''n64emu'' \<and> wc_resizable w \<and> wc_vsync w
     \<and> cfg_load_size b = 0 \<and> \<not> cfg_skip_rom_copy b \<and> cfg_reset_type b = 0
     \<and> (cfg_force_tv_set b \<or> cfg_force_tv b = NTSC)
     \<and> (ac_debug cfg \<or> \<not> ac_trace cfg \<and> ac_break_pcs cfg = [])
     \<and> (ac_trace cfg \<or> ac_trace_dump_path cfg = []))"

lemma need_Cons: "need (v # others) use = map_sum id (\<lambda>cfg. (cfg, others)) (use v)"
  by (simp add: need_def)

lemma parse_cic_arg: "c \<noteq> Cic_Unknown \<Longrightarrow> parse_cic (cic_arg c) = Inr c"
  by (cases c) (simp_all add: parse_cic_def)

lemma parse_tv_arg: "parse_tv (tv_arg t) = Inr t"
  by (cases t) (simp_all add: parse_tv_def)

lemma parse_level_arg: "parse_level (level_arg l) = l"
  by (cases l) (simp_all add: parse_level_def)

text \<open>One lemma for each option, in the form the command line is built.\<close>

lemma partial_if: "If True v = (\<lambda>_. v)" "If False v = (\<lambda>x. x)" "(\<or>) True = (\<lambda>_. True)" "(\<or>) False = (\<lambda>x. x)"
  by (auto simp: fun_eq_iff)

lemma identity_updates:
  "ac_rom_path_update (\<lambda>x. x) cfg = cfg" "ac_trace_dump_path_update (\<lambda>x. x) cfg = cfg"
  "ac_trace_update (\<lambda>x. x) cfg = cfg" "ac_debug_update (\<lambda>x. x) cfg = cfg" "ac_mute_update (\<lambda>x. x) cfg = cfg"
  "ac_pace_to_fps_update (\<lambda>x. x) cfg = cfg" "ac_break_pcs_update (\<lambda>x. x) cfg = cfg"
  "cfg_pif_rom_path_update (\<lambda>x. x) b = b" "cfg_ipl3_path_update (\<lambda>x. x) b = b"
  "cfg_force_tv_set_update (\<lambda>x. x) b = b" "cfg_force_tv_update (\<lambda>x. x) b = b"
  "cfg_force_cic_update (\<lambda>x. x) b = b" "cfg_mode_update (\<lambda>x. x) b = b" "wc_headless_update (\<lambda>x. x) w = w"
  by (cases cfg; cases b; cases w; simp)+

lemmas update_simps = partial_if identity_updates upd_boot_def upd_window_def

lemma parse_opt_value:
  "parse_loop cfg (opt p [''--rom'', v] @ rest) = parse_loop (ac_rom_path_update (\<lambda>x. if p then v else x) cfg) rest"
  "parse_loop cfg (opt p [''--pif-rom'', v] @ rest)
    = parse_loop (upd_boot (\<lambda>b. cfg_pif_rom_path_update (\<lambda>x. if p then v else x) b) cfg) rest"
  "parse_loop cfg (opt p [''--ipl3'', v] @ rest)
    = parse_loop (upd_boot (\<lambda>b. cfg_ipl3_path_update (\<lambda>x. if p then v else x) b) cfg) rest"
  "parse_loop cfg (opt p [''--trace-dump'', v] @ rest)
    = parse_loop (ac_debug_update (\<lambda>x. p \<or> x) (ac_trace_update (\<lambda>x. p \<or> x)
        (ac_trace_dump_path_update (\<lambda>x. if p then v else x) cfg))) rest"
  "parse_loop cfg (opt p [''--tv'', tv_arg t] @ rest)
    = parse_loop (upd_boot (\<lambda>b. cfg_force_tv_update (\<lambda>x. if p then t else x)
        (cfg_force_tv_set_update (\<lambda>x. p \<or> x) b)) cfg) rest"
  "parse_loop cfg (opt (c \<noteq> Cic_Unknown) [''--cic'', cic_arg c] @ rest)
    = parse_loop (upd_boot (\<lambda>b. cfg_force_cic_update (\<lambda>x. if c \<noteq> Cic_Unknown then c else x) b) cfg) rest"
  by (simp_all add: opt_def parse_option_def need_Cons parse_tv_arg parse_cic_arg update_simps)

lemma parse_opt_flag:
  "parse_loop cfg (opt p [''--lle-pif''] @ rest)
    = parse_loop (upd_boot (\<lambda>b. cfg_mode_update (\<lambda>x. if p then LlePif else x) b) cfg) rest"
  "parse_loop cfg (opt p [''--headless''] @ rest)
    = parse_loop (upd_window (\<lambda>w. wc_headless_update (\<lambda>x. p \<or> x) w) cfg) rest"
  "parse_loop cfg (opt p [''--mute''] @ rest) = parse_loop (ac_mute_update (\<lambda>x. p \<or> x) cfg) rest"
  "parse_loop cfg (opt p [''--no-vsync-emu''] @ rest)
    = parse_loop (ac_pace_to_fps_update (\<lambda>x. \<not> p \<and> x) cfg) rest"
  "parse_loop cfg (opt p [''--debug''] @ rest) = parse_loop (ac_debug_update (\<lambda>x. p \<or> x) cfg) rest"
  "parse_loop cfg (opt p [''--trace''] @ rest)
    = parse_loop (ac_debug_update (\<lambda>x. p \<or> x) (ac_trace_update (\<lambda>x. p \<or> x) cfg)) rest"
  by (simp_all add: opt_def parse_option_def update_simps)

lemma parse_numbers:
  "parse_loop cfg (''--auto-close'' # show_int i # rest) = parse_loop (cfg\<lparr>ac_auto_close_ms := i\<rparr>) rest"
  "parse_loop cfg (''--log-level'' # level_arg l # rest) = parse_loop (cfg\<lparr>ac_log_level := l\<rparr>) rest"
  "parse_loop cfg (''--width'' # show_int i # rest) = parse_loop (upd_window (\<lambda>w. w\<lparr>wc_width := i\<rparr>) cfg) rest"
  "parse_loop cfg (''--height'' # show_int i # rest) = parse_loop (upd_window (\<lambda>w. w\<lparr>wc_height := i\<rparr>) cfg) rest"
  by (simp_all add: parse_option_def need_Cons atoi_show_int parse_level_arg)

lemma parse_breaks:
  "parse_loop cfg (concat (map (\<lambda>pc. [''--break'', hex_literal pc]) pcs) @ rest)
    = parse_loop (ac_debug_update (\<lambda>x. pcs \<noteq> [] \<or> x) (ac_break_pcs_update (\<lambda>x. x @ pcs) cfg)) rest"
proof (induction pcs arbitrary: cfg)
  case (Cons pc pcs)
  have "parse_loop cfg (''--break'' # hex_literal pc # args)
      = parse_loop (cfg\<lparr>ac_break_pcs := ac_break_pcs cfg @ [pc], ac_debug := True\<rparr>) args" for args
    by (simp add: parse_option_def need_Cons strtoull_hex_literal)
  then have "parse_loop cfg (concat (map (\<lambda>pc. [''--break'', hex_literal pc]) (pc # pcs)) @ rest)
      = parse_loop (cfg\<lparr>ac_break_pcs := ac_break_pcs cfg @ [pc], ac_debug := True\<rparr>)
          (concat (map (\<lambda>pc. [''--break'', hex_literal pc]) pcs) @ rest)"
    by simp
  then show ?case unfolding Cons by (cases cfg) simp
qed (simp add: update_simps)

text \<open>C17: Every configuration the command line can express is read back from its command line: paths and
  modes, the CIC and TV types, the flags, each breakpoint as a hexadecimal literal of its 64 bits, and
  the decimal numbers with their signs.\<close>

theorem parse_args_roundtrip:
  assumes "expressible cfg"
  shows "parse_args (program # config_args cfg) = Inr cfg"
proof (cases cfg)
  case (fields win rom pause ms mute pace dbg tr dump level boot pcs)
  obtain title width height resizable vsync headless where win:
    "win = \<lparr>wc_title = title, wc_width = width, wc_height = height, wc_resizable = resizable,
       wc_vsync = vsync, wc_headless = headless\<rparr>"
    by (cases win)
  obtain md size skip cic tvset tv pifrom ipl3 rt where boot:
    "boot = \<lparr>cfg_mode = md, cfg_load_size = size, cfg_skip_rom_copy = skip, cfg_force_cic = cic,
       cfg_force_tv_set = tvset, cfg_force_tv = tv, cfg_pif_rom_path = pifrom, cfg_ipl3_path = ipl3, cfg_reset_type = rt\<rparr>"
    by (cases boot)
  have same: "(if x \<noteq> d then x else d) = x" "(if \<not> x = d then x else d) = x" for x d :: 'z by simp_all
  have md: "(if md = LlePif then LlePif else Hle) = md" by (cases md) simp_all
  have "parse_args (program # config_args cfg) = Inr
     \<lparr>ac_window = \<lparr>wc_title = ''n64emu'', wc_width = width, wc_height = height, wc_resizable = True,
        wc_vsync = True, wc_headless = headless\<rparr>, ac_rom_path = rom, ac_pause_on_start = False,
        ac_auto_close_ms = ms, ac_mute = mute, ac_pace_to_fps = pace, ac_debug = (pcs \<noteq> [] \<or> dump \<noteq> [] \<or> tr \<or> dbg),
        ac_trace = (dump \<noteq> [] \<or> tr), ac_trace_dump_path = dump, ac_log_level = level,
        ac_boot = \<lparr>cfg_mode = md, cfg_load_size = 0, cfg_skip_rom_copy = False, cfg_force_cic = cic,
          cfg_force_tv_set = tvset, cfg_force_tv = (if tvset then tv else NTSC), cfg_pif_rom_path = pifrom,
          cfg_ipl3_path = ipl3, cfg_reset_type = 0\<rparr>, ac_break_pcs = pcs\<rparr>"
    unfolding parse_args_def config_args_def Let_def drop_Suc_Cons drop_0 One_nat_def append_assoc
      parse_opt_value parse_opt_flag parse_breaks parse_numbers append_Cons append_Nil parse_loop.simps(1)
      fields win boot
    by (simp add: app_config_default_def boot_config_default_def window_config_default_def
        upd_boot_def upd_window_def same md)
  then show ?thesis
    using assms by (auto simp: fields win boot expressible_def)
qed

theorem parse_args_roundtrip_witness:
  "parse_args [''n64emu'', ''--rom'', ''a.z64'', ''--tv'', ''pal'', ''--debug'', ''--break'', ''0x80000400'',
      ''--auto-close'', ''-5'', ''--log-level'', ''info'', ''--width'', ''640'', ''--height'', ''480'']
    = Inr (app_config_default\<lparr>ac_rom_path := ''a.z64'', ac_boot := boot_config_default\<lparr>cfg_force_tv_set := True,
        cfg_force_tv := PAL\<rparr>, ac_debug := True, ac_break_pcs := [0x80000400], ac_auto_close_ms := -5\<rparr>)"
proof -
  let ?cfg = "app_config_default\<lparr>ac_rom_path := ''a.z64'', ac_boot := boot_config_default\<lparr>cfg_force_tv_set := True,
        cfg_force_tv := PAL\<rparr>, ac_debug := True, ac_break_pcs := [0x80000400], ac_auto_close_ms := -5\<rparr>"
  have n: "hex_literal 0x80000400 = ''0x80000400''" "show_int (-5) = ''-5''" "show_int 640 = ''640''" "show_int 480 = ''480''"
    by (simp_all add: hex_literal_def show_int_def show_hex.simps show_dec.simps hex_digit_def char_of_def bit_0)
  have "expressible ?cfg"
    by (simp add: expressible_def app_config_default_def boot_config_default_def window_config_default_def)
  then show ?thesis
    using parse_args_roundtrip [of ?cfg "''n64emu''"]
    by (simp add: config_args_def opt_def app_config_default_def boot_config_default_def window_config_default_def n)
qed

end
