(* ===== verification/Application.thy ===== *)
theory Application
  imports Arguments Audio_Output Framebuffer
begin

text \<open>
  The application (\<open>frontend/application.cpp\<close> \<open>Application::run\<close>, \<open>src/main.cpp\<close>): it starts the
  emulator, the window and the audio output from the configuration, then turns the host's events into
  pad state and debugger commands, runs a frame, and shows the picture. The host is a parameter: SDL's
  answers, the environment and the files. A turn of the loop takes the events SDL has and the time
  since the start in milliseconds. Not modelled: the log, the sleep that paces the frames, the opening
  of the game controller, and the audio callback, which runs between the turns (\<open>Audio_Output\<close>).
\<close>

section \<open>State\<close>

record host =
  ho_sdl :: sdl
  ho_audio :: audio_host
  ho_env :: "string \<Rightarrow> string option"
  ho_load_file :: "string \<Rightarrow> u8 list"
  ho_version :: "int \<times> int \<times> int"

record app =
  ap_emu :: emulator
  ap_gui :: "window \<times> sdl_call list"
  ap_input :: input_mapper
  ap_audio :: "audio_output \<times> audio_call list"
  ap_show_overlay :: bool
  ap_ui_frames :: u64
  ap_emu_frames :: u64
  ap_fb_rgba :: "u8 list"
  ap_trace_files :: "(string \<times> string) list"

definition project_name :: string where "project_name = ''n64emu''"

definition version_string :: "int \<times> int \<times> int \<Rightarrow> string" where
  "version_string v = (case v of (major, minor, patch) \<Rightarrow>
     show_int major @ ''.'' @ show_int minor @ ''.'' @ show_int patch)"

definition app_new :: "emulator \<Rightarrow> app" where
  "app_new e = \<lparr>ap_emu = e, ap_gui = (window_new, []), ap_input = mapper_new, ap_audio = (audio_output_new, []),
     ap_show_overlay = False, ap_ui_frames = 0, ap_emu_frames = 0, ap_fb_rgba = [], ap_trace_files = []\<rparr>"

definition upd_emu :: "(emulator \<Rightarrow> emulator) \<Rightarrow> app \<Rightarrow> app" where
  "upd_emu f a = a\<lparr>ap_emu := f (ap_emu a)\<rparr>"

definition upd_gui :: "(window \<times> sdl_call list \<Rightarrow> window \<times> sdl_call list) \<Rightarrow> app \<Rightarrow> app" where
  "upd_gui f a = a\<lparr>ap_gui := f (ap_gui a)\<rparr>"

definition upd_dbg :: "(debugger \<Rightarrow> debugger) \<Rightarrow> app \<Rightarrow> app" where
  "upd_dbg f a = upd_emu (upd_m (\<lambda>m. m\<lparr>m_dbg := f (m_dbg m)\<rparr>)) a"

abbreviation app_machine :: "app \<Rightarrow> machine" where
  "app_machine a \<equiv> e_m (ap_emu a)"

section \<open>Start\<close>

definition start_debugger :: "app_config \<Rightarrow> emulator \<Rightarrow> emulator" where
  "start_debugger cfg e0 =
    (if \<not> ac_debug cfg then e0
     else
       (let e1 = enable_debugger True e0;
            e2 = (if ac_trace cfg
              then upd_m attach_cpu_trace (upd_m (\<lambda>m. m\<lparr>m_dbg := (m_dbg m)\<lparr>dbg_trace_enabled := True\<rparr>\<rparr>) e1) else e1)
        in fold (\<lambda>pc. upd_m (\<lambda>m. m\<lparr>m_dbg := snd (add_breakpoint pc (m_dbg m))\<rparr>)) (ac_break_pcs cfg) e2))"

text \<open>The image, or the boot ROM alone; \<open>False\<close> ends the program.\<close>

definition start_emulator :: "host \<Rightarrow> app_config \<Rightarrow> emulator \<Rightarrow> bool \<times> emulator" where
  "start_emulator ho cfg e0 =
    (let e = start_debugger cfg (e0\<lparr>e_boot_cfg := ac_boot cfg\<rparr>) in
     if ac_rom_path cfg \<noteq> [] then load_rom (ho_load_file ho) (ac_rom_path cfg) e
     else if cfg_mode (ac_boot cfg) = LlePif then emu_boot (ho_load_file ho) (ac_boot cfg) e
     else (True, e))"

definition title_chars :: "cart_header \<Rightarrow> string" where
  "title_chars h = map (\<lambda>b. char_of (unat b)) (title h)"

text \<open>The title: name and version, and behind a dash the cartridge's title.\<close>

definition window_title :: "host \<Rightarrow> emulator \<Rightarrow> string" where
  "window_title ho e =
    project_name @ '' '' @ version_string (ho_version ho)
    @ (if e_booted e \<and> title (e_header e) \<noteq> []
       then '' '' @ [CHR 0xE2, CHR 0x80, CHR 0x94] @ '' '' @ title_chars (e_header e) else [])"

text \<open>The audio output; a failure is only logged.\<close>

definition start_audio :: "host \<Rightarrow> app_config \<Rightarrow> app \<Rightarrow> app" where
  "start_audio ho cfg a =
    (if ac_mute cfg then a
     else
       (let ai = m_ai (app_machine a); rate = sint (sample_rate ai)
        in a\<lparr>ap_audio := snd (audio_init (ho_audio ho) (Some ai) (if rate > 0 then rate else 32000) (ap_audio a))\<rparr>))"

definition app_start :: "host \<Rightarrow> app_config \<Rightarrow> app \<Rightarrow> int option \<times> app" where
  "app_start ho cfg a0 =
    (case start_emulator ho cfg (ap_emu a0) of (loaded, e) \<Rightarrow>
      (let a1 = a0\<lparr>ap_emu := e\<rparr> in
       if \<not> loaded then (Some 1, a1)
       else
         (case win_create (ho_sdl ho) (ho_env ho) ((ac_window cfg)\<lparr>wc_title := window_title ho e\<rparr>) (ap_gui a1) of
            (created, gui) \<Rightarrow>
              (let a2 = a1\<lparr>ap_gui := gui\<rparr> in
               if \<not> created then (Some 1, a2)
               else
                 (let a3 = start_audio ho cfg a2;
                      a4 = (if ac_debug cfg then upd_emu (upd_m attach_cpu_trace) a3 else a3)
                  in (None, a4\<lparr>ap_show_overlay := ac_debug cfg, ap_ui_frames := 0, ap_emu_frames := 0,
                        ap_fb_rgba := []\<rparr>))))))"

section \<open>Events\<close>

fun hotkey :: "keysym \<Rightarrow> app \<Rightarrow> app" where
  "hotkey SymF1 a = a\<lparr>ap_show_overlay := \<not> ap_show_overlay a\<rparr>"
| "hotkey SymF2 a = upd_dbg (\<lambda>d. if dbg_paused d then dbg_resume d else dbg_pause UserPause d) a"
| "hotkey SymF3 a = upd_dbg (request_step 1) a"
| "hotkey SymF5 a = upd_dbg dbg_resume a"
| "hotkey SymF6 a =
    upd_emu (upd_m attach_cpu_trace) (upd_dbg (\<lambda>d. d\<lparr>dbg_trace_enabled := \<not> dbg_trace_enabled d\<rparr>) a)"
| "hotkey SymF9 a =
    a\<lparr>ap_trace_files := (''trace.txt'', dump_trace_text 4096 (m_dbg (app_machine a))) # ap_trace_files a\<rparr>"
| "hotkey _ a = a"

fun app_event :: "app_config \<Rightarrow> sdl_event \<Rightarrow> app \<Rightarrow> app" where
  "app_event cfg (EvKeyDown key e) a =
    (let a1 = (if ac_debug cfg \<and> \<not> ke_repeat e then hotkey key a else a)
     in a1\<lparr>ap_input := on_key e (ap_input a1)\<rparr>)"
| "app_event cfg (EvKeyUp key e) a = a\<lparr>ap_input := on_key e (ap_input a)\<rparr>"
| "app_event cfg (EvButton b down) a = a\<lparr>ap_input := on_controller_button b down (ap_input a)\<rparr>"
| "app_event cfg (EvAxis ax v) a = a\<lparr>ap_input := on_controller_axis ax v (ap_input a)\<rparr>"
| "app_event cfg _ a = a"

text \<open>\<open>poll_events\<close> with this handler: the handler does not touch the window's own fields.\<close>

definition app_poll :: "app_config \<Rightarrow> sdl_event list \<Rightarrow> app \<Rightarrow> bool \<times> app" where
  "app_poll cfg evs a =
    (case poll_events (Some (app_event cfg)) evs (fst (ap_gui a), a) of
       (alive, w, a1) \<Rightarrow> (alive, a1\<lparr>ap_gui := (w, snd (ap_gui a1))\<rparr>))"

section \<open>A turn of the loop\<close>

text \<open>The body for a booted machine: a frame unless the debugger holds it, the audio, the picture.\<close>

definition run_machine :: "app_config \<Rightarrow> app \<Rightarrow> app" where
  "run_machine cfg a =
    (if ac_debug cfg \<and> dbg_paused (m_dbg (app_machine a)) then a
     else (case run_frame (ap_emu a) of
        (fr, e) \<Rightarrow> a\<lparr>ap_emu := e, ap_emu_frames := (if fr_vi_frame fr then ap_emu_frames a + 1 else ap_emu_frames a)\<rparr>))"

definition pump_audio :: "host \<Rightarrow> app \<Rightarrow> app" where
  "pump_audio ho a = a\<lparr>ap_audio := pump (ho_audio ho) (m_ai (app_machine a)) (ap_audio a)\<rparr>"

definition show_picture :: "host \<Rightarrow> app \<Rightarrow> app" where
  "show_picture ho a =
    (case present_framebuffer (ap_fb_rgba a) (app_machine a) of
       (shown, out, x, y) \<Rightarrow>
        (let a1 = a\<lparr>ap_fb_rgba := out\<rparr> in
         if shown \<and> x > 0 \<and> y > 0
         then upd_gui (draw_framebuffer (ho_sdl ho) out (int x) (int y)) (upd_gui (win_clear 0 0 0 255) a1)
         else upd_gui (win_clear 16 24 48 255) a1))"

definition idle_colour :: "app \<Rightarrow> app" where
  "idle_colour a =
     upd_gui (win_clear 16 (ucast (24 + (ap_ui_frames a div 2) mod 40)) (ucast (48 + ap_ui_frames a mod 80)) 255) a"

definition show_debugger :: "app_config \<Rightarrow> app \<Rightarrow> app" where
  "show_debugger cfg a =
    (if ac_debug cfg \<and> ap_show_overlay a
     then upd_gui (set_title (project_name @ '' | '' @ format_status_line (app_machine a)))
            (upd_gui (draw_overlay_text (format_overlay (app_machine a))) a)
     else a)"

definition app_turn :: "host \<Rightarrow> app_config \<Rightarrow> sdl_event list \<times> int \<Rightarrow> app \<Rightarrow> bool \<times> app" where
  "app_turn ho cfg inp a0 =
    (case app_poll cfg (fst inp) a0 of (alive, a1) \<Rightarrow>
      if \<not> alive then (False, a1)
      else
        (let a2 = upd_emu (upd_m (\<lambda>m. m\<lparr>m_pif := apply_to (ap_input a1) (m_pif m)\<rparr>)) a1;
             a3 = (if e_booted (ap_emu a2) then show_picture ho (pump_audio ho (run_machine cfg a2)) else idle_colour a2);
             a4 = upd_gui win_present (show_debugger cfg a3);
             a5 = a4\<lparr>ap_ui_frames := ap_ui_frames a4 + 1\<rparr>
         in (\<not> (ac_auto_close_ms cfg > 0 \<and> snd inp \<ge> ac_auto_close_ms cfg), a5)))"

text \<open>The loop over the turns; \<open>True\<close> when it has ended.\<close>

fun app_loop :: "host \<Rightarrow> app_config \<Rightarrow> (sdl_event list \<times> int) list \<Rightarrow> app \<Rightarrow> bool \<times> app" where
  "app_loop ho cfg [] a = (False, a)"
| "app_loop ho cfg (inp # inps) a =
    (case app_turn ho cfg inp a of (running, a1) \<Rightarrow> if running then app_loop ho cfg inps a1 else (True, a1))"

definition app_close :: "app \<Rightarrow> app" where
  "app_close a = upd_gui win_destroy (a\<lparr>ap_audio := audio_shutdown (ap_audio a)\<rparr>)"

definition app_finish :: "app_config \<Rightarrow> app \<Rightarrow> app" where
  "app_finish cfg a =
    (let a1 = (if ac_trace_dump_path cfg \<noteq> []
           then a\<lparr>ap_trace_files := (ac_trace_dump_path cfg, dump_trace_text 8192 (m_dbg (app_machine a))) # ap_trace_files a\<rparr>
           else a)
     in app_close a1)"

text \<open>\<open>run\<close>, and the destructors of the application where it returns early: the exit code, or none while
  the turns given do not end the loop.\<close>

definition app_run :: "host \<Rightarrow> app_config \<Rightarrow> (sdl_event list \<times> int) list \<Rightarrow> app \<Rightarrow> int option \<times> app" where
  "app_run ho cfg inps a0 =
    (case app_start ho cfg a0 of
       (Some code, a1) \<Rightarrow> (Some code, app_close a1)
     | (None, a1) \<Rightarrow>
        (case app_loop ho cfg inps a1 of
           (ended, a2) \<Rightarrow> if ended then (Some 0, app_finish cfg a2) else (None, a2)))"

text \<open>\<open>main\<close>: \<open>exit\<close> inside the parser runs no destructor.\<close>

definition main_program :: "host \<Rightarrow> string list \<Rightarrow> (sdl_event list \<times> int) list \<Rightarrow> app \<Rightarrow> int option \<times> app" where
  "main_program ho argv inps a =
    (case parse_args argv of Inl code \<Rightarrow> (Some code, a) | Inr cfg \<Rightarrow> app_run ho cfg inps a)"

section \<open>The machine stays good\<close>

lemma run_frame_ok: "machine_ok (e_m e) \<Longrightarrow> machine_ok (e_m (snd (run_frame e)))"
proof -
  assume ok: "machine_ok (e_m e)"
  have "machine_ok (e_m e2)" if "frame_loop limit before 0 (upd_m (\<lambda>m. m\<lparr>m_vi := v m\<rparr>) e) = (t, vi, st, e2)"
    for limit before t vi st e2 v
    using frame_loop_runs [OF _ _ that] ok by (simp add: ran_for_def upd_m_def)
  then show ?thesis
    using ok by (auto simp: run_frame_def Let_def upd_m_def push_ok split: prod.split)
qed

lemma emu_boot_ok:
  assumes "machine_ok (e_m e)" "sp_fresh (e_m e)"
  shows "machine_ok (e_m (snd (emu_boot load cfg e)))"
proof -
  let ?m = "(e_m e)\<lparr>m_cache := bc_clear (m_cache (e_m e))\<rparr>"
  have "machine_ok (snd (hle_boot_loaded load cfg ?m))"
    by (rule boot_keeps) (use assms in \<open>simp_all add: machine_ok_clear sp_fresh_def\<close>)
  then show ?thesis
    by (auto simp: emu_boot_def Let_def upd_m_def attach_ok split: prod.split)
qed

lemma load_rom_ok: "machine_ok (e_m (snd (load_rom load path e)))"
proof -
  have f: "machine_ok (e_m (fresh_hardware e))" "sp_fresh (e_m (fresh_hardware e))"
    using reset_hardware_ok by (simp_all add: fresh_hardware_def upd_m_def)
  have "machine_ok (e_m (snd (emu_boot load cfg ((fresh_hardware e)\<lparr>e_m := (e_m (fresh_hardware e))\<lparr>m_cart := c\<rparr>,
      e_rom_loaded := True, e_rom_path := path\<rparr>))))" for cfg c
    by (rule emu_boot_ok) (use f in \<open>simp_all add: sp_fresh_def\<close>)
  then show ?thesis
    using f by (auto simp: load_rom_def Let_def load_cartridge_def)
qed

text \<open>What the start of the debugger and its commands leave: they touch the debugger and whether the
  processor is traced.\<close>

definition only_debug :: "(machine \<Rightarrow> machine) \<Rightarrow> bool" where
  "only_debug f \<longleftrightarrow> (\<forall>m. (machine_ok m \<longrightarrow> machine_ok (f m)) \<and> sp_fresh (f m) = sp_fresh m)"

lemma only_debug_intros:
  "only_debug (\<lambda>m. m\<lparr>m_dbg := g m\<rparr>)" "only_debug attach_cpu_trace"
  by (simp_all add: only_debug_def attach_ok) (simp_all add: sp_fresh_def attach_cpu_trace_def upd_cpu_def)

lemma only_debug_start:
  assumes "machine_ok (e_m e)" "sp_fresh (e_m e)"
  shows "machine_ok (e_m (start_debugger cfg e)) \<and> sp_fresh (e_m (start_debugger cfg e))"
proof -
  let ?P = "\<lambda>e. machine_ok (e_m e) \<and> sp_fresh (e_m e)"
  have step: "?P (upd_m f e)" if "only_debug f" "?P e" for f e
    using that by (simp add: only_debug_def upd_m_def)
  have "?P (enable_debugger True e)"
    unfolding enable_debugger_def Let_def if_True
    by (intro step only_debug_intros) (use assms in simp_all)
  then show ?thesis
    unfolding start_debugger_def Let_def using assms
    by (auto intro!: fold_ok [where P = ?P] step only_debug_intros)
qed

lemma start_emulator_ok:
  assumes "machine_ok (e_m e)" "sp_fresh (e_m e)"
  shows "machine_ok (e_m (snd (start_emulator ho cfg e)))"
proof -
  have "machine_ok (e_m (start_debugger cfg (e\<lparr>e_boot_cfg := c\<rparr>)))" "sp_fresh (e_m (start_debugger cfg (e\<lparr>e_boot_cfg := c\<rparr>)))" for c
    using only_debug_start [of "e\<lparr>e_boot_cfg := c\<rparr>" cfg] assms by simp_all
  then show ?thesis by (simp add: start_emulator_def Let_def load_rom_ok emu_boot_ok)
qed

section \<open>The invariant of the application\<close>

definition app_ok :: "host \<Rightarrow> app \<Rightarrow> bool" where
  "app_ok ho a \<longleftrightarrow> machine_ok (app_machine a) \<and> gui_ok (ho_sdl ho) (ap_gui a)"

lemma app_ok_start:
  assumes "machine_ok (app_machine a)" "sp_fresh (app_machine a)" "gui_ok (ho_sdl ho) (ap_gui a)"
  shows "app_ok ho (snd (app_start ho cfg a))"
proof -
  obtain loaded e where e: "start_emulator ho cfg (ap_emu a) = (loaded, e)" by fastforce
  have ok: "machine_ok (e_m e)" using start_emulator_ok [OF assms(1,2), of ho cfg] by (simp add: e)
  obtain created gui where g:
    "win_create (ho_sdl ho) (ho_env ho) ((ac_window cfg)\<lparr>wc_title := window_title ho e\<rparr>) (ap_gui a) = (created, gui)"
    by (rule prod.exhaust)
  have "gui_ok (ho_sdl ho) gui" using win_create_ok [OF assms(3)] by (metis g snd_conv)
  then show ?thesis
    using ok assms(3)
    by (auto simp: app_start_def e Let_def g app_ok_def start_audio_def upd_emu_def upd_m_def attach_ok)
qed

lemma hotkey_keeps:
  "machine_ok (app_machine a) \<Longrightarrow> machine_ok (app_machine (hotkey key a))" "ap_gui (hotkey key a) = ap_gui a"
  by (cases key; simp add: upd_dbg_def upd_emu_def upd_m_def attach_ok)+

lemma app_event_keeps:
  "machine_ok (app_machine a) \<Longrightarrow> machine_ok (app_machine (app_event cfg ev a))"
  "ap_gui (app_event cfg ev a) = ap_gui a"
  by (cases ev; simp add: Let_def hotkey_keeps)+

lemma poll_machine:
  assumes "machine_ok (app_machine a)"
  shows "machine_ok (app_machine (snd (snd (poll_events (Some (app_event cfg)) evs (w, a)))))
    \<and> ap_gui (snd (snd (poll_events (Some (app_event cfg)) evs (w, a)))) = ap_gui a"
  using assms by (induction evs arbitrary: w a) (simp_all add: app_event_keeps)

lemma app_poll_ok: "app_ok ho a \<Longrightarrow> app_ok ho (snd (app_poll cfg evs a))"
  using poll_machine [of a cfg evs "fst (ap_gui a)"]
    poll_events_ok [of "ho_sdl ho" "fst (ap_gui a)" "snd (ap_gui a)" "Some (app_event cfg)" evs a]
  by (auto simp: app_poll_def app_ok_def split_beta)

lemma length_copy_pixels [simp]: "length (copy_pixels pix w h out) = length out"
proof -
  have row: "length (fold (\<lambda>x. put_pixel (d x) (p x)) xs out) = length out" for d p and xs :: "nat list" and out
    by (induction xs arbitrary: out) simp_all
  have "length (fold (\<lambda>y. fold (\<lambda>x. put_pixel ((y * w + x) * 4) (pix x y)) [0..<w]) ys out) = length out" for ys
    by (induction ys arbitrary: out) (simp_all add: row)
  then show ?thesis by (simp add: copy_pixels_def)
qed

text \<open>A picture that is shown has all its bytes.\<close>

lemma present_length:
  assumes "present_framebuffer old m = (True, out, x, y)"
  shows "4 * int x * int y \<le> int (length out)"
proof -
  have "length out = x * y * 4"
    using assms by (auto simp: present_framebuffer_def copy_framebuffer_rgba_def Let_def split: if_splits prod.splits)
  then show ?thesis by (simp add: ac_simps)
qed

lemma show_picture_ok: "app_ok ho a \<Longrightarrow> app_ok ho (show_picture ho a)"
  by (auto simp: show_picture_def Let_def app_ok_def upd_gui_def win_clear_ok present_length
      intro!: draw_framebuffer_ok split: prod.split)

lemma run_machine_ok: "app_ok ho a \<Longrightarrow> app_ok ho (run_machine cfg a)"
  using run_frame_ok [of "ap_emu a"] by (auto simp: run_machine_def app_ok_def split: prod.split)

lemma app_turn_ok:
  assumes "app_ok ho a"
  shows "app_ok ho (snd (app_turn ho cfg inp a))"
proof -
  obtain alive a1 where p: "app_poll cfg (fst inp) a = (alive, a1)" by fastforce
  have a1: "app_ok ho a1" using app_poll_ok [OF assms, of cfg "fst inp"] by (simp add: p)
  define a2 where "a2 = upd_emu (upd_m (\<lambda>m. m\<lparr>m_pif := apply_to (ap_input a1) (m_pif m)\<rparr>)) a1"
  have a2: "app_ok ho a2"
    using a1 by (simp add: a2_def app_ok_def upd_emu_def upd_m_def apply_to_def machine_ok_pif machine_ok_pif_wf
        pif_wf_set_controller)
  have "app_ok ho (pump_audio ho (run_machine cfg a2))"
    using run_machine_ok [OF a2, of cfg] by (simp add: pump_audio_def app_ok_def)
  then have shown: "app_ok ho (show_picture ho (pump_audio ho (run_machine cfg a2)))" by (rule show_picture_ok)
  have idle: "app_ok ho (idle_colour a2)" using a2 by (simp add: idle_colour_def app_ok_def upd_gui_def win_clear_ok)
  have "app_ok ho (upd_gui win_present (show_debugger cfg b))" if "app_ok ho b" for b
    using that by (simp add: show_debugger_def app_ok_def upd_gui_def win_present_ok set_title_ok draw_overlay_text_ok)
  then have "app_ok ho (upd_gui win_present (show_debugger cfg (if e_booted (ap_emu a2)
      then show_picture ho (pump_audio ho (run_machine cfg a2)) else idle_colour a2)))"
    using shown idle by simp
  then show ?thesis using a1 by (simp add: app_turn_def p Let_def a2_def [symmetric] app_ok_def)
qed

lemma app_loop_ok: "app_ok ho a \<Longrightarrow> app_ok ho (snd (app_loop ho cfg inps a))"
proof (induction inps arbitrary: a)
  case (Cons inp inps)
  then show ?case using app_turn_ok [OF Cons.prems, of cfg inp] by (auto split: prod.split)
qed simp

lemma app_close_closes:
  assumes "app_ok ho a"
  shows "app_ok ho (app_close a)" "closed (fst (ap_gui (app_close a)))"
    "\<not> active (fst (ap_audio (app_close a)))"
    "sdl_after (ho_sdl ho) (snd (ap_gui (app_close a))) = Some v
      \<Longrightarrow> \<not> lv_init v \<and> lv_window v = 0 \<and> lv_renderer v = 0 \<and> lv_texture v = 0"
  using assms win_destroy_ok [of "ho_sdl ho" "ap_gui a"] audio_shutdown_parts(3)
  by (simp_all add: app_close_def app_ok_def upd_gui_def active_def)

lemma app_finish_eq: "\<exists>files. app_finish cfg a = app_close (a\<lparr>ap_trace_files := files\<rparr>)"
proof (cases "ac_trace_dump_path cfg = []")
  case True
  then have "app_finish cfg a = app_close (a\<lparr>ap_trace_files := ap_trace_files a\<rparr>)" by (simp add: app_finish_def)
  then show ?thesis ..
qed (auto simp: app_finish_def)


section \<open>Leaving, and standing still\<close>

fun asks_to_quit :: "sdl_event \<Rightarrow> bool" where
  "asks_to_quit EvQuit \<longleftrightarrow> True"
| "asks_to_quit (EvKeyDown key _) \<longleftrightarrow> key = SymEscape"
| "asks_to_quit _ \<longleftrightarrow> False"

lemma poll_quits: "(w_quit w \<or> (\<exists>ev \<in> set evs. asks_to_quit ev)) \<Longrightarrow> \<not> fst (poll_events f evs (w, s))"
proof (induction evs arbitrary: w s)
  case (Cons ev evs)
  have "w_quit (window_event ev w) \<longleftrightarrow> w_quit w \<or> asks_to_quit ev" by (cases ev) simp_all
  then show ?case using Cons.IH Cons.prems by simp
qed simp

definition ends_turn :: "app_config \<Rightarrow> sdl_event list \<times> int \<Rightarrow> bool" where
  "ends_turn cfg inp \<longleftrightarrow> (\<exists>ev \<in> set (fst inp). asks_to_quit ev)
     \<or> ac_auto_close_ms cfg > 0 \<and> snd inp \<ge> ac_auto_close_ms cfg"

lemma app_turn_ends:
  assumes "ends_turn cfg inp"
  shows "\<not> fst (app_turn ho cfg inp b)"
proof (cases "\<exists>ev \<in> set (fst inp). asks_to_quit ev")
  case True
  then have "\<not> fst (poll_events (Some (app_event cfg)) (fst inp) (fst (ap_gui b), b))" by (simp add: poll_quits)
  then show ?thesis by (simp add: app_turn_def app_poll_def split_beta)
next
  case False
  then show ?thesis using assms by (simp add: ends_turn_def app_turn_def Let_def split_beta)
qed

lemma app_loop_ends: "\<exists>inp \<in> set inps. ends_turn cfg inp \<Longrightarrow> fst (app_loop ho cfg inps b)"
proof (induction inps arbitrary: b)
  case (Cons inp inps)
  obtain running b1 where t: "app_turn ho cfg inp b = (running, b1)" by fastforce
  show ?case
  proof (cases "ends_turn cfg inp")
    case True
    then show ?thesis using app_turn_ends [OF True, of ho b] by (simp add: t)
  next
    case False
    then show ?thesis using Cons by (simp add: t)
  qed
qed simp

text \<open>The program ends when it is asked to: if in one of the turns an event asks to quit (the window is
  closed, or Escape is pressed), or the time of \<open>--auto-close\<close> is over, the loop ends in that turn or
  an earlier one, and a run that started returns 0.\<close>

theorem quit_ends_program:
  assumes "app_start ho cfg a = (None, a1)" "\<exists>inp \<in> set inps. ends_turn cfg inp"
  shows "fst (app_run ho cfg inps a) = Some 0"
  using app_loop_ends [OF assms(2)] assms(1) by (simp add: app_run_def split_beta)

fun commands_debugger :: "sdl_event \<Rightarrow> bool" where
  "commands_debugger (EvKeyDown key e) \<longleftrightarrow> \<not> ke_repeat e \<and> key \<in> {SymF2, SymF3, SymF5, SymF6}"
| "commands_debugger _ \<longleftrightarrow> False"

lemma quiet_event: "\<not> commands_debugger ev \<Longrightarrow> ap_emu (app_event cfg ev a) = ap_emu a"
proof (induction cfg ev a rule: app_event.induct)
  case (1 cfg key e a)
  then show ?case by (cases key) (simp_all add: Let_def)
qed simp_all

lemma quiet_poll:
  "\<forall>ev \<in> set evs. \<not> commands_debugger ev \<Longrightarrow>
    ap_emu (snd (snd (poll_events (Some (app_event cfg)) evs (w, a)))) = ap_emu a"
  by (induction evs arbitrary: w a) (simp_all add: quiet_event)

text \<open>While the debugger holds the machine, a turn without a debugger command leaves it exactly as it is,
  but for the state of the pad in the PIF: looking at a stopped machine, with any drawing, sound and
  input, does not change it.\<close>

theorem paused_turn_stands_still:
  assumes "ac_debug cfg" "dbg_paused (m_dbg (app_machine a))" "\<forall>ev \<in> set evs. \<not> commands_debugger ev"
  shows "\<exists>p. ap_emu (snd (app_turn ho cfg (evs, elapsed) a))
    = (ap_emu a)\<lparr>e_m := (app_machine a)\<lparr>m_pif := p\<rparr>\<rparr>"
proof -
  obtain alive a1 where p: "app_poll cfg evs a = (alive, a1)" by fastforce
  have a1: "ap_emu a1 = ap_emu a"
    using quiet_poll [OF assms(3), of cfg "fst (ap_gui a)" a] p by (auto simp: app_poll_def split: prod.splits)
  define a2 where "a2 = upd_emu (upd_m (\<lambda>m. m\<lparr>m_pif := apply_to (ap_input a1) (m_pif m)\<rparr>)) a1"
  have a2: "ap_emu a2 = (ap_emu a)\<lparr>e_m := (app_machine a)\<lparr>m_pif := apply_to (ap_input a1) (m_pif (app_machine a))\<rparr>\<rparr>"
    by (simp add: a2_def upd_emu_def upd_m_def a1)
  have run: "run_machine cfg a2 = a2" using assms(1,2) by (simp add: run_machine_def a2)
  have pic: "ap_emu (show_picture ho b) = ap_emu b" for b
    by (simp add: show_picture_def Let_def upd_gui_def split: prod.split)
  have "ap_emu (upd_gui win_present (show_debugger cfg (if e_booted (ap_emu a2)
      then show_picture ho (pump_audio ho (run_machine cfg a2)) else idle_colour a2))) = ap_emu a2"
    by (simp add: show_debugger_def upd_gui_def run pic pump_audio_def idle_colour_def)
  then have alive: "alive \<Longrightarrow> ap_emu (snd (app_turn ho cfg (evs, elapsed) a)) = ap_emu a2"
    by (cases "e_booted (ap_emu a2)") (simp_all add: app_turn_def p Let_def a2_def [symmetric])
  show ?thesis
  proof (cases alive)
    case True
    then show ?thesis using alive a2 by auto
  next
    case False
    then have "ap_emu (snd (app_turn ho cfg (evs, elapsed) a))
        = (ap_emu a)\<lparr>e_m := (app_machine a)\<lparr>m_pif := m_pif (app_machine a)\<rparr>\<rparr>"
      by (simp add: app_turn_def p a1)
    then show ?thesis ..
  qed
qed

section \<open>Examples\<close>

definition example_host :: host where
  "example_host = \<lparr>ho_sdl = (\<lambda>calls. if hd calls = SdlInit then 0 else 7), ho_audio = (\<lambda>_. (0, 0)),
     ho_env = (\<lambda>_. None), ho_load_file = (\<lambda>_. []), ho_version = (0, 1, 0)\<rparr>"

definition example_app :: app where
  "example_app = app_new (emulator_init (machine_new [1, 2, 3, 4]))"

lemma example_starts: "fst (app_start example_host app_config_default example_app) = None"
  by (simp add: app_start_def start_emulator_def start_debugger_def app_config_default_def boot_config_default_def
      example_app_def app_new_def emulator_init_def Let_def example_host_def
      win_create_def win_destroy_def window_new_def window_config_default_def create_renderer_def
      destroy_texture_def destroy_renderer_def destroy_window_def leave_sdl_def)

theorem quit_ends_program_witness:
  "fst (app_run example_host app_config_default [([EvOther], 0), ([EvQuit], 17)] example_app) = Some 0"
proof -
  obtain a1 where "app_start example_host app_config_default example_app = (None, a1)"
    using example_starts by (metis prod.collapse)
  then show ?thesis by (rule quit_ends_program) (simp add: ends_turn_def)
qed


theorem paused_turn_stands_still_witness:
  "\<exists>p. ap_emu (snd (app_turn example_host (app_config_default\<lparr>ac_debug := True\<rparr>)
        ([EvKeyDown SymF1 \<lparr>ke_scancode = ScZ, ke_pressed = True, ke_repeat = False\<rparr>], 0)
        (upd_dbg (dbg_pause UserPause) example_app)))
    = emulator_init ((machine_new [1, 2, 3, 4])\<lparr>m_dbg := dbg_pause UserPause (m_dbg (machine_new [1, 2, 3, 4])), m_pif := p\<rparr>)"
proof -
  have "\<exists>p. ap_emu (snd (app_turn example_host (app_config_default\<lparr>ac_debug := True\<rparr>)
        ([EvKeyDown SymF1 \<lparr>ke_scancode = ScZ, ke_pressed = True, ke_repeat = False\<rparr>], 0)
        (upd_dbg (dbg_pause UserPause) example_app)))
    = (ap_emu (upd_dbg (dbg_pause UserPause) example_app))
        \<lparr>e_m := (app_machine (upd_dbg (dbg_pause UserPause) example_app))\<lparr>m_pif := p\<rparr>\<rparr>"
    by (rule paused_turn_stands_still)
      (simp_all add: upd_dbg_def upd_emu_def upd_m_def dbg_pause_def example_app_def app_new_def)
  then show ?thesis
    by (simp add: upd_dbg_def upd_emu_def upd_m_def example_app_def app_new_def emulator_init_def)
qed

end
