(* ===== verification/Spec2Isabelle.thy ===== *)
theory Spec2Isabelle
  imports Prelude Mips_Interface Scheduler Cart_Header Joybus Cpu_Core Cpu_Alu Block_Cache Video Audio
    Debugger Machine Bus_Read Rdp Devices Bus_Write Rsp_Vector Rsp_Exec Host_Float Cop1
    Cpu_Exec Block_Exec Boot Emulator Framebuffer Rdp_Commands Cpu_Insn Rsp_Insn Input Window
    Audio_Output Overlay Arguments Application
begin

text \<open>
  Verification library of an emulator of the Nintendo 64 (the C++ code under \<open>src/src\<close> and
  \<open>src/include/n64\<close>).

  \<^bold>\<open>The program.\<close> \<open>core/emulator.cpp\<close> owns one of each part and runs them in turn: the VR4300
  processor (\<open>cpu/\<close>), which reads and writes everything through the system bus (\<open>bus/bus.cpp\<close>);
  the bus sends an address to RDRAM, the cartridge, the PIF RAM, the SP memories or one of the
  memory-mapped devices (\<open>bus/mi.cpp\<close>, \<open>pi.cpp\<close>, \<open>si.cpp\<close>, \<open>ri.cpp\<close>, \<open>sp_regs.cpp\<close>,
  \<open>dp_regs.cpp\<close>, \<open>vi/vi.cpp\<close>, \<open>ai/ai.cpp\<close>); a device transfers memory, starts the RSP
  (\<open>rcp/rsp/\<close>) or the RDP (\<open>rcp/rdp/rdp.cpp\<close>), and raises an interrupt line of the MIPS interface,
  whose callback sets the external interrupt of the processor. The processor may run from a cache of
  basic blocks (\<open>cpu/block_cache.cpp\<close>), which every write to memory has to tell what it overwrote.
  Device time is batched: the cycles executed are a debt which a flush gives to the video and the
  audio interface and the event scheduler (\<open>core/scheduler.cpp\<close>). Around the emulator,
  \<open>main.cpp\<close> and \<open>frontend/\<close> parse the command line, open a window, an audio device and a game
  controller through SDL, and turn a loop: events, input to the pad, one frame, picture, sound.

  \<^bold>\<open>The model.\<close> The state of each part is a record with the members of its class, and the whole
  machine is the record \<open>machine\<close> of theory \<open>Machine\<close>, so that a call of another part through a
  pointer is an update of its field. Words have the width of the source and wrap as there; memories
  are lists (\<open>std::vector\<close>) or functions on indices (fixed arrays whose indices are masked). A raise
  of a processor exception, a failed lookup or a refused boot is a branch of the result, and
  out-of-range accesses of the PIF RAM are failures of an option. Every pointer the code tests for
  null is set by \<open>wire()\<close>, so those branches are left out; so is logging.

  \<^bold>\<open>Theories and code.\<close>
  \<^item> \<open>Prelude\<close>: byte order, stores of bytes in memories (locale \<open>byte_store\<close>), folds, words.
  \<^item> \<open>Mips_Interface\<close>, \<open>Scheduler\<close>, \<open>Video\<close>, \<open>Audio\<close>, \<open>Joybus\<close> (\<open>pif/pif.cpp\<close>), \<open>Debugger\<close>: one
    component each: registers, reset, every operation, the invariant and its behaviour. The loops of
    the video and audio ticks end because the cycle count or the bytes left fall.
  \<^item> \<open>Cart_Header\<close>: image byte orders, CRC-32, header (\<open>cart/header.cpp\<close>).
  \<^item> \<open>Cpu_Core\<close>, \<open>Cpu_Alu\<close>: COP0, TLB, exceptions, interrupts and the integer instructions.
    \<open>Host_Float\<close>, \<open>Cop1\<close>: the floating-point unit (\<open>cpu/cop1.cpp\<close>); the C++ operators under
    \<open>fesetround\<close> are correctly rounded IEEE operations with explicit mode and flags.
  \<^item> \<open>Block_Cache\<close>: the direct-mapped table with its set of aliased slots. The loop over that set has
    the length of the set as fuel, and it is proved enough.
  \<^item> \<open>Machine\<close>, \<open>Bus_Read\<close>, \<open>Devices\<close>, \<open>Bus_Write\<close>: the machine, the two halves of the bus, and the
    registers and transfers of the devices.
  \<^item> \<open>Rdp\<close>: command lists (a partial function, proved to return), texture loads, fill and texture
    rectangles. \<open>Rsp_Vector\<close>, \<open>Rsp_Exec\<close>: the vector and the scalar unit of the RSP and its step.
  \<^item> \<open>Cpu_Exec\<close>: fetch, loads and stores, the dispatch, \<open>step\<close>, the block loop and \<open>run\<close>;
    \<open>Block_Exec\<close>: the properties that relate the block cache, memory and the step.
  \<^item> \<open>Boot\<close> (\<open>pif/boot.cpp\<close>) and \<open>Emulator\<close> (\<open>core/emulator.cpp\<close>, \<open>core/timing.hpp\<close>): boot, reset,
    loading, time, and the three ways to run.
  \<^item> \<open>Framebuffer\<close>: the picture of a frame, its reference path and the two fast paths (\<open>vi/vi.cpp\<close>).
  \<^item> \<open>Cpu_Insn\<close> (\<open>cpu/insn.hpp\<close>), \<open>Rsp_Insn\<close> (\<open>rcp/rsp/insn.hpp\<close>), \<open>Rdp_Commands\<close>
    (\<open>rcp/rdp/commands.hpp\<close>): the encoders, each against the executor or decoder of its words.
  \<^item> \<open>Input\<close>, \<open>Window\<close>, \<open>Audio_Output\<close> (\<open>frontend/\<close>): keys, buttons and axes to the pad; the life of
    the SDL objects and what is drawn; the audio device and its callback. A call of SDL is recorded
    in a list, newest first, and what SDL answers is a parameter.
  \<^item> \<open>Overlay\<close> (\<open>debug/debugger.cpp\<close>): the debugger's texts, with the buffers of \<open>snprintf\<close>.
  \<^item> \<open>Arguments\<close>, \<open>Application\<close> (\<open>frontend/application.cpp\<close>, \<open>main.cpp\<close>): the command line with the
    exit codes, start, hotkeys, the turn of the loop, and the whole program up to its exit code. The
    loop may run forever, so it is given the input of its turns as a list: a statement holds for
    every list, and says whether the loop ended within it.

  \<^bold>\<open>What is shown.\<close> Each component: its invariant (\<open>cpu_wf\<close>, \<open>bc_wf\<close>, \<open>pif_wf\<close>, the queue's) is kept
  by every operation, and its operations do what they promise on every branch. Across components:
  \<open>machine_ok\<close> (the parts' invariants, the interrupt line of the processor equal to the level of the
  MIPS interface, the two copies of the SP memories and the halt, break and interrupt bits of the SP
  in step) is kept by every bus write, every RSP instruction, every processor instruction, every
  run, boot and frame, whatever the program does; nothing can bring the machine to a state where the
  model, or the code, has no answer. The block cache stays coherent with RDRAM across stores and
  compilations, and a coherent block runs exactly as its instructions would one by one. Running
  returns: lists, runs, frames and runs to a limit end, within the counts they report. An image
  loaded and booted is in memory, byte for byte, with the processor at its entry point. What the
  encoders write is what the executors run, the fast paths of the picture equal the reference one,
  the pad holds what is held on the host, no SDL object is used before it is made or after it is
  destroyed, every text of the debugger fits its buffer, and the whole program, from its command
  line on, keeps the invariant of the machine in every turn.

  \<^bold>\<open>Parameters.\<close> The bytes of a file (\<open>load_file\<close>), none when it cannot be read; the processor's trace
  callback in \<open>Cpu_Exec\<close>, which \<open>Emulator\<close> sets to the debugger's; the host of the frontend: what
  SDL answers, the events it delivers, the files it can open. Lemmas on a parameterised run ask
  of the callback that it keeps the invariant, and the debugger's does.

  \<^bold>\<open>Not modelled.\<close> Logging and the usage text: they only write to the console. The sleep that paces
  the loop: time is no part of the state. Opening and closing the game controller device: calls of
  SDL with no state of the program's own. The mutexes of the debugger and the atomics of the audio
  ring: threads are steps, one producer or one consumer at a time, which is the order the ring's
  counters allow. Accessors that return a member are the fields of the records.
\<close>

end
